(* ===== verification/Prelude.thy ===== *)
theory Prelude
  imports Main "HOL-Library.Word"
begin

text \<open>
  Prelude of the development: the machine types of the C code, the outcome of a memory
  access that may leave its block, C strings and the scanning loops over them, C integer
  division, and the generic lemmas the component theories share.
\<close>

unbundle bit_operations_syntax

section \<open>Machine types\<close>

type_synonym byte = "8 word"
type_synonym u32 = "32 word"
type_synonym u64 = "64 word"

text \<open>The byte a character is and the character a byte is.\<close>

definition byte_of :: "char \<Rightarrow> byte" where
  "byte_of c = of_nat (of_char c)"

definition chr_of :: "byte \<Rightarrow> char" where
  "chr_of b = char_of (unat b)"

section \<open>Memory accesses\<close>

text \<open>
  A C statement that reads or writes a block has a defined effect only inside the block:
  \<open>UB\<close> is an access outside it (undefined behaviour), \<open>Val x\<close> a defined result.
\<close>

datatype 'a mem = UB | Val 'a

definition mem_bind :: "'a mem \<Rightarrow> ('a \<Rightarrow> 'b mem) \<Rightarrow> 'b mem" where
  "mem_bind m f = (case m of UB \<Rightarrow> UB | Val x \<Rightarrow> f x)"

text \<open>Reading the first \<open>n\<close> bytes of a block, and writing \<open>s\<close> at an offset of it.\<close>

definition blk_read :: "'a list \<Rightarrow> nat \<Rightarrow> 'a list mem" where
  "blk_read b n = (if n \<le> length b then Val (take n b) else UB)"

definition blk_write :: "'a list \<Rightarrow> nat \<Rightarrow> 'a list \<Rightarrow> 'a list mem" where
  "blk_write b off s =
     (if off + length s \<le> length b then Val (take off b @ s @ drop (off + length s) b) else UB)"

named_theorems mem_simps

lemma mem_bind_simps [simp, mem_simps]:
  "mem_bind UB f = UB" "mem_bind (Val x) f = f x"
  by (simp_all add: mem_bind_def)

lemma mem_bind_Val [simp]: "mem_bind x Val = x"
  by (cases x) simp_all

lemma mem_bind_eq_Val: "mem_bind m f = Val x \<longleftrightarrow> (\<exists>y. m = Val y \<and> f y = Val x)"
  by (cases m) simp_all

lemma mem_bind_cong:
  "m = m' \<Longrightarrow> (\<And>x. m' = Val x \<Longrightarrow> f x = f' x) \<Longrightarrow> mem_bind m f = mem_bind m' f'"
  by (cases m') simp_all

text \<open>What holds of the result where there is no undefined behaviour.\<close>

definition mem_post :: "'a mem \<Rightarrow> ('a \<Rightarrow> bool) \<Rightarrow> bool" where
  "mem_post m P \<longleftrightarrow> (case m of UB \<Rightarrow> True | Val x \<Rightarrow> P x)"

lemma mem_post_simps [simp]:
  "mem_post UB P" "mem_post (Val x) P = P x" "mem_post (mem_bind m f) P = mem_post m (\<lambda>x. mem_post (f x) P)"
  by (cases m; simp add: mem_post_def)+

lemma mem_post_D: "mem_post m P \<Longrightarrow> m = Val x \<Longrightarrow> P x"
  by simp

lemma mem_postI: "(\<And>x. m = Val x \<Longrightarrow> P x) \<Longrightarrow> mem_post m P"
  by (cases m) simp_all

lemma mem_post_mono: "mem_post m Q \<Longrightarrow> (\<And>x. Q x \<Longrightarrow> P x) \<Longrightarrow> mem_post m P"
  by (cases m) simp_all

lemma blk_read_ok [mem_simps]: "n \<le> length b \<Longrightarrow> blk_read b n = Val (take n b)"
  by (simp add: blk_read_def)

lemma blk_write_ok [mem_simps]:
  "off + length s \<le> length b \<Longrightarrow>
   blk_write b off s = Val (take off b @ s @ drop (off + length s) b)"
  by (simp add: blk_write_def)

lemma blk_write_length: "blk_write b off s = Val b' \<Longrightarrow> length b' = length b"
  by (auto simp: blk_write_def split: if_splits)

section \<open>C strings\<close>

text \<open>
  A \<open>char*\<close> argument is the list of the bytes it points to; the byte after the list is the
  terminating NUL. \<open>cstr\<close> is the string a \<open>str\<close> function sees, \<open>cat s i\<close> is \<open>s[i]\<close>.
\<close>

definition NUL :: char where
  "NUL = CHR 0x00"

definition cstr :: "string \<Rightarrow> string" where
  "cstr s = takeWhile (\<lambda>c. c \<noteq> NUL) s"

definition strlen :: "string \<Rightarrow> nat" where
  "strlen s = length (cstr s)"

definition cat :: "string \<Rightarrow> nat \<Rightarrow> char" where
  "cat s i = (if i < length s then s ! i else NUL)"

lemma cat_simps [simp]: "cat (x # xs) 0 = x" "cat (x # xs) (Suc n) = cat xs n" "cat [] n = NUL"
  by (simp_all add: cat_def)

lemma cat_Cons_numeral [simp]: "cat (x # xs) (numeral k) = cat xs (pred_numeral k)"
  by (simp add: numeral_eq_Suc)

lemma strlen_le: "strlen s \<le> length s"
  by (simp add: strlen_def cstr_def length_takeWhile_le)

lemma cstr_no_NUL [simp]: "NUL \<notin> set s \<Longrightarrow> cstr s = s"
  unfolding cstr_def by (induction s) auto

lemma NUL_notin_cstr [simp]: "NUL \<notin> set (cstr s)"
  unfolding cstr_def by (metis (mono_tags, lifting) set_takeWhileD)

lemma take_strlen: "take (strlen s) s = cstr s"
  unfolding strlen_def cstr_def by (metis takeWhile_eq_take)

text \<open>ASCII case folding as \<open>strncasecmp\<close> does it, and the comparisons of \<open>string.h\<close>.\<close>

definition lower_c :: "char \<Rightarrow> char" where
  "lower_c c = (if 65 \<le> (of_char c :: nat) \<and> (of_char c :: nat) \<le> 90
                then char_of ((of_char c :: nat) + 32) else c)"

text \<open>\<open>0 == strncmp(a, b, n)\<close> and \<open>0 == strncasecmp(a, b, n)\<close>: at most \<open>n\<close> bytes, and
  nothing after a NUL, is compared.\<close>

fun strncmp_eq :: "string \<Rightarrow> string \<Rightarrow> nat \<Rightarrow> bool" where
  "strncmp_eq a b 0 = True"
| "strncmp_eq a b (Suc n) =
     (if cat a 0 \<noteq> cat b 0 then False
      else if cat a 0 = NUL then True
      else strncmp_eq (drop 1 a) (drop 1 b) n)"

fun strncasecmp_eq :: "string \<Rightarrow> string \<Rightarrow> nat \<Rightarrow> bool" where
  "strncasecmp_eq a b 0 = True"
| "strncasecmp_eq a b (Suc n) =
     (if lower_c (cat a 0) \<noteq> lower_c (cat b 0) then False
      else if cat a 0 = NUL then True
      else strncasecmp_eq (drop 1 a) (drop 1 b) n)"

text \<open>Lists of segments and the string they make with a separator between them.\<close>

fun join_rest :: "char \<Rightarrow> string list \<Rightarrow> string" where
  "join_rest d [] = []"
| "join_rest d (s # ss) = d # s @ join_rest d ss"

fun join_with :: "char \<Rightarrow> string list \<Rightarrow> string" where
  "join_with d [] = []"
| "join_with d (s # ss) = s @ join_rest d ss"

text \<open>A 256 entry character table, given by a function of the character code.\<close>

lemma table_lookup: "tab = map f [0..<256] \<Longrightarrow> tab ! of_char c = f (of_char c :: nat)"
  using nat_of_char_less_256 [of c] by simp

lemma upt_256: "[0..<256] = 0 # 1 # [2..<256]"
proof -
  have "[0..<n] = 0 # 1 # [2..<n]" if "1 < n" for n
    using that by (simp add: upt_conv_Cons [of 0] upt_conv_Cons [of "Suc 0"] numeral_2_eq_2)
  from this [of 256] show ?thesis by (simp del: upt_rec_numeral)
qed

lemma upt_64: "[0..<64] = 0 # 1 # [2..<64]"
proof -
  have "[0..<n] = 0 # 1 # [2..<n]" if "1 < n" for n
    using that by (simp add: upt_conv_Cons [of 0] upt_conv_Cons [of "Suc 0"] numeral_2_eq_2)
  from this [of 64] show ?thesis by (simp del: upt_rec_numeral)
qed

lemma replicate_numeral: "replicate (numeral k) x = x # replicate (pred_numeral k) x"
  by (simp add: numeral_eq_Suc)

lemma find_SomeD: "find P xs = Some x \<Longrightarrow> P x \<and> x \<in> set xs"
  by (induction xs) (auto split: if_splits)

text \<open>\<open>NULL != strstr(hay, needle)\<close>, and the \<open>n\<close> bytes that \<open>strncpy\<close> writes.\<close>

fun has_sub :: "string \<Rightarrow> string \<Rightarrow> bool" where
  "has_sub needle [] = (needle = [])"
| "has_sub needle (c # cs) = (take (length needle) (c # cs) = needle \<or> has_sub needle cs)"

definition strncpy_str :: "string \<Rightarrow> nat \<Rightarrow> string" where
  "strncpy_str s n = cstr (take n s) @ replicate (n - strlen (take n s)) NUL"

lemma strncpy_str_plain: "n \<le> length s \<Longrightarrow> NUL \<notin> set (take n s) \<Longrightarrow> strncpy_str s n = take n s"
  by (simp add: strncpy_str_def strlen_def)

lemma has_sub_append: "has_sub n (a @ n @ b)"
proof (induction a)
  case Nil
  have "take (length n) (n @ b) = n" by simp
  then show ?case by (cases "n @ b") auto
qed simp

lemma has_sub_iff: "has_sub n h \<longleftrightarrow> (\<exists>a b. h = a @ n @ b)"
proof
  show "has_sub n h \<Longrightarrow> \<exists>a b. h = a @ n @ b"
  proof (induction h)
    case (Cons c cs)
    then consider "take (length n) (c # cs) = n" | "has_sub n cs" by auto
    then show ?case
    proof cases
      case 1
      then have "c # cs = [] @ n @ drop (length n) (c # cs)" by (metis append_Nil append_take_drop_id)
      then show ?thesis by blast
    next
      case 2
      with Cons.IH obtain a b where "cs = a @ n @ b" by blast
      then have "c # cs = (c # a) @ n @ b" by simp
      then show ?thesis by blast
    qed
  qed simp
qed (auto simp: has_sub_append)

lemma mask_bound: "(m :: u64) = mask n \<Longrightarrow> unat (m AND x) < 2 ^ n"
  by (metis and.commute take_bit_eq_mask take_bit_nat_less_exp unsigned_take_bit_eq)

lemma unat_small: "n < 2 ^ LENGTH('a) \<Longrightarrow> unat (of_nat n :: 'a :: len word) = n"
  by (simp add: unsigned_of_nat take_bit_nat_eq_self)

lemma strncasecmp_eq_map:
  "NUL \<notin> set a \<Longrightarrow> NUL \<notin> set b \<Longrightarrow> length b = n \<Longrightarrow> length a = n \<Longrightarrow> strncasecmp_eq a b n = (map lower_c a = map lower_c b)"
proof (induction n arbitrary: a b)
  case (Suc n)
  then obtain x a' y b' where "a = x # a'" "b = y # b'" "length a' = n" "length b' = n" by (metis length_Suc_conv)
  with Suc show ?case by auto
qed simp

section \<open>Decimal numbers\<close>

text \<open>What \<open>%d\<close>, \<open>%ld\<close> and the like print.\<close>

fun dec_str :: "nat \<Rightarrow> string" where
  "dec_str n = (if n < 10 then [char_of (48 + n)] else dec_str (n div 10) @ [char_of (48 + n mod 10)])"

declare dec_str.simps [simp del]

definition int_str :: "int \<Rightarrow> string" where
  "int_str i = (if i < 0 then CHR ''-'' # dec_str (nat (- i)) else dec_str (nat i))"

definition is_digit :: "char \<Rightarrow> bool" where
  "is_digit c \<longleftrightarrow> 48 \<le> (of_char c :: nat) \<and> (of_char c :: nat) \<le> 57"

definition digit_val :: "char \<Rightarrow> nat" where
  "digit_val c = of_char c - 48"

lemma dec_digit: "d < 10 \<Longrightarrow> is_digit (char_of (48 + d :: nat)) \<and> digit_val (char_of (48 + d)) = d"
  by (simp add: is_digit_def digit_val_def)

lemma dec_str_digits: "dec_str n \<noteq> [] \<and> (\<forall>c \<in> set (dec_str n). is_digit c)"
proof (induction n rule: dec_str.induct)
  case (1 n)
  show ?case
  proof (cases "n < 10")
    case True
    then show ?thesis using dec_digit [of n] by (subst (1 2) dec_str.simps) simp
  next
    case False
    then show ?thesis using 1 dec_digit [of "n mod 10"] by (subst (1 2) dec_str.simps) auto
  qed
qed

lemma dec_str_val: "foldl (\<lambda>a c. a * 10 + digit_val c) 0 (dec_str n) = n"
proof (induction n rule: dec_str.induct)
  case (1 n)
  show ?case
  proof (cases "n < 10")
    case True
    then show ?thesis using dec_digit [of n] by (subst dec_str.simps) simp
  next
    case False
    then show ?thesis using 1 dec_digit [of "n mod 10"] by (subst dec_str.simps) simp
  qed
qed

lemma dec_str_length: "n < 10 ^ k \<Longrightarrow> 0 < k \<Longrightarrow> length (dec_str n) \<le> k"
proof (induction n arbitrary: k rule: dec_str.induct)
  case (1 n)
  show ?case
  proof (cases "n < 10")
    case True
    then show ?thesis using 1 by (subst dec_str.simps) simp
  next
    case False
    then obtain j where j: "k = Suc j" "0 < j" using 1(2,3) by (cases k; cases "k - 1") auto
    then have "n div 10 < 10 ^ j" using 1(2) by (simp add: div_less_iff_less_mult mult.commute)
    then show ?thesis using 1(1) [OF False _ j(2)] False j by (subst dec_str.simps) simp
  qed
qed

text \<open>
  \<open>strtol\<close> and \<open>strtoul\<close> with base 10: white space, a sign, digits. The second component is the
  number of bytes up to \<open>endptr\<close>, 0 where there are no digits. Out of range values saturate.
\<close>

definition c_isspace :: "char \<Rightarrow> bool" where
  "c_isspace c \<longleftrightarrow> (of_char c :: nat) = 32 \<or> 9 \<le> (of_char c :: nat) \<and> (of_char c :: nat) \<le> 13"

definition dec_val :: "string \<Rightarrow> nat" where
  "dec_val s = foldl (\<lambda>a c. a * 10 + digit_val c) 0 s"

definition scan_num :: "string \<Rightarrow> (bool \<times> nat \<times> nat) option" where
  "scan_num s =
    (let ws = takeWhile c_isspace s; r = drop (length ws) s;
         sg = (if cat r 0 = CHR ''-'' \<or> cat r 0 = CHR ''+'' then 1 else 0);
         ds = takeWhile is_digit (drop sg r)
     in if ds = [] then None else Some (cat r 0 = CHR ''-'', dec_val ds, length ws + sg + length ds))"

definition c_strtoul :: "string \<Rightarrow> u64 \<times> nat" where
  "c_strtoul s = (case scan_num s of None \<Rightarrow> (0, 0)
     | Some (neg, v, n) \<Rightarrow> (if 2 ^ 64 \<le> v then - 1 else if neg then - of_nat v else of_nat v, n))"

definition c_strtol :: "string \<Rightarrow> int \<times> nat" where
  "c_strtol s = (case scan_num s of None \<Rightarrow> (0, 0)
     | Some (neg, v, n) \<Rightarrow> (if neg then max (- (2 ^ 63)) (- int v) else min (2 ^ 63 - 1) (int v), n))"

lemma scan_dec: "d = [] \<or> \<not> is_digit (hd d) \<Longrightarrow> scan_num (dec_str n @ d) = Some (False, n, length (dec_str n))"
proof -
  assume d: "d = [] \<or> \<not> is_digit (hd d)"
  obtain c cs where c: "dec_str n = c # cs" "is_digit c" using dec_str_digits [of n] by (cases "dec_str n") auto
  have "\<not> c_isspace c" "c \<noteq> CHR ''-''" "c \<noteq> CHR ''+''" using c(2) by (auto simp: is_digit_def c_isspace_def)
  moreover have "takeWhile is_digit (dec_str n @ d) = dec_str n"
    using d dec_str_digits [of n] by (cases d) (simp_all add: takeWhile_append)
  ultimately show ?thesis using c(1) dec_str_val [of n] by (simp add: scan_num_def dec_val_def Let_def)
qed

section \<open>Integer division of C\<close>

text \<open>Division of signed integers truncates towards zero.\<close>

definition c_div :: "int \<Rightarrow> int \<Rightarrow> int" where
  "c_div a b = sgn a * sgn b * (\<bar>a\<bar> div \<bar>b\<bar>)"

lemma c_div_pos [simp]: "0 \<le> a \<Longrightarrow> 0 < b \<Longrightarrow> c_div a b = a div b"
  by (cases "a = 0") (auto simp: c_div_def)

lemma c_div_neg: "a < 0 \<Longrightarrow> 0 < b \<Longrightarrow> c_div a b = - ((- a) div b)"
  by (auto simp: c_div_def)

end
