(* ===== verification/Text.thy ===== *)
theory Text
  imports Prelude
begin

text \<open>
  The growable text buffer of \<open>ext/agoo/text.c\<close>. The buffer is modelled with its allocated
  bytes, so that every \<open>memcpy\<close> and \<open>memmove\<close> is an access that stays in the block or is
  \<open>UB\<close>. The allocator is a parameter: \<open>mal n\<close> is \<open>None\<close> where \<open>malloc(n)\<close> returns NULL and
  otherwise the (arbitrary) contents of a fresh block.
\<close>

section \<open>The buffer\<close>

record agoo_text =
  tlen :: nat
  talen :: nat
  tref :: int
  tbin :: bool
  tbuf :: string

definition AGOO_TEXT_MIN_SIZE :: nat where
  "AGOO_TEXT_MIN_SIZE = 8"

type_synonym allocator = "nat \<Rightarrow> string option"

text \<open>What \<open>malloc\<close> promises: a block it returns has the size asked for.\<close>

definition malloc_ok :: "allocator \<Rightarrow> bool" where
  "malloc_ok mal \<longleftrightarrow> (\<forall>n b. mal n = Some b \<longrightarrow> length b = n)"

definition realloc_blk :: "allocator \<Rightarrow> string \<Rightarrow> nat \<Rightarrow> string option" where
  "realloc_blk mal old n = (case mal n of None \<Rightarrow> None | Some g \<Rightarrow> Some (take n old @ drop (length old) g))"

text \<open>The length argument: not positive means \<open>strlen\<close>.\<close>

definition arg_len :: "string \<Rightarrow> int \<Rightarrow> nat" where
  "arg_len s len = (if 0 \<ge> len then strlen s else nat len)"

definition agoo_text_create :: "allocator \<Rightarrow> string \<Rightarrow> nat \<Rightarrow> agoo_text option mem" where
  "agoo_text_create mal str len =
    (let alen = (if AGOO_TEXT_MIN_SIZE \<le> len then len else AGOO_TEXT_MIN_SIZE)
     in case mal (AGOO_TEXT_MIN_SIZE + alen + 1) of
          None \<Rightarrow> Val None
        | Some b \<Rightarrow>
            mem_bind (blk_read str len) (\<lambda>src.
            mem_bind (blk_write b 0 src) (\<lambda>b.
            mem_bind (blk_write b len [NUL]) (\<lambda>b.
              Val (Some \<lparr>tlen = len, talen = alen, tref = 0, tbin = False, tbuf = b\<rparr>)))))"

definition agoo_text_dup :: "allocator \<Rightarrow> agoo_text option \<Rightarrow> agoo_text option mem" where
  "agoo_text_dup mal t0 =
    (case t0 of
       None \<Rightarrow> Val None
     | Some t0 \<Rightarrow>
         (case mal (talen t0 + 1) of
            None \<Rightarrow> Val None
          | Some b \<Rightarrow>
              mem_bind (blk_read (tbuf t0) (tlen t0 + 1)) (\<lambda>src.
              mem_bind (blk_write b 0 src) (\<lambda>b.
                Val (Some \<lparr>tlen = tlen t0, talen = talen t0, tref = 0, tbin = False, tbuf = b\<rparr>)))))"

definition agoo_text_allocate :: "allocator \<Rightarrow> nat \<Rightarrow> agoo_text option mem" where
  "agoo_text_allocate mal len =
    (let alen = (if AGOO_TEXT_MIN_SIZE \<le> len then len else AGOO_TEXT_MIN_SIZE)
     in case mal (AGOO_TEXT_MIN_SIZE + alen + 1) of
          None \<Rightarrow> Val None
        | Some b \<Rightarrow>
            mem_bind (blk_write b 0 [NUL]) (\<lambda>b.
              Val (Some \<lparr>tlen = 0, talen = alen, tref = 0, tbin = False, tbuf = b\<rparr>)))"

definition agoo_text_ref :: "agoo_text \<Rightarrow> agoo_text" where
  "agoo_text_ref t = t\<lparr>tref := tref t + 1\<rparr>"

text \<open>\<open>None\<close>: the text is freed.\<close>

definition agoo_text_release :: "agoo_text \<Rightarrow> agoo_text option" where
  "agoo_text_release t = (if 1 \<ge> tref t then None else Some (t\<lparr>tref := tref t - 1\<rparr>))"

text \<open>The growth step shared by the append functions; \<open>None\<close> when \<open>realloc\<close> fails.\<close>

definition text_grow :: "allocator \<Rightarrow> agoo_text \<Rightarrow> nat \<Rightarrow> agoo_text option" where
  "text_grow mal t n =
    (if talen t \<le> tlen t + n then
       let new_len = talen t + n + talen t div 2
       in case realloc_blk mal (tbuf t) (new_len + 1) of
            None \<Rightarrow> None
          | Some b \<Rightarrow> Some (t\<lparr>talen := new_len, tbuf := b\<rparr>)
     else Some t)"

definition agoo_text_append :: "allocator \<Rightarrow> agoo_text option \<Rightarrow> string \<Rightarrow> int \<Rightarrow> agoo_text option mem" where
  "agoo_text_append mal t s len =
    (case t of
       None \<Rightarrow> Val None
     | Some t \<Rightarrow>
         let n = arg_len s len
         in case text_grow mal t n of
              None \<Rightarrow> Val None
            | Some t \<Rightarrow>
                mem_bind (blk_read s n) (\<lambda>src.
                mem_bind (blk_write (tbuf t) (tlen t) src) (\<lambda>b.
                mem_bind (blk_write b (tlen t + n) [NUL]) (\<lambda>b.
                  Val (Some (t\<lparr>tlen := tlen t + n, tbuf := b\<rparr>))))))"

definition agoo_text_append_char :: "allocator \<Rightarrow> agoo_text option \<Rightarrow> char \<Rightarrow> agoo_text option mem" where
  "agoo_text_append_char mal t c =
    (case t of
       None \<Rightarrow> Val None
     | Some t \<Rightarrow>
         (case text_grow mal t 1 of
            None \<Rightarrow> Val None
          | Some t \<Rightarrow>
              mem_bind (blk_write (tbuf t) (tlen t) [c]) (\<lambda>b.
              mem_bind (blk_write b (tlen t + 1) [NUL]) (\<lambda>b.
                Val (Some (t\<lparr>tlen := tlen t + 1, tbuf := b\<rparr>))))))"

definition agoo_text_prepend :: "allocator \<Rightarrow> agoo_text option \<Rightarrow> string \<Rightarrow> int \<Rightarrow> agoo_text option mem" where
  "agoo_text_prepend mal t s len =
    (case t of
       None \<Rightarrow> Val None
     | Some t \<Rightarrow>
         let n = arg_len s len
         in case text_grow mal t n of
              None \<Rightarrow> Val None
            | Some t \<Rightarrow>
                mem_bind (blk_read (tbuf t) (tlen t + 1)) (\<lambda>old.
                mem_bind (blk_write (tbuf t) n old) (\<lambda>b.
                mem_bind (blk_read s n) (\<lambda>src.
                mem_bind (blk_write b 0 src) (\<lambda>b.
                  Val (Some (t\<lparr>tlen := tlen t + n, tbuf := b\<rparr>)))))))"

definition agoo_text_reset :: "agoo_text \<Rightarrow> agoo_text" where
  "agoo_text_reset t = t\<lparr>tlen := 0\<rparr>"

section \<open>JSON escaping\<close>

definition hex_chars :: string where
  "hex_chars = ''0123456789abcdef''"

definition json_chars :: string where
  "json_chars =
     ''66666666222622666666666666666666'' @
     ''11211111111111111111111111111111'' @
     ''11111111111111111111111111112111'' @
     ''11111111111111111111111111111111'' @
     ''11111111111111111111111111111111'' @
     ''11111111111111111111111111111111'' @
     ''11111111111111111111111111111111'' @
     ''11111111111111111111111111111111''"

definition json_class :: "char \<Rightarrow> char" where
  "json_class c = json_chars ! of_char c"

definition json_size :: "string \<Rightarrow> nat" where
  "json_size s = sum_list (map (\<lambda>c. of_char (json_class c)) s) - length s * of_char (CHR ''0'')"

definition dump_hex :: "char \<Rightarrow> string" where
  "dump_hex c = [hex_chars ! (of_char c div 16 mod 16), hex_chars ! (of_char c mod 16)]"

text \<open>What the loop of \<open>agoo_text_append_json\<close> writes for one character.\<close>

definition json_esc :: "char \<Rightarrow> string" where
  "json_esc c =
    (if json_class c = CHR ''1'' then [c]
     else if json_class c = CHR ''2'' then
       [CHR 0x5C,
        if c = CHR 0x5C then CHR 0x5C
        else if c = CHR 0x08 then CHR ''b''
        else if c = CHR 0x09 then CHR ''t''
        else if c = CHR 0x0A then CHR ''n''
        else if c = CHR 0x0C then CHR ''f''
        else if c = CHR 0x0D then CHR ''r''
        else c]
     else if json_class c = CHR ''6'' then [CHR 0x5C, CHR ''u'', CHR ''0'', CHR ''0''] @ dump_hex c
     else [])"

definition agoo_text_append_json ::
  "allocator \<Rightarrow> agoo_text option \<Rightarrow> string \<Rightarrow> int \<Rightarrow> agoo_text option mem" where
  "agoo_text_append_json mal t s len =
    (case t of
       None \<Rightarrow> Val None
     | Some t \<Rightarrow>
         let n = arg_len s len
         in mem_bind (blk_read s n) (\<lambda>src.
            let jlen = json_size src
            in case text_grow mal t jlen of
                 None \<Rightarrow> Val None
               | Some t \<Rightarrow>
                   mem_bind (if jlen = n then blk_write (tbuf t) (tlen t) src
                             else blk_write (tbuf t) (tlen t) (concat (map json_esc src))) (\<lambda>b.
                   mem_bind (blk_write b (tlen t + jlen) [NUL]) (\<lambda>b.
                     Val (Some (t\<lparr>tlen := tlen t + jlen, tbuf := b\<rparr>))))))"

section \<open>Well-formed texts\<close>

definition text_ok :: "agoo_text \<Rightarrow> bool" where
  "text_ok t \<longleftrightarrow> tlen t \<le> talen t \<and> talen t + 1 \<le> length (tbuf t)"

definition content :: "agoo_text \<Rightarrow> string" where
  "content t = take (tlen t) (tbuf t)"

text \<open>The text is a C string: a NUL follows its contents.\<close>

definition terminated :: "agoo_text \<Rightarrow> bool" where
  "terminated t \<longleftrightarrow> tlen t < length (tbuf t) \<and> tbuf t ! tlen t = NUL"

lemma length_content [simp]: "text_ok t \<Longrightarrow> length (content t) = tlen t"
  by (simp add: text_ok_def content_def)

lemma text_ok_ref [simp]: "text_ok (agoo_text_ref t) = text_ok t"
  by (simp add: text_ok_def agoo_text_ref_def)

lemma content_ref [simp]: "content (agoo_text_ref t) = content t"
  by (simp add: content_def agoo_text_ref_def)

lemma text_grow_ok:
  assumes "malloc_ok mal" "text_ok t" "text_grow mal t n = Some t'"
  shows "text_ok t'" "content t' = content t" "tlen t' = tlen t" "tlen t + n \<le> talen t'"
    "tref t' = tref t" "tbin t' = tbin t" "terminated t \<Longrightarrow> terminated t'"
  using assms
  by (auto simp: text_grow_def realloc_blk_def text_ok_def content_def terminated_def malloc_ok_def Let_def nth_append
      split: if_splits option.splits)

lemma text_written:
  assumes "text_ok t" "tlen t + length s \<le> talen t"
  shows "\<exists>b b'. blk_write (tbuf t) (tlen t) s = Val b \<and> blk_write b (tlen t + length s) [NUL] = Val b' \<and>
     length b' = length (tbuf t) \<and> take (tlen t + length s) b' = content t @ s \<and> b' ! (tlen t + length s) = NUL"
proof -
  let ?b = "take (tlen t) (tbuf t) @ s @ drop (tlen t + length s) (tbuf t)"
  have b: "blk_write (tbuf t) (tlen t) s = Val ?b"
    using assms by (simp add: blk_write_ok text_ok_def)
  have l: "length ?b = length (tbuf t)" using assms by (auto simp: text_ok_def)
  have "blk_write ?b (tlen t + length s) [NUL] = Val (take (tlen t + length s) ?b @ [NUL] @ drop (tlen t + length s + 1) ?b)"
    by (subst blk_write_ok) (use assms l in \<open>auto simp: text_ok_def\<close>)
  moreover have "take (tlen t + length s) ?b = content t @ s"
    using assms by (simp add: content_def text_ok_def)
  ultimately show ?thesis using b l assms by (auto simp: nth_append text_ok_def content_def)
qed

section \<open>The operations\<close>

text \<open>
  The outcome of an append of \<open>s\<close> to \<open>t\<close>: NULL, and only because the allocator refused the
  larger block, or a well-formed terminated text that holds the old contents and \<open>s\<close>.
\<close>

definition refused :: "allocator \<Rightarrow> agoo_text \<Rightarrow> nat \<Rightarrow> bool" where
  "refused mal t n \<longleftrightarrow> talen t \<le> tlen t + n \<and> mal (talen t + n + talen t div 2 + 1) = None"

definition appended :: "allocator \<Rightarrow> agoo_text \<Rightarrow> string \<Rightarrow> agoo_text option mem \<Rightarrow> bool" where
  "appended mal t s r \<longleftrightarrow>
     (if refused mal t (length s) then r = Val None
      else \<exists>t'. r = Val (Some t') \<and> text_ok t' \<and> terminated t' \<and> content t' = content t @ s \<and>
             tref t' = tref t \<and> tbin t' = tbin t)"

lemma text_grow_None: "text_grow mal t n = None \<longleftrightarrow> refused mal t n"
  by (auto simp: text_grow_def realloc_blk_def refused_def Let_def split: option.splits)

lemma text_put_ok:
  assumes "malloc_ok mal" "text_ok t" "text_grow mal t (length s) = Some t1"
  shows "appended mal t s (mem_bind (blk_write (tbuf t1) (tlen t1) s) (\<lambda>b.
           mem_bind (blk_write b (tlen t1 + length s) [NUL]) (\<lambda>b.
             Val (Some (t1\<lparr>tlen := tlen t1 + length s, tbuf := b\<rparr>)))))"
proof -
  note g = text_grow_ok [OF assms]
  have n: "tlen t1 + length s \<le> talen t1" using g(3,4) by simp
  obtain b b' where w: "blk_write (tbuf t1) (tlen t1) s = Val b" "blk_write b (tlen t1 + length s) [NUL] = Val b'"
    "length b' = length (tbuf t1)" "take (tlen t1 + length s) b' = content t1 @ s" "b' ! (tlen t1 + length s) = NUL"
    using text_written [OF g(1) n] by blast
  have "\<not> refused mal t (length s)" using assms(3) text_grow_None [of mal t "length s"] by auto
  moreover have "text_ok (t1\<lparr>tlen := tlen t1 + length s, tbuf := b'\<rparr>)"
    using g(1) n w(3) by (simp add: text_ok_def)
  ultimately show ?thesis using g n w by (simp add: appended_def content_def terminated_def text_ok_def)
qed

lemma text_append_ok_len:
  assumes "malloc_ok mal" "text_ok t" "arg_len s len \<le> length s"
  shows "appended mal t (take (arg_len s len) s) (agoo_text_append mal (Some t) s len)"
proof (cases "text_grow mal t (arg_len s len)")
  case None
  then have "refused mal t (arg_len s len)" using text_grow_None by blast
  with None assms(3) show ?thesis by (simp add: appended_def agoo_text_append_def Let_def min_def)
next
  case (Some t1)
  have l: "length (take (arg_len s len) s) = arg_len s len" using assms(3) by simp
  show ?thesis
    using text_put_ok [of mal t "take (arg_len s len) s" t1] assms Some
    unfolding l by (simp add: agoo_text_append_def Let_def blk_read_ok)
qed

text \<open>
  C13. Appending is memory safe and correct: for a well-formed text, and a source block of at
  least the length asked for, no access leaves its block, and the result is NULL exactly when
  a larger block was needed and refused; otherwise the bytes are appended, the text stays
  well formed and NUL terminated and keeps its reference count.
\<close>

theorem text_append_ok:
  assumes "malloc_ok mal" "text_ok t" "arg_len s len \<le> length s"
  shows "appended mal t (take (arg_len s len) s) (agoo_text_append mal (Some t) s len)"
  using assms by (rule text_append_ok_len)

text \<open>A zero-filling allocator, and a text of three bytes, for concrete runs.\<close>

definition mal0 :: allocator where
  "mal0 n = Some (replicate n NUL)"

definition abc_text :: agoo_text where
  "abc_text = \<lparr>tlen = 3, talen = 8, tref = 1, tbin = False, tbuf = ''abc'' @ replicate 6 NUL\<rparr>"

lemma mal0_ok: "malloc_ok mal0"
  by (simp add: malloc_ok_def mal0_def)

lemma abc_text_ok: "text_ok abc_text" "terminated abc_text"
  by (simp_all add: text_ok_def terminated_def abc_text_def NUL_def)

lemma text_append_ok_witness:
  "appended mal0 abc_text ''defgh'' (agoo_text_append mal0 (Some abc_text) ''defghi'' 5)"
  using text_append_ok [of mal0 abc_text "''defghi''" 5] by (simp add: mal0_ok abc_text_ok arg_len_def eval_nat_numeral)

lemma text_append_char_ok:
  assumes "malloc_ok mal" "text_ok t"
  shows "appended mal t [c] (agoo_text_append_char mal (Some t) c)"
proof (cases "text_grow mal t 1")
  case None
  then have "refused mal t 1" using text_grow_None by blast
  with None show ?thesis by (simp add: appended_def agoo_text_append_char_def)
next
  case (Some t1)
  then show ?thesis using text_put_ok [of mal t "[c]" t1] assms by (simp add: agoo_text_append_char_def)
qed

text \<open>The size table agrees with what the loop writes, for all 256 characters.\<close>

lemma json_chars_tab:
  "json_chars = map (\<lambda>n. if n < 32 then (if n \<in> {8, 9, 10, 12, 13} then CHR ''2'' else CHR ''6'')
     else if n \<in> {34, 92} then CHR ''2'' else CHR ''1'') [0..<256]"
  by (simp add: json_chars_def upt_256 upt_rec_numeral)

lemma json_class_eq:
  "json_class c = (let n = of_char c :: nat in
     if n < 32 then (if n \<in> {8, 9, 10, 12, 13} then CHR ''2'' else CHR ''6'')
     else if n \<in> {34, 92} then CHR ''2'' else CHR ''1'')"
  unfolding json_class_def Let_def by (rule table_lookup [OF json_chars_tab])

lemma json_class_cases: "json_class c = CHR ''1'' \<or> json_class c = CHR ''2'' \<or> json_class c = CHR ''6''"
  by (simp add: json_class_eq Let_def)

lemma json_class_size: "of_char (json_class c) = of_char (CHR ''0'') + length (json_esc c)"
  using json_class_cases [of c] by (auto simp: json_esc_def dump_hex_def)

lemma json_size_eq: "json_size s = length (concat (map json_esc s))"
proof -
  have "sum_list (map (\<lambda>c. of_char (json_class c)) s) = length s * of_char (CHR ''0'') + length (concat (map json_esc s))"
    by (induction s) (simp_all add: json_class_size)
  then show ?thesis by (simp add: json_size_def)
qed

lemma json_esc_nonempty: "json_esc c \<noteq> []"
  using json_class_cases [of c] by (auto simp: json_esc_def)

lemma json_esc_single: "length (json_esc c) = 1 \<Longrightarrow> json_esc c = [c]"
  using json_class_cases [of c] by (auto simp: json_esc_def dump_hex_def)

lemma json_esc_grows: "length s \<le> length (concat (map json_esc s))"
proof (induction s)
  case (Cons c s)
  have "Suc 0 \<le> length (json_esc c)" using json_esc_nonempty [of c] by (cases "json_esc c") simp_all
  with Cons show ?case by simp
qed simp

text \<open>The plain copy is taken only where escaping would change nothing.\<close>

lemma json_copy: "json_size s = length s \<Longrightarrow> concat (map json_esc s) = s"
proof (induction s)
  case (Cons c s)
  have "Suc 0 \<le> length (json_esc c)" using json_esc_nonempty [of c] by (cases "json_esc c") simp_all
  moreover have "length (json_esc c) + length (concat (map json_esc s)) = Suc (length s)"
    using Cons.prems by (simp add: json_size_eq)
  ultimately have "length (json_esc c) = 1" "json_size s = length s"
    unfolding json_size_eq using json_esc_grows [of s] by linarith+
  with Cons.IH json_esc_single show ?case by simp
qed simp

lemma text_append_json_len:
  assumes "malloc_ok mal" "text_ok t" "arg_len s len \<le> length s"
  shows "appended mal t (concat (map json_esc (take (arg_len s len) s))) (agoo_text_append_json mal (Some t) s len)"
proof -
  define src where "src = take (arg_len s len) s"
  have r: "blk_read s (arg_len s len) = Val src" and l: "length src = arg_len s len"
    using assms(3) by (simp_all add: src_def blk_read_ok)
  have w: "(if json_size src = arg_len s len then blk_write b k src else blk_write b k (concat (map json_esc src)))
      = blk_write b k (concat (map json_esc src))" for b k
    using json_copy [of src] l by simp
  show ?thesis
  proof (cases "text_grow mal t (json_size src)")
    case None
    then have "refused mal t (length (concat (map json_esc src)))"
      using text_grow_None json_size_eq [of src] by metis
    with None show ?thesis by (simp add: appended_def agoo_text_append_json_def Let_def r src_def [symmetric])
  next
    case (Some t1)
    then have "text_grow mal t (length (concat (map json_esc src))) = Some t1" by (simp only: json_size_eq)
    from text_put_ok [OF assms(1,2) this, folded json_size_eq]
    show ?thesis unfolding src_def [symmetric]
      by (simp only: agoo_text_append_json_def Let_def r w Some option.case mem_bind_simps)
  qed
qed

text \<open>
  Appending a string as JSON computes the size of the escaped text exactly, so no write
  leaves the block it reserved, and what is appended is the escaping of every character, also
  when the whole string is copied because nothing in it needs an escape.
\<close>

theorem text_append_json_ok:
  assumes "malloc_ok mal" "text_ok t" "arg_len s len \<le> length s"
  shows "appended mal t (concat (map json_esc (take (arg_len s len) s))) (agoo_text_append_json mal (Some t) s len)"
  using assms by (rule text_append_json_len)

lemma text_append_json_ok_witness:
  "appended mal0 abc_text [CHR ''a'', CHR 0x5C, CHR ''n'', CHR 0x5C, CHR 0x22]
     (agoo_text_append_json mal0 (Some abc_text) [CHR ''a'', CHR 0x0A, CHR 0x22] 3)"
  using text_append_json_ok [of mal0 abc_text "[CHR ''a'', CHR 0x0A, CHR 0x22]" 3]
  by (simp add: mal0_ok abc_text_ok arg_len_def json_esc_def json_class_eq)

lemma text_prepend_ok_len:
  assumes "malloc_ok mal" "text_ok t" "terminated t" "arg_len s len \<le> length s"
  shows "if refused mal t (arg_len s len) then agoo_text_prepend mal (Some t) s len = Val None
    else \<exists>t'. agoo_text_prepend mal (Some t) s len = Val (Some t') \<and> text_ok t' \<and> terminated t' \<and>
      content t' = take (arg_len s len) s @ content t \<and> tref t' = tref t"
proof (cases "text_grow mal t (arg_len s len)")
  case None
  then have "refused mal t (arg_len s len)" using text_grow_None by blast
  with None show ?thesis by (simp add: agoo_text_prepend_def Let_def)
next
  case (Some t1)
  define n where "n = arg_len s len"
  have n: "n \<le> length s" using assms(4) by (simp add: n_def)
  note g = text_grow_ok [OF assms(1,2) Some, folded n_def]
  have len: "n + tlen t1 + 1 \<le> length (tbuf t1)" using g(1,3,4) by (simp add: text_ok_def)
  define old where "old = take (tlen t1 + 1) (tbuf t1)"
  have old: "old = content t1 @ [NUL]"
    using g(7) [OF assms(3)] len by (simp add: old_def content_def terminated_def take_Suc_conv_app_nth)
  have lo: "length old = tlen t1 + 1" using len by (simp add: old_def)
  define b1 where "b1 = take n (tbuf t1) @ old @ drop (n + length old) (tbuf t1)"
  have w1: "blk_write (tbuf t1) n old = Val b1" using len lo by (simp add: b1_def blk_write_ok)
  have lb1: "length b1 = length (tbuf t1)" using len lo by (simp add: b1_def)
  define b2 where "b2 = take n s @ drop n b1"
  have w2: "blk_write b1 0 (take n s) = Val b2" using n len lb1 by (simp add: b2_def blk_write_ok)
  have r: "agoo_text_prepend mal (Some t) s len = Val (Some (t1\<lparr>tlen := tlen t1 + n, tbuf := b2\<rparr>))"
    using Some n len w1 w2
    by (simp add: agoo_text_prepend_def Let_def n_def [symmetric] blk_read_ok old_def)
  have d: "drop n b1 = content t1 @ NUL # drop (n + length old) (tbuf t1)"
    using len by (simp add: b1_def old)
  have "take (tlen t1 + n) b2 = take n s @ content t1"
    using n g(1) by (simp add: b2_def d)
  moreover have "b2 ! (tlen t1 + n) = NUL" using n g(1) by (simp add: b2_def d nth_append)
  moreover have "length b2 = length (tbuf t1)" using n lb1 len by (simp add: b2_def)
  moreover have "\<not> refused mal t n" using Some text_grow_None by (metis n_def option.distinct(1))
  ultimately show ?thesis
    using g len unfolding n_def [symmetric] r
    by (simp add: text_ok_def terminated_def content_def)
qed

text \<open>
  Prepending is memory safe and correct: the terminated text is moved up inside the block
  and the new bytes are written in front of it.
\<close>

theorem text_prepend_ok:
  assumes "malloc_ok mal" "text_ok t" "terminated t" "arg_len s len \<le> length s"
  shows "if refused mal t (arg_len s len) then agoo_text_prepend mal (Some t) s len = Val None
    else \<exists>t'. agoo_text_prepend mal (Some t) s len = Val (Some t') \<and> text_ok t' \<and> terminated t' \<and>
      content t' = take (arg_len s len) s @ content t \<and> tref t' = tref t"
  using assms by (rule text_prepend_ok_len)

lemma text_prepend_ok_witness:
  "\<exists>t'. agoo_text_prepend mal0 (Some abc_text) ''0123456'' (-1) = Val (Some t') \<and> content t' = ''0123456abc''"
proof -
  have "content abc_text = ''abc''" by (simp add: content_def abc_text_def)
  then show ?thesis
    using text_prepend_ok [of mal0 abc_text "''0123456''" "-1"]
    by (auto simp: mal0_ok abc_text_ok arg_len_def strlen_def cstr_def NUL_def refused_def mal0_def)
qed

lemma text_create_ok:
  assumes "malloc_ok mal" "len \<le> length str" "agoo_text_create mal str len \<noteq> Val None"
  shows "\<exists>t. agoo_text_create mal str len = Val (Some t) \<and> text_ok t \<and> terminated t \<and> content t = take len str \<and> tref t = 0"
proof -
  obtain b where b: "mal (AGOO_TEXT_MIN_SIZE + (if AGOO_TEXT_MIN_SIZE \<le> len then len else AGOO_TEXT_MIN_SIZE) + 1) = Some b"
    using assms(3) by (auto simp: agoo_text_create_def Let_def split: option.splits)
  then have "length b = AGOO_TEXT_MIN_SIZE + (if AGOO_TEXT_MIN_SIZE \<le> len then len else AGOO_TEXT_MIN_SIZE) + 1"
    using assms(1) unfolding malloc_ok_def by blast
  then show ?thesis using assms(2) b
    by (auto simp: agoo_text_create_def Let_def AGOO_TEXT_MIN_SIZE_def blk_read_ok blk_write_ok
        text_ok_def terminated_def content_def nth_append min_def split: if_splits)
qed

lemma text_allocate_ok:
  assumes "malloc_ok mal" "agoo_text_allocate mal len \<noteq> Val None"
  shows "\<exists>t. agoo_text_allocate mal len = Val (Some t) \<and> text_ok t \<and> terminated t \<and> content t = [] \<and> tref t = 0 \<and> len \<le> talen t"
proof -
  obtain b where b: "mal (AGOO_TEXT_MIN_SIZE + (if AGOO_TEXT_MIN_SIZE \<le> len then len else AGOO_TEXT_MIN_SIZE) + 1) = Some b"
    using assms(2) by (auto simp: agoo_text_allocate_def Let_def split: option.splits)
  then have "length b = AGOO_TEXT_MIN_SIZE + (if AGOO_TEXT_MIN_SIZE \<le> len then len else AGOO_TEXT_MIN_SIZE) + 1"
    using assms(1) unfolding malloc_ok_def by blast
  then show ?thesis using b
    by (auto simp: agoo_text_allocate_def Let_def AGOO_TEXT_MIN_SIZE_def blk_write_ok
        text_ok_def terminated_def content_def split: if_splits)
qed

lemma text_dup_ok:
  assumes "malloc_ok mal" "text_ok t" "agoo_text_dup mal (Some t) \<noteq> Val None"
  shows "\<exists>t'. agoo_text_dup mal (Some t) = Val (Some t') \<and> text_ok t' \<and> content t' = content t \<and> tref t' = 0 \<and>
     (terminated t \<longrightarrow> terminated t')"
proof -
  obtain b where b: "mal (talen t + 1) = Some b"
    using assms(3) by (auto simp: agoo_text_dup_def split: option.splits)
  then have "length b = talen t + 1" using assms(1) unfolding malloc_ok_def by blast
  then show ?thesis using assms(2) b
    by (auto simp: agoo_text_dup_def blk_read_ok blk_write_ok text_ok_def terminated_def content_def nth_append)
qed

end
