(* ===== verification/Base64.thy ===== *)
theory Base64
  imports Prelude
begin

text \<open>
  The base64 codec of \<open>ext/agoo/base64.c\<close>, with its two character tables. An encoded text is
  a C string, so \<open>b64_from\<close> reads until a character that is no digit, at the latest the NUL.
\<close>

section \<open>The codec\<close>

definition digits :: string where
  "digits = ''ABCDEFGHIJKLMNOPQRSTUVWXYZabcdefghijklmnopqrstuvwxyz0123456789+/''"

definition s_digits :: "byte list" where
  "s_digits =
     replicate 43 0x58 @ [0x3E, 0x58, 0x58, 0x58, 0x3F] @
     [0x34, 0x35, 0x36, 0x37, 0x38, 0x39, 0x3A, 0x3B, 0x3C, 0x3D] @ replicate 7 0x58 @
     [0x00, 0x01, 0x02, 0x03, 0x04, 0x05, 0x06, 0x07, 0x08, 0x09, 0x0A, 0x0B, 0x0C, 0x0D, 0x0E,
      0x0F, 0x10, 0x11, 0x12, 0x13, 0x14, 0x15, 0x16, 0x17, 0x18, 0x19] @ replicate 6 0x58 @
     [0x1A, 0x1B, 0x1C, 0x1D, 0x1E, 0x1F, 0x20, 0x21, 0x22, 0x23, 0x24, 0x25, 0x26, 0x27, 0x28,
      0x29, 0x2A, 0x2B, 0x2C, 0x2D, 0x2E, 0x2F, 0x30, 0x31, 0x32, 0x33] @ replicate 133 0x58"

definition digit :: "byte \<Rightarrow> char" where
  "digit b = digits ! unat b"

definition s_digit :: "char \<Rightarrow> byte" where
  "s_digit c = s_digits ! of_char c"

fun b64_to :: "byte list \<Rightarrow> string" where
  "b64_to (b1 # b2 # b3 # src) =
     digit (drop_bit 2 b1)
     # digit (push_bit 4 (b1 AND 0x03) OR drop_bit 4 b2)
     # digit (push_bit 2 (b2 AND 0x0F) OR drop_bit 6 b3)
     # digit (b3 AND 0x3F) # b64_to src"
| "b64_to [b1] = [digit (drop_bit 2 b1), digit (push_bit 4 (b1 AND 0x03)), CHR ''='', CHR ''='']"
| "b64_to [b1, b2] =
     [digit (drop_bit 2 b1), digit (push_bit 4 (b1 AND 0x03) OR drop_bit 4 b2),
      digit (push_bit 2 (b2 AND 0x0F)), CHR ''='']"
| "b64_to [] = []"

definition b64_size :: "nat \<Rightarrow> nat" where
  "b64_size len = (len + 2) div 3 * 4"

text \<open>The second look at a padding character reads \<open>text[-1]\<close> where the text is one byte.\<close>

definition b64_orig_size :: "string \<Rightarrow> u64 mem" where
  "b64_orig_size text =
    (if cat text 0 = NUL then Val 0
     else let n = strlen text; size = of_nat (n * 3 div 4)
          in if text ! (n - 1) = CHR ''='' then
               (if n = 1 then UB
                else Val (if text ! (n - 2) = CHR ''='' then size - 1 - 1 else size - 1))
             else Val size)"

lemma s_digits_length: "length s_digits = 256"
  by (simp add: s_digits_def)

lemma s_digit_NUL [simp]: "s_digit NUL = 0x58"
  by (simp add: s_digit_def s_digits_def NUL_def nth_append)

function b64_from :: "string \<Rightarrow> byte list" where
  "b64_from b64 =
    (let b0 = s_digit (cat b64 0) in
     if b0 = 0x58 then [] else
     let b1 = s_digit (cat b64 1) in
     if b1 = 0x58 then [] else
     (push_bit 2 b0 OR (drop_bit 4 b1 AND 0x03)) #
     (let b2 = s_digit (cat b64 2) in
      if b2 = 0x58 then [] else
      (push_bit 4 b1 OR (drop_bit 2 b2 AND 0x0F)) #
      (let b3 = s_digit (cat b64 3) in
       if b3 = 0x58 then [] else
       (push_bit 6 b2 OR b3) # b64_from (drop 4 b64))))"
  by auto
termination
proof (relation "measure length", goal_cases)
  case (2 b64)
  then have "b64 \<noteq> []" by (auto simp: cat_def)
  then show ?case by simp
qed simp

declare b64_from.simps [simp del]

section \<open>Decoding inverts encoding\<close>

lemma digits_codes:
  "map of_char digits = map (\<lambda>n. if n < 26 then n + 65 else if n < 52 then n + 71 else if n < 62 then n - 4
     else if n = 62 then 43 else 47 :: nat) [0..<64]"
  by (simp add: digits_def upt_64 upt_rec_numeral)

lemma digits_length: "length digits = 64"
  by (simp add: digits_def)

lemma s_digits_tab:
  "s_digits = map (\<lambda>n. if 65 \<le> n \<and> n < 91 then of_nat (n - 65) else if 97 \<le> n \<and> n < 123 then of_nat (n - 71)
     else if 48 \<le> n \<and> n < 58 then of_nat (n + 4) else if n = 43 then 62 else if n = 47 then 63 else 0x58) [0..<256]"
  by (simp add: s_digits_def upt_256 upt_rec_numeral replicate_numeral)

lemma digits_inverse:
  assumes "n < 64"
  shows "s_digits ! of_char (digits ! n) = of_nat n" "digits ! n \<noteq> CHR ''=''" "digits ! n \<noteq> NUL"
proof -
  have d: "of_char (digits ! n) = (if n < 26 then n + 65 else if n < 52 then n + 71 else if n < 62 then n - 4
     else if n = 62 then 43 else 47 :: nat)"
    using arg_cong [OF digits_codes, of "\<lambda>l. l ! n"] assms by (simp add: digits_length)
  show "s_digits ! of_char (digits ! n) = of_nat n"
    unfolding table_lookup [OF s_digits_tab] unfolding d using assms by (cases "n = 63"; cases "n = 62") auto
  have "of_char (digits ! n) \<noteq> (61 :: nat)" "of_char (digits ! n) \<noteq> (0 :: nat)"
    unfolding d using assms by auto
  then show "digits ! n \<noteq> CHR ''=''" "digits ! n \<noteq> NUL" by (auto simp: NUL_def)
qed

lemma s_digit_digit:
  assumes "b < 64"
  shows "s_digit (digit b) = b" "digit b \<noteq> CHR ''=''" "digit b \<noteq> NUL" "b \<noteq> 0x58"
proof -
  have "unat b < 64" using assms by (simp add: word_less_nat_alt)
  from digits_inverse [OF this]
  show "s_digit (digit b) = b" "digit b \<noteq> CHR ''=''" "digit b \<noteq> NUL" by (simp_all add: digit_def s_digit_def)
  show "b \<noteq> 0x58" using assms by auto
qed

lemma s_digit_pad: "s_digit CHR ''='' = 0x58"
  by code_simp

lemma digit_bits:
  fixes a b c :: byte
  shows "push_bit 2 (drop_bit 2 a) OR (drop_bit 4 (push_bit 4 (a AND 0x03) OR drop_bit 4 b) AND 0x03) = a"
    "push_bit 2 (drop_bit 2 a) OR (drop_bit 4 (push_bit 4 (a AND 0x03)) AND 0x03) = a"
    "push_bit 4 (push_bit 4 (a AND 0x03) OR drop_bit 4 b) OR (drop_bit 2 (push_bit 2 (b AND 0x0F) OR drop_bit 6 c) AND 0x0F) = b"
    "push_bit 4 (push_bit 4 (a AND 0x03) OR drop_bit 4 b) OR (drop_bit 2 (push_bit 2 (b AND 0x0F)) AND 0x0F) = b"
    "push_bit 6 (push_bit 2 (b AND 0x0F) OR drop_bit 6 c) OR (c AND 0x3F) = c"
proof -
  have bits: "n = 0 \<or> n = 1 \<or> n = 2 \<or> n = 3 \<or> n = 4 \<or> n = 5 \<or> n = 6 \<or> n = 7" if "n < LENGTH(8)" for n
    using that by (simp, linarith)
  show "push_bit 2 (drop_bit 2 a) OR (drop_bit 4 (push_bit 4 (a AND 0x03) OR drop_bit 4 b) AND 0x03) = a"
    by (rule bit_word_eqI) (drule bits, auto simp: bit_simps, (simp_all add: numeral_2_eq_2 numeral_3_eq_3)?)
  show "push_bit 2 (drop_bit 2 a) OR (drop_bit 4 (push_bit 4 (a AND 0x03)) AND 0x03) = a"
    by (rule bit_word_eqI) (drule bits, auto simp: bit_simps, (simp_all add: numeral_2_eq_2 numeral_3_eq_3)?)
  show "push_bit 4 (push_bit 4 (a AND 0x03) OR drop_bit 4 b) OR (drop_bit 2 (push_bit 2 (b AND 0x0F) OR drop_bit 6 c) AND 0x0F) = b"
    by (rule bit_word_eqI) (drule bits, auto simp: bit_simps, (simp_all add: numeral_2_eq_2 numeral_3_eq_3)?)
  show "push_bit 4 (push_bit 4 (a AND 0x03) OR drop_bit 4 b) OR (drop_bit 2 (push_bit 2 (b AND 0x0F)) AND 0x0F) = b"
    by (rule bit_word_eqI) (drule bits, auto simp: bit_simps, (simp_all add: numeral_2_eq_2 numeral_3_eq_3)?)
  show "push_bit 6 (push_bit 2 (b AND 0x0F) OR drop_bit 6 c) OR (c AND 0x3F) = c"
    by (rule bit_word_eqI) (drule bits, auto simp: bit_simps, (simp_all add: numeral_2_eq_2 numeral_3_eq_3)?)
qed


lemma digit_bounds:
  fixes a b c :: byte
  shows "drop_bit 2 a < 64" "push_bit 4 (a AND 0x03) OR drop_bit 4 b < 64" "push_bit 4 (a AND 0x03) < 64"
    "push_bit 2 (b AND 0x0F) OR drop_bit 6 c < 64" "push_bit 2 (b AND 0x0F) < 64" "c AND 0x3F < 64"
proof -
  have bits: "n = 0 \<or> n = 1 \<or> n = 2 \<or> n = 3 \<or> n = 4 \<or> n = 5 \<or> n = 6 \<or> n = 7" if "n < LENGTH(8)" for n
    using that by (simp, linarith)
  have lt: "x < 64" if "take_bit 6 x = x" for x :: byte
  proof -
    have "unat x = take_bit 6 (unat x)" using that by (metis unsigned_take_bit_eq)
    then show ?thesis using take_bit_nat_less_exp [of 6 "unat x"] by (simp add: word_less_nat_alt)
  qed
  show "drop_bit 2 a < 64"
    by (rule lt, rule bit_word_eqI) (drule bits, auto simp: bit_simps dest: bit_imp_le_length)
  show "push_bit 4 (a AND 0x03) OR drop_bit 4 b < 64"
    by (rule lt, rule bit_word_eqI) (drule bits, auto simp: bit_simps dest: bit_imp_le_length)
  show "push_bit 4 (a AND 0x03) < 64"
    by (rule lt, rule bit_word_eqI) (drule bits, auto simp: bit_simps dest: bit_imp_le_length)
  show "push_bit 2 (b AND 0x0F) OR drop_bit 6 c < 64"
    by (rule lt, rule bit_word_eqI) (drule bits, auto simp: bit_simps dest: bit_imp_le_length)
  show "push_bit 2 (b AND 0x0F) < 64"
    by (rule lt, rule bit_word_eqI) (drule bits, auto simp: bit_simps dest: bit_imp_le_length)
  show "c AND 0x3F < 64"
    by (rule lt, rule bit_word_eqI) (drule bits, auto simp: bit_simps dest: bit_imp_le_length)
qed

lemmas digit_simps = digit_bounds s_digit_digit s_digit_pad digit_bits

lemma b64_from_nil: "b64_from [] = []"
  by (simp add: b64_from.simps)

lemma b64_from_4:
  assumes "s_digit c0 = x0" "s_digit c1 = x1" "s_digit c2 = x2" "s_digit c3 = x3"
    "x0 \<noteq> 0x58" "x1 \<noteq> 0x58" "x2 \<noteq> 0x58" "x3 \<noteq> 0x58"
  shows "b64_from (c0 # c1 # c2 # c3 # cs) =
    (push_bit 2 x0 OR (drop_bit 4 x1 AND 0x03)) # (push_bit 4 x1 OR (drop_bit 2 x2 AND 0x0F)) #
    (push_bit 6 x2 OR x3) # b64_from cs"
  using assms by (subst b64_from.simps) (simp add: Let_def)

lemma b64_from_pad:
  assumes "s_digit c0 = x0" "s_digit c1 = x1" "x0 \<noteq> 0x58" "x1 \<noteq> 0x58"
  shows "b64_from (c0 # c1 # CHR ''='' # cs) = [push_bit 2 x0 OR (drop_bit 4 x1 AND 0x03)]"
    "s_digit c2 = x2 \<Longrightarrow> x2 \<noteq> 0x58 \<Longrightarrow> b64_from (c0 # c1 # c2 # CHR ''='' # cs) =
      [push_bit 2 x0 OR (drop_bit 4 x1 AND 0x03), push_bit 4 x1 OR (drop_bit 2 x2 AND 0x0F)]"
  using assms by (subst b64_from.simps, simp add: Let_def s_digit_pad)+

lemma b64_decode: "b64_from (b64_to src) = src"
proof (induction src rule: b64_to.induct)
  case (1 b1 b2 b3 src)
  show ?case
    unfolding b64_to.simps
    by (subst b64_from_4 [OF s_digit_digit(1) s_digit_digit(1) s_digit_digit(1) s_digit_digit(1)])
      (rule digit_bounds s_digit_digit(4) | simp only: 1 digit_bits)+
next
  case (2 b1)
  show ?case
    unfolding b64_to.simps
    by (subst b64_from_pad(1) [OF s_digit_digit(1) s_digit_digit(1)])
      (rule digit_bounds s_digit_digit(4) | simp only: digit_bits)+
next
  case (3 b1 b2)
  show ?case
    unfolding b64_to.simps
    by (subst b64_from_pad(2) [OF s_digit_digit(1) s_digit_digit(1) _ _ s_digit_digit(1)])
      (rule digit_bounds s_digit_digit(4) | simp only: digit_bits)+
qed (simp add: b64_from_nil)

lemma b64_to_length: "length (b64_to src) = b64_size (length src)"
proof (induction src rule: b64_to.induct)
  case (1 b1 b2 b3 src)
  have "(n + 3 + 2) div 3 = (n + 2) div 3 + 1" for n :: nat by presburger
  from this [of "length src"] 1 show ?case by (simp add: b64_size_def add.commute)
qed (simp_all add: b64_size_def)

lemma digit_ok: "b < 64 \<Longrightarrow> digit b \<noteq> NUL \<and> digit b \<noteq> CHR ''=''"
  using s_digit_digit by blast

lemma b64_no_NUL: "NUL \<notin> set (b64_to src)"
proof (induction src rule: b64_to.induct)
  case (1 b1 b2 b3 src)
  then show ?case using digit_ok [OF digit_bounds(1)] digit_ok [OF digit_bounds(2)] digit_ok [OF digit_bounds(4)]
    digit_ok [OF digit_bounds(6)] unfolding b64_to.simps set_simps insert_iff by metis
next
  case (2 b1)
  have "NUL \<noteq> CHR ''=''" by (simp add: NUL_def)
  then show ?case using digit_ok [OF digit_bounds(1)] digit_ok [OF digit_bounds(3)]
    unfolding b64_to.simps set_simps insert_iff by (metis empty_iff)
next
  case (3 b1 b2)
  have "NUL \<noteq> CHR ''=''" by (simp add: NUL_def)
  then show ?case using digit_ok [OF digit_bounds(1)] digit_ok [OF digit_bounds(2)] digit_ok [OF digit_bounds(5)]
    unfolding b64_to.simps set_simps insert_iff by (metis empty_iff)
qed simp

text \<open>The padding at the end of an encoding, by the length of the source.\<close>

lemma b64_tail:
  "src \<noteq> [] \<Longrightarrow> b64_to src \<noteq> [] \<and> butlast (b64_to src) \<noteq> [] \<and>
     (last (b64_to src) = CHR ''='' \<longleftrightarrow> length src mod 3 \<noteq> 0) \<and>
     (last (butlast (b64_to src)) = CHR ''='' \<longleftrightarrow> length src mod 3 = 1)"
proof (induction src rule: b64_to.induct)
  case (1 b1 b2 b3 src)
  have m: "length (b1 # b2 # b3 # src) mod 3 = length src mod 3" by simp
  show ?case
  proof (cases "src = []")
    case True
    then show ?thesis using digit_ok [OF digit_bounds(6)] digit_ok [OF digit_bounds(4)] by simp
  next
    case False
    from 1(1) [OF this] show ?thesis unfolding m b64_to.simps by simp
  qed
next
  case (3 b1 b2)
  then show ?case using digit_ok [OF digit_bounds(5)] by simp
qed simp_all

lemma last_two:
  assumes "butlast e \<noteq> []"
  shows "e ! (length e - 1) = last e" "e ! (length e - 2) = last (butlast e)"
proof -
  have "e \<noteq> []" using assms by auto
  then show "e ! (length e - 1) = last e" by (simp add: last_conv_nth)
  show "e ! (length e - 2) = last (butlast e)"
    using assms by (cases e rule: rev_cases; cases "butlast e" rule: rev_cases) (auto simp: nth_append butlast_append)
qed

text \<open>
  C15. Decoding the encoding of a byte string gives the string back; the encoding has exactly
  \<open>b64_size\<close> characters, none of them a NUL, and \<open>b64_orig_size\<close> finds the original length.
\<close>

theorem b64_round_trip:
  "b64_from (b64_to src) = src \<and> length (b64_to src) = b64_size (length src) \<and>
   NUL \<notin> set (b64_to src) \<and> b64_orig_size (b64_to src) = Val (of_nat (length src))"
proof -
  have "b64_orig_size (b64_to src) = Val (of_nat (length src))"
  proof (cases "src = []")
    case True
    then show ?thesis by (simp add: b64_orig_size_def)
  next
    case False
    let ?e = "b64_to src"
    note t = b64_tail [OF False]
    have s: "strlen ?e = length ?e" using b64_no_NUL by (simp add: strlen_def)
    have l: "length ?e * 3 div 4 = (length src + 2) div 3 * 3"
      by (simp add: b64_to_length b64_size_def)
    have c0: "cat ?e 0 \<noteq> NUL" "length ?e \<noteq> 1"
      using b64_no_NUL [of src] t by (cases ?e; auto)+
    have e: "b64_orig_size ?e = Val (let size = of_nat ((length src + 2) div 3 * 3) in
        if length src mod 3 = 0 then size else if length src mod 3 = 1 then size - 1 - 1 else size - 1)"
      using t c0 last_two [of ?e] unfolding b64_orig_size_def s l Let_def by simp
    define n where "n = length src"
    consider (a) "n mod 3 = 1" "(n + 2) div 3 * 3 = n + 2"
      | (b) "n mod 3 = 2" "(n + 2) div 3 * 3 = n + 1"
      | (c) "n mod 3 = 0" "(n + 2) div 3 * 3 = n" by atomize_elim presburger
    then show ?thesis unfolding e Let_def n_def [symmetric] by cases simp_all
  qed
  then show ?thesis by (simp add: b64_decode b64_to_length b64_no_NUL)
qed

end
