(* ===== verification/Sectime.thy ===== *)
theory Sectime
  imports Prelude
begin

text \<open>
  The calendar arithmetic of \<open>ext/agoo/sectime.c\<close>: \<open>agoo_sectime\<close> splits a count of
  seconds since 1970 into year, month, day, hour, minute and second. It is compared with
  the proleptic Gregorian calendar, stated independently of the code.
\<close>

section \<open>The code\<close>

record agoo_time =
  at_sec :: int
  at_min :: int
  at_hour :: int
  at_day :: int
  at_mon :: int
  at_year :: int

definition secs_per_day :: int where "secs_per_day = 86400"
definition secs_per_year :: int where "secs_per_year = 31536000"
definition secs_per_leap :: int where "secs_per_leap = 31622400"
definition secs_per_quad_year :: int where
  "secs_per_quad_year = secs_per_year * 3 + secs_per_leap"
definition secs_per_cent :: int where
  "secs_per_cent = secs_per_quad_year * 24 + secs_per_year * 4"
definition secs_per_leap_cent :: int where
  "secs_per_leap_cent = secs_per_cent + secs_per_day"
definition secs_per_quad_cent :: int where
  "secs_per_quad_cent = secs_per_cent * 4 + secs_per_day"

lemmas secs_defs = secs_per_day_def secs_per_year_def secs_per_leap_def
  secs_per_quad_year_def secs_per_cent_def secs_per_leap_cent_def secs_per_quad_cent_def

text \<open>The ends of the months, in seconds from the start of the year.\<close>

definition eom_secs :: "int list" where
  "eom_secs = [2678400, 5097600, 7776000, 10368000, 13046400, 15638400,
               18316800, 20995200, 23587200, 26265600, 28857600, 31536000]"

definition eom_leap_secs :: "int list" where
  "eom_leap_secs = [2678400, 5184000, 7862400, 10454400, 13132800, 15724800,
                    18403200, 21081600, 23673600, 26352000, 28944000, 31622400]"

text \<open>
  The century, the four-year group, the year in it, the seconds left in that year and the
  leap flag, from the seconds \<open>secs\<close> into a period of 400 years.
\<close>

definition sectime_split :: "int \<Rightarrow> int \<times> int \<times> int \<times> int \<times> bool" where
  "sectime_split secs =
    (if secs < secs_per_leap then (0, 0, 0, secs, True)
     else if secs < secs_per_quad_year then
       (if secs_per_leap \<le> secs then
          (let secs = secs - secs_per_leap;
               y = c_div secs secs_per_year;
               secs = secs - y * secs_per_year
           in (0, 0, y + 1, secs, True))
        else (0, 0, 0, secs, False))
     else if secs < secs_per_leap_cent then
       (let qy = c_div secs secs_per_quad_year;
            secs = secs - qy * secs_per_quad_year
        in if secs < secs_per_leap then (0, qy, 0, secs, True)
           else let secs = secs - secs_per_leap;
                    y = c_div secs secs_per_year;
                    secs = secs - y * secs_per_year
                in (0, qy, y + 1, secs, False))
     else
       (let secs = secs - secs_per_leap_cent;
            c = c_div secs secs_per_cent;
            secs = secs - c * secs_per_cent;
            c = c + 1
        in if secs < secs_per_year * 4 then
             let y = c_div secs secs_per_year;
                 secs = secs - y * secs_per_year
             in (c, 0, y, secs, False)
           else
             let secs = secs - secs_per_year * 4;
                 qy = c_div secs secs_per_quad_year;
                 secs = secs - qy * secs_per_quad_year;
                 qy = qy + 1
             in if secs < secs_per_leap then (c, qy, 0, secs, True)
                else let secs = secs - secs_per_leap;
                         y = c_div secs secs_per_year;
                         secs = secs - y * secs_per_year
                     in (c, qy, y + 1, secs, False)))"

text \<open>The month loop: \<open>m\<close> counts from 1, \<open>prev\<close> is \<open>*(ms - 1)\<close> where \<open>1 < m\<close>.\<close>

fun sectime_month :: "int \<Rightarrow> int \<Rightarrow> int \<Rightarrow> int list \<Rightarrow> int \<times> int" where
  "sectime_month secs m prev [] = (0, secs)"
| "sectime_month secs m prev (e # es) =
     (if secs < e then (m, if 1 < m then secs - prev else secs)
      else sectime_month secs (m + 1) e es)"

definition sectime_fields :: "int \<Rightarrow> int \<Rightarrow> int \<Rightarrow> agoo_time" where
  "sectime_fields y m secs =
    (let d = c_div secs 86400;
         secs = secs - d * 86400;
         d = d + 1;
         h = c_div secs 3600;
         secs = secs - h * 3600;
         mi = c_div secs 60;
         secs = secs - mi * 60
     in \<lparr>at_sec = secs, at_min = mi, at_hour = h, at_day = d, at_mon = m, at_year = y\<rparr>)"

definition agoo_sectime :: "int \<Rightarrow> agoo_time" where
  "agoo_sectime secs0 =
    (let secs1 = secs0 + 62167219200;
         shift = (if secs1 < 0 then c_div (- secs1) secs_per_quad_cent + 1 else 0);
         secs2 = (if secs1 < 0 then secs1 + shift * secs_per_quad_cent else secs1);
         qc = c_div secs2 secs_per_quad_cent;
         secs3 = secs2 - qc * secs_per_quad_cent
     in case sectime_split secs3 of (c, qy, y, secs4, leap) \<Rightarrow>
          let yr = (qc - shift) * 400 + c * 100 + qy * 4 + y
          in case sectime_month secs4 1 0 (if leap then eom_leap_secs else eom_secs) of
               (m, secs5) \<Rightarrow> sectime_fields yr m secs5)"

section \<open>The calendar\<close>

text \<open>The proleptic Gregorian calendar, astronomical year numbering.\<close>

definition leap_year :: "int \<Rightarrow> bool" where
  "leap_year y \<longleftrightarrow> 4 dvd y \<and> (\<not> 100 dvd y \<or> 400 dvd y)"

definition month_days :: "int \<Rightarrow> int \<Rightarrow> int" where
  "month_days y m =
    (if m = 2 then (if leap_year y then 29 else 28)
     else if m \<in> {4, 6, 9, 11} then 30 else 31)"

text \<open>Days from January 1 of the year 0 to January 1 of the year \<open>y\<close>.\<close>

definition year_start :: "int \<Rightarrow> int" where
  "year_start y = 365 * y + (y + 3) div 4 - (y + 99) div 100 + (y + 399) div 400"

lemma year_start_0: "year_start 0 = 0"
  by (simp add: year_start_def)

text \<open>The closed form counts the days of every year.\<close>

lemma div_step:
  fixes y n :: int
  assumes "0 < n"
  shows "(y + 1 + (n - 1)) div n = (y + (n - 1)) div n + (if n dvd y then 1 else 0)"
proof -
  obtain q r where y: "y = n * q + r" and r: "0 \<le> r" "r < n"
    using assms by (metis mult_div_mod_eq pos_mod_bound pos_mod_sign)
  have a: "(y + 1 + (n - 1)) div n = q + 1"
    using assms r by (intro div_pos_pos_trivial int_div_pos_eq [where r = r]) (auto simp: y algebra_simps)
  show ?thesis
  proof (cases "r = 0")
    case True
    have "(y + (n - 1)) div n = q"
      using assms True by (intro int_div_pos_eq [where r = "n - 1"]) (auto simp: y)
    with a True show ?thesis by (simp add: y)
  next
    case False
    have "(y + (n - 1)) div n = q + 1"
      using assms r False by (intro int_div_pos_eq [where r = "r - 1"]) (auto simp: y algebra_simps)
    moreover have "\<not> n dvd y"
      using r False by (auto simp: y dvd_add_right_iff dest: zdvd_imp_le)
    ultimately show ?thesis using a by simp
  qed
qed

lemma year_start_Suc: "year_start (y + 1) = year_start y + (if leap_year y then 366 else 365)"
proof -
  have i1: "\<not> 4 dvd y \<Longrightarrow> \<not> 100 dvd y" using dvd_trans [of 4 100 y] by auto
  have i2: "\<not> 100 dvd y \<Longrightarrow> \<not> 400 dvd y" using dvd_trans [of 100 400 y] by auto
  have d4: "(y + 1 + 3) div 4 = (y + 3) div 4 + (if 4 dvd y then 1 else 0)"
    using div_step [of 4 y] by simp
  have d100: "(y + 1 + 99) div 100 = (y + 99) div 100 + (if 100 dvd y then 1 else 0)"
    using div_step [of 100 y] by simp
  have d400: "(y + 1 + 399) div 400 = (y + 399) div 400 + (if 400 dvd y then 1 else 0)"
    using div_step [of 400 y] by simp
  have "year_start (y + 1) = year_start y + 365 + (if 4 dvd y then 1 else 0)
      - (if 100 dvd y then 1 else 0) + (if 400 dvd y then 1 else 0)"
    unfolding year_start_def d4 d100 d400 by (simp only: distrib_left)
  also have "\<dots> = year_start y + (if leap_year y then 366 else 365)"
    unfolding leap_year_def using i1 i2
    by (cases "4 dvd y"; cases "100 dvd y"; cases "400 dvd y") (simp_all only: if_True if_False simp_thms, simp_all)
  finally show ?thesis .
qed

definition month_start :: "int \<Rightarrow> int \<Rightarrow> int" where
  "month_start y m = (\<Sum>k\<leftarrow>[1..m - 1]. month_days y k)"

definition civil_secs :: "agoo_time \<Rightarrow> int" where
  "civil_secs t =
    (year_start (at_year t) + month_start (at_year t) (at_mon t) + (at_day t - 1)) * 86400
      + at_hour t * 3600 + at_min t * 60 + at_sec t - 62167219200"

definition civil_ok :: "agoo_time \<Rightarrow> bool" where
  "civil_ok t \<longleftrightarrow> 1 \<le> at_mon t \<and> at_mon t \<le> 12 \<and> 1 \<le> at_day t \<and> at_day t \<le> month_days (at_year t) (at_mon t)
     \<and> 0 \<le> at_hour t \<and> at_hour t < 24 \<and> 0 \<le> at_min t \<and> at_min t < 60 \<and> 0 \<le> at_sec t \<and> at_sec t < 60"

section \<open>Splitting the seconds of a 400 year period\<close>

lemma year_start_400: "year_start (400 * k + n) = 146097 * k + year_start n"
proof -
  have "(400 * k + n + 3) div 4 = 100 * k + (n + 3) div 4"
    using div_mult_self2 [of 4 "n + 3" "100 * k"] by (simp add: algebra_simps)
  moreover have "(400 * k + n + 99) div 100 = 4 * k + (n + 99) div 100"
    using div_mult_self2 [of 100 "n + 99" "4 * k"] by (simp add: algebra_simps)
  moreover have "(400 * k + n + 399) div 400 = k + (n + 399) div 400"
    using div_mult_self2 [of 400 "n + 399" k] by (simp add: algebra_simps)
  ultimately show ?thesis by (simp add: year_start_def)
qed

text \<open>The start of a year of the period, from its century, four-year group and year.\<close>

lemma div_eq:
  fixes a n :: int
  assumes "a = n * q + r" "0 \<le> r" "r < n"
  shows "a div n = q"
  using int_div_pos_eq [OF assms] .

lemma year_start_parts:
  assumes "0 \<le> c" "c \<le> 3" "0 \<le> q" "q \<le> 24" "0 \<le> y" "y \<le> 3"
  shows "year_start (100 * c + 4 * q + y) = 36500 * c + 1460 * q + 365 * y
     + 25 * c + q + (if y = 0 then 0 else 1) - c - (if q = 0 \<and> y = 0 then 0 else 1)
     + (if c = 0 \<and> q = 0 \<and> y = 0 then 0 else 1)"
proof -
  let ?n = "100 * c + 4 * q + y"
  have a: "(?n + 3) div 4 = 25 * c + q + (if y = 0 then 0 else 1)"
  proof (cases "y = 0")
    case True
    have "(?n + 3) div 4 = 25 * c + q" by (rule div_eq [where r = 3], simp add: True algebra_simps, simp_all)
    with True show ?thesis by simp
  next
    case False
    have "(?n + 3) div 4 = 25 * c + q + 1" by (rule div_eq [where r = "y - 1"], simp add: algebra_simps, use False assms in linarith, use False assms in linarith)
    with False show ?thesis by simp
  qed
  have b: "(?n + 99) div 100 = c + (if q = 0 \<and> y = 0 then 0 else 1)"
  proof (cases "q = 0 \<and> y = 0")
    case True
    have "(?n + 99) div 100 = c" by (rule div_eq [where r = 99], simp add: True algebra_simps, simp_all)
    with True show ?thesis by simp
  next
    case False
    have "(?n + 99) div 100 = c + 1" by (rule div_eq [where r = "4 * q + y - 1"], simp add: algebra_simps, use False assms in linarith, use False assms in linarith)
    with False show ?thesis by simp
  qed
  have d: "(?n + 399) div 400 = (if c = 0 \<and> q = 0 \<and> y = 0 then 0 else 1)"
  proof (cases "c = 0 \<and> q = 0 \<and> y = 0")
    case True
    have "(?n + 399) div 400 = 0" by (rule div_eq [where r = 399], simp add: True algebra_simps, simp_all)
    with True show ?thesis by simp
  next
    case False
    have "(?n + 399) div 400 = 1" by (rule div_eq [where r = "?n - 1"], simp add: algebra_simps, use False assms in linarith, use False assms in linarith)
    with False show ?thesis by simp
  qed
  show ?thesis unfolding year_start_def a b d by simp
qed

lemma leap_year_parts:
  assumes "0 \<le> c" "c \<le> 3" "0 \<le> q" "q \<le> 24" "0 \<le> y" "y \<le> 3"
  shows "leap_year (400 * k + (100 * c + 4 * q + y)) \<longleftrightarrow> y = 0 \<and> (q \<noteq> 0 \<or> c = 0)"
proof -
  let ?n = "400 * k + (100 * c + 4 * q + y)"
  have a: "?n mod 4 = y"
    by (rule int_mod_pos_eq [where q = "100 * k + 25 * c + q"], simp add: algebra_simps, use assms in linarith, use assms in linarith)
  have b: "?n mod 100 = 4 * q + y"
    by (rule int_mod_pos_eq [where q = "4 * k + c"], simp add: algebra_simps, use assms in linarith, use assms in linarith)
  have d: "?n mod 400 = 100 * c + 4 * q + y"
    by (rule int_mod_pos_eq [where q = k], simp add: algebra_simps, use assms in linarith, use assms in linarith)
  have "4 * q + y = 0 \<longleftrightarrow> q = 0 \<and> y = 0" "100 * c + 4 * q + y = 0 \<longleftrightarrow> c = 0 \<and> q = 0 \<and> y = 0"
    using assms by linarith+
  then show ?thesis
    unfolding leap_year_def dvd_eq_mod_eq_0 a b d by blast
qed

text \<open>
  What the split gives: the right year and the seconds into it, with the leap flag of the
  calendar except in the second to fourth year of the period, where the code sets it.
\<close>

definition split_ok :: "int \<Rightarrow> int \<times> int \<times> int \<times> int \<times> bool \<Rightarrow> bool" where
  "split_ok r p = (case p of (c, q, y, s, lp) \<Rightarrow>
     0 \<le> c \<and> c \<le> 3 \<and> 0 \<le> q \<and> q \<le> 24 \<and> 0 \<le> y \<and> y \<le> 3 \<and>
     r = year_start (100 * c + 4 * q + y) * 86400 + s \<and>
     0 \<le> s \<and> s < (if y = 0 \<and> (q \<noteq> 0 \<or> c = 0) then 31622400 else 31536000) \<and>
     (lp \<longleftrightarrow> y = 0 \<and> (q \<noteq> 0 \<or> c = 0) \<or> c = 0 \<and> q = 0))"

lemma div_bounds:
  fixes a n :: int
  assumes "0 < n"
  shows "n * (a div n) \<le> a" "a < n * (a div n) + n"
proof -
  have "a = n * (a div n) + a mod n" by simp
  moreover have "0 \<le> a mod n" "a mod n < n" using assms by simp_all
  ultimately show "n * (a div n) \<le> a" "a < n * (a div n) + n" by linarith+
qed

lemma year_start_first:
  assumes "0 \<le> c" "c \<le> 3" "0 \<le> q" "q \<le> 24"
  shows "year_start (100 * c + 4 * q + 0) = 36524 * c + 1461 * q + (if q = 0 \<and> c \<noteq> 0 then 1 else 0)"
  using year_start_parts [OF assms, of 0] by simp

lemma year_start_later:
  assumes "0 \<le> c" "c \<le> 3" "0 \<le> q" "q \<le> 24" "0 < y" "y \<le> 3"
  shows "year_start (100 * c + 4 * q + y) = 36524 * c + 1461 * q + 365 * y + 1"
  using year_start_parts [of c q y] assms by simp

text \<open>A first year of a four-year group, and three ordinary years after a leap year.\<close>

lemma split_ok_first:
  assumes c: "0 \<le> c" "c \<le> 3" and q: "0 \<le> q" "q \<le> 24" and s: "0 \<le> s" "s < 31622400"
    and r: "r = (36524 * c + 1461 * q) * 86400 + s" and l: "q \<noteq> 0 \<or> c = 0"
  shows "split_ok r (c, q, 0, s, True)"
  using l s c q by (auto simp: split_ok_def r year_start_first [OF c q, simplified])

lemma split_ok_years:
  assumes c: "0 \<le> c" "c \<le> 3" and q: "0 \<le> q" "q \<le> 24" and s: "0 \<le> s" "s < 94608000"
    and r: "r = (36524 * c + 1461 * q) * 86400 + 31622400 + s"
    and lp: "lp \<longleftrightarrow> c = 0 \<and> q = 0"
  shows "split_ok r (c, q, s div 31536000 + 1, s - s div 31536000 * 31536000, lp)"
proof -
  define y where "y = s div 31536000"
  have y: "31536000 * y \<le> s" "s < 31536000 * y + 31536000"
    using div_bounds [of 31536000 s] by (simp_all add: y_def)
  have yr: "0 \<le> y" "y \<le> 2" using y s by linarith+
  have "year_start (100 * c + 4 * q + (y + 1)) = 36524 * c + 1461 * q + 365 * (y + 1) + 1"
    by (rule year_start_later [OF c q]) (use yr in linarith)+
  with yr y c q show ?thesis
    unfolding y_def [symmetric] split_ok_def by (simp add: r lp)
qed

text \<open>The four years at the start of a century that is not a leap century.\<close>

lemma split_ok_cent:
  assumes c: "0 < c" "c \<le> 3" and s: "0 \<le> s" "s < 126144000"
    and r: "r = (36524 * c + 1) * 86400 + s"
  shows "split_ok r (c, 0, s div 31536000, s - s div 31536000 * 31536000, False)"
proof -
  define y where "y = s div 31536000"
  have y: "31536000 * y \<le> s" "s < 31536000 * y + 31536000"
    using div_bounds [of 31536000 s] by (simp_all add: y_def)
  have yr: "0 \<le> y" "y \<le> 3" using y s by linarith+
  have "year_start (100 * c + 4 * 0 + y) = 36524 * c + 365 * y + 1"
  proof (cases "y = 0")
    case True
    then show ?thesis using year_start_first [of c 0] c by simp
  next
    case False
    then show ?thesis using year_start_later [of c 0 y] c yr by simp
  qed
  with yr y c show ?thesis
    unfolding y_def [symmetric] split_ok_def by (simp add: r)
qed

lemma sectime_split_ok:
  assumes r: "0 \<le> r" "r < 12622780800"
  shows "split_ok r (sectime_split r)"
proof -
  consider (a) "r < 31622400" | (b) "31622400 \<le> r" "r < 126230400"
    | (c) "126230400 \<le> r" "r < 3155760000" | (d) "3155760000 \<le> r" by linarith
  then show ?thesis
  proof cases
    case a
    then show ?thesis using r split_ok_first [of 0 0 r r] by (simp add: sectime_split_def secs_defs)
  next
    case b
    then show ?thesis using split_ok_years [of 0 0 "r - 31622400" r True]
      by (simp add: sectime_split_def secs_defs Let_def)
  next
    case c
    define q where "q = r div 126230400"
    define s where "s = r - q * 126230400"
    have q: "126230400 * q \<le> r" "r < 126230400 * q + 126230400"
      using div_bounds [of 126230400 r] by (simp_all add: q_def)
    then have qr: "1 \<le> q" "q \<le> 24" and s: "0 \<le> s" "s < 126230400" using c by (auto simp: s_def)
    have e: "sectime_split r = (if s < 31622400 then (0, q, 0, s, True)
        else (0, q, (s - 31622400) div 31536000 + 1,
              s - 31622400 - (s - 31622400) div 31536000 * 31536000, False))"
      using c s by (simp add: sectime_split_def secs_defs Let_def q_def [symmetric] s_def [symmetric])
    have r': "r = (36524 * 0 + 1461 * q) * 86400 + s" by (simp add: s_def)
    show ?thesis
    proof (cases "s < 31622400")
      case True
      then have "split_ok r (0, q, 0, s, True)"
        using qr s by (intro split_ok_first r') simp_all
      with True show ?thesis by (simp add: e)
    next
      case False
      have "split_ok r (0, q, (s - 31622400) div 31536000 + 1,
          s - 31622400 - (s - 31622400) div 31536000 * 31536000, False)"
        using False qr s r' by (intro split_ok_years) simp_all
      with False show ?thesis by (simp add: e)
    qed
  next
    case d
    define c0 where "c0 = (r - 3155760000) div 3155673600"
    define s where "s = r - 3155760000 - c0 * 3155673600"
    have c0: "3155673600 * c0 \<le> r - 3155760000" "r - 3155760000 < 3155673600 * c0 + 3155673600"
      using div_bounds [of 3155673600 "r - 3155760000"] by (simp_all add: c0_def)
    then have cr: "0 \<le> c0" "c0 \<le> 2" and s: "0 \<le> s" "s < 3155673600" using d r by (auto simp: s_def)
    define t where "t = s - 126144000"
    define q where "q = t div 126230400"
    define u where "u = t - q * 126230400"
    have e: "sectime_split r = (if s < 126144000
        then (c0 + 1, 0, s div 31536000, s - s div 31536000 * 31536000, False)
        else if u < 31622400 then (c0 + 1, q + 1, 0, u, True)
        else (c0 + 1, q + 1, (u - 31622400) div 31536000 + 1,
              u - 31622400 - (u - 31622400) div 31536000 * 31536000, False))"
    proof (cases "s < 126144000")
      case True
      then show ?thesis using d s
        by (simp add: sectime_split_def secs_defs Let_def c0_def [symmetric] s_def [symmetric])
    next
      case False
      then have "0 \<le> t" by (simp add: t_def)
      with False d s show ?thesis
        by (simp add: sectime_split_def secs_defs Let_def c0_def [symmetric] s_def [symmetric]
          t_def [symmetric] q_def [symmetric] u_def [symmetric])
    qed
    show ?thesis
    proof (cases "s < 126144000")
      case True
      have "split_ok r (c0 + 1, 0, s div 31536000, s - s div 31536000 * 31536000, False)"
        using True cr s by (intro split_ok_cent) (simp_all add: s_def)
      with True show ?thesis by (simp add: e)
    next
      case False
      have q: "126230400 * q \<le> t" "t < 126230400 * q + 126230400"
        using div_bounds [of 126230400 t] by (simp_all add: q_def)
      then have qr: "0 \<le> q" "q \<le> 23" and u: "0 \<le> u" "u < 126230400"
        using False s by (auto simp: u_def t_def)
      have r': "r = (36524 * (c0 + 1) + 1461 * (q + 1)) * 86400 + u"
        by (simp add: u_def t_def s_def)
      show ?thesis
      proof (cases "u < 31622400")
        case True
        then have "split_ok r (c0 + 1, q + 1, 0, u, True)"
          using cr qr u by (intro split_ok_first r') simp_all
        with True False show ?thesis by (simp add: e)
      next
        case nf: False
        have "split_ok r (c0 + 1, q + 1, (u - 31622400) div 31536000 + 1,
            u - 31622400 - (u - 31622400) div 31536000 * 31536000, False)"
          using nf cr qr u r' by (intro split_ok_years) simp_all
        with nf False show ?thesis by (simp add: e)
      qed
    qed
  qed
qed

section \<open>Months and the fields of a day\<close>

text \<open>The month loop finds the month of a second of the year, for either table.\<close>

definition month_table :: "bool \<Rightarrow> int list" where
  "month_table lp = (if lp then eom_leap_secs else eom_secs)"

definition tab_days :: "bool \<Rightarrow> int \<Rightarrow> int" where
  "tab_days lp m = (if m = 2 then (if lp then 29 else 28) else if m \<in> {4, 6, 9, 11} then 30 else 31)"

definition tab_start :: "bool \<Rightarrow> int \<Rightarrow> int" where
  "tab_start lp m = (\<Sum>k\<leftarrow>[1..m - 1]. tab_days lp k)"

lemma month_days_tab: "month_days y m = tab_days (leap_year y) m"
  by (simp add: month_days_def tab_days_def)

lemma month_start_tab: "month_start y m = tab_start (leap_year y) m"
  by (simp add: month_start_def tab_start_def month_days_tab)

lemma tab_start_months:
  "tab_start lp 1 = 0" "tab_start lp 2 = 31" "tab_start lp 3 = (if lp then 60 else 59)"
  "tab_start lp 4 = (if lp then 91 else 90)" "tab_start lp 5 = (if lp then 121 else 120)"
  "tab_start lp 6 = (if lp then 152 else 151)" "tab_start lp 7 = (if lp then 182 else 181)"
  "tab_start lp 8 = (if lp then 213 else 212)" "tab_start lp 9 = (if lp then 244 else 243)"
  "tab_start lp 10 = (if lp then 274 else 273)" "tab_start lp 11 = (if lp then 305 else 304)"
  "tab_start lp 12 = (if lp then 335 else 334)"
  by (simp_all add: tab_start_def tab_days_def upto.simps)

lemma sectime_month_ok:
  assumes "0 \<le> s" "s < (if lp then 31622400 else 31536000)"
  obtains m s' where "sectime_month s 1 0 (month_table lp) = (m, s')" "1 \<le> m" "m \<le> 12"
    "s = tab_start lp m * 86400 + s'" "0 \<le> s'" "s' < tab_days lp m * 86400"
proof -
  have "case sectime_month s 1 0 (month_table lp) of (m, s') \<Rightarrow> 1 \<le> m \<and> m \<le> 12 \<and>
      s = tab_start lp m * 86400 + s' \<and> 0 \<le> s' \<and> s' < tab_days lp m * 86400"
    using assms
    by (cases lp) (simp_all add: month_table_def eom_secs_def eom_leap_secs_def tab_start_months tab_days_def
      split: if_split)
  then show ?thesis using that by (auto split: prod.splits)
qed

lemma sectime_fields_ok:
  fixes s n m y :: int
  assumes "0 \<le> s" "s < n * 86400"
  defines "t \<equiv> sectime_fields y m s"
  shows "at_year t = y" "at_mon t = m" "1 \<le> at_day t" "at_day t \<le> n"
    "0 \<le> at_hour t" "at_hour t < 24" "0 \<le> at_min t" "at_min t < 60" "0 \<le> at_sec t" "at_sec t < 60"
    "(at_day t - 1) * 86400 + at_hour t * 3600 + at_min t * 60 + at_sec t = s"
proof -
  define d where "d = s div 86400"
  define s1 where "s1 = s - d * 86400"
  have d: "86400 * d \<le> s" "s < 86400 * d + 86400" using div_bounds [of 86400 s] by (simp_all add: d_def)
  then have s1: "0 \<le> s1" "s1 < 86400" by (auto simp: s1_def)
  define h where "h = s1 div 3600"
  define s2 where "s2 = s1 - h * 3600"
  have h: "3600 * h \<le> s1" "s1 < 3600 * h + 3600" using div_bounds [of 3600 s1] by (simp_all add: h_def)
  then have s2: "0 \<le> s2" "s2 < 3600" by (auto simp: s2_def)
  define i where "i = s2 div 60"
  have i: "60 * i \<le> s2" "s2 < 60 * i + 60" using div_bounds [of 60 s2] by (simp_all add: i_def)
  have t: "t = \<lparr>at_sec = s2 - i * 60, at_min = i, at_hour = h, at_day = d + 1, at_mon = m, at_year = y\<rparr>"
    using assms(1) s1 s2 unfolding t_def sectime_fields_def
    by (simp add: Let_def d_def [symmetric] s1_def [symmetric] h_def [symmetric] s2_def [symmetric] i_def [symmetric])
  show "at_year t = y" "at_mon t = m" by (simp_all add: t)
  have "0 \<le> d" "d < n" "0 \<le> h" "h < 24" "0 \<le> i" "i < 60" "0 \<le> s2 - i * 60" "s2 - i * 60 < 60"
    using assms(1,2) d h i s1 s2 by linarith+
  then show "1 \<le> at_day t" "at_day t \<le> n" "0 \<le> at_hour t" "at_hour t < 24" "0 \<le> at_min t" "at_min t < 60"
    "0 \<le> at_sec t" "at_sec t < 60" by (simp_all add: t)
  show "(at_day t - 1) * 86400 + at_hour t * 3600 + at_min t * 60 + at_sec t = s"
    by (simp add: t s2_def s1_def)
qed

section \<open>What the code computes\<close>

text \<open>
  The code reduces to a period and a second of it, and everything after the split is
  governed by the leap flag it chose.
\<close>

lemma sectime_period:
  obtains k r where "secs + 62167219200 = k * 12622780800 + r" "0 \<le> r" "r < 12622780800"
    "agoo_sectime secs = (case sectime_split r of (c, q, y, s, lp) \<Rightarrow>
       case sectime_month s 1 0 (month_table lp) of (m, s') \<Rightarrow>
         sectime_fields (k * 400 + c * 100 + q * 4 + y) m s')"
proof -
  have quad_cent: "secs_per_quad_cent = 12622780800" by (simp add: secs_defs)
  have pos: "0 < (12622780800 :: int)" by simp
  define n where "n = secs + 62167219200"
  define shift where "shift = (if n < 0 then c_div (- n) 12622780800 + 1 else 0)"
  define n2 where "n2 = (if n < 0 then n + shift * 12622780800 else n)"
  have n2: "0 \<le> n2"
  proof (cases "n < 0")
    case True
    then have "c_div (- n) 12622780800 = (- n) div 12622780800" by simp
    moreover have "- n < 12622780800 * ((- n) div 12622780800) + 12622780800"
      by (rule div_bounds) simp
    ultimately show ?thesis using True by (simp add: n2_def shift_def)
  qed (simp add: n2_def)
  define qc where "qc = n2 div 12622780800"
  define r where "r = n2 - qc * 12622780800"
  have r: "0 \<le> r" "r < 12622780800"
    using div_bounds [of 12622780800 n2] by (simp_all add: r_def qc_def)
  have n: "n = (qc - shift) * 12622780800 + r"
    by (simp add: r_def n2_def shift_def algebra_simps)
  have "agoo_sectime secs = (case sectime_split r of (c, q, y, s, lp) \<Rightarrow>
       case sectime_month s 1 0 (month_table lp) of (m, s') \<Rightarrow>
         sectime_fields ((qc - shift) * 400 + c * 100 + q * 4 + y) m s')"
    unfolding agoo_sectime_def Let_def n_def [symmetric] quad_cent month_table_def
      shift_def [symmetric] n2_def [symmetric] c_div_pos [OF n2 pos] qc_def [symmetric] r_def [symmetric]
    by (rule refl)
  then show ?thesis by (rule that [OF n [unfolded n_def] r])
qed

lemma sectime_shape:
  obtains k c q y s lp m s' where
    "secs + 62167219200 = year_start (400 * k + (100 * c + 4 * q + y)) * 86400 + s"
    "0 \<le> c" "c \<le> 3" "0 \<le> q" "q \<le> 24" "0 \<le> y" "y \<le> 3"
    "0 \<le> s" "s < (if y = 0 \<and> (q \<noteq> 0 \<or> c = 0) then 31622400 else 31536000)"
    "lp \<longleftrightarrow> y = 0 \<and> (q \<noteq> 0 \<or> c = 0) \<or> c = 0 \<and> q = 0"
    "agoo_sectime secs = sectime_fields (400 * k + (100 * c + 4 * q + y)) m s'"
    "1 \<le> m" "m \<le> 12" "s = tab_start lp m * 86400 + s'" "0 \<le> s'" "s' < tab_days lp m * 86400"
proof -
  obtain k r where n: "secs + 62167219200 = k * 12622780800 + r" and r: "0 \<le> r" "r < 12622780800"
    and e: "agoo_sectime secs = (case sectime_split r of (c, q, y, s, lp) \<Rightarrow>
       case sectime_month s 1 0 (month_table lp) of (m, s') \<Rightarrow>
         sectime_fields (k * 400 + c * 100 + q * 4 + y) m s')"
    by (rule sectime_period)
  obtain c q y s lp where sp: "sectime_split r = (c, q, y, s, lp)" by (metis surj_pair)
  have ok: "0 \<le> c" "c \<le> 3" "0 \<le> q" "q \<le> 24" "0 \<le> y" "y \<le> 3"
     "r = year_start (100 * c + 4 * q + y) * 86400 + s"
     "0 \<le> s" "s < (if y = 0 \<and> (q \<noteq> 0 \<or> c = 0) then 31622400 else 31536000)"
     "lp \<longleftrightarrow> y = 0 \<and> (q \<noteq> 0 \<or> c = 0) \<or> c = 0 \<and> q = 0"
    using sectime_split_ok [OF r] unfolding sp split_ok_def by auto
  then have "s < (if lp then 31622400 else 31536000)" by (auto split: if_splits)
  then obtain m s' where m: "sectime_month s 1 0 (month_table lp) = (m, s')" "1 \<le> m" "m \<le> 12"
    "s = tab_start lp m * 86400 + s'" "0 \<le> s'" "s' < tab_days lp m * 86400"
    using sectime_month_ok [OF ok(8)] by blast
  have "agoo_sectime secs = sectime_fields (400 * k + (100 * c + 4 * q + y)) m s'"
    using e by (simp add: sp m(1) algebra_simps)
  moreover have "secs + 62167219200 = year_start (400 * k + (100 * c + 4 * q + y)) * 86400 + s"
    using n ok(7) by (simp add: year_start_400)
  ultimately show ?thesis using that ok(1-6,8-10) m(2-6) by blast
qed

lemma mod_400_parts:
  fixes k :: int
  assumes "0 \<le> c" "c \<le> 3" "0 \<le> q" "q \<le> 24" "0 \<le> y" "y \<le> 3"
  shows "(400 * k + (100 * c + 4 * q + y)) mod 400 = 100 * c + 4 * q + y"
  by (rule int_mod_pos_eq [where q = k]) (use assms in linarith)+

lemma sectime_is_civil:
  assumes "t = agoo_sectime secs" "at_year t mod 400 \<notin> {1, 2, 3}"
  shows "civil_ok t \<and> civil_secs t = secs"
proof -
  obtain k c q y s lp m s' where p:
    "secs + 62167219200 = year_start (400 * k + (100 * c + 4 * q + y)) * 86400 + s"
    "0 \<le> c" "c \<le> 3" "0 \<le> q" "q \<le> 24" "0 \<le> y" "y \<le> 3"
    "lp \<longleftrightarrow> y = 0 \<and> (q \<noteq> 0 \<or> c = 0) \<or> c = 0 \<and> q = 0"
    and e: "agoo_sectime secs = sectime_fields (400 * k + (100 * c + 4 * q + y)) m s'"
    and m: "1 \<le> m" "m \<le> 12" "s = tab_start lp m * 86400 + s'" "0 \<le> s'" "s' < tab_days lp m * 86400"
    by (rule sectime_shape)
  note f = sectime_fields_ok [OF m(4,5), of "400 * k + (100 * c + 4 * q + y)" m, folded e assms(1)]
  have "100 * c + 4 * q + y \<notin> {1, 2, 3}"
    using assms(2) unfolding f(1) mod_400_parts [OF p(2-7)] .
  then have lp: "lp = leap_year (at_year t)"
    using p(2-8) leap_year_parts [OF p(2-7), of k] f(1) by auto
  have "civil_ok t"
    using f m(1,2) lp by (simp add: civil_ok_def month_days_tab)
  moreover have "civil_secs t = secs"
    using f(1,2,11) p(1) m(3) lp by (simp add: civil_secs_def month_start_tab algebra_simps)
  ultimately show ?thesis by simp
qed



text \<open>
  The year is always the calendar's: the instant lies between the first second of the
  year \<open>agoo_sectime\<close> reports and the first second of the next one.
\<close>

theorem sectime_year:
  "year_start (at_year (agoo_sectime secs)) * 86400 \<le> secs + 62167219200 \<and>
   secs + 62167219200 < year_start (at_year (agoo_sectime secs) + 1) * 86400"
proof -
  obtain k c q y s lp m s' where p:
    "secs + 62167219200 = year_start (400 * k + (100 * c + 4 * q + y)) * 86400 + s"
    "0 \<le> c" "c \<le> 3" "0 \<le> q" "q \<le> 24" "0 \<le> y" "y \<le> 3"
    and s: "0 \<le> s" "s < (if y = 0 \<and> (q \<noteq> 0 \<or> c = 0) then 31622400 else 31536000)"
    and e: "agoo_sectime secs = sectime_fields (400 * k + (100 * c + 4 * q + y)) m s'"
    and m: "0 \<le> s'" "s' < tab_days lp m * 86400"
    by (rule sectime_shape)
  note f = sectime_fields_ok(1) [OF m, of "400 * k + (100 * c + 4 * q + y)" m, folded e]
  show ?thesis
    using p(1) s leap_year_parts [OF p(2-7), of k] unfolding f year_start_Suc by (auto split: if_splits)
qed

text \<open>
  In the years 1 to 3 of a period (2001, 2002 and 2003), which the code treats as leap
  years, an instant from the 61st day of the year on is reported exactly one day too early.
\<close>

theorem sectime_day_early:
  assumes "t = agoo_sectime secs" "at_year t mod 400 \<in> {1, 2, 3}"
    and "year_start (at_year t) * 86400 + 60 * 86400 \<le> secs + 62167219200"
  shows "civil_secs t = secs - 86400"
proof -
  obtain k c q y s lp m s' where p:
    "secs + 62167219200 = year_start (400 * k + (100 * c + 4 * q + y)) * 86400 + s"
    "0 \<le> c" "c \<le> 3" "0 \<le> q" "q \<le> 24" "0 \<le> y" "y \<le> 3"
    "lp \<longleftrightarrow> y = 0 \<and> (q \<noteq> 0 \<or> c = 0) \<or> c = 0 \<and> q = 0"
    and e: "agoo_sectime secs = sectime_fields (400 * k + (100 * c + 4 * q + y)) m s'"
    and m: "1 \<le> m" "m \<le> 12" "s = tab_start lp m * 86400 + s'" "0 \<le> s'" "s' < tab_days lp m * 86400"
    by (rule sectime_shape)
  note f = sectime_fields_ok [OF m(4,5), of "400 * k + (100 * c + 4 * q + y)" m, folded e assms(1)]
  have n1: "1 \<le> 100 * c + 4 * q + y" "100 * c + 4 * q + y \<le> 3"
    using assms(2) unfolding f(1) mod_400_parts [OF p(2-7)] by auto
  then have cq: "c = 0" "q = 0" using p(2-7) by linarith+
  with n1 have "y \<noteq> 0" by simp
  with cq have lp: "lp" "\<not> leap_year (at_year t)"
    using p(8) leap_year_parts [OF p(2-7), of k] f(1) by auto
  have "60 * 86400 \<le> s" using assms(3) p(1) f(1) by simp
  then have "3 \<le> m"
    using m lp(1) by (cases "m = 1"; cases "m = 2") (auto simp: tab_start_months tab_days_def)
  then have "tab_start True m = tab_start False m + 1"
    using m(2) by (smt (verit) tab_start_months)
  then show ?thesis
    using f(1,2,11) p(1) m(3) lp by (simp add: civil_secs_def month_start_tab algebra_simps)
qed

theorem sectime_day_early_witness:
  "civil_secs (agoo_sectime 983491200) = 983491200 - 86400"
proof -
  have "agoo_sectime 983491200 = \<lparr>at_sec = 0, at_min = 0, at_hour = 0, at_day = 1, at_mon = 3, at_year = 2001\<rparr>"
    by (simp add: agoo_sectime_def sectime_split_def secs_defs Let_def eom_leap_secs_def sectime_fields_def)
  then show ?thesis using sectime_day_early [OF refl, of 983491200] by (simp add: year_start_def)
qed

end
