(* ===== verification/Queue.thy ===== *)
theory Queue
  imports Prelude
begin

text \<open>
  The ring buffer of \<open>ext/agoo/queue.c\<close> that hands connections and requests from one thread
  to another. A cell holds an item or NULL (\<open>None\<close>); \<open>head\<close> and \<open>tail\<close> are the indexes of the
  pointers. First the operations as one thread runs them, then the interleaving of a pushing
  and a popping thread as a step relation with one step for every access to shared memory.
\<close>

section \<open>A queue interface\<close>

text \<open>What the clients of a queue rely on: an abstraction to the list of the items in it.\<close>

locale fifo =
  fixes ok :: "'q \<Rightarrow> bool"
    and items :: "'q \<Rightarrow> 'a list"
    and put :: "'a \<Rightarrow> 'q \<Rightarrow> 'q option"
    and get :: "'q \<Rightarrow> ('a option \<times> 'q) option"
  assumes put_ok: "ok q \<Longrightarrow> put x q = Some q' \<Longrightarrow> ok q' \<and> items q' = items q @ [x]"
    and get_some: "ok q \<Longrightarrow> items q = x # xs \<Longrightarrow> \<exists>q'. get q = Some (Some x, q') \<and> ok q' \<and> items q' = xs"
    and get_none: "ok q \<Longrightarrow> items q = [] \<Longrightarrow> \<exists>q'. get q = Some (None, q') \<and> ok q' \<and> items q' = []"
begin

fun put_all :: "'a list \<Rightarrow> 'q \<Rightarrow> 'q option" where
  "put_all [] q = Some q"
| "put_all (x # xs) q = (case put x q of None \<Rightarrow> None | Some q' \<Rightarrow> put_all xs q')"

fun get_all :: "nat \<Rightarrow> 'q \<Rightarrow> 'a list" where
  "get_all 0 q = []"
| "get_all (Suc n) q = (case get q of Some (Some x, q') \<Rightarrow> x # get_all n q' | _ \<Rightarrow> [])"

lemma put_all_ok: "ok q \<Longrightarrow> put_all xs q = Some q' \<Longrightarrow> ok q' \<and> items q' = items q @ xs"
proof (induction xs arbitrary: q)
  case (Cons x xs)
  then obtain q1 where q1: "put x q = Some q1" "put_all xs q1 = Some q'" by (auto split: option.splits)
  with put_ok [OF Cons.prems(1)] have "ok q1 \<and> items q1 = items q @ [x]" by blast
  with Cons.IH q1(2) show ?case by fastforce
qed simp

lemma get_all_ok: "ok q \<Longrightarrow> length (items q) \<le> n \<Longrightarrow> get_all n q = items q"
proof (induction n arbitrary: q)
  case (Suc n)
  show ?case
  proof (cases "items q")
    case Nil
    with get_none [OF Suc.prems(1)] show ?thesis by auto
  next
    case (Cons x xs)
    from get_some [OF Suc.prems(1) this] obtain q' where "get q = Some (Some x, q')" "ok q'" "items q' = xs" by blast
    with Suc Cons show ?thesis by simp
  qed
qed simp

lemma put_all_get_all:
  "ok q \<Longrightarrow> put_all xs q = Some q' \<Longrightarrow> get_all (length (items q) + length xs) q' = items q @ xs"
  using put_all_ok get_all_ok by (metis length_append order_refl)

end

section \<open>The queue\<close>

datatype wait_state = NOT_WAITING | WAITING | NOTIFIED

text \<open>\<open>qpipe\<close> counts the bytes in the pipe of \<open>rsock\<close> and \<open>wsock\<close> (kept by the kernel).\<close>

record 'a agoo_queue =
  qcells :: "'a option list"
  qhead :: nat
  qtail :: nat
  multi_push :: bool
  multi_pop :: bool
  push_lock :: bool
  pop_lock :: bool
  qwait_state :: wait_state
  rsock :: int
  wsock :: int
  qpipe :: nat

definition agoo_queue_multi_init :: "nat \<Rightarrow> bool \<Rightarrow> bool \<Rightarrow> 'a agoo_queue" where
  "agoo_queue_multi_init qsize mpush mpop =
    (let qsize = (if qsize < 4 then 4 else qsize)
     in \<lparr>qcells = replicate qsize None, qhead = 0, qtail = 1, multi_push = mpush, multi_pop = mpop,
         push_lock = False, pop_lock = False, qwait_state = NOT_WAITING, rsock = 0, wsock = 0, qpipe = 0\<rparr>)"

definition agoo_queue_init :: "nat \<Rightarrow> 'a agoo_queue" where
  "agoo_queue_init qsize = agoo_queue_multi_init qsize False False"

text \<open>The index after \<open>i\<close>: at \<open>end\<close> it wraps to the start.\<close>

definition q_next :: "'a agoo_queue \<Rightarrow> nat \<Rightarrow> nat" where
  "q_next q i = (if length (qcells q) \<le> i + 1 then 0 else i + 1)"

definition queue_notify :: "'a agoo_queue \<Rightarrow> 'a agoo_queue" where
  "queue_notify q =
    (if wsock q \<noteq> 0 \<and> qwait_state q = WAITING then q\<lparr>qpipe := qpipe q + 1, qwait_state := NOTIFIED\<rparr> else q)"

text \<open>
  \<open>None\<close>: the caller waits, for the lock of another pusher or for the head to move on. The
  lock is taken and released inside one call.
\<close>

definition agoo_queue_push :: "'a \<Rightarrow> 'a agoo_queue \<Rightarrow> 'a agoo_queue option" where
  "agoo_queue_push item q =
    (if multi_push q \<and> push_lock q then None
     else if qhead q = qtail q then None
     else let q = q\<lparr>qcells := (qcells q)[qtail q := Some item]\<rparr>;
              q = q\<lparr>qtail := q_next q (qtail q)\<rparr>
          in Some (queue_notify q))"

definition agoo_queue_wakeup :: "'a agoo_queue \<Rightarrow> 'a agoo_queue" where
  "agoo_queue_wakeup q = (if wsock q \<noteq> 0 then q\<lparr>qpipe := qpipe q + 1\<rparr> else q)"

text \<open>\<open>fds\<close> is what \<open>pipe\<close> gives, \<open>None\<close> where it fails.\<close>

definition agoo_queue_listen :: "(int \<times> int) option \<Rightarrow> 'a agoo_queue \<Rightarrow> 'a agoo_queue" where
  "agoo_queue_listen fds q =
    (let q = (if rsock q = 0 then
                (case fds of Some (r, w) \<Rightarrow> q\<lparr>rsock := r, wsock := w, qpipe := 0\<rparr> | None \<Rightarrow> q) else q)
     in q\<lparr>qwait_state := WAITING\<rparr>)"

definition agoo_queue_release :: "'a agoo_queue \<Rightarrow> 'a agoo_queue" where
  "agoo_queue_release q = q\<lparr>qpipe := 0, qwait_state := NOT_WAITING\<rparr>"

text \<open>
  The wait of a popper: \<open>cnt\<close> polls of 100 ms each, as computed from the time-out, while
  nothing is pushed. The result tells whether something arrived.
\<close>

fun queue_wait :: "(int \<times> int) option \<Rightarrow> nat \<Rightarrow> nat \<Rightarrow> 'a agoo_queue \<Rightarrow> bool \<times> 'a agoo_queue" where
  "queue_wait fds 0 nxt q = (qtail q \<noteq> nxt, q)"
| "queue_wait fds (Suc cnt) nxt q =
    (if qtail q \<noteq> nxt then (True, q)
     else let q = agoo_queue_listen fds q;
              q = (if 0 < qpipe q then agoo_queue_release q else q)
          in queue_wait fds cnt nxt q)"

definition agoo_queue_pop ::
  "(int \<times> int) option \<Rightarrow> nat \<Rightarrow> 'a agoo_queue \<Rightarrow> ('a option \<times> 'a agoo_queue) option" where
  "agoo_queue_pop fds cnt q =
    (if multi_pop q \<and> pop_lock q then None
     else case qcells q ! qhead q of
       Some item \<Rightarrow> Some (Some item, q\<lparr>qcells := (qcells q)[qhead q := None]\<rparr>)
     | None \<Rightarrow>
         let nxt = q_next q (qhead q)
         in case queue_wait fds cnt nxt q of
              (False, q) \<Rightarrow> Some (None, q)
            | (True, q) \<Rightarrow>
                let q = q\<lparr>qhead := nxt\<rparr>
                in Some (qcells q ! nxt, q\<lparr>qcells := (qcells q)[nxt := None]\<rparr>))"

definition agoo_queue_empty :: "'a agoo_queue \<Rightarrow> bool" where
  "agoo_queue_empty q \<longleftrightarrow> qcells q ! qhead q = None \<and> qtail q = q_next q (qhead q)"

definition agoo_queue_count :: "'a agoo_queue \<Rightarrow> nat" where
  "agoo_queue_count q = (qtail q + length (qcells q) - qhead q) mod length (qcells q)"

definition agoo_queue_cleanup :: "'a agoo_queue \<Rightarrow> 'a agoo_queue" where
  "agoo_queue_cleanup q = q\<lparr>wsock := 0, rsock := 0, qcells := []\<rparr>"

section \<open>The items in the ring\<close>

text \<open>The cells from the index \<open>b\<close> on hold the items \<open>ps\<close>.\<close>

definition ring :: "'a option list \<Rightarrow> nat \<Rightarrow> 'a list \<Rightarrow> bool" where
  "ring c b ps \<longleftrightarrow> (\<forall>i < length ps. c ! ((b + i) mod length c) = Some (ps ! i))"

lemma mod_shift_inj:
  fixes n :: nat
  assumes "i < n" "j < n" "(b + i) mod n = (b + j) mod n"
  shows "i = j"
  using assms
proof (induction i j rule: linorder_wlog)
  case (le i j)
  then have "n dvd j - i" using mod_eq_dvd_iff_nat [of "b + i" "b + j" n] by simp
  with le show ?case by (metis diff_diff_cancel diff_is_0_eq diff_less_Suc dvd_imp_le gr0I le_antisym less_Suc_eq_le less_imp_diff_less not_less)
qed simp

lemma ring_upd:
  assumes "ring c b ps" "length ps \<le> j" "j < length c"
  shows "ring (c[(b + j) mod length c := v]) b ps"
  unfolding ring_def
proof (intro allI impI)
  fix i assume i: "i < length ps"
  then have "(b + i) mod length c \<noteq> (b + j) mod length c" using mod_shift_inj [of i "length c" j b] assms by auto
  then show "(c[(b + j) mod length c := v]) ! ((b + i) mod length (c[(b + j) mod length c := v])) = Some (ps ! i)"
    using assms(1) i by (simp add: ring_def)
qed

lemma ring_snoc: "ring c b ps \<Longrightarrow> c ! ((b + length ps) mod length c) = Some x \<Longrightarrow> ring c b (ps @ [x])"
  by (auto simp: ring_def nth_append less_Suc_eq)

lemma ring_Cons: "ring c b (p # ps) \<longleftrightarrow> c ! (b mod length c) = Some p \<and> ring c ((b + 1) mod length c) ps"
proof -
  have "ring c b (p # ps) \<longleftrightarrow> c ! (b mod length c) = Some p \<and> (\<forall>i < length ps. c ! ((b + Suc i) mod length c) = Some (ps ! i))"
    unfolding ring_def length_Cons All_less_Suc2 by simp
  also have "(\<forall>i < length ps. c ! ((b + Suc i) mod length c) = Some (ps ! i)) \<longleftrightarrow> ring c ((b + 1) mod length c) ps"
    unfolding ring_def by (simp add: mod_simps)
  finally show ?thesis .
qed


lemma q_next_mod: "i < length (qcells q) \<Longrightarrow> q_next q i = (i + 1) mod length (qcells q)"
  by (cases "i + 1 = length (qcells q)") (auto simp: q_next_def)

text \<open>
  A queue that holds the items \<open>ps\<close>, oldest first: they are in the cells after the head, the
  tail is behind the last one, the head cell is free and the locks are not taken.
\<close>

definition queue_holds :: "'a agoo_queue \<Rightarrow> 'a list \<Rightarrow> bool" where
  "queue_holds q ps \<longleftrightarrow>
     (let n = length (qcells q); b = q_next q (qhead q)
      in 4 \<le> n \<and> qhead q < n \<and> qtail q = (b + length ps) mod n \<and> length ps \<le> n - 1 \<and>
         ring (qcells q) b ps \<and> qcells q ! qhead q = None \<and> \<not> push_lock q \<and> \<not> pop_lock q)"

definition queue_items :: "'a agoo_queue \<Rightarrow> 'a list" where
  "queue_items q =
    (let n = length (qcells q); b = q_next q (qhead q)
     in map (\<lambda>i. the (qcells q ! ((b + i) mod n))) [0..<(qtail q + n - b) mod n])"

definition queue_ok :: "'a agoo_queue \<Rightarrow> bool" where
  "queue_ok q \<longleftrightarrow> queue_holds q (queue_items q)"

lemma q_next_less: "i < length (qcells q) \<Longrightarrow> q_next q i < length (qcells q)"
  by (auto simp: q_next_def)

lemma mod_back:
  fixes n :: nat
  assumes "b < n" "k < n"
  shows "((b + k) mod n + n - b) mod n = k"
proof (cases "b + k < n")
  case True
  then show ?thesis using assms by simp
next
  case False
  then have "(b + k) mod n = b + k - n" using assms by (simp add: mod_if)
  then show ?thesis using assms False by simp
qed

lemma queue_holds_items: "queue_holds q ps \<Longrightarrow> queue_items q = ps"
proof -
  assume h: "queue_holds q ps"
  let ?n = "length (qcells q)" and ?b = "q_next q (qhead q)"
  have b: "?b < ?n" using h by (auto simp: queue_holds_def Let_def intro: q_next_less)
  have k: "length ps < ?n" using h by (auto simp: queue_holds_def Let_def)
  have "(qtail q + ?n - ?b) mod ?n = length ps"
    using mod_back [OF b k] h by (simp add: queue_holds_def Let_def)
  then show ?thesis using h
    by (auto simp: queue_items_def queue_holds_def Let_def ring_def intro!: nth_equalityI)
qed

lemma queue_ok_items: "queue_ok q \<Longrightarrow> queue_items q = ps \<Longrightarrow> queue_holds q ps"
  by (simp add: queue_ok_def)

lemma queue_holds_ok: "queue_holds q ps \<Longrightarrow> queue_ok q \<and> queue_items q = ps"
  by (simp add: queue_ok_def queue_holds_items)

lemma queue_init_holds: "queue_holds (agoo_queue_multi_init n a b) []"
  by (simp add: queue_holds_def agoo_queue_multi_init_def q_next_def ring_def Let_def)

lemma queue_init_length: "length (qcells (agoo_queue_init n)) = max n 4"
  by (simp add: agoo_queue_init_def agoo_queue_multi_init_def Let_def max_def)

lemma notify_simps [simp]:
  "qcells (queue_notify q) = qcells q" "qhead (queue_notify q) = qhead q" "qtail (queue_notify q) = qtail q"
  "push_lock (queue_notify q) = push_lock q" "pop_lock (queue_notify q) = pop_lock q"
  by (simp_all add: queue_notify_def)

lemma q_next_upd [simp]:
  "q_next (q\<lparr>qcells := (qcells q)[k := v]\<rparr>) i = q_next q i" "q_next (q\<lparr>qhead := h\<rparr>) i = q_next q i"
  "q_next (q\<lparr>qtail := t\<rparr>) i = q_next q i" "q_next (queue_notify q) i = q_next q i"
  by (simp_all add: q_next_def)

lemma q_next_back:
  assumes "i < length (qcells q)"
  shows "(q_next q i + (length (qcells q) - 1)) mod length (qcells q) = i"
proof (cases "i + 1 = length (qcells q)")
  case True
  then show ?thesis by (simp add: q_next_def)
next
  case False
  then have "q_next q i + (length (qcells q) - 1) = i + length (qcells q)" using assms by (simp add: q_next_def)
  then show ?thesis using assms by simp
qed

text \<open>The tail is at the head exactly when all but one of the cells are used.\<close>

lemma queue_full:
  assumes "queue_holds q ps"
  shows "qhead q = qtail q \<longleftrightarrow> length ps = length (qcells q) - 1"
    "qtail q = q_next q (qhead q) \<longleftrightarrow> ps = []"
proof -
  let ?n = "length (qcells q)" and ?b = "q_next q (qhead q)"
  have n: "4 \<le> ?n" "qhead q < ?n" "qtail q = (?b + length ps) mod ?n" "length ps \<le> ?n - 1"
    using assms by (auto simp: queue_holds_def Let_def)
  have h: "(?b + (?n - 1)) mod ?n = qhead q" by (rule q_next_back [OF n(2)])
  have l: "?n - 1 < ?n" "length ps < ?n" "0 < ?n" using n(1,4) by linarith+
  have "?n - 1 = length ps" if "(?b + (?n - 1)) mod ?n = (?b + length ps) mod ?n"
    by (rule mod_shift_inj [OF l(1,2) that])
  with h n(3) show "qhead q = qtail q \<longleftrightarrow> length ps = ?n - 1" by metis
  have b: "(?b + 0) mod ?n = ?b" using q_next_less [OF n(2)] by simp
  have "length ps = 0" if "(?b + length ps) mod ?n = (?b + 0) mod ?n"
    by (rule mod_shift_inj [OF l(2,3) that])
  with b n(3) show "qtail q = ?b \<longleftrightarrow> ps = []" by (metis length_0_conv)
qed

lemma queue_push_holds:
  assumes "queue_holds q ps"
  shows "if length ps = length (qcells q) - 1 then agoo_queue_push x q = None
    else \<exists>q'. agoo_queue_push x q = Some q' \<and> queue_holds q' (ps @ [x])"
proof -
  let ?n = "length (qcells q)" and ?b = "q_next q (qhead q)"
  have n: "4 \<le> ?n" "qhead q < ?n" "qtail q = (?b + length ps) mod ?n" "length ps \<le> ?n - 1" "ring (qcells q) ?b ps"
     "qcells q ! qhead q = None" "\<not> push_lock q" "\<not> pop_lock q"
    using assms by (auto simp: queue_holds_def Let_def)
  have t: "qtail q < ?n" unfolding n(3) by (rule mod_less_divisor) (use n(1) in linarith)
  show ?thesis
  proof (cases "length ps = ?n - 1")
    case True
    then show ?thesis using queue_full(1) [OF assms] by (simp add: agoo_queue_push_def)
  next
    case False
    then have ne: "qhead q \<noteq> qtail q" using queue_full(1) [OF assms] by simp
    let ?c = "(qcells q)[qtail q := Some x]"
    have "ring ?c ?b ps" using ring_upd [OF n(5), of "length ps"] n False by simp
    moreover have "?c ! ((?b + length ps) mod length ?c) = Some x" using n(3) t by simp
    ultimately have "ring ?c ?b (ps @ [x])" by (rule ring_snoc)
    moreover have "q_next q (qtail q) = (?b + length (ps @ [x])) mod ?n"
      using q_next_mod [OF t] n(3) by (simp add: mod_simps)
    ultimately show ?thesis using n False ne t
      by (auto simp: agoo_queue_push_def queue_holds_def Let_def)
  qed
qed

lemma queue_wait_moves:
  "qtail q \<noteq> nxt \<Longrightarrow> queue_wait fds cnt nxt q = (True, q)"
  by (cases cnt) simp_all

lemma queue_wait_stays:
  "qtail q = nxt \<Longrightarrow> queue_holds q ps \<Longrightarrow> \<exists>q'. queue_wait fds cnt nxt q = (False, q') \<and> queue_holds q' ps"
proof (induction cnt arbitrary: q)
  case (Suc cnt)
  define q1 where "q1 = agoo_queue_listen fds q"
  define q2 where "q2 = (if 0 < qpipe q1 then agoo_queue_release q1 else q1)"
  have e: "qcells q2 = qcells q \<and> qhead q2 = qhead q \<and> qtail q2 = qtail q \<and> push_lock q2 = push_lock q \<and> pop_lock q2 = pop_lock q"
    by (auto simp: q2_def q1_def agoo_queue_listen_def agoo_queue_release_def Let_def split: option.splits)
  then have "q_next q2 = q_next q" by (auto simp: q_next_def fun_eq_iff)
  with e Suc.prems have "qtail q2 = nxt" "queue_holds q2 ps" by (simp_all add: queue_holds_def)
  from Suc.IH [OF this] Suc.prems(1) show ?case
    unfolding queue_wait.simps Let_def q1_def [symmetric] q2_def [symmetric] by simp
qed simp

lemma queue_pop_holds:
  assumes "queue_holds q ps"
  shows "\<exists>q'. agoo_queue_pop fds cnt q = Some (case ps of [] \<Rightarrow> None | p # _ \<Rightarrow> Some p, q') \<and> queue_holds q' (tl ps)"
proof -
  let ?n = "length (qcells q)" and ?b = "q_next q (qhead q)"
  have n: "4 \<le> ?n" "qhead q < ?n" "qtail q = (?b + length ps) mod ?n" "length ps \<le> ?n - 1" "ring (qcells q) ?b ps"
     "qcells q ! qhead q = None" "\<not> push_lock q" "\<not> pop_lock q"
    using assms by (auto simp: queue_holds_def Let_def)
  have bn: "?b < ?n" using q_next_less [OF n(2)] .
  show ?thesis
  proof (cases ps)
    case Nil
    then have "qtail q = ?b" using queue_full(2) [OF assms] by simp
    from queue_wait_stays [OF this assms] obtain q' where "queue_wait fds cnt ?b q = (False, q') \<and> queue_holds q' ps" by blast
    then show ?thesis using Nil n by (auto simp: agoo_queue_pop_def Let_def)
  next
    case (Cons p ps')
    then have ne: "qtail q \<noteq> ?b" using queue_full(2) [OF assms] by simp
    have r: "qcells q ! ?b = Some p" "ring (qcells q) (q_next q ?b) ps'"
      using n(5) bn unfolding Cons ring_Cons q_next_mod [OF bn] by simp_all
    let ?q = "q\<lparr>qhead := ?b, qcells := (qcells q)[?b := None]\<rparr>"
    have nx: "q_next ?q i = q_next q i" for i by (simp add: q_next_def)
    have last: "(q_next q ?b + (?n - 1)) mod ?n = ?b" by (rule q_next_back [OF bn])
    have "ring ((qcells q)[?b := None]) (q_next q ?b) ps'"
      using ring_upd [OF r(2), of "?n - 1" None] n(1,4) Cons unfolding last by simp
    moreover have "qtail q = (q_next q ?b + length ps') mod ?n"
      using n(3) Cons q_next_mod [OF bn] by (simp add: mod_simps)
    ultimately have "queue_holds ?q ps'"
      using n bn Cons by (simp add: queue_holds_def Let_def nx)
    then show ?thesis using n r(1) ne Cons
      by (simp add: agoo_queue_pop_def queue_wait_moves Let_def)
  qed
qed

interpretation queue_fifo: fifo queue_ok queue_items agoo_queue_push "agoo_queue_pop fds cnt" for fds cnt
proof
  fix q x and q' :: "'a agoo_queue"
  assume "queue_ok q" "agoo_queue_push x q = Some q'"
  then show "queue_ok q' \<and> queue_items q' = queue_items q @ [x]"
    using queue_push_holds [of q "queue_items q" x] queue_holds_ok unfolding queue_ok_def
    by (auto split: if_splits)
next
  fix q :: "'a agoo_queue" and x xs
  assume "queue_ok q" "queue_items q = x # xs"
  then show "\<exists>q'. agoo_queue_pop fds cnt q = Some (Some x, q') \<and> queue_ok q' \<and> queue_items q' = xs"
    using queue_pop_holds [OF queue_ok_items, of q "x # xs" fds cnt] queue_holds_ok by fastforce
next
  fix q :: "'a agoo_queue"
  assume "queue_ok q" "queue_items q = []"
  then show "\<exists>q'. agoo_queue_pop fds cnt q = Some (None, q') \<and> queue_ok q' \<and> queue_items q' = []"
    using queue_pop_holds [OF queue_ok_items, of q "[]" fds cnt] queue_holds_ok by fastforce
qed

text \<open>
  C16. Used by one thread at a time the ring is a queue: a queue that holds \<open>ps\<close> refuses a push
  exactly when all cells but one are used and appends the item otherwise, a pop gives the
  oldest item, and NULL (after its polls) exactly when the queue is empty, as
  \<open>agoo_queue_empty\<close> tells.
\<close>

theorem queue_sequential:
  assumes "queue_holds q ps"
  shows "(case agoo_queue_push x q of None \<Rightarrow> length ps = length (qcells q) - 1
            | Some q' \<Rightarrow> length ps < length (qcells q) - 1 \<and> queue_holds q' (ps @ [x]))
    \<and> (\<exists>q'. agoo_queue_pop fds cnt q = Some (case ps of [] \<Rightarrow> None | p # _ \<Rightarrow> Some p, q') \<and> queue_holds q' (tl ps))
    \<and> (agoo_queue_empty q \<longleftrightarrow> ps = [])"
proof -
  have "length ps \<le> length (qcells q) - 1" "qcells q ! qhead q = None"
    using assms by (auto simp: queue_holds_def Let_def)
  then show ?thesis
    using queue_push_holds [OF assms, of x] queue_pop_holds [OF assms, of fds cnt] queue_full(2) [OF assms]
    by (auto simp: agoo_queue_empty_def split: if_splits)
qed

lemma queue_sequential_witness:
  "agoo_queue_push (7::int) (agoo_queue_init 2) \<noteq> None \<and> agoo_queue_empty (agoo_queue_init 2 :: int agoo_queue)"
  using queue_sequential [OF queue_init_holds [of 2 False False], of "7::int" None 0]
  unfolding agoo_queue_init_def [symmetric] by (auto split: option.splits simp: queue_init_length)

text \<open>
  \<open>agoo_queue_count\<close> is one more than the number of items, modulo the size: it is 1 for
  an empty queue and 0 for a full one.
\<close>

theorem queue_count_off:
  assumes "queue_holds q ps"
  shows "agoo_queue_count q = (length ps + 1) mod length (qcells q)"
proof -
  let ?n = "length (qcells q)" and ?b = "q_next q (qhead q)"
  have n: "4 \<le> ?n" "qhead q < ?n" "qtail q = (?b + length ps) mod ?n" "length ps \<le> ?n - 1"
    using assms by (auto simp: queue_holds_def Let_def)
  have t: "qtail q = (qhead q + (length ps + 1) mod ?n) mod ?n"
    unfolding n(3) q_next_mod [OF n(2)] by (simp add: mod_simps)
  have "0 < ?n" using n(1) by linarith
  from mod_back [OF n(2) mod_less_divisor [OF this, of "length ps + 1"]]
  show ?thesis unfolding agoo_queue_count_def t .
qed

lemma queue_count_off_witness: "agoo_queue_count (agoo_queue_init 8 :: int agoo_queue) = 1"
  using queue_count_off [OF queue_init_holds [of 8 False False]]
  by (simp add: agoo_queue_init_def agoo_queue_multi_init_def)

section \<open>Two threads\<close>

text \<open>
  The program points of a pushing and of a popping thread. Each step is one access to the
  shared record; \<open>PWait\<close> and \<open>CWait\<close> are the loops that wait for the other thread.
  The fields \<open>pushed\<close> and \<open>popped\<close> record the items whose push and pop is complete.
\<close>

datatype 'a push_pc = PIdle | PWait 'a | PWrite 'a | PAdvance 'a | PNotify

datatype 'a pop_pc = CIdle | CHead | CClear 'a | CWait | CMove | CRead | CTake "'a option"

record 'a qsys =
  shared :: "'a agoo_queue"
  ppc :: "'a push_pc"
  cpc :: "'a pop_pc"
  pushed :: "'a list"
  popped :: "'a list"

inductive qstep :: "(int \<times> int) option \<Rightarrow> 'a qsys \<Rightarrow> 'a qsys \<Rightarrow> bool" for fds where
  push_call: "ppc s = PIdle \<Longrightarrow> qstep fds s (s\<lparr>ppc := PWait x\<rparr>)"
| push_go: "ppc s = PWait x \<Longrightarrow> qhead (shared s) \<noteq> qtail (shared s) \<Longrightarrow> qstep fds s (s\<lparr>ppc := PWrite x\<rparr>)"
| push_write: "ppc s = PWrite x \<Longrightarrow>
    qstep fds s (s\<lparr>ppc := PAdvance x, shared := (shared s)\<lparr>qcells := (qcells (shared s))[qtail (shared s) := Some x]\<rparr>\<rparr>)"
| push_advance: "ppc s = PAdvance x \<Longrightarrow>
    qstep fds s (s\<lparr>ppc := PNotify, pushed := pushed s @ [x],
      shared := (shared s)\<lparr>qtail := q_next (shared s) (qtail (shared s))\<rparr>\<rparr>)"
| push_notify: "ppc s = PNotify \<Longrightarrow> qstep fds s (s\<lparr>ppc := PIdle, shared := queue_notify (shared s)\<rparr>)"
| pop_call: "cpc s = CIdle \<Longrightarrow> qstep fds s (s\<lparr>cpc := CHead\<rparr>)"
| pop_head: "cpc s = CHead \<Longrightarrow> qcells (shared s) ! qhead (shared s) = Some x \<Longrightarrow> qstep fds s (s\<lparr>cpc := CClear x\<rparr>)"
| pop_clear: "cpc s = CClear x \<Longrightarrow>
    qstep fds s (s\<lparr>cpc := CIdle, popped := popped s @ [x],
      shared := (shared s)\<lparr>qcells := (qcells (shared s))[qhead (shared s) := None]\<rparr>\<rparr>)"
| pop_none: "cpc s = CHead \<Longrightarrow> qcells (shared s) ! qhead (shared s) = None \<Longrightarrow> qstep fds s (s\<lparr>cpc := CWait\<rparr>)"
| pop_ready: "cpc s = CWait \<Longrightarrow> qtail (shared s) \<noteq> q_next (shared s) (qhead (shared s)) \<Longrightarrow> qstep fds s (s\<lparr>cpc := CMove\<rparr>)"
| pop_listen: "cpc s = CWait \<Longrightarrow> qtail (shared s) = q_next (shared s) (qhead (shared s)) \<Longrightarrow>
    qstep fds s (s\<lparr>shared := agoo_queue_listen fds (shared s)\<rparr>)"
| pop_release: "cpc s = CWait \<Longrightarrow> 0 < qpipe (shared s) \<Longrightarrow> qstep fds s (s\<lparr>shared := agoo_queue_release (shared s)\<rparr>)"
| pop_timeout: "cpc s = CWait \<Longrightarrow> qtail (shared s) = q_next (shared s) (qhead (shared s)) \<Longrightarrow> qstep fds s (s\<lparr>cpc := CIdle\<rparr>)"
| pop_move: "cpc s = CMove \<Longrightarrow>
    qstep fds s (s\<lparr>cpc := CRead, shared := (shared s)\<lparr>qhead := q_next (shared s) (qhead (shared s))\<rparr>\<rparr>)"
| pop_read: "cpc s = CRead \<Longrightarrow> qstep fds s (s\<lparr>cpc := CTake (qcells (shared s) ! qhead (shared s))\<rparr>)"
| pop_take: "cpc s = CTake i \<Longrightarrow>
    qstep fds s (s\<lparr>cpc := CIdle, popped := popped s @ (case i of None \<Rightarrow> [] | Some x \<Rightarrow> [x]),
      shared := (shared s)\<lparr>qcells := (qcells (shared s))[qhead (shared s) := None]\<rparr>\<rparr>)"

definition qsys_init :: "nat \<Rightarrow> 'a qsys" where
  "qsys_init n = \<lparr>shared = agoo_queue_init n, ppc = PIdle, cpc = CIdle, pushed = [], popped = []\<rparr>"

inductive qreach :: "(int \<times> int) option \<Rightarrow> nat \<Rightarrow> 'a qsys \<Rightarrow> bool" for fds n where
  reach_init: "qreach fds n (qsys_init n)"
| reach_step: "qreach fds n s \<Longrightarrow> qstep fds s s' \<Longrightarrow> qreach fds n s'"

text \<open>
  The invariant. Between the move of the head and the clearing of its cell the oldest item is
  in the head cell, otherwise after it; \<open>room\<close> bounds the items in either case. A pusher past
  its wait loop still has room, whatever the popper does.
\<close>

definition in_head :: "'a qsys \<Rightarrow> bool" where
  "in_head s \<longleftrightarrow> (case cpc s of CRead \<Rightarrow> True | CTake i \<Rightarrow> True | _ \<Rightarrow> False)"

definition qsys_inv :: "nat \<Rightarrow> 'a qsys \<Rightarrow> 'a list \<Rightarrow> bool" where
  "qsys_inv n s ps \<longleftrightarrow>
    (let q = shared s; c = qcells q; b = (if in_head s then qhead q else q_next q (qhead q));
         room = (if in_head s then n else n - 1)
     in 4 \<le> n \<and> length c = n \<and> qhead q < n \<and> qtail q = (b + length ps) mod n \<and> ring c b ps \<and>
        length ps \<le> room \<and> pushed s = popped s @ ps \<and>
        (\<not> in_head s \<longrightarrow> c ! qhead q = None) \<and>
        (case ppc s of PWrite x \<Rightarrow> length ps < room
           | PAdvance x \<Rightarrow> length ps < room \<and> c ! qtail q = Some x | _ \<Rightarrow> True) \<and>
        (case cpc s of CClear x \<Rightarrow> False | CMove \<Rightarrow> ps \<noteq> [] | CRead \<Rightarrow> ps \<noteq> []
           | CTake i \<Rightarrow> ps \<noteq> [] \<and> i = Some (hd ps) | _ \<Rightarrow> True))"


lemma listen_simps [simp]:
  "qcells (agoo_queue_listen fds q) = qcells q" "qhead (agoo_queue_listen fds q) = qhead q"
  "qtail (agoo_queue_listen fds q) = qtail q" "q_next (agoo_queue_listen fds q) i = q_next q i"
  by (auto simp: agoo_queue_listen_def Let_def q_next_def split: option.splits)

lemma release_simps [simp]:
  "qcells (agoo_queue_release q) = qcells q" "qhead (agoo_queue_release q) = qhead q"
  "qtail (agoo_queue_release q) = qtail q" "q_next (agoo_queue_release q) i = q_next q i"
  by (simp_all add: agoo_queue_release_def q_next_def)

lemma qsys_inv_init: "qsys_inv (max n 4) (qsys_init n) []"
  by (auto simp: qsys_inv_def qsys_init_def in_head_def Let_def ring_def queue_init_length)
    (auto simp: agoo_queue_init_def agoo_queue_multi_init_def q_next_def Let_def)

lemma not_in_head [simp]: "cpc s = CWait \<Longrightarrow> \<not> in_head s" "cpc s = CHead \<Longrightarrow> \<not> in_head s"
   "cpc s = CIdle \<Longrightarrow> \<not> in_head s" "cpc s = CMove \<Longrightarrow> \<not> in_head s" "cpc s = CRead \<Longrightarrow> in_head s" "cpc s = CTake i \<Longrightarrow> in_head s"
  by (simp_all add: in_head_def)

lemma in_head_upd [simp]:
  "in_head (s\<lparr>shared := q\<rparr>) = in_head s" "in_head (s\<lparr>ppc := p\<rparr>) = in_head s" "in_head (s\<lparr>pushed := l\<rparr>) = in_head s"
  "in_head (s\<lparr>popped := l\<rparr>) = in_head s"
  "in_head (s\<lparr>cpc := r\<rparr>) = (case r of CRead \<Rightarrow> True | CTake i \<Rightarrow> True | _ \<Rightarrow> False)"
  by (simp_all add: in_head_def)

text \<open>The base, the room and the arithmetic of the tail.\<close>

definition qbase :: "'a qsys \<Rightarrow> nat" where
  "qbase s = (if in_head s then qhead (shared s) else q_next (shared s) (qhead (shared s)))"

lemma qsys_invD:
  assumes "qsys_inv n s ps"
  shows "4 \<le> n" "length (qcells (shared s)) = n" "qhead (shared s) < n" "qbase s < n"
    "qtail (shared s) = (qbase s + length ps) mod n" "qtail (shared s) < n" "ring (qcells (shared s)) (qbase s) ps"
    "length ps \<le> (if in_head s then n else n - 1)" "pushed s = popped s @ ps"
    "\<not> in_head s \<Longrightarrow> qcells (shared s) ! qhead (shared s) = None"
    "qhead (shared s) = (qbase s + (if in_head s then n else n - 1)) mod n"
proof -
  note a = assms [unfolded qsys_inv_def Let_def, folded qbase_def]
  show "4 \<le> n" "length (qcells (shared s)) = n" "qhead (shared s) < n"
    "qtail (shared s) = (qbase s + length ps) mod n" "ring (qcells (shared s)) (qbase s) ps"
    "length ps \<le> (if in_head s then n else n - 1)" "pushed s = popped s @ ps"
    "\<not> in_head s \<Longrightarrow> qcells (shared s) ! qhead (shared s) = None"
    using a by simp_all
  show "qbase s < n" using a q_next_less [of "qhead (shared s)" "shared s"] by (simp add: qbase_def)
  have "0 < n" using a by linarith
  then show "qtail (shared s) < n" using a by simp
  show "qhead (shared s) = (qbase s + (if in_head s then n else n - 1)) mod n"
    using a q_next_back [of "qhead (shared s)" "shared s"] by (simp add: qbase_def)
qed

lemma room_at:
  assumes "qsys_inv n s ps"
  shows "qhead (shared s) \<noteq> qtail (shared s) \<Longrightarrow> length ps < (if in_head s then n else n - 1)"
  using qsys_invD(5,8,11) [OF assms] by (metis order_le_less)

lemma push_steps:
  assumes "qsys_inv n s ps"
  shows "ppc s = PWrite x \<Longrightarrow> qsys_inv n (s\<lparr>ppc := PAdvance x, shared := (shared s)\<lparr>qcells := (qcells (shared s))[qtail (shared s) := Some x]\<rparr>\<rparr>) ps"
    and "ppc s = PAdvance x \<Longrightarrow> qsys_inv n (s\<lparr>ppc := PNotify, pushed := pushed s @ [x],
      shared := (shared s)\<lparr>qtail := q_next (shared s) (qtail (shared s))\<rparr>\<rparr>) (ps @ [x])"
proof -
  note d = qsys_invD [OF assms]
  note a = assms [unfolded qsys_inv_def Let_def, folded qbase_def]
  let ?c = "qcells (shared s)" and ?t = "qtail (shared s)"
  {
    assume p: "ppc s = PWrite x"
    then have l: "length ps < (if in_head s then n else n - 1)" using a by simp
    then have ln: "length ps < n" using d(1) by (auto split: if_splits)
    then have "ring (?c[?t := Some x]) (qbase s) ps"
      using ring_upd [OF d(7), of "length ps" "Some x"] d(2,5) by simp
    moreover have "?t \<noteq> qhead (shared s)" if h: "\<not> in_head s"
    proof
      assume "?t = qhead (shared s)"
      then have "(qbase s + length ps) mod n = (qbase s + (n - 1)) mod n" using d(5,11) h by simp
      then have "length ps = n - 1" by (rule mod_shift_inj [rotated 2]) (use ln in linarith)+
      then show False using l h by simp
    qed
    ultimately show "qsys_inv n (s\<lparr>ppc := PAdvance x, shared := (shared s)\<lparr>qcells := ?c[?t := Some x]\<rparr>\<rparr>) ps"
      using a p l d(6) by (auto simp: qsys_inv_def Let_def qbase_def in_head_def q_next_def split: pop_pc.splits)
  }
  {
    assume p: "ppc s = PAdvance x"
    then have l: "length ps < (if in_head s then n else n - 1) \<and> ?c ! ?t = Some x"
      using a by (elim conjE) (simp only: push_pc.case simp_thms)
    have "?c ! ((qbase s + length ps) mod length ?c) = Some x" using l d(2,5) by metis
    then have "ring ?c (qbase s) (ps @ [x])" by (rule ring_snoc [OF d(7)])
    moreover have "q_next (shared s) ?t = (qbase s + length (ps @ [x])) mod n"
      using q_next_mod [of ?t "shared s"] d(2,5,6) by (simp add: mod_simps)
    moreover have "hd (ps @ [x]) = hd ps" if "ps \<noteq> []" using that by simp
    ultimately show "qsys_inv n (s\<lparr>ppc := PNotify, pushed := pushed s @ [x],
      shared := (shared s)\<lparr>qtail := q_next (shared s) ?t\<rparr>\<rparr>) (ps @ [x])"
      using a p l by (auto simp: qsys_inv_def Let_def qbase_def in_head_def split: pop_pc.splits)
  }
qed

lemma pop_steps:
  assumes "qsys_inv n s ps"
  shows "cpc s = CMove \<Longrightarrow> qsys_inv n (s\<lparr>cpc := CRead, shared := (shared s)\<lparr>qhead := q_next (shared s) (qhead (shared s))\<rparr>\<rparr>) ps"
    and "cpc s = CTake i \<Longrightarrow> qsys_inv n (s\<lparr>cpc := CIdle, popped := popped s @ (case i of None \<Rightarrow> [] | Some x \<Rightarrow> [x]),
      shared := (shared s)\<lparr>qcells := (qcells (shared s))[qhead (shared s) := None]\<rparr>\<rparr>) (tl ps)"
proof -
  note d = qsys_invD [OF assms]
  note a = assms [unfolded qsys_inv_def Let_def, folded qbase_def]
  let ?c = "qcells (shared s)" and ?h = "qhead (shared s)"
  {
    assume p: "cpc s = CMove"
    then have "qbase s = q_next (shared s) ?h" "ps \<noteq> []" "\<not> in_head s" using a by (simp_all add: qbase_def)
    then show "qsys_inv n (s\<lparr>cpc := CRead, shared := (shared s)\<lparr>qhead := q_next (shared s) ?h\<rparr>\<rparr>) ps"
      using a d(4) by (auto simp: qsys_inv_def Let_def in_head_def split: push_pc.splits)
  }
  {
    assume p: "cpc s = CTake i"
    then have b: "qbase s = ?h" "in_head s" by (simp_all add: qbase_def)
    obtain x xs where ps: "ps = x # xs" "i = Some x" using a p by (cases ps) auto
    have r: "ring ?c (q_next (shared s) ?h) xs"
      using d(7) q_next_mod [of ?h "shared s"] d(2,3) unfolding ps ring_Cons b by simp
    have l: "length xs \<le> n - 1" using d(8) b ps by simp
    have "ring (?c[?h := None]) (q_next (shared s) ?h) xs"
      using ring_upd [OF r, of "n - 1" None] l d(1,2) q_next_back [of ?h "shared s"] d(3) by simp
    moreover have "qtail (shared s) = (q_next (shared s) ?h + length xs) mod n"
      using d(5) q_next_mod [of ?h "shared s"] d(2,3) by (simp add: b ps mod_simps)
    moreover have t: "qtail (shared s) \<noteq> ?h" if ln: "length ps < n"
    proof
      assume "qtail (shared s) = ?h"
      then have "(?h + length ps) mod n = (?h + 0) mod n" using d(3,5) by (simp add: b)
      then have "length ps = 0" by (rule mod_shift_inj [rotated 2]) (use ln in linarith)+
      then show False by (simp add: ps)
    qed
    moreover have "length xs < n - 1" if "length ps < n" using that by (simp add: ps)
    moreover have "\<forall>y. ppc s = PWrite y \<or> ppc s = PAdvance y \<longrightarrow> length ps < n" "\<forall>y. ppc s = PAdvance y \<longrightarrow> ?c ! qtail (shared s) = Some y"
      using a b(2) by auto
    ultimately show "qsys_inv n (s\<lparr>cpc := CIdle, popped := popped s @ (case i of None \<Rightarrow> [] | Some x \<Rightarrow> [x]),
        shared := (shared s)\<lparr>qcells := ?c[?h := None]\<rparr>\<rparr>) (tl ps)"
      using d(1,2,3,9) b l ps unfolding qsys_inv_def Let_def by (cases "ppc s") (simp_all add: in_head_def)
  }
qed

lemma qsys_inv_step: "qstep fds s s' \<Longrightarrow> qsys_inv n s ps \<Longrightarrow> \<exists>ps'. qsys_inv n s' ps'"
proof (induction rule: qstep.induct)
  case (push_go s x)
  from push_go.prems push_go.hyps room_at [OF push_go.prems] show ?case
    by (intro exI [of _ ps]) (auto simp: qsys_inv_def Let_def split: pop_pc.splits)
next
  case (push_write s x)
  show ?case by (rule exI, rule push_steps(1) [OF push_write.prems push_write.hyps])
next
  case (push_advance s x)
  show ?case by (rule exI, rule push_steps(2) [OF push_advance.prems push_advance.hyps])
next
  case (pop_move s)
  show ?case by (rule exI, rule pop_steps(1) [OF pop_move.prems pop_move.hyps])
next
  case (pop_take s i)
  show ?case by (rule exI, rule pop_steps(2) [OF pop_take.prems pop_take.hyps])
next
  case (pop_ready s)
  then show ?case using qsys_invD(4) [OF pop_ready.prems]
    by (intro exI [of _ ps]) (auto simp: qsys_inv_def Let_def qbase_def)
next
  case (pop_read s)
  then show ?case
    by (intro exI [of _ ps], cases ps) (auto simp: qsys_inv_def Let_def ring_Cons split: push_pc.splits)
next
  case (pop_clear s x)
  then show ?case by (simp add: qsys_inv_def Let_def)
next
  case (pop_head s x)
  then show ?case by (simp add: qsys_inv_def Let_def)
qed (rule exI [of _ ps], case_tac "in_head s"; case_tac "ppc s"; auto simp: qsys_inv_def Let_def)+


lemma qreach_inv: "qreach fds n s \<Longrightarrow> \<exists>ps. qsys_inv (max n 4) s ps"
proof (induction rule: qreach.induct)
  case reach_init
  then show ?case using qsys_inv_init by blast
next
  case (reach_step s s')
  then show ?case using qsys_inv_step by blast
qed

text \<open>
  C10. However a pushing and a popping thread interleave, step by step, the items popped are
  the items pushed, in order, without loss, duplication or an overwritten cell: the items
  still in flight follow the popped ones in the pushed list, they never exceed the cells, and
  when both threads are idle they are the contents of the ring.
\<close>

theorem queue_interleaved:
  assumes "qreach fds n s"
  shows "\<exists>ps. pushed s = popped s @ ps \<and> length ps \<le> max n 4 \<and>
    (ppc s = PIdle \<and> cpc s = CIdle \<longrightarrow> queue_items (shared s) = ps \<and> length ps < max n 4)"
proof -
  obtain ps where i: "qsys_inv (max n 4) s ps" using qreach_inv [OF assms] by blast
  note d = qsys_invD [OF i]
  have "queue_items (shared s) = ps \<and> length ps < max n 4" if idle: "cpc s = CIdle"
  proof -
    have b: "qbase s = q_next (shared s) (qhead (shared s))" and l: "length ps < max n 4"
      using idle d(8) by (auto simp: qbase_def in_head_def)
    have "(qtail (shared s) + max n 4 - qbase s) mod max n 4 = length ps"
      unfolding d(5) by (rule mod_back [OF d(4) l])
    then show ?thesis
      using d(2,7) l by (auto simp: queue_items_def Let_def b ring_def intro!: nth_equalityI)
  qed
  moreover have "length ps \<le> max n 4" using d(8) by (auto split: if_splits)
  ultimately show ?thesis using d(9) by blast
qed

lemma queue_interleaved_witness:
  "\<exists>(s :: int qsys) ps. pushed s = popped s @ ps \<and> ppc s = PIdle \<and> cpc s = CIdle \<and> queue_items (shared s) = ps"
proof -
  have "qreach None 4 (qsys_init 4 :: int qsys)" by (rule reach_init)
  then show ?thesis using queue_interleaved [of None 4 "qsys_init 4 :: int qsys"]
    by (intro exI [of _ "qsys_init 4"]) (auto simp: qsys_init_def)
qed

end
