(* ===== verification/Patterns.thy ===== *)
theory Patterns
  imports Prelude
begin

text \<open>
  The matching of request paths against hook patterns (\<open>ext/agoo/hook.c\<close>) and of publish
  subjects against subscription patterns (\<open>ext/agoo/subject.c\<close>). Both loops walk the
  characters; what they decide is stated on the segments between the separators.
\<close>

section \<open>Hooks\<close>

datatype agoo_method = AGOO_CONNECT | AGOO_DELETE | AGOO_GET | AGOO_HEAD | AGOO_OPTIONS | AGOO_POST
  | AGOO_PUT | AGOO_PATCH | AGOO_ALL | AGOO_NONE
  | AGOO_ON_MSG | AGOO_ON_BIN | AGOO_ON_CLOSE | AGOO_ON_SHUTDOWN | AGOO_ON_EMPTY | AGOO_ON_ERROR

datatype hook_type = NO_HOOK | RACK_HOOK | BASE_HOOK | WAB_HOOK | PUSH_HOOK | FUNC_HOOK | FAST_HOOK

text \<open>The handler (an object or a function of the embedding language) is a parameter type.\<close>

record 'h agoo_hook =
  hmethod :: agoo_method
  hpattern :: "string option"
  htype :: hook_type
  hhandler :: 'h
  no_queue :: bool

definition agoo_hook_create :: "agoo_method \<Rightarrow> string option \<Rightarrow> 'h \<Rightarrow> hook_type \<Rightarrow> 'h agoo_hook" where
  "agoo_hook_create method pattern handler type =
    \<lparr>hmethod = method,
     hpattern = (case pattern of None \<Rightarrow> (if AGOO_NONE \<noteq> method then Some '''' else None) | Some pat \<Rightarrow> Some pat),
     htype = type, hhandler = handler, no_queue = False\<rparr>"

definition agoo_hook_func_create :: "agoo_method \<Rightarrow> string option \<Rightarrow> 'h \<Rightarrow> 'h agoo_hook" where
  "agoo_hook_func_create method pattern func =
    \<lparr>hmethod = method,
     hpattern = (case pattern of None \<Rightarrow> (if AGOO_NONE \<noteq> method then Some '''' else None) | Some pat \<Rightarrow> Some pat),
     htype = FUNC_HOOK, hhandler = func, no_queue = False\<rparr>"

text \<open>The loop of \<open>agoo_hook_match\<close> on the rest of the pattern and the rest of the path.\<close>

fun glob_match :: "string \<Rightarrow> string \<Rightarrow> bool" where
  "glob_match [] p = (p = [])"
| "glob_match (c # pat) [] = False"
| "glob_match (c # pat) (x # p) =
     (if x = c then glob_match pat p
      else if c = CHR ''*'' then
        (if cat pat 0 = CHR ''*'' then True
         else glob_match pat (dropWhile (\<lambda>y. y \<noteq> CHR ''/'') (x # p)))
      else False)"

definition strip_slash :: "string \<Rightarrow> string" where
  "strip_slash path = (if 1 < length path \<and> last path = CHR ''/'' then butlast path else path)"

text \<open>\<open>UB\<close>: the pattern of a hook created without one for no method is NULL.\<close>

definition agoo_hook_match :: "'h agoo_hook \<Rightarrow> agoo_method \<Rightarrow> string \<Rightarrow> bool mem" where
  "agoo_hook_match hook method path =
    (if method \<noteq> hmethod hook \<and> AGOO_ALL \<noteq> hmethod hook then Val False
     else case hpattern hook of
       None \<Rightarrow> UB
     | Some pat \<Rightarrow> Val (glob_match pat (strip_slash path)))"

fun agoo_hook_find :: "'h agoo_hook list \<Rightarrow> agoo_method \<Rightarrow> string \<Rightarrow> 'h agoo_hook option mem" where
  "agoo_hook_find [] method path = Val None"
| "agoo_hook_find (hook # hooks) method path =
     mem_bind (agoo_hook_match hook method path) (\<lambda>m.
       if m then Val (Some hook) else agoo_hook_find hooks method path)"

section \<open>Subjects\<close>

text \<open>The loop of \<open>agoo_subject_check\<close>; the same text is \<open>subject_check\<close> of \<open>server.c\<close>.\<close>

fun agoo_subject_check :: "string \<Rightarrow> string \<Rightarrow> bool" where
  "agoo_subject_check [] s = (s = [])"
| "agoo_subject_check (c # pat) [] = False"
| "agoo_subject_check (c # pat) (x # s) =
     (if x = c then agoo_subject_check pat s
      else if c = CHR ''*'' then
        (case dropWhile (\<lambda>y. y \<noteq> CHR ''.'') (x # s) of
           [] \<Rightarrow> True
         | _ # s' \<Rightarrow> agoo_subject_check pat s')
      else if c = CHR ''>'' then True
      else False)"

text \<open>A subject is a copy of the pattern up to the length given.\<close>

definition agoo_subject_create :: "string \<Rightarrow> nat \<Rightarrow> string mem" where
  "agoo_subject_create pattern plen = mem_bind (blk_read pattern plen) (\<lambda>p. Val (cstr p))"

section \<open>Paths by segment\<close>

text \<open>
  \<open>*\<close> stands for one segment, which at the end of the path must not be empty, \<open>**\<close> for all
  that remains, any other segment for itself.
\<close>

fun seg_match :: "string list \<Rightarrow> string list \<Rightarrow> bool" where
  "seg_match [] xs = (xs = [])"
| "seg_match (p # ps) [] = False"
| "seg_match (p # ps) (x # xs) =
     (if p = ''**'' then x \<noteq> [] \<or> xs \<noteq> []
      else if p = ''*'' then (x \<noteq> [] \<or> xs \<noteq> []) \<and> seg_match ps xs
      else p = x \<and> seg_match ps xs)"

definition plain :: "char \<Rightarrow> string \<Rightarrow> bool" where
  "plain d s \<longleftrightarrow> d \<notin> set s \<and> CHR ''*'' \<notin> set s \<and> CHR ''>'' \<notin> set s"

definition glob_segs :: "string list \<Rightarrow> bool" where
  "glob_segs ps \<longleftrightarrow> (\<forall>p \<in> set ps. plain CHR ''/'' p \<or> p = ''*'' \<or> p = ''**'')"

lemma glob_match_lit:
  assumes "plain CHR ''/'' s" "CHR ''/'' \<notin> set x"
    "r = [] \<or> hd r = CHR ''/''" "q = [] \<or> hd q = CHR ''/''"
  shows "glob_match (s @ r) (x @ q) = (s = x \<and> glob_match r q)"
  using assms(1,2)
proof (induction s arbitrary: x)
  case Nil
  show ?case
  proof (cases x)
    case (Cons y ys)
    then show ?thesis using Nil assms(3,4) by (cases r) auto
  qed simp
next
  case (Cons c s)
  then have c: "c \<noteq> CHR ''*''" "c \<noteq> CHR ''/''" "plain CHR ''/'' s" by (auto simp: plain_def)
  show ?case
  proof (cases x)
    case Nil
    then show ?thesis using c assms(4) by (cases q) auto
  next
    case (Cons y ys)
    then show ?thesis using Cons.prems Cons.IH [OF c(3), of ys] c by auto
  qed
qed

lemma dropWhile_seg: "d \<notin> set x \<Longrightarrow> q = [] \<or> hd q = d \<Longrightarrow> dropWhile (\<lambda>y. y \<noteq> d) (x @ q) = q"
  by (induction x) (cases q; auto)+

lemma glob_match_star:
  assumes "plain CHR ''/'' x" "r = [] \<or> hd r = CHR ''/''" "q = [] \<or> hd q = CHR ''/''"
  shows "glob_match (CHR ''*'' # r) (x @ q) = (x @ q \<noteq> [] \<and> glob_match r q)"
proof (cases "x @ q")
  case (Cons y ys)
  moreover have "y \<noteq> CHR ''*''" using Cons assms(1,3) by (cases x) (auto simp: plain_def)
  moreover have "cat r 0 \<noteq> CHR ''*''" using assms(2) by (cases r) (auto simp: cat_def NUL_def)
  ultimately show ?thesis using dropWhile_seg [of "CHR ''/''" x q] assms(1,3) unfolding Cons by (auto simp: plain_def)
qed simp

lemma glob_match_rest: "glob_match (CHR ''*'' # CHR ''*'' # r) (x @ q) = (x @ q \<noteq> [])"
  if "plain CHR ''/'' x" "q = [] \<or> hd q = CHR ''/''"
proof (cases "x @ q")
  case (Cons y ys)
  moreover have "y \<noteq> CHR ''*''" using Cons that by (cases x) (auto simp: plain_def)
  ultimately show ?thesis by (simp add: cat_def)
qed simp

lemma join_rest_hd: "join_rest d ss = [] \<or> hd (join_rest d ss) = d"
  by (cases ss) simp_all

lemma glob_match_segs:
  "glob_segs ps \<Longrightarrow> \<forall>x \<in> set xs. plain CHR ''/'' x \<Longrightarrow>
   glob_match (join_rest CHR ''/'' ps) (join_rest CHR ''/'' xs) = seg_match ps xs"
proof (induction ps xs rule: seg_match.induct)
  case (1 xs)
  then show ?case by (cases xs) simp_all
next
  case (2 p ps)
  then show ?case by simp
next
  case (3 p ps x xs)
  note h = join_rest_hd [of "CHR ''/''" ps] join_rest_hd [of "CHR ''/''" xs]
  have x: "plain CHR ''/'' x" using 3 by simp
  have e: "join_rest CHR ''/'' xs = [] \<longleftrightarrow> xs = []" by (cases xs) simp_all
  have p: "plain CHR ''/'' p \<or> p = ''*'' \<or> p = ''**''" using 3 by (simp add: glob_segs_def)
  then consider (a) "p = ''**''" | (b) "p = ''*''" | (c) "plain CHR ''/'' p" "p \<noteq> ''*''" "p \<noteq> ''**''"
    by (auto simp: plain_def)
  then show ?case
  proof cases
    case a
    then show ?thesis using glob_match_rest [OF x h(2)] e by simp
  next
    case b
    then show ?thesis using glob_match_star [OF x h] e 3 by (auto simp: glob_segs_def)
  next
    case c
    then show ?thesis using glob_match_lit [OF c(1) _ h, of x] x 3 by (auto simp: glob_segs_def plain_def)
  qed
qed

lemma join_with_rest: "ss \<noteq> [] \<Longrightarrow> d # join_with d ss = join_rest d ss"
  by (cases ss) simp_all

lemma glob_match_join:
  assumes "glob_segs ps" "\<forall>x \<in> set xs. plain CHR ''/'' x" "ps \<noteq> []" "xs \<noteq> []"
  shows "glob_match (join_with CHR ''/'' ps) (join_with CHR ''/'' xs) = seg_match ps xs"
  using glob_match_segs [OF assms(1,2)] unfolding join_with_rest [OF assms(3), symmetric]
    join_with_rest [OF assms(4), symmetric] by simp

text \<open>A hook with the segments of its pattern, and whether it serves a request.\<close>

definition hook_ok :: "'h agoo_hook \<times> string list \<Rightarrow> bool" where
  "hook_ok h \<longleftrightarrow> hpattern (fst h) = Some (join_with CHR ''/'' (snd h)) \<and> snd h \<noteq> [] \<and> glob_segs (snd h)"

definition hook_serves :: "agoo_method \<Rightarrow> string list \<Rightarrow> 'h agoo_hook \<times> string list \<Rightarrow> bool" where
  "hook_serves m xs h \<longleftrightarrow> (hmethod (fst h) = m \<or> hmethod (fst h) = AGOO_ALL) \<and> seg_match (snd h) xs"

text \<open>
  C17. \<open>agoo_hook_find\<close> gives the first hook of the list whose method is the request's or
  \<open>AGOO_ALL\<close> and whose pattern matches the path segment by segment, and NULL exactly when
  there is none, for patterns of plain, \<open>*\<close> and \<open>**\<close> segments.
\<close>

theorem hook_find_first:
  assumes "\<forall>h \<in> set hs. hook_ok h" "strip_slash path = join_with CHR ''/'' xs" "xs \<noteq> []"
    "\<forall>x \<in> set xs. plain CHR ''/'' x"
  shows "agoo_hook_find (map fst hs) m path = Val (map_option fst (find (hook_serves m xs) hs))"
  using assms(1)
proof (induction hs)
  case (Cons h hs)
  then have "agoo_hook_match (fst h) m path = Val (hook_serves m xs h)"
    using glob_match_join [OF _ assms(4) _ assms(3), of "snd h"] assms(2)
    by (auto simp: hook_ok_def hook_serves_def agoo_hook_match_def)
  with Cons show ?case by simp
qed simp

definition demo_hooks :: "(nat agoo_hook \<times> string list) list" where
  "demo_hooks =
    [(agoo_hook_create AGOO_GET (Some ''/a/*'') 1 RACK_HOOK, [[], ''a'', ''*'']),
     (agoo_hook_create AGOO_ALL (Some ''/a/**'') 2 RACK_HOOK, [[], ''a'', ''**''])]"

lemma hook_find_first_witness:
  "agoo_hook_find (map fst demo_hooks) AGOO_GET ''/a/b/c/'' = Val (Some (fst (demo_hooks ! 1)))"
  using hook_find_first [of demo_hooks "''/a/b/c/''" "[[], ''a'', ''b'', ''c'']" AGOO_GET]
  by (simp add: demo_hooks_def hook_ok_def agoo_hook_create_def glob_segs_def plain_def strip_slash_def hook_serves_def)

section \<open>Subjects by token\<close>

text \<open>
  What the documentation of \<open>subscribe\<close> promises: \<open>*\<close> stands for any one token, \<open>>\<close> for all
  remaining ones.
\<close>

fun subj_match :: "string list \<Rightarrow> string list \<Rightarrow> bool" where
  "subj_match [] xs = (xs = [])"
| "subj_match (p # ps) [] = False"
| "subj_match (p # ps) (x # xs) = (if p = ''>'' then True else (p = ''*'' \<or> p = x) \<and> subj_match ps xs)"

definition tokens :: "string list \<Rightarrow> bool" where
  "tokens xs \<longleftrightarrow> xs \<noteq> [] \<and> (\<forall>x \<in> set xs. plain CHR ''.'' x \<and> x \<noteq> [])"

lemma subject_lit:
  assumes "plain CHR ''.'' s" "plain CHR ''.'' x"
    "r = [] \<or> hd r = CHR ''.''" "q = [] \<or> hd q = CHR ''.''"
  shows "agoo_subject_check (s @ r) (x @ q) = (s = x \<and> agoo_subject_check r q)"
  using assms(1,2)
proof (induction s arbitrary: x)
  case Nil
  show ?case
  proof (cases x)
    case (Cons y ys)
    then show ?thesis using Nil assms(3,4) by (cases r) (auto simp: plain_def)
  qed simp
next
  case (Cons c s)
  then have c: "c \<noteq> CHR ''*''" "c \<noteq> CHR ''>''" "c \<noteq> CHR ''.''" "plain CHR ''.'' s" by (auto simp: plain_def)
  show ?case
  proof (cases x)
    case Nil
    then show ?thesis using c assms(4) by (cases q) auto
  next
    case (Cons y ys)
    then show ?thesis using Cons.prems Cons.IH [OF c(4), of ys] c by (auto simp: plain_def)
  qed
qed

lemma subject_star:
  assumes "plain CHR ''.'' x" "x \<noteq> []" "q = [] \<or> hd q = CHR ''.''"
  shows "agoo_subject_check (CHR ''*'' # r) (x @ q) = (case q of [] \<Rightarrow> True | _ # s \<Rightarrow> agoo_subject_check r s)"
proof -
  obtain y ys where x: "x = y # ys" "y \<noteq> CHR ''*''" using assms(1,2) by (cases x) (auto simp: plain_def)
  have d: "dropWhile (\<lambda>y. y \<noteq> CHR ''.'') (x @ q) = q" using assms by (intro dropWhile_seg) (auto simp: plain_def)
  show ?thesis using x(2) d unfolding x(1) append_Cons agoo_subject_check.simps by simp
qed

lemma tokens_Cons: "tokens (x # xs) \<longleftrightarrow> plain CHR ''.'' x \<and> x \<noteq> [] \<and> (xs = [] \<or> tokens xs)"
  by (auto simp: tokens_def)

lemma tokens_join: "tokens xs \<Longrightarrow> \<exists>y ys. join_with CHR ''.'' xs = y # ys \<and> y \<noteq> CHR ''.'' \<and> y \<noteq> CHR ''*'' \<and> y \<noteq> CHR ''>''"
  by (cases xs; cases "hd xs") (auto simp: tokens_def plain_def)

lemma join_rest_with: "join_rest d xs = (if xs = [] then [] else d # join_with d xs)"
  by (cases xs) simp_all

text \<open>A leading list of plain tokens is matched token by token.\<close>

lemma subject_prefix:
  assumes "\<forall>l \<in> set ls. plain CHR ''.'' l" "r = [] \<or> hd r = CHR ''.''"
  shows "tokens xs \<or> xs = [] \<Longrightarrow> agoo_subject_check (join_rest CHR ''.'' ls @ r) (join_rest CHR ''.'' xs) =
    (take (length ls) xs = ls \<and> agoo_subject_check r (join_rest CHR ''.'' (drop (length ls) xs)))"
  using assms(1)
proof (induction ls arbitrary: xs)
  case (Cons l ls)
  show ?case
  proof (cases xs)
    case (Cons x xs')
    have x: "plain CHR ''.'' x" "tokens xs' \<or> xs' = []" using Cons.prems(1) Cons by (auto simp: tokens_Cons)
    have h: "join_rest CHR ''.'' ls @ r = [] \<or> hd (join_rest CHR ''.'' ls @ r) = CHR ''.''"
      using assms(2) join_rest_hd [of "CHR ''.''" ls] by (cases "join_rest CHR ''.'' ls") auto
    show ?thesis using subject_lit [OF _ x(1) h join_rest_hd, of l xs'] Cons.IH [OF x(2)] Cons.prems(2) Cons by auto
  qed simp
qed simp



text \<open>
  A \<open>*\<close> that is not the last token of a pattern, as in \<open>people.*.log\<close>, does not do what
  the documentation says: no subject with the tokens the pattern asks for is matched, while
  a subject that ends with the token in the place of the \<open>*\<close> is.
\<close>

theorem subject_inner_star:
  assumes "\<forall>l \<in> set ls. plain CHR ''.'' l" "ls = [] \<or> tokens ls" "tokens [x]" "tokens rs"
  shows "\<not> agoo_subject_check (join_with CHR ''.'' (ls @ [''*''] @ rs)) (join_with CHR ''.'' (ls @ [x] @ rs))
    \<and> subj_match (ls @ [''*''] @ rs) (ls @ [x] @ rs)
    \<and> agoo_subject_check (join_with CHR ''.'' (ls @ [''*''] @ rs)) (join_with CHR ''.'' (ls @ [x]))
    \<and> \<not> subj_match (ls @ [''*''] @ rs) (ls @ [x])"
proof -
  define w where "w = ''*'' # rs"
  have j: "join_rest CHR ''.'' (ls @ w) = join_rest CHR ''.'' ls @ join_rest CHR ''.'' w" by (induction ls) simp_all
  have t: "tokens (ls @ [x] @ rs)" "tokens (ls @ [x])" using assms by (auto simp: tokens_def)
  have c: "agoo_subject_check (join_with CHR ''.'' (ls @ w)) (join_with CHR ''.'' xs) =
      (take (length ls) xs = ls \<and> agoo_subject_check (join_rest CHR ''.'' w) (join_rest CHR ''.'' (drop (length ls) xs)))"
    if "tokens xs" for xs
  proof -
    have "agoo_subject_check (join_rest CHR ''.'' (ls @ w)) (join_rest CHR ''.'' xs) =
       agoo_subject_check (join_with CHR ''.'' (ls @ w)) (join_with CHR ''.'' xs)"
      using that by (simp add: join_rest_with tokens_def w_def)
    then show ?thesis unfolding j using subject_prefix [OF assms(1) join_rest_hd] that by blast
  qed
  have x: "plain CHR ''.'' x" "x \<noteq> []" using assms(3) by (auto simp: tokens_def)
  have rs: "rs \<noteq> []" using assms(4) by (simp add: tokens_def)
  obtain y ys where y: "join_with CHR ''.'' rs = y # ys" "y \<noteq> CHR ''.''" using tokens_join [OF assms(4)] by blast
  have s: "join_rest CHR ''.'' rs = CHR ''.'' # y # ys" using y(1) rs by (simp add: join_rest_with)
  have "\<not> agoo_subject_check (join_rest CHR ''.'' w) (join_rest CHR ''.'' ([x] @ rs))"
    using subject_star [OF x, of "join_rest CHR ''.'' rs" "join_rest CHR ''.'' rs"] y(2) by (simp add: w_def s)
  moreover have "agoo_subject_check (join_rest CHR ''.'' w) (join_rest CHR ''.'' [x])"
    using subject_star [OF x, of "[]"] by (simp add: w_def)
  moreover have "subj_match (ls @ w) (ls @ [x] @ rs)" "\<not> subj_match (ls @ w) (ls @ [x])"
  proof -
    have "subj_match rs rs" by (induction rs) simp_all
    then show "subj_match (ls @ w) (ls @ [x] @ rs)" by (induction ls) (simp_all add: w_def)
    show "\<not> subj_match (ls @ w) (ls @ [x])" using assms(1) rs
    proof (induction ls)
      case Nil
      then show ?case by (cases rs) (simp_all add: w_def)
    next
      case (Cons l ls)
      then show ?case by (auto simp: plain_def)
    qed
  qed
  ultimately show ?thesis using c [OF t(1)] c [OF t(2)] by (simp add: w_def)
qed

lemma subject_inner_star_witness:
  "\<not> agoo_subject_check ''people.*.log'' ''people.fred.log'' \<and> agoo_subject_check ''people.*.log'' ''people.fred''"
  using subject_inner_star [of "[''people'']" "''fred''" "[''log'']"] by (simp add: plain_def tokens_def)

end
