(* ===== verification/Err.thy ===== *)
theory Err
  imports Prelude
begin

text \<open>
  The error record of \<open>ext/agoo/err.c\<close> with its message buffer. The formatted message and
  the text of \<open>strerror\<close> are arguments.
\<close>

datatype agoo_err_code = AGOO_ERR_OK | AGOO_ERR_MEMORY | AGOO_ERR_DENIED | AGOO_ERR_IMPL
  | AGOO_ERR_PARSE | AGOO_ERR_READ | AGOO_ERR_WRITE | AGOO_ERR_OVERFLOW | AGOO_ERR_ARG
  | AGOO_ERR_NOT_FOUND | AGOO_ERR_THREAD | AGOO_ERR_NETWORK | AGOO_ERR_LOCK | AGOO_ERR_FREE
  | AGOO_ERR_IN_USE | AGOO_ERR_TOO_MANY | AGOO_ERR_TYPE | AGOO_ERR_EVAL | AGOO_ERR_TLS
  | AGOO_ERR_SYSTEM int

text \<open>\<open>AGOO_ERR_SYSTEM\<close> is any other value of \<open>errno\<close>.\<close>

record agoo_err =
  ecode :: agoo_err_code
  emsg :: string

definition MSG_SIZE :: nat where "MSG_SIZE = 256"

text \<open>\<open>vsnprintf\<close> into the message: at most \<open>MSG_SIZE - 1\<close> bytes and a NUL.\<close>

definition err_print :: "string \<Rightarrow> string \<Rightarrow> string mem" where
  "err_print msg text = blk_write msg 0 (take (MSG_SIZE - 1) text @ [NUL])"

definition agoo_err_set :: "agoo_err \<Rightarrow> agoo_err_code \<Rightarrow> string \<Rightarrow> (agoo_err_code \<times> agoo_err) mem" where
  "agoo_err_set err code text =
    mem_bind (err_print (emsg err) text) (\<lambda>msg. Val (code, err\<lparr>ecode := code, emsg := msg\<rparr>))"

definition agoo_err_memory :: "agoo_err \<Rightarrow> string \<Rightarrow> string \<Rightarrow> int \<Rightarrow> (agoo_err_code \<times> agoo_err) mem" where
  "agoo_err_memory err what file line =
    agoo_err_set err AGOO_ERR_MEMORY
      (''Failed to allocate memory for a '' @ what @ '' at '' @ file @ '':'' @ int_str line @ ''.'')"

text \<open>\<open>cnt\<close> is the length \<open>vsnprintf\<close> returns, that of the whole formatted text.\<close>

definition agoo_err_no :: "agoo_err \<Rightarrow> string option \<Rightarrow> string \<Rightarrow> agoo_err_code \<Rightarrow> (agoo_err_code \<times> agoo_err) mem" where
  "agoo_err_no err fmt strerr errno =
    mem_bind (case fmt of None \<Rightarrow> Val (emsg err) | Some text \<Rightarrow> err_print (emsg err) text) (\<lambda>msg.
    let cnt = (case fmt of None \<Rightarrow> 0 | Some text \<Rightarrow> length text)
    in mem_bind
        (if cnt < MSG_SIZE + 2 then
           mem_bind (blk_write msg cnt '' '') (\<lambda>msg.
           let cnt = cnt + 1
           in mem_bind (blk_write msg cnt (strncpy_str strerr (MSG_SIZE - cnt))) (\<lambda>msg.
              blk_write msg (MSG_SIZE - 1) [NUL]))
         else Val msg)
        (\<lambda>msg. Val (errno, err\<lparr>ecode := errno, emsg := msg\<rparr>)))"

definition agoo_err_clear :: "agoo_err \<Rightarrow> agoo_err mem" where
  "agoo_err_clear err =
    mem_bind (blk_write (emsg err) 0 [NUL]) (\<lambda>msg. Val (err\<lparr>ecode := AGOO_ERR_OK, emsg := msg\<rparr>))"

fun agoo_err_str :: "(agoo_err_code \<Rightarrow> string) \<Rightarrow> agoo_err_code \<Rightarrow> string" where
  "agoo_err_str strerr AGOO_ERR_PARSE = ''parse error''"
| "agoo_err_str strerr AGOO_ERR_READ = ''read failed''"
| "agoo_err_str strerr AGOO_ERR_WRITE = ''write failed''"
| "agoo_err_str strerr AGOO_ERR_ARG = ''invalid argument''"
| "agoo_err_str strerr AGOO_ERR_NOT_FOUND = ''not found''"
| "agoo_err_str strerr AGOO_ERR_THREAD = ''thread error''"
| "agoo_err_str strerr AGOO_ERR_NETWORK = ''network error''"
| "agoo_err_str strerr AGOO_ERR_LOCK = ''lock error''"
| "agoo_err_str strerr AGOO_ERR_FREE = ''already freed''"
| "agoo_err_str strerr AGOO_ERR_IN_USE = ''in use''"
| "agoo_err_str strerr AGOO_ERR_TOO_MANY = ''too many''"
| "agoo_err_str strerr AGOO_ERR_TYPE = ''type error''"
| "agoo_err_str strerr AGOO_ERR_EVAL = ''eval error''"
| "agoo_err_str strerr AGOO_ERR_TLS = ''TLS error''"
| "agoo_err_str strerr AGOO_ERR_OVERFLOW = ''unknown error''"
| "agoo_err_str strerr code = strerr code"

definition err_ok :: "agoo_err \<Rightarrow> bool" where
  "err_ok err \<longleftrightarrow> length (emsg err) = MSG_SIZE"

lemma err_set_ok: "err_ok err \<Longrightarrow> \<exists>err'. agoo_err_set err code text = Val (code, err') \<and> err_ok err' \<and> ecode err' = code"
  by (auto simp: agoo_err_set_def err_print_def err_ok_def MSG_SIZE_def blk_write_ok)

text \<open>
  C19. \<open>agoo_err_no\<close> writes outside the message buffer exactly when the formatted text has
  256 or 257 characters: the test that guards the append adds 2 to the size where it should
  subtract.
\<close>

theorem err_no_bounds:
  assumes "err_ok err"
  shows "agoo_err_no err fmt strerr errno = UB \<longleftrightarrow> (\<exists>text. fmt = Some text \<and> length text \<in> {256, 257})"
proof (cases fmt)
  case None
  then show ?thesis using assms strlen_le [of "take 255 strerr"]
    by (simp add: agoo_err_no_def err_ok_def MSG_SIZE_def blk_write_def Let_def strncpy_str_def strlen_def)
next
  case (Some m)
  have p: "\<exists>msg. err_print (emsg err) m = Val msg \<and> length msg = 256"
    using assms by (auto simp: err_print_def err_ok_def MSG_SIZE_def blk_write_def)
  have l: "length (strncpy_str strerr n) = n" for n
    using strlen_le [of "take n strerr"] by (simp add: strncpy_str_def strlen_def)
  consider "length m < 256" | "length m \<in> {256, 257}" | "258 \<le> length m" by force
  then show ?thesis using p by cases (auto simp: Some agoo_err_no_def MSG_SIZE_def blk_write_def Let_def l)
qed

lemma err_no_bounds_witness:
  "agoo_err_no \<lparr>ecode = AGOO_ERR_OK, emsg = replicate 256 NUL\<rparr> (Some (replicate 256 CHR ''x'')) [] AGOO_ERR_DENIED = UB"
  using err_no_bounds [of "\<lparr>ecode = AGOO_ERR_OK, emsg = replicate 256 NUL\<rparr>" "Some (replicate 256 CHR ''x'')" "[]" AGOO_ERR_DENIED]
  by (simp add: err_ok_def MSG_SIZE_def)

end
