(* ===== verification/HashTable.thy ===== *)
theory HashTable
  imports Prelude
begin

text \<open>
  The hash tables of \<open>ext/agoo/page.c\<close>: the hash, the spreading of the hashes over the
  buckets, and the search and the update of a bucket, which \<open>page.c\<close> repeats for its page,
  root and mime tables. The laws the clients rely on are a locale.
\<close>

section \<open>A table interface\<close>

text \<open>
  \<open>same\<close> tells when two keys share an entry; an entry put for a key is what later lookups of
  the keys that share it find, and no other lookup changes.
\<close>

locale key_table =
  fixes inv :: "'t \<Rightarrow> bool"
    and key_ok :: "'k \<Rightarrow> bool"
    and same :: "'k \<Rightarrow> 'k \<Rightarrow> bool"
    and get :: "'t \<Rightarrow> 'k \<Rightarrow> 'v option"
    and put :: "'t \<Rightarrow> 'k \<Rightarrow> 'v \<Rightarrow> 't"
  assumes put_inv: "inv t \<Longrightarrow> key_ok k \<Longrightarrow> inv (put t k v)"
    and get_put: "inv t \<Longrightarrow> key_ok k \<Longrightarrow> key_ok k' \<Longrightarrow> get (put t k v) k' = (if same k k' then Some v else get t k')"
begin

definition put_list :: "('k \<times> 'v) list \<Rightarrow> 't \<Rightarrow> 't" where
  "put_list kvs t = foldl (\<lambda>t (k, v). put t k v) t kvs"

lemma put_list_inv: "inv t \<Longrightarrow> \<forall>(k, v) \<in> set kvs. key_ok k \<Longrightarrow> inv (put_list kvs t)"
  unfolding put_list_def by (induction kvs arbitrary: t) (auto simp: put_inv)

text \<open>The last entry of the list that shares the key wins.\<close>

lemma get_put_list:
  assumes "inv t" "\<forall>(k, v) \<in> set kvs. key_ok k" "key_ok k'"
  shows "get (put_list kvs t) k' =
    (case find (\<lambda>(k, v). same k k') (rev kvs) of None \<Rightarrow> get t k' | Some (k, v) \<Rightarrow> Some v)"
  using assms(2)
proof (induction kvs rule: rev_induct)
  case (snoc kv kvs)
  obtain k v where kv: "kv = (k, v)" by force
  have i: "inv (put_list kvs t)" using snoc.prems assms(1) by (intro put_list_inv) auto
  show ?case using get_put [OF i, of k k' v] snoc assms(3) by (auto simp: kv put_list_def)
qed (simp add: put_list_def)

lemma get_put_list_unique:
  assumes "inv t" "\<forall>(k, v) \<in> set kvs. key_ok k" "(k, v) \<in> set kvs" "same k k"
    "\<forall>(k', v') \<in> set kvs. same k' k \<longrightarrow> v' = v"
  shows "get (put_list kvs t) k = Some v"
proof -
  have "find (\<lambda>(k', v). same k' k) (rev kvs) \<noteq> None" using assms(3,4) by (auto simp: find_None_iff)
  then obtain k' v' where f: "find (\<lambda>(k', v). same k' k) (rev kvs) = Some (k', v')" by auto
  from find_SomeD [OF this] have "same k' k" "(k', v') \<in> set kvs" by simp_all
  then have "v' = v" using assms(5) by blast
  moreover have "key_ok k" using assms(2,3) by auto
  ultimately show ?thesis using get_put_list [OF assms(1,2), of k] f by simp
qed

end

section \<open>Hash and buckets\<close>

definition MAX_KEY_UNIQ :: nat where "MAX_KEY_UNIQ = 9"
definition MAX_KEY_LEN :: nat where "MAX_KEY_LEN = 1024"
definition PAGE_BUCKET_SIZE :: nat where "PAGE_BUCKET_SIZE = 1024"
definition MAX_MIME_KEY_LEN :: nat where "MAX_MIME_KEY_LEN = 15"
definition MIME_BUCKET_SIZE :: nat where "MIME_BUCKET_SIZE = 64"

definition calc_hash :: "string \<Rightarrow> nat \<Rightarrow> u64" where
  "calc_hash key klen = foldl (\<lambda>h c. 77 * h + (of_nat (of_char c) - 0x2D)) 0 (take klen key)"

definition spread :: "u64 \<Rightarrow> u64" where
  "spread h = h XOR push_bit 5 h XOR drop_bit 7 h"

definition get_bucketp :: "u64 \<Rightarrow> nat" where
  "get_bucketp h = unat (1023 AND spread h)"

definition get_mime_bucketp :: "u64 \<Rightarrow> nat" where
  "get_mime_bucketp h = unat (63 AND spread h)"

lemma get_bucketp_bound: "get_bucketp h < PAGE_BUCKET_SIZE"
  using mask_bound [of 1023 10 "spread h"] by (simp add: get_bucketp_def PAGE_BUCKET_SIZE_def mask_eq_exp_minus_1)

lemma get_mime_bucketp_bound: "get_mime_bucketp h < MIME_BUCKET_SIZE"
  using mask_bound [of 63 6 "spread h"] by (simp add: get_mime_bucketp_def MIME_BUCKET_SIZE_def mask_eq_exp_minus_1)

record 'v slot =
  skey :: string
  svalue :: 'v
  shash :: u64
  sklen :: nat

text \<open>
  The test of the bucket loops. Keys of at most nine bytes are taken to be equal when their
  hashes and lengths are.
\<close>

definition slot_hit :: "u64 \<Rightarrow> nat \<Rightarrow> string \<Rightarrow> 'v slot \<Rightarrow> bool" where
  "slot_hit h len key s \<longleftrightarrow>
     h = shash s \<and> len = sklen s \<and> (len \<le> MAX_KEY_UNIQ \<or> strncmp_eq (skey s) key len)"

definition bucket_get :: "'v slot list \<Rightarrow> u64 \<Rightarrow> nat \<Rightarrow> string \<Rightarrow> 'v option" where
  "bucket_get bucket h len key = map_option svalue (find (slot_hit h len key) bucket)"

fun bucket_replace :: "('v slot \<Rightarrow> bool) \<Rightarrow> 'v \<Rightarrow> 'v slot list \<Rightarrow> ('v \<times> 'v slot list) option" where
  "bucket_replace hit v [] = None"
| "bucket_replace hit v (s # ss) =
     (if hit s then Some (svalue s, s\<lparr>svalue := v\<rparr> # ss)
      else case bucket_replace hit v ss of None \<Rightarrow> None | Some (old, ss') \<Rightarrow> Some (old, s # ss'))"

text \<open>
  \<open>bucket_set\<close> gives the value the caller is to destroy: the old one, or the new one where
  the key is too long or no slot could be allocated (\<open>\<not> mem\<close>).
\<close>

definition bucket_set ::
  "bool \<Rightarrow> 'v slot list \<Rightarrow> u64 \<Rightarrow> string \<Rightarrow> nat \<Rightarrow> 'v \<Rightarrow> 'v option \<times> 'v slot list" where
  "bucket_set mem bucket h key klen value =
    (if MAX_KEY_LEN < klen then (Some value, bucket)
     else case bucket_replace (slot_hit h klen key) value bucket of
       Some (old, bucket') \<Rightarrow> (Some old, bucket')
     | None \<Rightarrow>
         if \<not> mem then (Some value, bucket)
         else (None, \<lparr>skey = cstr (take klen key), svalue = value, shash = h, sklen = klen\<rparr> # bucket))"

fun bucket_remove :: "('v slot \<Rightarrow> bool) \<Rightarrow> 'v slot list \<Rightarrow> 'v slot list" where
  "bucket_remove hit [] = []"
| "bucket_remove hit (s # ss) = (if hit s then ss else s # bucket_remove hit ss)"

section \<open>Lookups after updates\<close>

text \<open>The keys that share an entry.\<close>

definition same_key :: "string \<Rightarrow> string \<Rightarrow> bool" where
  "same_key k k' \<longleftrightarrow> calc_hash k (length k) = calc_hash k' (length k') \<and> length k = length k' \<and>
     (length k \<le> MAX_KEY_UNIQ \<or> k = k')"

lemma same_key_equiv:
  "same_key k k" "same_key k k' \<Longrightarrow> same_key k' k" "same_key k k' \<Longrightarrow> same_key k' k'' \<Longrightarrow> same_key k k''"
  by (auto simp: same_key_def)

text \<open>For keys longer than nine bytes sharing is equality.\<close>

lemma same_key_long: "MAX_KEY_UNIQ < length k \<Longrightarrow> same_key k k' \<longleftrightarrow> k = k'"
  by (auto simp: same_key_def)

definition plain_key :: "string \<Rightarrow> bool" where
  "plain_key k \<longleftrightarrow> NUL \<notin> set k \<and> length k \<le> MAX_KEY_LEN"

lemma strncmp_eq_plain:
  "NUL \<notin> set a \<Longrightarrow> NUL \<notin> set b \<Longrightarrow> length a = n \<Longrightarrow> length b = n \<Longrightarrow> strncmp_eq a b n = (a = b)"
proof (induction n arbitrary: a b)
  case (Suc n)
  then obtain x a' y b' where "a = x # a'" "b = y # b'" "length a' = n" "length b' = n" by (metis length_Suc_conv)
  with Suc show ?case by (auto simp: cat_def)
qed simp

text \<open>A slot as \<open>bucket_set\<close> makes it, and buckets of such slots, at most one for a key.\<close>

definition slot_ok :: "'v slot \<Rightarrow> bool" where
  "slot_ok s \<longleftrightarrow> plain_key (skey s) \<and> sklen s = length (skey s) \<and> shash s = calc_hash (skey s) (sklen s)"

lemma slot_hit_same:
  "slot_ok s \<Longrightarrow> plain_key k \<Longrightarrow> slot_hit (calc_hash k (length k)) (length k) k s = same_key (skey s) k"
  using strncmp_eq_plain [of "skey s" k "length k"]
  by (cases "length k = length (skey s)") (auto simp: slot_ok_def slot_hit_def same_key_def plain_key_def)

definition buckets_ok :: "(u64 \<Rightarrow> nat) \<Rightarrow> nat \<Rightarrow> 'v slot list list \<Rightarrow> bool" where
  "buckets_ok idx n t \<longleftrightarrow> length t = n \<and> (\<forall>b \<in> set t. \<forall>s \<in> set b. slot_ok s)"

definition table_get :: "(u64 \<Rightarrow> nat) \<Rightarrow> 'v slot list list \<Rightarrow> string \<Rightarrow> nat \<Rightarrow> 'v option" where
  "table_get idx t key klen = (let h = calc_hash key klen in bucket_get (t ! idx h) h klen key)"

definition table_set ::
  "(u64 \<Rightarrow> nat) \<Rightarrow> bool \<Rightarrow> 'v slot list list \<Rightarrow> string \<Rightarrow> nat \<Rightarrow> 'v \<Rightarrow> 'v option \<times> 'v slot list list" where
  "table_set idx mem t key klen value =
    (let h = calc_hash key klen; (old, b) = bucket_set mem (t ! idx h) h key klen value
     in (old, t[idx h := b]))"

lemma bucket_get_cong:
  assumes "\<forall>s \<in> set b. slot_ok s" "plain_key k" "plain_key k'" "same_key k k'"
  shows "bucket_get b (calc_hash k (length k)) (length k) k = bucket_get b (calc_hash k' (length k')) (length k') k'"
proof -
  have "find (slot_hit (calc_hash k (length k)) (length k) k) b = find (slot_hit (calc_hash k' (length k')) (length k') k') b"
    by (rule find_cong [OF refl]) (use assms same_key_equiv in \<open>metis slot_hit_same\<close>)
  then show ?thesis by (simp add: bucket_get_def)
qed

lemma bucket_replace_get:
  assumes "\<forall>s \<in> set b. slot_ok s" "plain_key k" "plain_key k'"
  shows "(case bucket_replace (slot_hit (calc_hash k (length k)) (length k) k) v b of
      None \<Rightarrow> bucket_get b (calc_hash k (length k)) (length k) k = None
    | Some (old, b') \<Rightarrow> bucket_get b (calc_hash k (length k)) (length k) k = Some old \<and> (\<forall>s \<in> set b'. slot_ok s) \<and>
        bucket_get b' (calc_hash k' (length k')) (length k') k' =
          (if same_key k k' then Some v else bucket_get b (calc_hash k' (length k')) (length k') k'))"
  using assms(1)
proof (induction b)
  case (Cons s b)
  have s: "slot_ok s" "slot_ok (s\<lparr>svalue := v\<rparr>)" using Cons.prems by (simp_all add: slot_ok_def)
  have e: "same_key (skey s) k' = same_key k k'" if "same_key (skey s) k"
    using that same_key_equiv by blast
  have e2: "same_key (skey s) k' = same_key (skey s) k" if "same_key k k'"
    using that same_key_equiv by blast
  show ?case
    using Cons slot_hit_same [OF s(1) assms(2)] slot_hit_same [OF s(1) assms(3)] slot_hit_same [OF s(2) assms(3)] e e2 s
    by (auto simp: bucket_get_def split: option.splits)
qed (simp add: bucket_get_def)

lemma bucket_set_get:
  assumes "\<forall>s \<in> set b. slot_ok s" "plain_key k" "plain_key k'"
    "bucket_set True b (calc_hash k (length k)) k (length k) v = (old, b')"
  shows "old = bucket_get b (calc_hash k (length k)) (length k) k \<and> (\<forall>s \<in> set b'. slot_ok s) \<and>
     bucket_get b' (calc_hash k' (length k')) (length k') k' =
       (if same_key k k' then Some v else bucket_get b (calc_hash k' (length k')) (length k') k')"
proof (cases "bucket_replace (slot_hit (calc_hash k (length k)) (length k) k) v b")
  case None
  let ?s = "\<lparr>skey = k, svalue = v, shash = calc_hash k (length k), sklen = length k\<rparr>"
  have "slot_ok ?s" using assms(2) by (simp add: slot_ok_def)
  moreover have "b' = ?s # b \<and> old = None"
    using assms(2,4) None by (simp add: bucket_set_def plain_key_def)
  ultimately show ?thesis
    using bucket_replace_get [OF assms(1-3), of v] None assms(1) slot_hit_same [of ?s k'] assms(3)
    by (simp add: bucket_get_def)
next
  case (Some p)
  then show ?thesis using bucket_replace_get [OF assms(1-3), of v] assms(2,4)
    by (auto simp: bucket_set_def plain_key_def)
qed

text \<open>The table operations obey the law, for any spreading of the hashes.\<close>

lemma table_set_get:
  assumes "buckets_ok idx n t" "\<forall>h. idx h < n" "plain_key k" "plain_key k'" "table_set idx True t k (length k) v = (old, t')"
  shows "buckets_ok idx n t' \<and> old = table_get idx t k (length k) \<and>
    table_get idx t' k' (length k') = (if same_key k k' then Some v else table_get idx t k' (length k'))"
proof -
  let ?h = "calc_hash k (length k)" and ?h' = "calc_hash k' (length k')"
  obtain b' where b: "bucket_set True (t ! idx ?h) ?h k (length k) v = (old, b')" "t' = t[idx ?h := b']"
    using assms(5) by (auto simp: table_set_def Let_def split: prod.splits)
  have i: "idx ?h < length t" using assms(1,2) by (simp add: buckets_ok_def)
  then have ok: "\<forall>s \<in> set (t ! idx ?h). slot_ok s" using assms(1) by (auto simp: buckets_ok_def)
  note g = bucket_set_get [OF ok assms(3,4) b(1)]
  have "buckets_ok idx n t'" using assms(1) g b(2) by (auto simp: buckets_ok_def dest!: set_update_subset_insert [THEN subsetD])
  moreover have "table_get idx t' k' (length k') = (if same_key k k' then Some v else table_get idx t k' (length k'))"
  proof (cases "idx ?h' = idx ?h")
    case True
    then show ?thesis using g b(2) i by (simp add: table_get_def Let_def)
  next
    case False
    then have "\<not> same_key k k'" by (auto simp: same_key_def)
    then show ?thesis using False b(2) by (simp add: table_get_def Let_def)
  qed
  ultimately show ?thesis using g by (simp add: table_get_def Let_def)
qed

end
