(* ===== verification/Page.thy ===== *)
theory Page
  imports HashTable Patterns Err
begin

text \<open>
  The static page cache of \<open>ext/agoo/page.c\<close>: the tables of pages and mime types, the header
  rules, the rendering of a file into a response, and the lookups by request path with the
  checks that keep a path inside the root directory. The file system and the clock are
  arguments (\<open>fs_env\<close>); the text of a response is its bytes.
\<close>

section \<open>State\<close>

record agoo_page =
  presp :: "string option"
  ppath :: string
  pmtime :: int
  plast_check :: int
  pimmutable :: bool

record head_rule =
  hr_path :: string
  hr_mime :: "string option"
  hr_key :: string
  hr_value :: string
  hr_len :: nat

record agoo_group =
  gpath :: string
  gdirs :: "string list"

record page_cache =
  buckets :: "agoo_page slot list list"
  ruckets :: "agoo_page slot list list"
  muckets :: "string slot list list"
  croot :: "string option"
  groups :: "agoo_group list"
  head_rules :: "head_rule list"

text \<open>
  What the code sees of the operating system: \<open>fopen\<close> (a file, whether it is a regular file or
  a link, its bytes, and whether the calls on the open file succeed), the modification time
  of \<open>stat\<close>, \<open>access\<close>, the clock in milliseconds, and whether memory is available.
\<close>

record fnode =
  f_regular :: bool
  f_data :: string
  f_io_ok :: bool

record fs_env =
  e_open :: "string \<Rightarrow> fnode option"
  e_stat :: "string \<Rightarrow> int option"
  e_access :: "string \<Rightarrow> bool"
  e_now :: int
  e_mem :: bool

definition PAGE_RECHECK_TIME :: int where "PAGE_RECHECK_TIME = 5000"

section \<open>The tables\<close>

definition mime_get :: "page_cache \<Rightarrow> string \<Rightarrow> string option" where
  "mime_get c key = table_get get_mime_bucketp (muckets c) key (strlen key)"

definition cache_get :: "page_cache \<Rightarrow> string \<Rightarrow> nat \<Rightarrow> agoo_page option" where
  "cache_get c key klen = table_get get_bucketp (buckets c) key klen"

definition cache_root_get :: "page_cache \<Rightarrow> string \<Rightarrow> nat \<Rightarrow> agoo_page option" where
  "cache_root_get c key klen = table_get get_bucketp (ruckets c) key klen"

definition mime_set :: "bool \<Rightarrow> page_cache \<Rightarrow> string \<Rightarrow> string \<Rightarrow> agoo_err_code + page_cache" where
  "mime_set mem c key value =
    (let len = strlen key; h = calc_hash key len; i = get_mime_bucketp h
     in if MAX_MIME_KEY_LEN < len then Inl AGOO_ERR_ARG
        else if \<not> mem then Inl (if bucket_get (muckets c ! i) h len key = None then AGOO_ERR_MEMORY else AGOO_ERR_ARG)
        else case bucket_replace (slot_hit h len key) value (muckets c ! i) of
          Some (_, b) \<Rightarrow> Inr (c\<lparr>muckets := (muckets c)[i := b]\<rparr>)
        | None \<Rightarrow> Inr (c\<lparr>muckets := (muckets c)[i :=
            \<lparr>skey = cstr key, svalue = value, shash = h, sklen = len\<rparr> # muckets c ! i]\<rparr>))"

definition cache_set :: "bool \<Rightarrow> page_cache \<Rightarrow> string \<Rightarrow> nat \<Rightarrow> agoo_page \<Rightarrow> agoo_page option \<times> page_cache" where
  "cache_set mem c key klen v =
    (let (old, t) = table_set get_bucketp mem (buckets c) key klen v in (old, c\<lparr>buckets := t\<rparr>))"

definition cache_root_set :: "bool \<Rightarrow> page_cache \<Rightarrow> string \<Rightarrow> nat \<Rightarrow> agoo_page \<Rightarrow> agoo_page option \<times> page_cache" where
  "cache_root_set mem c key klen v =
    (let (old, t) = table_set get_bucketp mem (ruckets c) key klen v in (old, c\<lparr>ruckets := t\<rparr>))"

definition agoo_page_remove :: "page_cache \<Rightarrow> string \<Rightarrow> page_cache" where
  "agoo_page_remove c path =
    (let len = strlen path; h = calc_hash path len; i = get_bucketp h
     in c\<lparr>buckets := (buckets c)[i := bucket_remove (slot_hit h len path) (buckets c ! i)]\<rparr>)"

definition mime_map :: "(string \<times> string) list" where
  "mime_map = [
    (''asc'', ''text/plain''),
    (''avi'', ''video/x-msvideo''),
    (''bin'', ''application/octet-stream''),
    (''bmp'', ''image/bmp''),
    (''cer'', ''application/pkix-cert''),
    (''crl'', ''application/pkix-crl''),
    (''crt'', ''application/x-x509-ca-cert''),
    (''css'', ''text/css''),
    (''doc'', ''application/msword''),
    (''eot'', ''application/vnd.ms-fontobject''),
    (''eps'', ''application/postscript''),
    (''es5'', ''application/javascript''),
    (''es6'', ''application/javascript''),
    (''gif'', ''image/gif''),
    (''htm'', ''text/html''),
    (''html'', ''text/html''),
    (''ico'', ''image/x-icon''),
    (''jpeg'', ''image/jpeg''),
    (''jpg'', ''image/jpeg''),
    (''js'', ''application/javascript''),
    (''json'', ''application/json''),
    (''mov'', ''video/quicktime''),
    (''mpe'', ''video/mpeg''),
    (''mpeg'', ''video/mpeg''),
    (''mpg'', ''video/mpeg''),
    (''pdf'', ''application/pdf''),
    (''png'', ''image/png''),
    (''ppt'', ''application/vnd.ms-powerpoint''),
    (''ps'', ''application/postscript''),
    (''qt'', ''video/quicktime''),
    (''rb'', ''text/plain; charset=utf-8''),
    (''rtf'', ''application/rtf''),
    (''sse'', ''text/plain; charset=utf-8''),
    (''svg'', ''image/svg+xml''),
    (''tif'', ''image/tiff''),
    (''tiff'', ''image/tiff''),
    (''ttf'', ''application/font-sfnt''),
    (''txt'', ''text/plain; charset=utf-8''),
    (''woff'', ''application/font-woff''),
    (''woff2'', ''font/woff2''),
    (''xls'', ''application/vnd.ms-excel''),
    (''xml'', ''application/xml''),
    (''zip'', ''application/zip'')]"

definition empty_cache :: page_cache where
  "empty_cache = \<lparr>buckets = replicate PAGE_BUCKET_SIZE [], ruckets = replicate PAGE_BUCKET_SIZE [],
     muckets = replicate MIME_BUCKET_SIZE [], croot = None, groups = [], head_rules = []\<rparr>"

text \<open>The results of \<open>mime_set\<close> are not looked at.\<close>

definition mime_put :: "page_cache \<Rightarrow> string \<Rightarrow> string \<Rightarrow> page_cache" where
  "mime_put c key value = (case mime_set True c key value of Inl _ \<Rightarrow> c | Inr c' \<Rightarrow> c')"

definition agoo_pages_init :: "page_cache" where
  "agoo_pages_init = foldl (\<lambda>c (s, t). mime_put c s t) (empty_cache\<lparr>croot := Some ''.''\<rparr>) mime_map"

definition agoo_pages_set_root :: "page_cache \<Rightarrow> string option \<Rightarrow> page_cache" where
  "agoo_pages_set_root c root = c\<lparr>croot := root\<rparr>"

definition agoo_pages_cleanup :: "page_cache \<Rightarrow> page_cache" where
  "agoo_pages_cleanup c = c\<lparr>buckets := replicate PAGE_BUCKET_SIZE [], ruckets := replicate PAGE_BUCKET_SIZE [],
     muckets := replicate MIME_BUCKET_SIZE [], head_rules := [], croot := None\<rparr>"

definition agoo_group_create :: "page_cache \<Rightarrow> string \<Rightarrow> page_cache" where
  "agoo_group_create c path = c\<lparr>groups := \<lparr>gpath = path, gdirs = []\<rparr> # groups c\<rparr>"

definition agoo_group_add :: "agoo_group \<Rightarrow> string \<Rightarrow> agoo_group" where
  "agoo_group_add g dir = g\<lparr>gdirs := dir # gdirs g\<rparr>"

text \<open>\<open>strcasecmp\<close> of whole strings.\<close>

definition strcasecmp_eq :: "string \<Rightarrow> string \<Rightarrow> bool" where
  "strcasecmp_eq a b \<longleftrightarrow> map lower_c a = map lower_c b"

definition agoo_header_rule :: "bool \<Rightarrow> page_cache \<Rightarrow> string \<Rightarrow> string \<Rightarrow> string \<Rightarrow> string \<Rightarrow> agoo_err_code + page_cache" where
  "agoo_header_rule mem c path mime key value =
    (if strcasecmp_eq ''Content-Length'' key then Inl AGOO_ERR_ARG
     else if \<not> mem then Inl AGOO_ERR_MEMORY
     else Inr (c\<lparr>head_rules :=
       \<lparr>hr_path = path, hr_mime = (if mime = ''*'' then None else Some mime), hr_key = key, hr_value = value,
        hr_len = length key + length value + 4\<rparr> # head_rules c\<rparr>))"

section \<open>Suffixes and header rules\<close>

text \<open>
  The backward scan for a dot from the index \<open>i\<close>; a dot at the start does not count. The scan
  of an empty path reads the byte before it (\<open>path_mime\<close>), which is a slash where the path is
  the tail of a longer one (\<open>path_suffix\<close> of a relative path).
\<close>

fun suffix_scan :: "string \<Rightarrow> nat \<Rightarrow> string option" where
  "suffix_scan path 0 = None"
| "suffix_scan path (Suc i) = (if path ! Suc i = CHR ''.'' then Some (drop (Suc (Suc i)) path) else suffix_scan path i)"

definition path_suffix :: "string \<Rightarrow> string option" where
  "path_suffix path = (if path = [] then None else suffix_scan path (length path - 1))"

definition path_mime :: "page_cache \<Rightarrow> string \<Rightarrow> string option mem" where
  "path_mime c path =
    (if path = [] then UB
     else Val (case suffix_scan path (length path - 1) of None \<Rightarrow> None | Some suffix \<Rightarrow> mime_get c suffix))"

definition path_match :: "string option \<Rightarrow> string option \<Rightarrow> bool" where
  "path_match pat path =
    (case pat of None \<Rightarrow> True
     | Some pat \<Rightarrow>
         (case path of None \<Rightarrow> pat = ''**''
          | Some path \<Rightarrow> glob_match pat (if cat path 0 = CHR ''/'' then tl path else path)))"

definition head_rule_match :: "head_rule \<Rightarrow> string option \<Rightarrow> string \<Rightarrow> bool" where
  "head_rule_match rule path mime =
    (let suffix = (case path of None \<Rightarrow> None | Some p \<Rightarrow> path_suffix p)
     in path_match (Some (hr_path rule)) path \<and>
        (hr_mime rule = None \<or> hr_mime rule = Some mime \<or> (suffix \<noteq> None \<and> hr_mime rule = suffix)))"

text \<open>The path below the root directory, NULL where it is not below it.\<close>

definition rel_path :: "page_cache \<Rightarrow> string \<Rightarrow> string option" where
  "rel_path c path =
    (case croot c of None \<Rightarrow> None
     | Some root \<Rightarrow>
         if strncmp_eq root path (length root) \<and> cat path (length root) = CHR ''/''
         then Some (drop (length root + 1) path) else None)"

section \<open>Rendering a response\<close>

definition crlf :: string where
  "crlf = [CHR 0x0D, CHR 0x0A]"

definition page_fmt :: "string \<Rightarrow> nat \<Rightarrow> string" where
  "page_fmt mime sz = ''HTTP/1.1 200 OK'' @ crlf @ ''Content-Type: '' @ mime @ crlf @
     ''Content-Length: '' @ dec_str sz @ crlf @ crlf"

definition page_min_fmt :: "nat \<Rightarrow> string" where
  "page_min_fmt sz = ''HTTP/1.1 200 OK'' @ crlf @ ''Content-Length: '' @ dec_str sz @ crlf"

text \<open>\<open>sizeof(page_fmt)\<close>, with its three conversions and the NUL.\<close>

definition sizeof_page_fmt :: nat where "sizeof_page_fmt = 59"

definition rule_line :: "head_rule \<Rightarrow> string" where
  "rule_line hr = hr_key hr @ '': '' @ hr_value hr @ crlf"

text \<open>
  The header: with no matching rule the fixed format, otherwise the rules' lines and a content
  type unless a rule gave one; \<open>ct\<close> is the value \<open>has_ct\<close> starts with.
\<close>

definition page_head :: "bool \<Rightarrow> head_rule list \<Rightarrow> string \<Rightarrow> nat \<Rightarrow> string" where
  "page_head ct rules mime sz =
    (if 0 < sum_list (map hr_len rules) then
       page_min_fmt sz @ concat (map rule_line rules) @
       (if ct \<or> (\<exists>hr \<in> set rules. strcasecmp_eq ''Content-Type'' (hr_key hr)) then crlf
        else ''Content-Type: '' @ mime @ crlf @ crlf)
     else page_fmt mime sz)"

text \<open>Writing the header, the contents and a NUL into a text with room for \<open>cap\<close> bytes.\<close>

definition page_fill :: "nat \<Rightarrow> string \<Rightarrow> string \<Rightarrow> string mem" where
  "page_fill cap head data = (if length head + length data + 1 \<le> cap then Val (head @ data) else UB)"

text \<open>The bytes of a text allocated for \<open>msize\<close>: the struct's eight, \<open>msize\<close> and a NUL.\<close>

definition text_cap :: "nat \<Rightarrow> nat" where
  "text_cap msize = 8 + max 8 msize + 1"

definition matching_rules :: "page_cache \<Rightarrow> string option \<Rightarrow> string \<Rightarrow> head_rule list" where
  "matching_rules c rel mime = filter (\<lambda>hr. head_rule_match hr rel mime) (head_rules c)"

definition agoo_page_create :: "string \<Rightarrow> agoo_page" where
  "agoo_page_create path = \<lparr>presp = None, ppath = cstr path, pmtime = 0, plast_check = 0, pimmutable = False\<rparr>"

text \<open>\<open>junk\<close> is the value of the local \<open>has_ct\<close>, which \<open>agoo_page_immutable\<close> does not initialise.\<close>

definition agoo_page_immutable ::
  "fs_env \<Rightarrow> bool \<Rightarrow> page_cache \<Rightarrow> string \<Rightarrow> string \<Rightarrow> nat \<Rightarrow> (agoo_page option \<times> page_cache) mem" where
  "agoo_page_immutable env junk c path content clen =
    mem_bind (path_mime c path) (\<lambda>mime.
    if \<not> e_mem env then Val (None, c) else
    let rel = rel_path c path;
        mime = (case mime of None \<Rightarrow> ''text/html'' | Some m \<Rightarrow> m);
        clen = (if clen = 0 then strlen content else clen);
        rules = matching_rules c rel mime;
        msize = sizeof_page_fmt + 60 + clen
    in mem_bind (blk_read content clen) (\<lambda>data.
       mem_bind (page_fill (text_cap msize) (page_head junk rules mime clen) data) (\<lambda>resp.
       let p = \<lparr>presp = Some resp, ppath = path, pmtime = 0, plast_check = 0, pimmutable = True\<rparr>;
           (_, c) = cache_set (e_mem env) c path (length path) p
       in Val (Some p, c))))"

text \<open>
  The file of a page: the path itself where it is a regular file, otherwise, for a path
  without a known suffix, the \<open>index.html\<close> below it, through a buffer of 1024 bytes.
\<close>

definition page_file :: "fs_env \<Rightarrow> string \<Rightarrow> string option \<Rightarrow> (string \<times> fnode \<times> string option) option" where
  "page_file env path mime =
    (case e_open env path of
       Some f \<Rightarrow> if f_io_ok f \<and> \<not> f_regular f then None else Some (take 1023 path, f, mime)
     | None \<Rightarrow> None)"

definition index_path :: "string \<Rightarrow> string" where
  "index_path path = (if last path = CHR ''/'' then path @ ''index.html'' else path @ ''/index.html'')"

definition page_index :: "fs_env \<Rightarrow> string \<Rightarrow> string option \<Rightarrow> (string \<times> fnode \<times> string option) option" where
  "page_index env path mime =
    (if mime \<noteq> None then None
     else if 1024 < length (index_path path) then None
     else case e_open env (take 1023 (index_path path)) of
       None \<Rightarrow> None
     | Some f \<Rightarrow> Some (take 1023 (index_path path), f, Some ''text/html''))"

definition update_contents :: "fs_env \<Rightarrow> page_cache \<Rightarrow> agoo_page \<Rightarrow> (bool \<times> agoo_page) mem" where
  "update_contents env c p =
    mem_bind (path_mime c (ppath p)) (\<lambda>mime.
    case (case page_file env (ppath p) mime of Some r \<Rightarrow> Some r | None \<Rightarrow> page_index env (ppath p) mime) of
      None \<Rightarrow> Val (False, p)
    | Some (path, f, mime) \<Rightarrow>
        let mime = (case mime of None \<Rightarrow> ''text/html'' | Some m \<Rightarrow> m)
        in if \<not> f_io_ok f then Val (False, p)
           else
             let sz = length (f_data f);
                 rules = matching_rules c (rel_path c path) mime;
                 msize = sizeof_page_fmt + 60 + sz + sum_list (map hr_len rules)
             in if \<not> e_mem env then Val (False, p)
                else mem_bind (page_fill (text_cap msize) (page_head False rules mime sz) (f_data f)) (\<lambda>resp.
                  Val (True, p\<lparr>presp := Some resp,
                    pmtime := (case e_stat env (ppath p) of Some t \<Rightarrow> t | None \<Rightarrow> 0),
                    plast_check := e_now env\<rparr>)))"

section \<open>Looking a path up\<close>

text \<open>The value of a hexadecimal digit in \<open>hex_map\<close>, which holds a dot for any other byte.\<close>

definition hex_map :: "nat list" where
  "hex_map = replicate 48 46 @ [0, 1, 2, 3, 4, 5, 6, 7, 8, 9] @ replicate 7 46 @ [10, 11, 12, 13, 14, 15] @
     replicate 26 46 @ [10, 11, 12, 13, 14, 15] @ replicate 153 46"

definition parse_percent_seq :: "string \<Rightarrow> char" where
  "parse_percent_seq seq =
    (let h = hex_map ! of_char (cat seq 0)
     in if 16 < h then CHR ''?''
        else let b = h; h = hex_map ! of_char (cat seq 1)
             in if 16 < h then CHR ''?'' else char_of (16 * b + h))"

text \<open>The decoding loop from the index \<open>i\<close> up to \<open>n\<close>; an escape may reach past \<open>n\<close>.\<close>

function url_decode :: "string \<Rightarrow> nat \<Rightarrow> nat \<Rightarrow> string" where
  "url_decode path i n =
    (if i < n then
       (if cat path i \<noteq> CHR ''%'' then cat path i # url_decode path (i + 1) n
        else parse_percent_seq (drop (i + 1) path) # url_decode path (i + 3) n)
     else [])"
  by auto
termination by (relation "measure (\<lambda>(path, i, n). n - i)") auto

declare url_decode.simps [simp del]

definition FULL_PATH_SIZE :: nat where "FULL_PATH_SIZE = 2048"

text \<open>
  The full path of a request: the root (of the request or of the cache), a slash unless
  there is one, and the decoded path. \<open>UB\<close> where the look at the byte before the end has no
  byte to look at, or the root alone does not fit; \<open>Val None\<close> where the rest does not fit.
\<close>

definition page_path :: "page_cache \<Rightarrow> string \<Rightarrow> nat \<Rightarrow> string option \<Rightarrow> string option mem" where
  "page_path c path plen root =
    (let base = (case root of Some r \<Rightarrow> r | None \<Rightarrow> (case croot c of Some r \<Rightarrow> r | None \<Rightarrow> []))
     in if base = [] \<or> FULL_PATH_SIZE < length base + 1 then UB
        else let base = (if last base \<noteq> CHR ''/'' \<and> cat path 0 \<noteq> CHR ''/'' then base @ ''/'' else base)
        in if FULL_PATH_SIZE \<le> plen + length base then Val None
        else if CHR ''%'' \<in> set (take plen path) then Val (Some (base @ url_decode path 0 plen))
        else Val (Some (base @ strncpy_str path plen)))"

type_synonym page_result = "agoo_err_code option \<times> agoo_page option \<times> page_cache"

definition page_check :: "fs_env \<Rightarrow> page_cache \<Rightarrow> agoo_page \<Rightarrow> page_result mem" where
  "page_check env c page =
    (if \<not> pimmutable page \<and> plast_check page + PAGE_RECHECK_TIME < e_now env then
       (case e_stat env (ppath page) of
          Some t \<Rightarrow>
            if pmtime page \<noteq> t then
              mem_bind (update_contents env c page) (\<lambda>(_, page).
                if presp page = None then Val (Some AGOO_ERR_NOT_FOUND, None, agoo_page_remove c (ppath page))
                else Val (None, Some (page\<lparr>plast_check := e_now env\<rparr>), c))
            else Val (None, Some (page\<lparr>plast_check := e_now env\<rparr>), c)
        | None \<Rightarrow> Val (None, Some (page\<lparr>plast_check := e_now env\<rparr>), c))
     else Val (None, Some page, c))"

text \<open>
  A cached page is the one its slot points to, so the page that \<open>page_check\<close> changed is put
  back into its slot.
\<close>

definition agoo_page_get :: "fs_env \<Rightarrow> page_cache \<Rightarrow> string \<Rightarrow> nat \<Rightarrow> string option \<Rightarrow> page_result mem" where
  "agoo_page_get env c path plen root =
    mem_bind (page_path c path plen root) (\<lambda>full.
    case full of
      None \<Rightarrow> Val (Some AGOO_ERR_MEMORY, None, c)
    | Some full \<Rightarrow>
        if has_sub ''../'' (cstr full) \<or> has_sub ''//'' (cstr full) then Val (None, None, c)
        else (case cache_root_get c full (length full) of
          None \<Rightarrow>
            if croot c = None then Val (None, None, c)
            else if \<not> e_mem env then Val (Some AGOO_ERR_MEMORY, None, c)
            else mem_bind (update_contents env c (agoo_page_create full)) (\<lambda>(ok, page).
              if \<not> ok \<or> presp page = None then Val (Some AGOO_ERR_NOT_FOUND, None, c)
              else let (_, c) = cache_root_set (e_mem env) c full (length full) page
                   in Val (None, Some page, c))
        | Some page \<Rightarrow>
            mem_bind (page_check env c page) (\<lambda>(err, page, c).
              case page of
                None \<Rightarrow> Val (err, None, c)
              | Some page \<Rightarrow> Val (err, Some page, snd (cache_root_set True c full (length full) page)))))"

text \<open>The group whose path is a proper prefix of the request path, at a slash.\<close>

definition group_hit :: "string \<Rightarrow> nat \<Rightarrow> agoo_group \<Rightarrow> bool" where
  "group_hit path plen g \<longleftrightarrow>
     length (gpath g) < plen \<and> strncmp_eq path (gpath g) (length (gpath g)) \<and> cat path (length (gpath g)) = CHR ''/''"

definition group_paths :: "string \<Rightarrow> nat \<Rightarrow> agoo_group \<Rightarrow> string list" where
  "group_paths path plen g =
    map (\<lambda>d. d @ strncpy_str (drop (length (gpath g)) path) (plen - length (gpath g)))
      (filter (\<lambda>d. length d + plen < FULL_PATH_SIZE) (gdirs g))"

definition agoo_group_get :: "fs_env \<Rightarrow> page_cache \<Rightarrow> string \<Rightarrow> nat \<Rightarrow> page_result mem" where
  "agoo_group_get env c path plen =
    (if has_sub ''../'' (cstr path) then Val (None, None, c)
     else case find (group_hit path plen) (groups c) of
       None \<Rightarrow> Val (None, None, c)
     | Some g \<Rightarrow>
         (case find (\<lambda>f. cache_get c f (length f) \<noteq> None) (group_paths path plen g) of
            Some f \<Rightarrow>
              mem_bind (page_check env c (the (cache_get c f (length f)))) (\<lambda>(err, page, c).
                case page of
                  None \<Rightarrow> Val (err, None, c)
                | Some page \<Rightarrow> Val (err, Some page, snd (cache_set True c f (length f) page)))
          | None \<Rightarrow>
              (case find (\<lambda>f. e_access env (cstr f)) (group_paths path plen g) of
                 None \<Rightarrow> Val (None, None, c)
               | Some f \<Rightarrow>
                   if \<not> e_mem env then Val (Some AGOO_ERR_MEMORY, None, c)
                   else mem_bind (update_contents env c (agoo_page_create f)) (\<lambda>(ok, page).
                     if \<not> ok \<or> presp page = None then Val (Some AGOO_ERR_NOT_FOUND, None, c)
                     else let (_, c) = cache_set (e_mem env) c f (length f) page
                          in Val (None, Some page, c)))))"

section \<open>The tables obey the law\<close>

definition cache_ok :: "page_cache \<Rightarrow> bool" where
  "cache_ok c \<longleftrightarrow> buckets_ok get_bucketp PAGE_BUCKET_SIZE (buckets c) \<and>
     buckets_ok get_bucketp PAGE_BUCKET_SIZE (ruckets c) \<and>
     buckets_ok get_mime_bucketp MIME_BUCKET_SIZE (muckets c)"

definition mime_key :: "string \<Rightarrow> bool" where
  "mime_key k \<longleftrightarrow> NUL \<notin> set k \<and> length k \<le> MAX_MIME_KEY_LEN"

lemma mime_put_table:
  assumes "mime_key k"
  shows "mime_put c k v = c\<lparr>muckets := snd (table_set get_mime_bucketp True (muckets c) k (length k) v)\<rparr>"
  using assms
  by (auto simp: mime_put_def mime_set_def mime_key_def table_set_def bucket_set_def Let_def strlen_def
      MAX_KEY_LEN_def MAX_MIME_KEY_LEN_def split: option.splits prod.splits)

interpretation mimes: key_table cache_ok mime_key same_key mime_get mime_put
proof
  fix c k k' and v :: string
  assume c: "cache_ok c" and k: "mime_key k"
  obtain old t where t: "table_set get_mime_bucketp True (muckets c) k (length k) v = (old, t)" by force
  have pk: "mime_key x \<Longrightarrow> plain_key x \<and> strlen x = length x" for x
    by (auto simp: mime_key_def plain_key_def MAX_KEY_LEN_def MAX_MIME_KEY_LEN_def strlen_def)
  note s = table_set_get [OF _ allI [OF get_mime_bucketp_bound] _ _ t]
  show "cache_ok (mime_put c k v)"
    using s [of k] pk [OF k] c unfolding mime_put_table [OF k] by (simp add: cache_ok_def t)
  assume "mime_key k'"
  then show "mime_get (mime_put c k v) k' = (if same_key k k' then Some v else mime_get c k')"
    using s [of k'] pk [OF k] pk [of k'] c unfolding mime_put_table [OF k] by (simp add: cache_ok_def mime_get_def t)
qed

interpretation pages: key_table cache_ok plain_key same_key
  "\<lambda>c k. cache_get c k (length k)" "\<lambda>c k v. snd (cache_set True c k (length k) v)"
proof
  fix c k k' and v :: agoo_page
  assume c: "cache_ok c" and k: "plain_key k"
  obtain old t where t: "table_set get_bucketp True (buckets c) k (length k) v = (old, t)" by force
  note s = table_set_get [OF _ allI [OF get_bucketp_bound] _ _ t]
  show "cache_ok (snd (cache_set True c k (length k) v))"
    using s [of k] k c by (simp add: cache_ok_def cache_set_def t)
  assume "plain_key k'"
  then show "cache_get (snd (cache_set True c k (length k) v)) k' (length k') =
      (if same_key k k' then Some v else cache_get c k' (length k'))"
    using s [of k'] k c by (simp add: cache_ok_def cache_set_def cache_get_def t)
qed

interpretation roots: key_table cache_ok plain_key same_key
  "\<lambda>c k. cache_root_get c k (length k)" "\<lambda>c k v. snd (cache_root_set True c k (length k) v)"
proof
  fix c k k' and v :: agoo_page
  assume c: "cache_ok c" and k: "plain_key k"
  obtain old t where t: "table_set get_bucketp True (ruckets c) k (length k) v = (old, t)" by force
  note s = table_set_get [OF _ allI [OF get_bucketp_bound] _ _ t]
  show "cache_ok (snd (cache_root_set True c k (length k) v))"
    using s [of k] k c by (simp add: cache_ok_def cache_root_set_def t)
  assume "plain_key k'"
  then show "cache_root_get (snd (cache_root_set True c k (length k) v)) k' (length k') =
      (if same_key k k' then Some v else cache_root_get c k' (length k'))"
    using s [of k'] k c by (simp add: cache_ok_def cache_root_set_def cache_root_get_def t)
qed

lemma empty_cache_ok: "cache_ok (empty_cache\<lparr>croot := r\<rparr>)"
  by (auto simp: cache_ok_def empty_cache_def buckets_ok_def)

text \<open>
  The page cache is a map on keys longer than nine bytes: storing a page returns the page
  it replaces, is found again under its key, and changes no other lookup.
\<close>

theorem page_cache_map:
  assumes "cache_ok c" "plain_key k" "plain_key k'" "MAX_KEY_UNIQ < length k"
    "cache_root_set True c k (length k) v = (old, c')"
  shows "cache_ok c' \<and> old = cache_root_get c k (length k) \<and>
    cache_root_get c' k' (length k') = (if k = k' then Some v else cache_root_get c k' (length k'))"
proof -
  obtain t where t: "table_set get_bucketp True (ruckets c) k (length k) v = (old, t)" and c': "c' = c\<lparr>ruckets := t\<rparr>"
    using assms(5) by (auto simp: cache_root_set_def split: prod.splits)
  have "buckets_ok get_bucketp PAGE_BUCKET_SIZE (ruckets c)" using assms(1) by (simp add: cache_ok_def)
  from table_set_get [OF this allI [OF get_bucketp_bound] assms(2,2) t]
  have "old = cache_root_get c k (length k)" by (simp add: cache_root_get_def)
  then show ?thesis
    using roots.put_inv [OF assms(1,2), of v] roots.get_put [OF assms(1-3), of v] same_key_long [OF assms(4), of k']
    by (simp add: assms(5))
qed

definition demo_page :: "string \<Rightarrow> agoo_page" where
  "demo_page data = (agoo_page_create ''./public/a.txt'')\<lparr>presp := Some data\<rparr>"

lemma page_cache_map_witness:
  "cache_root_get (snd (cache_root_set True (empty_cache\<lparr>croot := None\<rparr>) ''./public/a.txt'' 14 (demo_page ''x''))) ''./public/a.txt'' 14
     = Some (demo_page ''x'')"
proof -
  have k: "plain_key ''./public/a.txt''" "MAX_KEY_UNIQ < length ''./public/a.txt''"
    by (simp_all add: plain_key_def NUL_def MAX_KEY_LEN_def MAX_KEY_UNIQ_def)
  show ?thesis
    using page_cache_map [OF empty_cache_ok [of None] k(1) k(1) k(2), of "demo_page ''x''"]
    by (simp add: eval_nat_numeral) (metis prod.collapse)
qed

text \<open>
  Keys of at most nine bytes are compared by their hash only, and the hash collides: a page
  stored for \<open>r/x/q\<close> is served for \<open>r/x0$\<close>.
\<close>

theorem page_cache_collision:
  assumes "cache_ok c"
  shows "cache_root_get (snd (cache_root_set True c ''r/x/q'' 5 v)) ''r/x0$'' 5 = Some v"
proof -
  have "same_key ''r/x/q'' ''r/x0$''"
    by (simp add: same_key_def calc_hash_def MAX_KEY_UNIQ_def)
  have key: "plain_key ''r/x/q''" "plain_key ''r/x0$''" by (simp_all add: plain_key_def NUL_def MAX_KEY_LEN_def)
  from \<open>same_key _ _\<close> show ?thesis
    using roots.get_put [OF assms key(1) key(2), of v] by (simp add: eval_nat_numeral)
qed

lemma page_cache_collision_witness:
  "cache_root_get (snd (cache_root_set True (empty_cache\<lparr>croot := None\<rparr>) ''r/x/q'' 5 (demo_page ''q''))) ''r/x0$'' 5
     = Some (demo_page ''q'')"
  by (rule page_cache_collision [OF empty_cache_ok])

text \<open>The loading of the mime map, and that every suffix of it is found.\<close>

lemma pages_init_mimes: "(k, t) \<in> set mime_map \<Longrightarrow> mime_get agoo_pages_init k = Some t"
proof -
  assume kt: "(k, t) \<in> set mime_map"
  have d: "distinct (map (\<lambda>(k, t). (calc_hash k (length k), length k)) mime_map)"
    by (simp add: mime_map_def calc_hash_def)
  have keys: "\<forall>(k, v) \<in> set mime_map. mime_key k"
    by (simp add: mime_map_def mime_key_def MAX_MIME_KEY_LEN_def NUL_def)
  have "v' = t" if "(k', v') \<in> set mime_map" "same_key k' k" for k' v'
  proof -
    have "(\<lambda>(k, t). (calc_hash k (length k), length k)) (k, t) = (\<lambda>(k, t). (calc_hash k (length k), length k)) (k', v')"
      using that(2) by (auto simp: same_key_def)
    from inj_onD [OF conjunct2 [OF d [unfolded distinct_map]] this kt that(1)] show ?thesis by simp
  qed
  then have "mime_get (mimes.put_list mime_map (empty_cache\<lparr>croot := Some ''.''\<rparr>)) k = Some t"
    using mimes.get_put_list_unique [OF empty_cache_ok keys kt same_key_equiv(1)] by blast
  then show ?thesis by (simp add: mimes.put_list_def agoo_pages_init_def)
qed

section \<open>Responses\<close>

definition rules_ok :: "page_cache \<Rightarrow> bool" where
  "rules_ok c \<longleftrightarrow> (\<forall>hr \<in> set (head_rules c). hr_len hr = length (rule_line hr))"

lemma header_rule_ok: "rules_ok c \<Longrightarrow> agoo_header_rule mem c path mime key value = Inr c' \<Longrightarrow> rules_ok c'"
  by (auto simp: rules_ok_def agoo_header_rule_def rule_line_def crlf_def split: if_splits)

lemma rules_length:
  "\<forall>hr \<in> set rs. hr_len hr = length (rule_line hr) \<Longrightarrow> length (concat (map rule_line rs)) = sum_list (map hr_len rs)"
  by (induction rs) simp_all

lemma page_head_length:
  assumes "\<forall>hr \<in> set rs. hr_len hr = length (rule_line hr)"
  shows "length (page_head ct rs mime n) \<le> 53 + length mime + length (dec_str n) + sum_list (map hr_len rs)"
    "38 + sum_list (map hr_len rs) \<le> length (page_head ct rs mime n)"
proof -
  note l = rules_length [OF assms]
  have d: "1 \<le> length (dec_str n)" using dec_str_digits [of n] by (cases "dec_str n") simp_all
  show "length (page_head ct rs mime n) \<le> 53 + length mime + length (dec_str n) + sum_list (map hr_len rs)"
    using l unfolding page_head_def page_fmt_def page_min_fmt_def crlf_def by simp
  show "38 + sum_list (map hr_len rs) \<le> length (page_head ct rs mime n)"
    using l d unfolding page_head_def page_fmt_def page_min_fmt_def crlf_def
    by (cases "sum_list (map hr_len rs)") (simp_all del: sum_list_eq_0_iff)
qed

text \<open>The mime types are short, as all of the initial ones are.\<close>

definition mimes_short :: "page_cache \<Rightarrow> bool" where
  "mimes_short c \<longleftrightarrow> (\<forall>b \<in> set (muckets c). \<forall>s \<in> set b. length (svalue s) \<le> 50)"

lemma mime_get_short:
  assumes "cache_ok c" "mimes_short c" "mime_get c k = Some m"
  shows "length m \<le> 50"
proof -
  let ?i = "get_mime_bucketp (calc_hash k (strlen k))"
  obtain s where "s \<in> set (muckets c ! ?i)" "m = svalue s"
    using assms(3) by (auto simp: mime_get_def table_get_def Let_def bucket_get_def dest: find_SomeD)
  moreover have "muckets c ! ?i \<in> set (muckets c)"
    using assms(1) get_mime_bucketp_bound by (auto simp: cache_ok_def buckets_ok_def)
  ultimately show ?thesis using assms(2) by (auto simp: mimes_short_def)
qed

lemma matching_rules_ok: "rules_ok c \<Longrightarrow> \<forall>hr \<in> set (matching_rules c r m). hr_len hr = length (rule_line hr)"
  by (simp add: rules_ok_def matching_rules_def)

lemma page_fill_ok:
  assumes "rules_ok c" "length mime \<le> 50" "length data < 10 ^ 18"
  shows "page_fill (text_cap (sizeof_page_fmt + 60 + length data + sum_list (map hr_len (matching_rules c r mime))))
      (page_head ct (matching_rules c r mime) mime (length data)) data =
    Val (page_head ct (matching_rules c r mime) mime (length data) @ data)"
  using page_head_length(1) [OF matching_rules_ok [OF assms(1)], of ct r mime mime "length data"]
    dec_str_length [OF assms(3)] assms(2)
  by (simp add: page_fill_def text_cap_def sizeof_page_fmt_def)



definition demo_env :: fs_env where
  "demo_env = \<lparr>e_open = (\<lambda>p. if p = ''./pub/../index.html'' then Some \<lparr>f_regular = True, f_data = ''secret'', f_io_ok = True\<rparr> else None),
     e_stat = (\<lambda>p. None), e_access = (\<lambda>p. False), e_now = 9, e_mem = True\<rparr>"

definition demo_cache :: page_cache where
  "demo_cache = empty_cache\<lparr>croot := Some ''./pub''\<rparr>"

lemma demo_cache_facts:
  "cache_ok demo_cache" "mimes_short demo_cache" "rules_ok demo_cache" "mime_get demo_cache [] = None"
  "cache_root_get demo_cache k n = None" "croot demo_cache = Some ''./pub''" "head_rules demo_cache = []"
  using empty_cache_ok [of "Some ''./pub''"] get_bucketp_bound get_mime_bucketp_bound
  by (auto simp: demo_cache_def mimes_short_def empty_cache_def rules_ok_def mime_get_def cache_root_get_def
      table_get_def bucket_get_def Let_def)

lemma demo_env_facts:
  "e_open demo_env p = Some f \<Longrightarrow> length (f_data f) < 10 ^ 18" "e_mem demo_env" "e_open demo_env ''./pub/..'' = None"
  "e_open demo_env ''./pub/../index.html'' = Some \<lparr>f_regular = True, f_data = ''secret'', f_io_ok = True\<rparr>"
  by (auto simp: demo_env_def split: if_splits)


text \<open>
  \<open>agoo_page_immutable\<close> reserves no room for the header rules: when the rules that match
  need 90 bytes or more, it writes past the end of the text, whatever the content.
\<close>

theorem page_immutable_overflow:
  assumes "rules_ok c" "path_mime c path = Val m" "e_mem env" "0 < clen" "clen \<le> length content"
    "90 \<le> sum_list (map hr_len (matching_rules c (rel_path c path) (case m of None \<Rightarrow> ''text/html'' | Some x \<Rightarrow> x)))"
  shows "agoo_page_immutable env junk c path content clen = UB"
proof -
  let ?mime = "case m of None \<Rightarrow> ''text/html'' | Some x \<Rightarrow> x"
  have "38 + 90 \<le> length (page_head junk (matching_rules c (rel_path c path) ?mime) ?mime clen)"
    using page_head_length(2) [OF matching_rules_ok [OF assms(1)], of "rel_path c path" ?mime junk ?mime clen] assms(6)
    by linarith
  then show ?thesis
    using assms(2-5) by (simp add: agoo_page_immutable_def Let_def blk_read_ok page_fill_def text_cap_def sizeof_page_fmt_def)
qed

definition csp_rule :: head_rule where
  "csp_rule = \<lparr>hr_path = ''**'', hr_mime = None, hr_key = ''X'', hr_value = replicate 90 CHR ''a'', hr_len = 95\<rparr>"

lemma page_immutable_overflow_witness:
  "agoo_page_immutable demo_env False (demo_cache\<lparr>head_rules := [csp_rule]\<rparr>) ''/x'' ''hi'' 2 = UB"
proof (rule page_immutable_overflow)
  show "rules_ok (demo_cache\<lparr>head_rules := [csp_rule]\<rparr>)" by (simp add: rules_ok_def csp_rule_def rule_line_def crlf_def)
  show "path_mime (demo_cache\<lparr>head_rules := [csp_rule]\<rparr>) ''/x'' = Val None" by (simp add: path_mime_def)
  show "90 \<le> sum_list (map hr_len (matching_rules (demo_cache\<lparr>head_rules := [csp_rule]\<rparr>)
      (rel_path (demo_cache\<lparr>head_rules := [csp_rule]\<rparr>) ''/x'') (case None of None \<Rightarrow> ''text/html'' | Some x \<Rightarrow> x)))"
    by (simp add: matching_rules_def head_rule_match_def path_match_def csp_rule_def rel_path_def demo_cache_facts(6) cat_def)
qed (simp_all add: demo_env_def)

section \<open>Paths stay inside the root\<close>

definition safe_path :: "string \<Rightarrow> bool" where
  "safe_path p \<longleftrightarrow> \<not> has_sub ''../'' p \<and> \<not> has_sub ''//'' p"

definition confined :: "page_cache \<Rightarrow> bool" where
  "confined c \<longleftrightarrow> (\<forall>b \<in> set (ruckets c). \<forall>s \<in> set b. safe_path (ppath (svalue s)))"

lemma table_get_value:
  assumes "length t = n" "idx (calc_hash k l) < n" "table_get idx t k l = Some v" "\<forall>b \<in> set t. \<forall>s \<in> set b. P (svalue s)"
  shows "P v"
  using assms by (auto simp: table_get_def Let_def bucket_get_def dest!: find_SomeD)

lemma bucket_replace_values:
  "bucket_replace hit v b = Some (old, b') \<Longrightarrow> \<forall>s \<in> set b. P (svalue s) \<Longrightarrow> P v \<Longrightarrow> \<forall>s \<in> set b'. P (svalue s)"
  by (induction b arbitrary: b') (auto split: if_splits option.splits)

lemma table_set_values:
  assumes "length t = n" "idx (calc_hash k l) < n" "\<forall>b \<in> set t. \<forall>s \<in> set b. P (svalue s)" "P v"
  shows "\<forall>b \<in> set (snd (table_set idx mem t k l v)). \<forall>s \<in> set b. P (svalue s)"
proof -
  let ?h = "calc_hash k l"
  obtain old b' where b: "bucket_set mem (t ! idx ?h) ?h k l v = (old, b')" by force
  have "\<forall>s \<in> set (t ! idx ?h). P (svalue s)" using assms(1-3) by auto
  then have "\<forall>s \<in> set b'. P (svalue s)"
    using b assms(4) bucket_replace_values [of "slot_hit ?h l k" v "t ! idx ?h" _ _ P]
    by (fastforce simp: bucket_set_def split: if_splits option.splits)
  then show ?thesis using assms(3) b
    by (auto simp: table_set_def Let_def dest!: set_update_subset_insert [THEN subsetD])
qed

definition ruckets_sized :: "page_cache \<Rightarrow> bool" where
  "ruckets_sized c \<longleftrightarrow> length (ruckets c) = PAGE_BUCKET_SIZE"

lemma confined_set: "ruckets_sized c \<Longrightarrow> confined c \<Longrightarrow> safe_path (ppath v) \<Longrightarrow>
    confined (snd (cache_root_set mem c k n v)) \<and> ruckets_sized (snd (cache_root_set mem c k n v))"
  using table_set_values [of "ruckets c" PAGE_BUCKET_SIZE get_bucketp k n "\<lambda>p. safe_path (ppath p)" v mem] get_bucketp_bound
  by (auto simp: confined_def ruckets_sized_def cache_root_set_def table_set_def Let_def split: prod.splits)

lemma update_contents_path: "update_contents env c p = Val (ok, p') \<Longrightarrow> ppath p' = ppath p"
  unfolding update_contents_def
  by (cases "path_mime c (ppath p)") (auto simp: Let_def page_fill_def split: option.splits if_splits)

lemma page_check_path:
  "page_check env c p = Val (err, pg, c') \<Longrightarrow> ruckets c' = ruckets c \<and> (\<forall>p'. pg = Some p' \<longrightarrow> ppath p' = ppath p)"
  unfolding page_check_def
  by (cases "update_contents env c p")
    (auto simp: agoo_page_remove_def Let_def dest!: update_contents_path split: option.splits if_splits)

text \<open>A path that passes the check, first without an entry in the table of root pages, then with one.\<close>

lemma page_get_miss:
  assumes "ruckets_sized c" "confined c" "safe_path (cstr full)" "update_contents env c (agoo_page_create full) = Val (ok, p')"
    "cache_root_set mem c full (length full) p' = (old, c')"
  shows "ruckets_sized c' \<and> confined c' \<and> safe_path (ppath p')"
proof -
  have "safe_path (ppath (agoo_page_create full))" using assms(3) by (simp add: agoo_page_create_def)
  then have "safe_path (ppath p')" using update_contents_path [OF assms(4)] by metis
  from confined_set [OF assms(1,2) this] this show ?thesis using assms(5) by (metis snd_conv)
qed

lemma page_get_hit:
  assumes "ruckets_sized c" "confined c" "cache_root_get c full (length full) = Some page" "page_check env c page = Val (e, pg1, c1)"
  shows "ruckets_sized c1 \<and> confined c1 \<and>
    (\<forall>p'. pg1 = Some p' \<longrightarrow> safe_path (ppath p') \<and>
      ruckets_sized (snd (cache_root_set True c1 full (length full) p')) \<and> confined (snd (cache_root_set True c1 full (length full) p')))"
proof -
  have "safe_path (ppath page)"
    using table_get_value [of "ruckets c" PAGE_BUCKET_SIZE get_bucketp full "length full" page "\<lambda>p. safe_path (ppath p)"]
      assms(1-3) get_bucketp_bound by (simp add: cache_root_get_def confined_def ruckets_sized_def)
  then have c1: "ruckets_sized c1" "confined c1" "\<And>p'. pg1 = Some p' \<Longrightarrow> safe_path (ppath p')"
    using page_check_path [OF assms(4)] assms(1,2) by (auto simp: ruckets_sized_def confined_def)
  then show ?thesis using confined_set [OF c1(1,2) c1(3)] by blast
qed


lemma parent_index:
  assumes "croot c = Some root" "root \<noteq> []" "last root \<noteq> CHR ''/''" "length root < 1000" "NUL \<notin> set root"
    "safe_path (root @ ''/..'')" "cache_root_get c (root @ ''/..'') (length (root @ ''/..'')) = None" "mime_get c [] = None"
    "head_rules c = []" "e_mem env" "e_open env (root @ ''/..'') = None"
    "e_open env (root @ ''/../index.html'') = Some f" "f_io_ok f" "length (f_data f) < 10 ^ 18"
  shows "\<exists>page c'. agoo_page_get env c ''/..'' 3 None = Val (None, Some page, c') \<and>
    presp page = Some (page_fmt ''text/html'' (length (f_data f)) @ f_data f)"
proof -
  let ?full = "root @ ''/..''"
  have dots: "strncpy_str ''/..'' 3 = ''/..''" "CHR ''%'' \<notin> set (take 3 ''/..'')"
    by (simp_all add: strncpy_str_def cstr_def NUL_def strlen_def numeral_3_eq_3)
  have full: "page_path c ''/..'' 3 None = Val (Some ?full)"
    using assms(1-4) by (simp add: page_path_def Let_def FULL_PATH_SIZE_def dots)
  have c: "cstr ?full = ?full" using assms(5) by (intro cstr_no_NUL) (simp add: NUL_def)
  have m: "path_mime c ?full = Val None"
    using assms(8) by (simp add: path_mime_def nth_append)
  have ip: "index_path ?full = root @ ''/../index.html''" "length (index_path ?full) \<le> 1023"
    using assms(4) by (simp_all add: index_path_def)
  have rules: "matching_rules c r mi = []" for r mi by (simp add: matching_rules_def assms(9))
  have ro: "rules_ok c" by (simp add: rules_ok_def assms(9))
  have fill: "page_fill (text_cap (sizeof_page_fmt + 60 + length (f_data f))) (page_head False [] ''text/html'' (length (f_data f))) (f_data f)
      = Val (page_fmt ''text/html'' (length (f_data f)) @ f_data f)"
    using page_fill_ok [OF ro _ assms(14), of "''text/html''" None False] by (simp add: rules page_head_def)
  have "\<exists>p. update_contents env c (agoo_page_create ?full) = Val (True, p) \<and>
      presp p = Some (page_fmt ''text/html'' (length (f_data f)) @ f_data f)"
    using m ip assms(10-13) fill
    by (simp add: update_contents_def agoo_page_create_def c page_file_def page_index_def Let_def rules)
  then obtain p where p: "update_contents env c (agoo_page_create ?full) = Val (True, p)"
      "presp p = Some (page_fmt ''text/html'' (length (f_data f)) @ f_data f)" by blast
  have s: "\<not> (has_sub ''../'' (cstr ?full) \<or> has_sub ''//'' (cstr ?full))" using assms(6) c by (simp add: safe_path_def)
  show ?thesis
    using full s assms(1,7,10) p unfolding agoo_page_get_def
    by (simp add: split: prod.splits)
qed

text \<open>
  The check lets a path through that ends in \<open>/..\<close>: the page served for it is the
  \<open>index.html\<close> of the directory above the root.
\<close>

theorem page_get_parent_index:
  assumes "croot c = Some root" "root \<noteq> []" "last root \<noteq> CHR ''/''" "length root < 1000" "NUL \<notin> set root"
    "safe_path (root @ ''/..'')" "cache_root_get c (root @ ''/..'') (length (root @ ''/..'')) = None" "mime_get c [] = None"
    "head_rules c = []" "e_mem env" "e_open env (root @ ''/..'') = None"
    "e_open env (root @ ''/../index.html'') = Some f" "f_io_ok f" "length (f_data f) < 10 ^ 18"
  shows "\<exists>page c'. agoo_page_get env c ''/..'' 3 None = Val (None, Some page, c') \<and>
    presp page = Some (page_fmt ''text/html'' (length (f_data f)) @ f_data f)"
  using parent_index [OF assms] .

lemma page_get_parent_index_witness:
  "\<exists>page c'. agoo_page_get demo_env demo_cache ''/..'' 3 None = Val (None, Some page, c') \<and>
    presp page = Some (page_fmt ''text/html'' 6 @ ''secret'')"
proof -
  let ?f = "\<lparr>f_regular = True, f_data = ''secret'', f_io_ok = True\<rparr>"
  have "\<exists>page c'. agoo_page_get demo_env demo_cache ''/..'' 3 None = Val (None, Some page, c') \<and>
    presp page = Some (page_fmt ''text/html'' (length (f_data ?f)) @ f_data ?f)"
    by (rule page_get_parent_index [where root = "''./pub''"])
      (simp_all add: demo_cache_facts demo_env_facts NUL_def safe_path_def)
  then show ?thesis by (simp add: numeral_eq_Suc)
qed


end
