(* ===== verification/Http.thy ===== *)
theory Http
  imports Prelude Err
begin

text \<open>
  The HTTP header checks of \<open>ext/agoo/http.c\<close>: the table of the registered header names, the
  character table of the values, and the status messages.
\<close>

section \<open>Tables\<close>

text \<open>The names of \<open>header_keys\<close>, in three parts.\<close>

definition header_keys_1 :: "string list" where
  "header_keys_1 = [
    ''A-IM'', ''ALPN'', ''ARC-Authentication-Results'', ''ARC-Message-Signature'', ''ARC-Seal'', ''Accept'',
    ''Accept-Additions'', ''Accept-Charset'', ''Accept-Datetime'', ''Accept-Encoding'', ''Accept-Features'',
    ''Accept-Language'', ''Accept-Patch'', ''Accept-Post'', ''Accept-Ranges'', ''Access-Control'',
    ''Access-Control-Allow-Credentials'', ''Access-Control-Allow-Headers'', ''Access-Control-Allow-Methods'',
    ''Access-Control-Allow-Origin'', ''Access-Control-Max-Age'', ''Access-Control-Request-Headers'',
    ''Access-Control-Request-Method'', ''Age'', ''Allow'', ''Also-Control'', ''Alt-Svc'', ''Alt-Used'',
    ''Alternate-Recipient'', ''Alternates'', ''Apparently-To'', ''Apply-To-Redirect-Ref'', ''Approved'',
    ''Archive'', ''Archived-At'', ''Article-Names'', ''Article-Updates'', ''Authentication-Control'',
    ''Authentication-Info'', ''Authentication-Results'', ''Authorization'', ''Auto-Submitted'',
    ''Autoforwarded'', ''Autosubmitted'', ''Base'', ''Bcc'', ''Body'', ''C-Ext'', ''C-Man'', ''C-Opt'',
    ''C-PEP'', ''C-PEP-Info'', ''Cache-Control'', ''CalDAV-Timezones'', ''Cancel-Key'', ''Cancel-Lock'',
    ''Cc'', ''Close'', ''Comments'', ''Compliance'', ''Connection'', ''Content-Alternative'',
    ''Content-Base'', ''Content-Description'', ''Content-Disposition'', ''Content-Duration'',
    ''Content-Encoding'', ''Content-ID'', ''Content-Identifier'', ''Content-Language'', ''Content-Length'',
    ''Content-Location'', ''Content-MD5'', ''Content-Range'', ''Content-Return'', ''Content-Script-Type'',
    ''Content-Style-Type'', ''Content-Transfer-Encoding'', ''Content-Translation-Type'', ''Content-Type'',
    ''Content-Version'', ''Content-features'', ''Control'', ''Conversion'', ''Conversion-With-Loss'',
    ''Cookie'', ''Cookie2'', ''Cost'', ''DASL'', ''DAV'', ''DKIM-Signature'', ''DL-Expansion-History'',
    ''DNT'', ''Date'', ''Date-Received'', ''Default-Style'', ''Deferred-Delivery'', ''Delivery-Date'',
    ''Delta-Base'', ''Depth'', ''Derived-From'', ''Destination'', ''Differential-ID'', ''Digest'',
    ''Discarded-X400-IPMS-Extensions'', ''Discarded-X400-MTS-Extensions'', ''Disclose-Recipients'',
    ''Disposition-Notification-Options'', ''Disposition-Notification-To'', ''Distribution'',
    ''Downgraded-Bcc'', ''Downgraded-Cc'', ''Downgraded-Disposition-Notification-To'',
    ''Downgraded-Final-Recipient'', ''Downgraded-From'', ''Downgraded-In-Reply-To'',
    ''Downgraded-Mail-From'', ''Downgraded-Message-Id'', ''Downgraded-Original-Recipient'',
    ''Downgraded-Rcpt-To'', ''Downgraded-References'', ''Downgraded-Reply-To'', ''Downgraded-Resent-Bcc'',
    ''Downgraded-Resent-Cc'', ''Downgraded-Resent-From'']"

definition header_keys_2 :: "string list" where
  "header_keys_2 = [
    ''Downgraded-Resent-Reply-To'', ''Downgraded-Resent-Sender'', ''Downgraded-Resent-To'',
    ''Downgraded-Return-Path'', ''Downgraded-Sender'', ''Downgraded-To'', ''EDIINT-Features'', ''ETag'',
    ''Eesst-Version'', ''Encoding'', ''Encrypted'', ''Errors-To'', ''Expect'', ''Expires'', ''Expiry-Date'',
    ''Ext'', ''Followup-To'', ''Form-Sub'', ''Forwarded'', ''From'', ''Front-End-Https'',
    ''Generate-Delivery-Report'', ''GetProfile'', ''HTTP2-Settings'', ''Hobareg'', ''Host'', ''IM'', ''If'',
    ''If-Match'', ''If-Modified-Since'', ''If-None-Match'', ''If-Range'', ''If-Schedule-Tag-Match'',
    ''If-Unmodified-Since'', ''Importance'', ''In-Reply-To'', ''Incomplete-Copy'', ''Injection-Date'',
    ''Injection-Info'', ''Jabber-ID'', ''Keep-Alive'', ''Keywords'', ''Label'', ''Language'',
    ''Last-Modified'', ''Latest-Delivery-Time'', ''Lines'', ''Link'', ''List-Archive'', ''List-Help'',
    ''List-ID'', ''List-Owner'', ''List-Post'', ''List-Subscribe'', ''List-Unsubscribe'',
    ''List-Unsubscribe-Post'', ''Location'', ''Lock-Token'', ''MIME-Version'',
    ''MMHS-Acp127-Message-Identifier'', ''MMHS-Authorizing-Users'', ''MMHS-Codress-Message-Indicator'',
    ''MMHS-Copy-Precedence'', ''MMHS-Exempted-Address'', ''MMHS-Extended-Authorisation-Info'',
    ''MMHS-Handling-Instructions'', ''MMHS-Message-Instructions'', ''MMHS-Message-Type'',
    ''MMHS-Originator-PLAD'', ''MMHS-Originator-Reference'', ''MMHS-Other-Recipients-Indicator-CC'',
    ''MMHS-Other-Recipients-Indicator-To'', ''MMHS-Primary-Precedence'', ''MMHS-Subject-Indicator-Codes'',
    ''MT-Priority'', ''Man'', ''Max-Forwards'', ''Memento-Datetime'', ''Message-Context'', ''Message-ID'',
    ''Message-Type'', ''Meter'', ''Method-Check'', ''Method-Check-Expires'', ''NNTP-Posting-Date'',
    ''NNTP-Posting-Host'', ''Negotiate'', ''Newsgroups'', ''Non-Compliance'', ''Obsoletes'', ''Opt'',
    ''Optional'', ''Optional-WWW-Authenticate'', ''Ordering-Type'', ''Organization'', ''Origin'',
    ''Original-Encoded-Information-Types'', ''Original-From'', ''Original-Message-ID'',
    ''Original-Recipient'', ''Original-Sender'', ''Original-Subject'', ''Originator-Return-Address'',
    ''Overwrite'', ''P3P'', ''PEP'', ''PICS-Label'', ''Path'', ''Pep-Info'', ''Position'',
    ''Posting-Version'', ''Pragma'', ''Prefer'', ''Preference-Applied'', ''Prevent-NonDelivery-Report'',
    ''Priority'', ''Privicon'', ''ProfileObject'', ''Protocol'', ''Protocol-Info'', ''Protocol-Query'',
    ''Protocol-Request'', ''Proxy-Authenticate'', ''Proxy-Authentication-Info'', ''Proxy-Authorization'']"

definition header_keys_3 :: "string list" where
  "header_keys_3 = [
    ''Proxy-Connection'', ''Proxy-Features'', ''Proxy-Instruction'', ''Public'', ''Public-Key-Pins'',
    ''Public-Key-Pins-Report-Only'', ''Range'', ''Received'', ''Received-SPF'', ''Redirect-Ref'',
    ''References'', ''Referer'', ''Referer-Root'', ''Relay-Version'', ''Reply-By'', ''Reply-To'',
    ''Require-Recipient-Valid-Since'', ''Resent-Bcc'', ''Resent-Cc'', ''Resent-Date'', ''Resent-From'',
    ''Resent-Message-ID'', ''Resent-Reply-To'', ''Resent-Sender'', ''Resent-To'', ''Resolution-Hint'',
    ''Resolver-Location'', ''Retry-After'', ''Return-Path'', ''SIO-Label'', ''SIO-Label-History'', ''SLUG'',
    ''Safe'', ''Save-Data'', ''Schedule-Reply'', ''Schedule-Tag'', ''Sec-WebSocket-Accept'',
    ''Sec-WebSocket-Extensions'', ''Sec-WebSocket-Key'', ''Sec-WebSocket-Protocol'',
    ''Sec-WebSocket-Version'', ''Security-Scheme'', ''See-Also'', ''Sender'', ''Sender'', ''Sensitivity'',
    ''Server'', ''Set-Cookie'', ''Set-Cookie2'', ''SetProfile'', ''SoapAction'', ''Solicitation'',
    ''Status-URI'', ''Strict-Transport-Security'', ''SubOK'', ''Subject'', ''Subst'', ''Summary'',
    ''Supersedes'', ''Surrogate-Capability'', ''Surrogate-Control'', ''TCN'', ''TE'', ''TTL'', ''Timeout'',
    ''Title'', ''To'', ''Topic'', ''Trailer'', ''Transfer-Encoding'', ''UA-Color'', ''UA-Media'',
    ''UA-Pixels'', ''UA-Resolution'', ''UA-Windowpixels'', ''URI'', ''Upgrade'',
    ''Upgrade-Insecure-Requests'', ''Urgency'', ''User-Agent'', ''VBR-Info'', ''Variant-Vary'', ''Vary'',
    ''Version'', ''Via'', ''WWW-Authenticate'', ''Want-Digest'', ''Warning'', ''X-ATT-DeviceId'',
    ''X-Archived-At'', ''X-Content-Type-Options'', ''X-Correlation-ID'', ''X-Csrf-Token'',
    ''X-Device-Accept'', ''X-Device-Accept-Charset'', ''X-Device-Accept-Encoding'',
    ''X-Device-Accept-Language'', ''X-Device-User-Agent'', ''X-Forwarded-For'', ''X-Forwarded-Host'',
    ''X-Forwarded-Proto'', ''X-Frame-Options'', ''X-Http-Method-Override'', ''X-Mittente'', ''X-PGP-Sig'',
    ''X-Request-ID'', ''X-Requested-With'', ''X-Ricevuta'', ''X-Riferimento-Message-ID'', ''X-TipoRicevuta'',
    ''X-Trasporto'', ''X-UIDH'', ''X-VerificaSicurezza'', ''X-Wap-Profile'', ''X-XSS-Protection'',
    ''X400-Content-Identifier'', ''X400-Content-Return'', ''X400-Content-Type'', ''X400-MTS-Identifier'',
    ''X400-Originator'', ''X400-Received'', ''X400-Recipients'', ''X400-Trace'', ''Xref'']"

definition header_keys :: "string list" where
  "header_keys = header_keys_1 @ header_keys_2 @ header_keys_3"

definition header_value_chars :: string where
  "header_value_chars =
     ''xxxxxxxxxxoxxxxxxxxxxxxxxxxxxxxx'' @
     ''oooooooooooooooooooooooooooooooo'' @
     ''oooooooooooooooooooooooooooooooo'' @
     ''ooooooooooooooooooooooooooooooox'' @
     ''xxxxxxxxxxxxxxxxxxxxxxxxxxxxxxxx'' @
     ''xxxxxxxxxxxxxxxxxxxxxxxxxxxxxxxx'' @
     ''xxxxxxxxxxxxxxxxxxxxxxxxxxxxxxxx'' @
     ''xxxxxxxxxxxxxxxxxxxxxxxxxxxxxxxx''"

definition http_code_message :: "int \<Rightarrow> string" where
  "http_code_message code =
    (if code = 100 then ''Continue''
     else if code = 101 then ''Switching Protocols''
     else if code = 102 then ''Processing''
     else if code = 200 then ''OK''
     else if code = 201 then ''Created''
     else if code = 202 then ''Accepted''
     else if code = 203 then ''Non-authoritative Information''
     else if code = 204 then ''No Content''
     else if code = 205 then ''Reset Content''
     else if code = 206 then ''Partial Content''
     else if code = 207 then ''Multi-Status''
     else if code = 208 then ''Already Reported''
     else if code = 226 then ''IM Used''
     else if code = 300 then ''Multiple Choices''
     else if code = 301 then ''Moved Permanently''
     else if code = 302 then ''Found''
     else if code = 303 then ''See Other''
     else if code = 304 then ''Not Modified''
     else if code = 305 then ''Use Proxy''
     else if code = 307 then ''Temporary Redirect''
     else if code = 308 then ''Permanent Redirect''
     else if code = 400 then ''Bad Request''
     else if code = 401 then ''Unauthorized''
     else if code = 402 then ''Payment Required''
     else if code = 403 then ''Forbidden''
     else if code = 404 then ''Not Found''
     else if code = 405 then ''Method Not Allowed''
     else if code = 406 then ''Not Acceptable''
     else if code = 407 then ''Proxy Authentication Required''
     else if code = 408 then ''Request Timeout''
     else if code = 409 then ''Conflict''
     else if code = 410 then ''Gone''
     else if code = 411 then ''Length Required''
     else if code = 412 then ''Precondition Failed''
     else if code = 413 then ''Payload Too Large''
     else if code = 414 then ''Request-URI Too Long''
     else if code = 415 then ''Unsupported Media Type''
     else if code = 416 then ''Requested Range Not Satisfiable''
     else if code = 417 then ''Expectation Failed''
     else if code = 418 then ''I'' @ [CHR 0x27] @ ''m a teapot''
     else if code = 421 then ''Misdirected Request''
     else if code = 422 then ''Unprocessable Entity''
     else if code = 423 then ''Locked''
     else if code = 424 then ''Failed Dependency''
     else if code = 426 then ''Upgrade Required''
     else if code = 428 then ''Precondition Required''
     else if code = 429 then ''Too Many Requests''
     else if code = 431 then ''Request Header Fields Too Large''
     else if code = 444 then ''Connection Closed Without Response''
     else if code = 451 then ''Unavailable For Legal Reasons''
     else if code = 499 then ''Client Closed Request''
     else if code = 500 then ''Internal Server Error''
     else if code = 501 then ''Not Implemented''
     else if code = 502 then ''Bad Gateway''
     else if code = 503 then ''Service Unavailable''
     else if code = 504 then ''Gateway Timeout''
     else if code = 505 then ''HTTP Version Not Supported''
     else if code = 506 then ''Variant Also Negotiates''
     else if code = 507 then ''Insufficient Storage''
     else if code = 508 then ''Loop Detected''
     else if code = 510 then ''Not Extended''
     else if code = 511 then ''Network Authentication Required''
     else if code = 599 then ''Network Connect Timeout Error''
     else [])"

section \<open>The key table\<close>

record key_slot =
  ks_key :: string
  ks_hash :: u64
  ks_klen :: int

definition HTTP_MAX_KEY_UNIQ :: int where "HTTP_MAX_KEY_UNIQ = 9"
definition HTTP_BUCKET_SIZE :: nat where "HTTP_BUCKET_SIZE = 1024"

text \<open>
  The hash of a name, its case folded by \<open>| 0x20\<close>, and its length, negated where a character
  is outside the range the hash is meant for.
\<close>

definition key_hash :: "string \<Rightarrow> u64" where
  "key_hash key = foldl (\<lambda>h c. 77 * h + ((of_nat (of_char c) OR 0x20) - 0x2D)) 0 key"

definition key_special :: "string \<Rightarrow> bool" where
  "key_special key \<longleftrightarrow> list_ex (\<lambda>c. (of_char c :: nat) < 0x2D \<or> 0x7A < (of_char c :: nat)) key"

definition http_calc_hash :: "string \<Rightarrow> nat \<Rightarrow> u64 \<times> int" where
  "http_calc_hash key klen =
    (let k = take klen key
     in (key_hash k, if key_special k then - int (length k) else int (length k)))"

definition http_bucketp :: "u64 \<Rightarrow> nat" where
  "http_bucketp h = unat (1023 AND (h XOR push_bit 5 h XOR drop_bit 7 h))"

definition key_slot :: "string \<Rightarrow> key_slot" where
  "key_slot key = (case http_calc_hash key (strlen key) of (h, len) \<Rightarrow> \<lparr>ks_key = key, ks_hash = h, ks_klen = len\<rparr>)"

definition key_set :: "key_slot list list \<Rightarrow> string \<Rightarrow> key_slot list list" where
  "key_set t key = (let s = key_slot key; i = http_bucketp (ks_hash s) in t[i := s # t ! i])"

definition agoo_http_init :: "key_slot list list" where
  "agoo_http_init = foldl key_set (replicate HTTP_BUCKET_SIZE []) header_keys"

definition agoo_http_cleanup :: "key_slot list list" where
  "agoo_http_cleanup = replicate HTTP_BUCKET_SIZE []"

definition key_hit :: "u64 \<Rightarrow> int \<Rightarrow> string \<Rightarrow> nat \<Rightarrow> key_slot \<Rightarrow> bool" where
  "key_hit h len key klen s \<longleftrightarrow> h = ks_hash s \<and> len = ks_klen s \<and>
     (0 \<le> len \<and> len \<le> HTTP_MAX_KEY_UNIQ \<or> strncasecmp_eq (ks_key s) key klen)"

text \<open>The loop over the value; \<open>quoted\<close> is the indicator for being in a quoted string.\<close>

fun value_ok :: "string \<Rightarrow> bool \<Rightarrow> agoo_err_code" where
  "value_ok [] quoted = (if quoted then AGOO_ERR_ARG else AGOO_ERR_OK)"
| "value_ok (c # value) quoted =
     (if header_value_chars ! of_char c \<noteq> CHR ''o'' then AGOO_ERR_ARG
      else value_ok value (if c = CHR 0x22 then \<not> quoted else quoted))"

definition agoo_http_header_ok :: "key_slot list list \<Rightarrow> string \<Rightarrow> nat \<Rightarrow> string \<Rightarrow> nat \<Rightarrow> agoo_err_code" where
  "agoo_http_header_ok t key klen value vlen =
    (case http_calc_hash key klen of (h, len) \<Rightarrow>
       if \<not> list_ex (key_hit h len key klen) (t ! http_bucketp h) then AGOO_ERR_ARG
       else value_ok (take vlen value) False)"

section \<open>What is accepted\<close>

lemma http_bucketp_bound: "http_bucketp h < HTTP_BUCKET_SIZE"
  using mask_bound [of 1023 10] by (simp add: http_bucketp_def HTTP_BUCKET_SIZE_def mask_eq_exp_minus_1)

lemma key_set_nth:
  "length t = HTTP_BUCKET_SIZE \<Longrightarrow> length (key_set t k) = HTTP_BUCKET_SIZE \<and>
   set (key_set t k ! i) = set (t ! i) \<union> (if http_bucketp (ks_hash (key_slot k)) = i then {key_slot k} else {})"
  using http_bucketp_bound [of "ks_hash (key_slot k)"] by (auto simp: key_set_def Let_def)

lemma key_set_all:
  "length t = HTTP_BUCKET_SIZE \<Longrightarrow>
   set (foldl key_set t ks ! i) = set (t ! i) \<union> {key_slot k | k. k \<in> set ks \<and> http_bucketp (ks_hash (key_slot k)) = i}"
proof (induction ks arbitrary: t)
  case (Cons k ks)
  show ?case using Cons.IH [of "key_set t k"] key_set_nth [OF Cons.prems, of k i] key_set_nth [OF Cons.prems, of k]
    by auto
qed simp

lemma init_hit:
  "list_ex (key_hit h len key klen) (agoo_http_init ! http_bucketp h) \<longleftrightarrow>
   (\<exists>k \<in> set header_keys. key_hit h len key klen (key_slot k))"
proof -
  have "set (agoo_http_init ! http_bucketp h) = {key_slot k | k. k \<in> set header_keys \<and> http_bucketp (ks_hash (key_slot k)) = http_bucketp h}"
    using key_set_all [of "replicate HTTP_BUCKET_SIZE []" header_keys "http_bucketp h"] http_bucketp_bound [of h]
    by (simp add: agoo_http_init_def)
  then show ?thesis unfolding list_ex_iff by (auto simp: key_hit_def)
qed

text \<open>Names that are equal up to case have the same hash, length and class.\<close>

definition fold_byte :: "char \<Rightarrow> u64" where
  "fold_byte c = of_nat (of_char c) OR 0x20"

lemma fold_letters:
  "list_all (\<lambda>n. (of_nat n OR 0x20 :: u64) = of_nat (n + 32) \<and> (of_nat (n + 32) OR 0x20 :: u64) = of_nat (n + 32)) [65..<91]"
  by code_simp

lemma lower_fold: "fold_byte (lower_c c) = fold_byte c"
proof (cases "65 \<le> (of_char c :: nat) \<and> (of_char c :: nat) \<le> 90")
  case True
  then have "of_char c \<in> set [65..<91]" by (simp add: less_Suc_eq_le [symmetric] del: upt_rec_numeral)
  with fold_letters [unfolded list_all_iff]
  have "(of_nat (of_char c) OR 0x20 :: u64) = of_nat (of_char c + 32)" "(of_nat (of_char c + 32) OR 0x20 :: u64) = of_nat (of_char c + 32)"
    by blast+
  moreover have "of_char (lower_c c) = (of_char c + 32 :: nat)" using True by (simp add: lower_c_def)
  ultimately show ?thesis by (simp add: fold_byte_def del: of_nat_add)
qed (auto simp: fold_byte_def lower_c_def)

lemma key_hash_fold: "key_hash key = foldl (\<lambda>h b. 77 * h + (b - 0x2D)) 0 (map fold_byte key)"
proof -
  have "foldl (\<lambda>h c. 77 * h + ((of_nat (of_char c) OR 0x20) - 0x2D)) a key = foldl (\<lambda>h b. 77 * h + (b - 0x2D)) a (map fold_byte key)" for a
    by (induction key arbitrary: a) (simp_all add: fold_byte_def)
  then show ?thesis by (simp add: key_hash_def)
qed

lemma key_hash_lower: "map lower_c a = map lower_c b \<Longrightarrow> key_hash a = key_hash b"
proof -
  assume "map lower_c a = map lower_c b"
  then have "map fold_byte (map lower_c a) = map fold_byte (map lower_c b)" by simp
  then show ?thesis by (simp add: key_hash_fold o_def lower_fold)
qed

lemma special_lower: "key_special (map lower_c a) = key_special a"
  by (induction a) (auto simp: key_special_def lower_c_def)

lemma key_special_eq: "map lower_c a = map lower_c b \<Longrightarrow> key_special a = key_special b"
  by (metis special_lower)

lemma header_keys_plain: "list_all (\<lambda>k. NUL \<notin> set k \<and> length k \<le> 60) header_keys"
  by (simp add: header_keys_def header_keys_1_def header_keys_2_def header_keys_3_def NUL_def)

text \<open>When a registered name is hit.\<close>

definition names :: "string \<Rightarrow> string \<Rightarrow> bool" where
  "names k key \<longleftrightarrow>
    (if key_special key \<or> 9 < length key then map lower_c k = map lower_c key
     else key_hash k = key_hash key \<and> length k = length key \<and> \<not> key_special k)"

lemma signed_length:
  "key \<noteq> [] \<Longrightarrow> (if a then - int (length key) else int (length key)) = (if b then - int (length k) else int (length k))
     \<longleftrightarrow> a = b \<and> length key = length k"
  by (cases a; cases b; cases key) auto

lemma key_hit_names:
  assumes "NUL \<notin> set key" "NUL \<notin> set k" "key \<noteq> []"
  shows "(case http_calc_hash key (length key) of (h, len) \<Rightarrow> key_hit h len key (length key) (key_slot k)) = names k key"
proof -
  have l: "length k = length key" if "map lower_c k = map lower_c key" using that by (metis length_map)
  have c: "strncasecmp_eq k key (length key) = (map lower_c k = map lower_c key)" if "length k = length key"
    using strncasecmp_eq_map [of k key "length key"] assms that by simp
  have "(case http_calc_hash key (length key) of (h, len) \<Rightarrow> key_hit h len key (length key) (key_slot k)) \<longleftrightarrow>
     key_hash key = key_hash k \<and> (key_special key = key_special k \<and> length key = length k) \<and>
     (\<not> key_special key \<and> length key \<le> 9 \<or> strncasecmp_eq k key (length key))"
    using assms unfolding http_calc_hash_def key_hit_def key_slot_def HTTP_MAX_KEY_UNIQ_def Let_def
    by (simp add: strlen_def signed_length)
  note e = this
  show ?thesis
  proof (cases "map lower_c k = map lower_c key")
    case True
    note h = key_hash_lower [OF True] key_special_eq [OF True] l [OF True] c [OF l [OF True]]
    show ?thesis unfolding e names_def h using True by (simp add: h)
  next
    case False
    then show ?thesis unfolding e names_def using c by (cases "length k = length key") auto
  qed
qed

lemma value_chars_tab:
  "header_value_chars = map (\<lambda>n. if n = 10 \<or> 32 \<le> n \<and> n < 127 then CHR ''o'' else CHR ''x'') [0..<256]"
  by (simp add: header_value_chars_def upt_256 upt_rec_numeral)

lemma value_char: "header_value_chars ! of_char c = CHR ''o'' \<longleftrightarrow> (of_char c :: nat) = 10 \<or> 32 \<le> (of_char c :: nat) \<and> (of_char c :: nat) < 127"
  unfolding table_lookup [OF value_chars_tab] by simp

definition value_chars :: "string \<Rightarrow> bool" where
  "value_chars v \<longleftrightarrow> list_all (\<lambda>c. (of_char c :: nat) = 10 \<or> 32 \<le> (of_char c :: nat) \<and> (of_char c :: nat) < 127) v"

lemma value_ok_iff:
  "value_ok v q = (if value_chars v \<and> even (length (filter (\<lambda>c. c = CHR 0x22) v) + (if q then 1 else 0)) then AGOO_ERR_OK else AGOO_ERR_ARG)"
  by (induction v q rule: value_ok.induct) (auto simp: value_chars_def value_char)

lemma http_header_ok_eq:
  "agoo_http_header_ok agoo_http_init key klen value vlen =
    (if (\<exists>k \<in> set header_keys. case http_calc_hash key klen of (h, len) \<Rightarrow> key_hit h len key klen (key_slot k))
        \<and> value_chars (take vlen value) \<and> even (length (filter (\<lambda>c. c = CHR 0x22) (take vlen value)))
     then AGOO_ERR_OK else AGOO_ERR_ARG)"
  by (simp add: agoo_http_header_ok_def init_hit value_ok_iff split: prod.split)

text \<open>
  A header is accepted exactly when its name is, up to case, a registered one (for names
  of at most nine plain characters: has the hash and the length of one), and its value has
  only accepted characters and an even number of quotes.
\<close>

theorem http_header_ok_iff:
  assumes "NUL \<notin> set key" "key \<noteq> []"
  shows "agoo_http_header_ok agoo_http_init key (length key) value (length value) =
    (if list_ex (\<lambda>k. names k key) header_keys \<and> value_chars value \<and> even (length (filter (\<lambda>c. c = CHR 0x22) value))
     then AGOO_ERR_OK else AGOO_ERR_ARG)"
proof -
  have e: "(case http_calc_hash key (length key) of (h, len) \<Rightarrow> key_hit h len key (length key) (key_slot k)) = names k key"
    if "k \<in> set header_keys" for k
  proof -
    have "NUL \<notin> set k" using header_keys_plain that by (simp add: list_all_iff)
    then show ?thesis by (rule key_hit_names [OF assms(1) _ assms(2)])
  qed
  have "(\<exists>k \<in> set header_keys. case http_calc_hash key (length key) of (h, len) \<Rightarrow> key_hit h len key (length key) (key_slot k))
     \<longleftrightarrow> list_ex (\<lambda>k. names k key) header_keys"
    unfolding list_ex_iff by (rule bex_cong [OF refl e])
  moreover have "take (length value) value = value" by simp
  ultimately show ?thesis unfolding http_header_ok_eq by (simp only:)
qed

lemma http_header_ok_iff_witness:
  "agoo_http_header_ok agoo_http_init ''content-TYPE'' (length ''content-TYPE'') ''text/html'' (length ''text/html'') = AGOO_ERR_OK"
proof -
  have "map lower_c ''Content-Type'' = map lower_c ''content-TYPE''" by code_simp
  then have "names ''Content-Type'' ''content-TYPE''" by (simp add: names_def)
  moreover have "''Content-Type'' \<in> set header_keys"
    by (simp add: header_keys_def header_keys_1_def header_keys_2_def header_keys_3_def)
  ultimately have "list_ex (\<lambda>k. names k ''content-TYPE'') header_keys" unfolding list_ex_iff by blast
  then show ?thesis using http_header_ok_iff [of "''content-TYPE''" "''text/html''"]
    by (simp add: NUL_def value_chars_def)
qed

text \<open>
  The value table accepts the line feed (10) where it means the tab (9): a value may
  break the line and begin a header of its own, while a value with a tab is refused.
\<close>

theorem http_header_injection:
  assumes "k \<in> set header_keys" "value_chars v" "value_chars w" "CHR 0x22 \<notin> set (v @ w)"
  shows "agoo_http_header_ok agoo_http_init k (strlen k) (v @ [CHR 0x0A] @ w) (length v + 1 + length w) = AGOO_ERR_OK
    \<and> agoo_http_header_ok agoo_http_init k (strlen k) (v @ [CHR 0x09] @ w) (length v + 1 + length w) = AGOO_ERR_ARG"
proof -
  have sc: "strncasecmp_eq a a n" for a n
    by (induction n arbitrary: a) simp_all
  have h: "\<exists>k' \<in> set header_keys. case http_calc_hash k (strlen k) of (h, len) \<Rightarrow> key_hit h len k (strlen k) (key_slot k')"
    using assms(1) sc by (intro bexI [of _ k]) (auto simp: key_hit_def key_slot_def split: prod.split)
  have f: "filter (\<lambda>c. c = CHR 0x22) v = []" "filter (\<lambda>c. c = CHR 0x22) w = []"
    using assms(4) by (auto simp: filter_empty_conv)
  have "value_chars (v @ [CHR 0x0A] @ w)" "\<not> value_chars (v @ [CHR 0x09] @ w)"
    using assms(2,3) by (simp_all add: value_chars_def)
  then show ?thesis unfolding http_header_ok_eq by (simp add: h f)
qed

lemma http_header_injection_witness:
  "agoo_http_header_ok agoo_http_init ''A-IM'' (strlen ''A-IM'') (''a'' @ [CHR 0x0A] @ ''Set-Cookie: x'')
     (length ''a'' + 1 + length ''Set-Cookie: x'') = AGOO_ERR_OK"
  using http_header_injection [of "''A-IM''" "''a''" "''Set-Cookie: x''"]
  by (simp add: header_keys_def header_keys_1_def value_chars_def)

end
