(* ===== verification/Request.thy ===== *)
theory Request
  imports Patterns
begin

text \<open>
  Reading a request: the search for a header value (\<open>agoo_con_header_value\<close> of
  \<open>ext/agoo/con.c\<close>, the same text as \<open>agoo_req_header_value\<close>) and the accessors of
  \<open>ext/agoo/req.c\<close>. A pointer into the message is the rest of the memory from there on.
\<close>

section \<open>Header values\<close>

text \<open>The position behind the next line end within \<open>n\<close> bytes, \<open>n\<close> where there is none.\<close>

fun next_line :: "string \<Rightarrow> nat \<Rightarrow> nat" where
  "next_line h 0 = 0"
| "next_line h (Suc n) =
     (if cat h 0 = CHR 0x0D \<and> cat h 1 = CHR 0x0A then 2 else Suc (next_line (drop 1 h) n))"

lemma next_line_pos: "0 < n \<Longrightarrow> 0 < next_line h n"
  by (cases n) simp_all

definition value_at :: "string \<Rightarrow> string" where
  "value_at h = dropWhile (\<lambda>c. c = CHR '' '') h"

definition value_len :: "string \<Rightarrow> nat" where
  "value_len v = length (takeWhile (\<lambda>c. c \<noteq> CHR 0x0D \<and> c \<noteq> NUL) v)"

text \<open>The value, as a pointer to its start and its length; \<open>None\<close> is NULL.\<close>

function agoo_con_header_value :: "string \<Rightarrow> nat \<Rightarrow> string \<Rightarrow> (string \<times> nat) option" where
  "agoo_con_header_value h hlen key =
    (if hlen = 0 then None
     else if strncasecmp_eq key h (length key) \<and> cat h (length key) = CHR '':'' then
       let v = value_at (drop (length key + 1) h) in Some (v, value_len v)
     else
       let n = next_line h hlen
       in agoo_con_header_value (drop n h) (hlen - n) key)"
  by auto
termination
  by (relation "measure (\<lambda>(h, n, k). n)") (auto simp: next_line_pos)

declare agoo_con_header_value.simps [simp del]

definition should_close :: "string \<Rightarrow> nat \<Rightarrow> bool" where
  "should_close header hlen =
    (case agoo_con_header_value header hlen ''Connection'' of
       None \<Rightarrow> False
     | Some (v, vlen) \<Rightarrow> vlen = 5 \<and> strncasecmp_eq ''Close'' v 5)"

section \<open>The request\<close>

datatype agoo_upgrade = AGOO_UP_NONE | AGOO_UP_WS | AGOO_UP_SSE

text \<open>
  A segment of the message: the offset of its start and its length. The message is a block of
  \<open>mlen + 1\<close> bytes; \<open>rres\<close> is the response made for the request, by its number.
\<close>

record agoo_str =
  sstart :: nat
  slen :: nat

record 'h agoo_req =
  rmethod :: agoo_method
  rres :: "nat option"
  rupgrade :: agoo_upgrade
  rup :: "nat option"
  rpath :: agoo_str
  rquery :: agoo_str
  rprotocol :: agoo_str
  rheader :: agoo_str
  rbody :: agoo_str
  rhook :: "'h agoo_hook option"
  rmlen :: nat
  rmsg :: string

definition no_str :: agoo_str where
  "no_str = \<lparr>sstart = 0, slen = 0\<rparr>"

definition agoo_req_create :: "nat \<Rightarrow> 'h agoo_req" where
  "agoo_req_create mlen =
    \<lparr>rmethod = AGOO_NONE, rres = None, rupgrade = AGOO_UP_NONE, rup = None, rpath = no_str, rquery = no_str,
     rprotocol = no_str, rheader = no_str, rbody = no_str, rhook = None, rmlen = mlen,
     rmsg = replicate (mlen + 1) NUL\<rparr>"

definition str_at :: "'h agoo_req \<Rightarrow> agoo_str \<Rightarrow> string" where
  "str_at r s = drop (sstart s) (rmsg r)"

definition agoo_req_header_value :: "'h agoo_req \<Rightarrow> string \<Rightarrow> (string \<times> nat) option" where
  "agoo_req_header_value r key = agoo_con_header_value (str_at r (rheader r)) (slen (rheader r)) key"

text \<open>The backward search for a colon, from the last character down to the second.\<close>

fun colon_scan :: "string \<Rightarrow> nat \<Rightarrow> nat" where
  "colon_scan host 0 = 0"
| "colon_scan host (Suc i) = (if cat host (Suc i) = CHR '':'' then Suc i else colon_scan host i)"

definition agoo_req_host :: "'h agoo_req \<Rightarrow> string option" where
  "agoo_req_host r =
    (case agoo_req_header_value r ''Host'' of
       None \<Rightarrow> None
     | Some (host, len) \<Rightarrow>
         let colon = colon_scan host (len - 1)
         in Some (take (if 0 < colon then colon else len) host))"

definition agoo_req_port :: "'h agoo_req \<Rightarrow> int" where
  "agoo_req_port r =
    (case agoo_req_header_value r ''Host'' of
       None \<Rightarrow> 0
     | Some (host, len) \<Rightarrow>
         let colon = colon_scan host (len - 1)
         in if len = 0 then fst (c_strtol host) else if colon = 0 then 0 else fst (c_strtol (drop (colon + 1) host)))"

text \<open>
  The protocol is left in the receive buffer of the connection, not in the message: the value
  depends on what the buffer holds when it is read.
\<close>

definition agoo_req_protocol :: "string \<Rightarrow> 'h agoo_req \<Rightarrow> string" where
  "agoo_req_protocol conbuf r = take (slen (rprotocol r)) (drop (sstart (rprotocol r)) conbuf)"

text \<open>The first occurrence of a string in another, as \<open>strstr\<close> gives it.\<close>

fun strstr :: "string \<Rightarrow> string \<Rightarrow> nat option" where
  "strstr [] needle = (if needle = [] then Some 0 else None)"
| "strstr (c # cs) needle =
     (if take (length needle) (c # cs) = needle then Some 0
      else map_option Suc (strstr cs needle))"

definition agoo_req_query_value :: "'h agoo_req \<Rightarrow> string \<Rightarrow> nat \<Rightarrow> (string \<times> nat) option" where
  "agoo_req_query_value r key klen =
    (let q = cstr (str_at r (rquery r))
     in case strstr q key of
          None \<Rightarrow> None
        | Some i \<Rightarrow>
            let value = drop (i + (if klen = 0 then length key else klen) + 1) q
            in Some (value, length (takeWhile (\<lambda>c. c \<noteq> CHR ''&'') value)))"

section \<open>Decoding a query\<close>

definition hexVal :: "char \<Rightarrow> nat option" where
  "hexVal ch =
    (let c = of_char ch in
     if 48 \<le> c \<and> c \<le> 57 then Some (c - 48)
     else if 97 \<le> c \<and> c \<le> 102 then Some (c - 97 + 10)
     else if 65 \<le> c \<and> c \<le> 70 then Some (c - 65 + 10)
     else None)"

text \<open>
  The decoding loop: \<open>n\<close> bytes are left of the text, which an escape at the end may overrun.
  The result is written over the text; it is never longer than what was read.
\<close>

function query_decode :: "string \<Rightarrow> nat \<Rightarrow> string" where
  "query_decode so n =
    (if n = 0 then []
     else if cat so 0 = CHR ''%'' then
       (case hexVal (cat so 1) of
          None \<Rightarrow> CHR ''%'' # query_decode (drop 1 so) (n - 1)
        | Some c \<Rightarrow>
            (case hexVal (cat so 2) of
               None \<Rightarrow> query_decode (drop 2 so) (n - 2)
             | Some d \<Rightarrow> char_of (16 * c + d) # query_decode (drop 3 so) (n - 3)))
     else cat so 0 # query_decode (drop 1 so) (n - 1))"
  by auto
termination by (relation "measure (\<lambda>(s, n). n)") auto

declare query_decode.simps [simp del]

definition agoo_req_query_decode :: "string \<Rightarrow> nat \<Rightarrow> string mem" where
  "agoo_req_query_decode s len =
    (let r = query_decode s len in blk_write s 0 (r @ [NUL]))"

section \<open>What the header search finds\<close>

text \<open>A header field, and the fields of a header as the lines of a request.\<close>

definition field_ok :: "string \<times> string \<Rightarrow> bool" where
  "field_ok f \<longleftrightarrow> (case f of (k, v) \<Rightarrow> CHR '':'' \<notin> set k \<and> CHR 0x0D \<notin> set (k @ v) \<and> NUL \<notin> set (k @ v) \<and>
     (v = [] \<or> hd v \<noteq> CHR '' ''))"

definition field_line :: "string \<times> string \<Rightarrow> string" where
  "field_line f = fst f @ '': '' @ snd f @ [CHR 0x0D, CHR 0x0A]"

lemma strncasecmp_key:
  assumes "CHR '':'' \<notin> set k" "CHR '':'' \<notin> set key" "NUL \<notin> set key" "NUL \<notin> set k"
  shows "(strncasecmp_eq key (k @ CHR '':'' # r) (length key) \<and> cat (k @ CHR '':'' # r) (length key) = CHR '':'')
     = (map lower_c k = map lower_c key)"
  using assms
proof (induction key arbitrary: k)
  case Nil
  then show ?case by (cases k) auto
next
  case (Cons c key)
  have low: "lower_c x \<noteq> CHR '':''" if "x \<noteq> CHR '':''" for x
  proof
    assume "lower_c x = CHR '':''"
    then have "(of_char (lower_c x) :: nat) = 58" by simp
    then have "(of_char x :: nat) = 58" by (auto simp: lower_c_def split: if_splits)
    then have "(of_char x :: nat) = of_char (CHR '':'')" by simp
    with that show False by (simp only: of_char_eq_iff)
  qed
  show ?case
  proof (cases k)
    case Nil
    then show ?thesis using low [of c] Cons.prems by (auto simp: lower_c_def)
  next
    case (Cons x k')
    then show ?thesis using Cons.IH [of k'] Cons.prems by auto
  qed
qed


lemma takeWhile_field: "CHR 0x0D \<notin> set v \<Longrightarrow> NUL \<notin> set v \<Longrightarrow>
    takeWhile (\<lambda>c. c \<noteq> CHR 0x0D \<and> c \<noteq> NUL) (v @ CHR 0x0D # r) = v"
  by (induction v) auto

lemma next_line_field:
  "CHR 0x0D \<notin> set l \<Longrightarrow> length l < n \<Longrightarrow> next_line (l @ CHR 0x0D # CHR 0x0A # r) n = length l + 2"
  by (induction l arbitrary: n) (case_tac n; auto)+

lemma field_no_cr: "field_ok f \<Longrightarrow> CHR 0x0D \<notin> set (fst f @ '': '' @ snd f)"
  by (auto simp: field_ok_def)

lemma field_line_split: "field_line f @ r = (fst f @ '': '' @ snd f) @ CHR 0x0D # CHR 0x0A # r"
  by (simp add: field_line_def)

text \<open>
  The value of a header is that of the first field whose name is the key up to case, with
  the spaces before it left out; with no such field the search gives NULL. It does not matter
  what follows the header in memory.
\<close>

theorem header_value_first:
  assumes "list_all field_ok fs" "CHR '':'' \<notin> set key" "NUL \<notin> set key"
  shows "agoo_con_header_value (concat (map field_line fs) @ r) (length (concat (map field_line fs)) - 2) key =
    (case dropWhile (\<lambda>f. map lower_c (fst f) \<noteq> map lower_c key) fs of
       [] \<Rightarrow> None
     | f # fs' \<Rightarrow> Some (snd f @ [CHR 0x0D, CHR 0x0A] @ concat (map field_line fs') @ r, length (snd f)))"
  using assms(1)
proof (induction fs)
  case Nil
  then show ?case by (simp add: agoo_con_header_value.simps)
next
  case (Cons f fs)
  let ?rest = "concat (map field_line fs) @ r"
  let ?n = "length (concat (map field_line (f # fs))) - 2"
  have f: "field_ok f" using Cons.prems by simp
  have n: "?n = length (fst f @ '': '' @ snd f) + length (concat (map field_line fs))" "?n \<noteq> 0"
    by (simp_all add: field_line_def)
  have h: "concat (map field_line (f # fs)) @ r = fst f @ CHR '':'' # CHR '' '' # snd f @ CHR 0x0D # CHR 0x0A # ?rest"
    by (simp add: field_line_def)
  have m: "(strncasecmp_eq key (concat (map field_line (f # fs)) @ r) (length key) \<and>
      cat (concat (map field_line (f # fs)) @ r) (length key) = CHR '':'') = (map lower_c (fst f) = map lower_c key)"
    unfolding h by (rule strncasecmp_key) (use f assms(2,3) in \<open>auto simp: field_ok_def\<close>)
  show ?case
  proof (cases "map lower_c (fst f) = map lower_c key")
    case True
    then have l: "length key = length (fst f)" by (metis length_map)
    have v: "value_at (drop (length key + 1) (concat (map field_line (f # fs)) @ r)) = snd f @ CHR 0x0D # CHR 0x0A # ?rest"
      unfolding h l using f by (cases "snd f") (auto simp: value_at_def field_ok_def)
    have vl: "value_len (snd f @ CHR 0x0D # CHR 0x0A # ?rest) = length (snd f)"
      unfolding value_len_def using f by (subst takeWhile_field) (auto simp: field_ok_def)
    show ?thesis using True m n(2) v vl by (subst agoo_con_header_value.simps) (simp add: Let_def)
  next
    case False
    have nl: "next_line (concat (map field_line (f # fs)) @ r) ?n = (if fs = [] then ?n else length (field_line f))"
    proof (cases "fs = []")
      case True
      have "next_line (l @ r) (length l) = length l" if "CHR 0x0D \<notin> set l" for l r
        using that by (induction l arbitrary: r) auto
      from this [OF field_no_cr [OF f], of "CHR 0x0D # CHR 0x0A # r"] show ?thesis
        using True n(1) by (simp add: field_line_def)
    next
      case ne: False
      then have "0 < length (concat (map field_line fs))" by (cases fs) (simp_all add: field_line_def)
      then have "length (fst f @ '': '' @ snd f) < ?n" using n(1) by linarith
      from next_line_field [OF field_no_cr [OF f] this, of ?rest] show ?thesis using ne by (simp add: field_line_def)
    qed
    have "agoo_con_header_value (concat (map field_line (f # fs)) @ r) ?n key =
      agoo_con_header_value (drop (next_line (concat (map field_line (f # fs)) @ r) ?n) (concat (map field_line (f # fs)) @ r))
        (?n - next_line (concat (map field_line (f # fs)) @ r) ?n) key"
    proof -
      have "\<not> (strncasecmp_eq key (concat (map field_line (f # fs)) @ r) (length key) \<and>
          cat (concat (map field_line (f # fs)) @ r) (length key) = CHR '':'')" using m False by blast
      then show ?thesis using n(2) by (subst agoo_con_header_value.simps) (simp only: if_False Let_def)
    qed
    also have "\<dots> = agoo_con_header_value ?rest (length (concat (map field_line fs)) - 2) key"
      unfolding nl by (cases "fs = []") (simp_all add: agoo_con_header_value.simps)
    finally show ?thesis using Cons False by simp
  qed
qed

lemma header_value_first_witness:
  "agoo_con_header_value (concat (map field_line [(''Host'', ''a:80''), (''Accept'', ''x'')]) @ ''zz'')
     (length (concat (map field_line [(''Host'', ''a:80''), (''Accept'', ''x'')])) - 2) ''ACCEPT'' =
   Some (''x'' @ [CHR 0x0D, CHR 0x0A] @ ''zz'', 1)"
proof -
  have "list_all field_ok [(''Host'', ''a:80''), (''Accept'', ''x'')]" by (simp add: field_ok_def NUL_def)
  moreover have "map lower_c ''Accept'' = map lower_c ''ACCEPT''" "map lower_c ''Host'' \<noteq> map lower_c ''ACCEPT''" by code_simp+
  ultimately show ?thesis
    using header_value_first [of "[(''Host'', ''a:80''), (''Accept'', ''x'')]" "''ACCEPT''" "''zz''"]
    by (simp add: NUL_def del: list.map(2))
qed

section \<open>Decoding inverts encoding\<close>

text \<open>Percent encoding of all bytes but letters and digits, for the statement of the property.\<close>

definition hex_digit :: "nat \<Rightarrow> char" where
  "hex_digit d = char_of (if d < 10 then 48 + d else 55 + d)"

definition percent_char :: "char \<Rightarrow> string" where
  "percent_char c = (if is_digit c \<or> 97 \<le> (of_char (lower_c c) :: nat) \<and> (of_char (lower_c c) :: nat) \<le> 122 then [c]
     else [CHR ''%'', hex_digit (of_char c div 16), hex_digit (of_char c mod 16)])"

lemma hexVal_digit: "d < 16 \<Longrightarrow> hexVal (hex_digit d) = Some d"
  by (auto simp: hexVal_def hex_digit_def)

lemma decode_percent: "query_decode (percent_char c @ r) (length (percent_char c) + n) = c # query_decode r n"
proof -
  have "of_char c div 16 < (16 :: nat)" using nat_of_char_less_256 [of c] by (simp add: div_less_iff_less_mult)
  moreover have "char_of (16 * (of_char c div 16) + of_char c mod 16 :: nat) = c" by simp
  moreover have "c \<noteq> CHR ''%''" if "is_digit c \<or> 97 \<le> (of_char (lower_c c) :: nat) \<and> (of_char (lower_c c) :: nat) \<le> 122"
    using that by (auto simp: is_digit_def lower_c_def)
  ultimately show ?thesis
    by (subst query_decode.simps) (auto simp: percent_char_def hexVal_digit)
qed

lemma query_decode_short: "length (query_decode s n) \<le> n"
proof (induction s n rule: query_decode.induct)
  case (1 so n)
  show ?case
  proof (cases "n = 0 \<or> cat so 0 \<noteq> CHR ''%''")
    case True
    then show ?thesis using 1(4) by (subst query_decode.simps) auto
  next
    case False
    then have n: "n \<noteq> 0" "cat so 0 = CHR ''%''" by auto
    show ?thesis
    proof (cases "hexVal (cat so 1)")
      case None
      then show ?thesis using 1(1) [OF n None] n by (subst query_decode.simps) auto
    next
      case (Some c)
      note c = this
      show ?thesis
      proof (cases "hexVal (cat so 2)")
        case None
        then show ?thesis using 1(2) [OF n c None] n c by (subst query_decode.simps) simp
      next
        case (Some d)
        then show ?thesis using 1(3) [OF n c Some] n c by (subst query_decode.simps) simp
      qed
    qed
  qed
qed

text \<open>
  C21. Decoding the percent encoding of any byte string gives the string back, in place and
  without leaving the block it is decoded in.
\<close>

theorem query_decode_round_trip:
  "agoo_req_query_decode (concat (map percent_char s) @ [NUL]) (length (concat (map percent_char s)))
     = Val (s @ [NUL] @ drop (length s + 1) (concat (map percent_char s) @ [NUL]))"
proof -
  have d: "query_decode (concat (map percent_char s) @ r) (length (concat (map percent_char s))) = s" for r
  proof (induction s)
    case Nil
    then show ?case by (simp add: query_decode.simps)
  next
    case (Cons c s)
    then show ?case using decode_percent [of c "concat (map percent_char s) @ r" "length (concat (map percent_char s))"] by simp
  qed
  have "length s \<le> length (concat (map percent_char s))"
    using query_decode_short [of "concat (map percent_char s)" "length (concat (map percent_char s))"] d [of "[]"] by simp
  then show ?thesis by (simp add: agoo_req_query_decode_def Let_def d blk_write_ok)
qed

end
