(* ===== verification/Sha1.thy ===== *)
theory Sha1
  imports Prelude
begin

text \<open>
  The SHA-1 digest of \<open>ext/agoo/sha1.c\<close> (for a little endian machine, as the code assumes): the
  transformation of a block, the incremental update and the padding, compared with the
  definition of the digest as a fold over the blocks of the padded message.
\<close>

section \<open>The transformation of a block\<close>

type_synonym hash5 = "u32 \<times> u32 \<times> u32 \<times> u32 \<times> u32"

definition rol :: "u32 \<Rightarrow> nat \<Rightarrow> u32" where
  "rol v bits = push_bit bits v OR drop_bit (32 - bits) v"

text \<open>A little endian word of the block, and its bytes in reverse order (\<open>blk0\<close>).\<close>

definition block_word :: "byte list \<Rightarrow> nat \<Rightarrow> u32" where
  "block_word b i = ucast (b ! (4 * i)) OR push_bit 8 (ucast (b ! (4 * i + 1)))
     OR push_bit 16 (ucast (b ! (4 * i + 2))) OR push_bit 24 (ucast (b ! (4 * i + 3)))"

definition blk0 :: "u32 list \<Rightarrow> nat \<Rightarrow> u32" where
  "blk0 l i = (rol (l ! i) 24 AND 0xFF00FF00) OR (rol (l ! i) 8 AND 0x00FF00FF)"

definition blk :: "u32 list \<Rightarrow> nat \<Rightarrow> u32" where
  "blk l i = rol (l ! ((i + 13) mod 16) XOR l ! ((i + 8) mod 16) XOR l ! ((i + 2) mod 16) XOR l ! (i mod 16)) 1"

text \<open>
  One of the 80 operations: the word of the block (which is written back into the block), the
  mixing function and constant of the round, and the change of roles of the five words.
\<close>

definition sha_word :: "u32 list \<Rightarrow> nat \<Rightarrow> u32" where
  "sha_word l i = (if i < 16 then blk0 l i else blk l i)"

definition sha_mix :: "nat \<Rightarrow> u32 \<Rightarrow> u32 \<Rightarrow> u32 \<Rightarrow> u32" where
  "sha_mix i w x y =
    (if i < 20 then ((w AND (x XOR y)) XOR y) + 0x5A827999
     else if i < 40 then (w XOR x XOR y) + 0x6ED9EBA1
     else if i < 60 then (((w OR x) AND y) OR (w AND x)) + 0x8F1BBCDC
     else (w XOR x XOR y) + 0xCA62C1D6)"

definition sha_op :: "nat \<Rightarrow> u32 list \<times> hash5 \<Rightarrow> u32 list \<times> hash5" where
  "sha_op i s = (case s of (l, v, w, x, y, z) \<Rightarrow>
     let b = sha_word l i in (l[i mod 16 := b], z + sha_mix i w x y + b + rol v 5, v, rol w 30, x, y))"

text \<open>The bytes of a little endian word, and the block: its words are the memory of the buffer.\<close>

definition le_bytes :: "u32 \<Rightarrow> byte list" where
  "le_bytes w = [ucast w, ucast (drop_bit 8 w), ucast (drop_bit 16 w), ucast (drop_bit 24 w)]"

definition transform :: "hash5 \<Rightarrow> byte list \<Rightarrow> hash5 \<times> byte list" where
  "transform h buffer =
    (case foldl (\<lambda>s i. sha_op i s) (map (block_word buffer) [0..<16], h) [0..<80] of (l, a, b, c, d, e) \<Rightarrow>
     case h of (h0, h1, h2, h3, h4) \<Rightarrow>
       ((h0 + a, h1 + b, h2 + c, h3 + d, h4 + e), concat (map le_bytes l)))"

section \<open>The digest\<close>

record sha_ctx =
  hs :: hash5
  count0 :: u32
  count1 :: u32
  sbuf :: "byte list"

text \<open>
  The whole blocks of the data that follow the first: the words, the rest of the data, and the
  data as it is left, for the transformation overwrites its block.
\<close>

function transform_all :: "hash5 \<Rightarrow> byte list \<Rightarrow> hash5 \<times> byte list \<times> byte list" where
  "transform_all h data =
    (if 63 < length data then
       let (h, b) = transform h (take 64 data);
           (h, rest, data') = transform_all h (drop 64 data)
       in (h, rest, b @ data')
     else (h, data, data))"
  by auto
termination by (relation "measure (\<lambda>(h, d). length d)") auto

declare transform_all.simps [simp del]

definition update :: "sha_ctx \<Rightarrow> byte list \<Rightarrow> sha_ctx \<times> byte list" where
  "update ctx data =
    (let len = length data;
         lw = of_nat len :: u64;
         j = unat (drop_bit 3 (count0 ctx) AND 0x3F);
         c0 = count0 ctx + ucast (push_bit 3 lw);
         c1 = (if ucast c0 < push_bit 3 lw then count1 ctx + 1 else count1 ctx) + ucast (drop_bit 29 lw)
     in if 63 < j + len then
          let i = 64 - j;
              (h, buf) = transform (hs ctx) (take j (sbuf ctx) @ take i data);
              (h, rest, data') = transform_all h (drop i data)
          in (ctx\<lparr>hs := h, count0 := c0, count1 := c1, sbuf := rest @ drop (length rest) buf\<rparr>, take i data @ data')
        else (ctx\<lparr>count0 := c0, count1 := c1, sbuf := take j (sbuf ctx) @ data @ drop (j + len) (sbuf ctx)\<rparr>, data))"

definition sha_init :: sha_ctx where
  "sha_init = \<lparr>hs = (0x67452301, 0xEFCDAB89, 0x98BADCFE, 0x10325476, 0xC3D2E1F0), count0 = 0, count1 = 0, sbuf = replicate 64 0\<rparr>"

text \<open>The bytes of a word, most significant first.\<close>

definition word_bytes :: "u32 \<Rightarrow> byte list" where
  "word_bytes w = [ucast (drop_bit 24 w), ucast (drop_bit 16 w), ucast (drop_bit 8 w), ucast w]"

text \<open>The loop that appends zero bytes, at most \<open>n\<close> of them; 64 are always enough.\<close>

fun pad_zeros :: "nat \<Rightarrow> sha_ctx \<Rightarrow> sha_ctx" where
  "pad_zeros 0 ctx = ctx"
| "pad_zeros (Suc n) ctx = (if count0 ctx AND 0x1F8 \<noteq> 0x1C0 then pad_zeros n (fst (update ctx [0])) else ctx)"

definition digest_of :: "hash5 \<Rightarrow> byte list" where
  "digest_of h = (case h of (h0, h1, h2, h3, h4) \<Rightarrow>
     word_bytes h0 @ word_bytes h1 @ word_bytes h2 @ word_bytes h3 @ word_bytes h4)"

text \<open>The digest, and the data as the call leaves it (the literals of one byte are not written).\<close>

definition sha1 :: "byte list \<Rightarrow> byte list \<times> byte list" where
  "sha1 data =
    (let (ctx, data') = update sha_init data;
         finalcount = word_bytes (count1 ctx) @ word_bytes (count0 ctx);
         ctx = fst (update ctx [0x80]);
         ctx = pad_zeros 64 ctx;
         ctx = fst (update ctx finalcount)
     in (digest_of (hs ctx), data'))"

section \<open>The digest is the fold over the padded message\<close>

definition sha_len :: "nat \<Rightarrow> byte list" where
  "sha_len n = replicate 4 0 @ word_bytes (of_nat (8 * n))"

definition sha_pad :: "byte list \<Rightarrow> byte list" where
  "sha_pad data = data @ [0x80] @ replicate ((119 - length data mod 64) mod 64) 0 @ sha_len (length data)"

text \<open>The words after the whole blocks of a message, and what is left of it.\<close>

function sha_fold :: "hash5 \<Rightarrow> byte list \<Rightarrow> hash5 \<times> byte list" where
  "sha_fold h data =
    (if 63 < length data then sha_fold (fst (transform h (take 64 data))) (drop 64 data) else (h, data))"
  by auto
termination by (relation "measure (\<lambda>(h, d). length d)") auto

declare sha_fold.simps [simp del]

lemma sha_op_length: "length (fst (sha_op i s)) = length (fst s)"
  by (simp add: sha_op_def Let_def split: prod.split)

lemma transform_length: "length (snd (transform h b)) = 64"
proof -
  have "length (fst (foldl (\<lambda>s i. sha_op i s) s is)) = length (fst s)" for s "is"
    by (induction "is" arbitrary: s) (simp_all add: sha_op_length)
  then have l: "length (fst (foldl (\<lambda>s i. sha_op i s) (map (block_word b) [0..<16], h) [0..<80])) = 16"
    by (metis diff_zero fst_conv length_map length_upt)
  have c: "length (concat (map le_bytes l)) = 4 * length l" for l by (induction l) (simp_all add: le_bytes_def)
  show ?thesis using l by (simp only: transform_def case_prod_beta snd_conv c)
qed

lemma transform_all_fold: "(fst (transform_all h d), fst (snd (transform_all h d))) = sha_fold h d"
proof (induction h d rule: sha_fold.induct)
  case (1 h data)
  show ?case
  proof (cases "63 < length data")
    case True
    obtain h' b where t: "transform h (take 64 data) = (h', b)" by fastforce
    obtain h2 q d' where q: "transform_all h' (drop 64 data) = (h2, q, d')" by (metis prod_cases3)
    have "transform_all h data = (h2, q, b @ d')"
      by (subst transform_all.simps) (simp only: True if_True t q Let_def case_prod_conv)
    moreover have "sha_fold h data = sha_fold h' (drop 64 data)" by (subst sha_fold.simps) (simp add: True t)
    ultimately show ?thesis using 1 [OF True] t q by (simp only: fst_conv snd_conv)
  next
    case False
    then show ?thesis by (subst sha_fold.simps, subst (1 2) transform_all.simps) simp
  qed
qed

lemma sha_fold_append:
  "sha_fold h (a @ b) = (case sha_fold h a of (h', r) \<Rightarrow> sha_fold h' (r @ b))"
proof (induction h a rule: sha_fold.induct)
  case (1 h data)
  show ?case
  proof (cases "63 < length data")
    case True
    then have "sha_fold h (data @ b) = sha_fold (fst (transform h (take 64 data))) (drop 64 data @ b)"
      by (subst sha_fold.simps) simp
    with 1 True show ?thesis by (subst (2) sha_fold.simps) simp
  next
    case False
    then show ?thesis by (subst (2) sha_fold.simps) simp
  qed
qed

lemma sha_fold_rest: "length (snd (sha_fold h a)) = length a mod 64"
proof (induction h a rule: sha_fold.induct)
  case (1 h data)
  then show ?case by (subst sha_fold.simps) (auto simp: le_mod_geq not_less)
qed

text \<open>A context that has consumed the bytes \<open>d\<close>.\<close>

definition consumed :: "sha_ctx \<Rightarrow> byte list \<Rightarrow> bool" where
  "consumed ctx d \<longleftrightarrow> length d < 2 ^ 29 \<and> count0 ctx = of_nat (8 * length d) \<and> count1 ctx = 0 \<and> length (sbuf ctx) = 64 \<and>
     (case sha_fold (hs sha_init) d of (h, r) \<Rightarrow> hs ctx = h \<and> take (length r) (sbuf ctx) = r)"

lemma consumed_init: "consumed sha_init []"
  by (simp add: consumed_def sha_init_def sha_fold.simps)

lemma nat_and_mask: "(n :: nat) AND 63 = n mod 64" "8 * n AND 504 = 8 * (n mod 64)"
proof -
  have m: "(63 :: nat) = mask 6" by (simp add: mask_eq_exp_minus_1)
  show n: "n AND 63 = n mod 64" unfolding m by (simp add: take_bit_eq_mod flip: take_bit_eq_mask)
  have "8 * n AND 504 = push_bit 3 n AND push_bit 3 63" by (simp add: push_bit_eq_mult mult.commute)
  then show "8 * n AND 504 = 8 * (n mod 64)" by (simp only: push_bit_and [symmetric] n) (simp add: push_bit_eq_mult)
qed

lemma count_words:
  assumes "n < 2 ^ 29"
  shows "unat (of_nat (8 * n) :: u32) = 8 * n" "unat (drop_bit 3 (of_nat (8 * n) :: u32) AND 0x3F) = n mod 64"
    "(of_nat (8 * n) AND 0x1F8 = (0x1C0 :: u32)) = (n mod 64 = 56)"
proof -
  have "8 * n < 2 ^ LENGTH(32)" using assms by simp
  then show u: "unat (of_nat (8 * n) :: u32) = 8 * n" by (rule unat_small)
  have "unat (drop_bit 3 (of_nat (8 * n) :: u32)) = n"
    unfolding unsigned_drop_bit_eq u using assms by (simp add: drop_bit_eq_div take_bit_nat_eq_self)
  then show "unat (drop_bit 3 (of_nat (8 * n) :: u32) AND 0x3F) = n mod 64"
    by (simp add: unsigned_and_eq nat_and_mask del: of_nat_mult)
  have "unat ((of_nat (8 * n) :: u32) AND 0x1F8) = 8 * (n mod 64)"
    unfolding unsigned_and_eq u by (simp add: nat_and_mask)
  moreover have "(w = (0x1C0 :: u32)) = (unat w = 448)" for w by (simp add: word_unat_eq_iff)
  ultimately show "(of_nat (8 * n) AND 0x1F8 = (0x1C0 :: u32)) = (n mod 64 = 56)" by (simp del: of_nat_mult)
qed

lemma update_counts:
  assumes "m + n < 2 ^ 29"
  shows "(of_nat (8 * m) :: u32) + ucast (push_bit 3 (of_nat n :: u64)) = of_nat (8 * (m + n))"
    "\<not> (ucast ((of_nat (8 * m) :: u32) + ucast (push_bit 3 (of_nat n :: u64))) < push_bit 3 (of_nat n :: u64))"
    "drop_bit 29 (of_nat n :: u64) = 0"
proof -
  have n: "n < 2 ^ LENGTH(64)" "8 * n < 2 ^ LENGTH(64)" using assms by simp_all
  have p: "push_bit 3 (of_nat n :: u64) = of_nat (8 * n)" by (simp add: push_bit_eq_mult mult.commute)
  have u: "unat (of_nat (8 * n) :: u64) = 8 * n" using n(2) by (rule unat_small)
  have c: "ucast (of_nat (8 * n) :: u64) = (of_nat (8 * n) :: u32)"
    using of_nat_unat [of "of_nat (8 * n) :: u64", where ?'a = "32 word"] unfolding u by (rule sym)
  show s: "(of_nat (8 * m) :: u32) + ucast (push_bit 3 (of_nat n :: u64)) = of_nat (8 * (m + n))"
    unfolding p c by simp
  have "unat (ucast (of_nat (8 * (m + n)) :: u32) :: u64) = 8 * (m + n)"
  proof -
    have "8 * (m + n) < 2 ^ LENGTH(32)" using assms by simp
    then have "unat (of_nat (8 * (m + n)) :: u32) = 8 * (m + n)" by (rule unat_small)
    moreover have "take_bit LENGTH(64) (8 * (m + n)) = 8 * (m + n)" by (rule take_bit_nat_eq_self) (use assms in simp)
    ultimately show ?thesis by (simp only: unsigned_ucast_eq)
  qed
  then show "\<not> (ucast ((of_nat (8 * m) :: u32) + ucast (push_bit 3 (of_nat n :: u64))) < push_bit 3 (of_nat n :: u64))"
    unfolding s unfolding p by (simp only: word_less_nat_alt u) simp
  have "unat (drop_bit 29 (of_nat n :: u64)) = 0"
    unfolding unsigned_drop_bit_eq unsigned_of_nat using n assms by (simp add: take_bit_nat_eq_self drop_bit_eq_div)
  then show "drop_bit 29 (of_nat n :: u64) = 0" by (simp add: word_unat_eq_iff)
qed

lemma update_consumed:
  assumes "consumed ctx d" "length d + length x < 2 ^ 29"
  shows "consumed (fst (update ctx x)) (d @ x)"
proof -
  obtain h r where t: "sha_fold (hs sha_init) d = (h, r)" by fastforce
  with assms(1) have c: "count0 ctx = of_nat (8 * length d)" "count1 ctx = 0" "length (sbuf ctx) = 64" "hs ctx = h"
    "take (length r) (sbuf ctx) = r" "length d < 2 ^ 29" by (auto simp: consumed_def)
  have r: "length r = length d mod 64" using sha_fold_rest [of "hs sha_init" d] t by simp
  have j: "unat (drop_bit 3 (count0 ctx) AND 0x3F) = length r" unfolding c(1) r by (rule count_words(2) [OF c(6)])
  have tx: "sha_fold (hs sha_init) (d @ x) = sha_fold h (r @ x)" by (subst sha_fold_append) (simp only: t case_prod_conv)
  note uc = update_counts [OF assms(2)]
  show ?thesis
  proof (cases "63 < length r + length x")
    case True
    let ?i = "64 - length r"
    obtain h1 b where b: "transform h (r @ take ?i x) = (h1, b)" by fastforce
    obtain h' q d' where q: "transform_all h1 (drop ?i x) = (h', q, d')" by (metis prod_cases3)
    then have f: "sha_fold h1 (drop ?i x) = (h', q)" using transform_all_fold [of h1 "drop ?i x"] by simp
    then have ql: "length q \<le> 64" using sha_fold_rest [of h1 "drop ?i x"] by simp
    have bl: "length b = 64" using transform_length [of h "r @ take ?i x"] b by simp
    have all: "sha_fold h (r @ x) = (h', q)"
      by (subst sha_fold.simps) (use True f b r in \<open>simp add: Let_def\<close>)
    have "fst (update ctx x) = ctx\<lparr>hs := h', count0 := of_nat (8 * (length d + length x)), count1 := 0, sbuf := q @ drop (length q) b\<rparr>"
      unfolding update_def Let_def j c(4,5) b using True q uc by (simp only: c if_True case_prod_conv if_False fst_conv) simp
    then show ?thesis unfolding consumed_def tx all using assms(2) ql bl by (simp del: of_nat_mult)
  next
    case False
    have all: "sha_fold h (r @ x) = (h, r @ x)"
      by (subst sha_fold.simps) (use False in simp)
    have "fst (update ctx x) = ctx\<lparr>count0 := of_nat (8 * (length d + length x)), count1 := 0, sbuf := r @ x @ drop (length r + length x) (sbuf ctx)\<rparr>"
      unfolding update_def Let_def j c(4,5) using False uc by (simp only: c if_False fst_conv) simp
    then show ?thesis unfolding consumed_def tx all using assms(2) c(3,4) False by (simp del: of_nat_mult)
  qed
qed

lemma pad_count: "(120 - m mod 64) mod 64 = (if m mod 64 \<le> 56 then 56 - m mod 64 else 120 - m mod (64 :: nat))"
proof (cases "m mod 64 \<le> 56")
  case True
  then have "120 - m mod 64 = (56 - m mod 64) + 64" by simp
  then show ?thesis using True by (simp only: mod_add_self2) simp
qed simp

lemma pad_step: "m mod 64 \<noteq> 56 \<Longrightarrow> (120 - m mod 64) mod 64 = Suc ((120 - Suc m mod 64) mod (64 :: nat))"
  unfolding pad_count by (auto simp: mod_Suc)

lemma pad_zeros_consumed:
  "consumed ctx d \<Longrightarrow> length d + n < 2 ^ 29 \<Longrightarrow> (120 - length d mod 64) mod 64 \<le> n \<Longrightarrow>
   consumed (pad_zeros n ctx) (d @ replicate ((120 - length d mod 64) mod 64) 0)"
proof (induction n arbitrary: ctx d)
  case 0
  then show ?case by simp
next
  case (Suc n)
  have c: "count0 ctx = of_nat (8 * length d)" "length d < 2 ^ 29" using Suc.prems(1) by (simp_all add: consumed_def)
  show ?case
  proof (cases "length d mod 64 = 56")
    case True
    then show ?thesis using Suc.prems(1) count_words(3) [OF c(2)] c(1) by (simp del: of_nat_mult)
  next
    case False
    let ?k = "\<lambda>m :: nat. (120 - m mod 64) mod 64"
    have k: "?k (length d) = Suc (?k (Suc (length d)))" by (rule pad_step [OF False])
    have "consumed (fst (update ctx [0])) (d @ [0])" by (rule update_consumed) (use Suc.prems in simp_all)
    from Suc.IH [OF this] have "consumed (pad_zeros n (fst (update ctx [0]))) ((d @ [0]) @ replicate (?k (Suc (length d))) 0)"
      using Suc.prems k by simp
    moreover have "pad_zeros (Suc n) ctx = pad_zeros n (fst (update ctx [0]))"
      using False count_words(3) [OF c(2)] c(1) by (simp del: of_nat_mult)
    ultimately show ?thesis unfolding k by simp
  qed
qed

lemma pad_total: "(n + 1 + (119 - n mod 64) mod 64 + 8) mod 64 = (0 :: nat)"
proof -
  have t: "(64 * d + q + 1 + (if q \<le> 55 then 55 - q else 119 - q) + 8) mod 64 = 0" if "q < 64" for d q :: nat
  proof -
    have "64 * d + q + 1 + (if q \<le> 55 then 55 - q else 119 - q) + 8 = 64 * (d + (if q \<le> 55 then 1 else 2))"
      using that by simp
    then show ?thesis by (simp only: mod_mult_self1_is_0)
  qed
  have m: "(119 - q) mod 64 = (if q \<le> 55 then 55 - q else 119 - q)" if "q < 64" for q :: nat
  proof (cases "q \<le> 55")
    case True
    then have "119 - q = (55 - q) + 64" by simp
    then show ?thesis using True by (simp only: mod_add_self2) simp
  qed simp
  from t [of "n mod 64" "n div 64"] show ?thesis by (simp add: m del: add_Suc add_Suc_right)
qed

lemma consumed_hs: "consumed ctx d \<Longrightarrow> hs ctx = fst (sha_fold (hs sha_init) d)"
  by (auto simp: consumed_def split: prod.splits)

text \<open>
  C22. For data of less than 2^28 bytes the digest is the fold of the transformation over the
  blocks of the padded message of FIPS 180 (the data, the byte 0x80, the least number of zero
  bytes, the 64 bit length): how the update cuts the data, and what it leaves in the buffer,
  has no effect.
\<close>

theorem sha1_padded_fold:
  assumes "length data < 2 ^ 28"
  shows "fst (sha1 data) = digest_of (fst (sha_fold (hs sha_init) (sha_pad data))) \<and> length (sha_pad data) mod 64 = 0"
proof -
  let ?c = "fst (update sha_init data)"
  have c1: "consumed ?c data" using update_consumed [OF consumed_init, of data] assms by simp
  then have w: "word_bytes (count1 ?c) @ word_bytes (count0 ?c) = sha_len (length data)"
    by (simp add: consumed_def sha_len_def word_bytes_def replicate_numeral del: of_nat_mult)
  have l: "length (sha_len n) = 8" for n by (simp add: sha_len_def word_bytes_def)
  have c2: "consumed (fst (update ?c [0x80])) (data @ [0x80])" using update_consumed [OF c1, of "[0x80]"] assms by simp
  let ?z = "replicate ((120 - Suc (length data) mod 64) mod 64) 0 :: byte list"
  let ?p = "pad_zeros 64 (fst (update ?c [0x80]))"
  have c3: "consumed ?p ((data @ [0x80]) @ ?z)" using pad_zeros_consumed [OF c2, of 64] assms by simp
  have c4: "consumed (fst (update ?p (sha_len (length data)))) (((data @ [0x80]) @ ?z) @ sha_len (length data))"
    by (rule update_consumed [OF c3]) (use assms l in simp)
  have z: "(120 - Suc (length data) mod 64) mod 64 = (119 - length data mod 64) mod 64" by (simp add: mod_Suc)
  have "((data @ [0x80]) @ ?z) @ sha_len (length data) = sha_pad data" unfolding z by (simp add: sha_pad_def)
  with c4 have "consumed (fst (update ?p (sha_len (length data)))) (sha_pad data)" by (simp only:)
  then have h: "hs (fst (update ?p (sha_len (length data)))) = fst (sha_fold (hs sha_init) (sha_pad data))"
    by (rule consumed_hs)
  have "length (sha_pad data) = length data + 1 + (119 - length data mod 64) mod 64 + 8" by (simp add: sha_pad_def l)
  then have m: "length (sha_pad data) mod 64 = 0" by (simp only: pad_total)
  have "fst (sha1 data) = digest_of (hs (fst (update ?p (word_bytes (count1 ?c) @ word_bytes (count0 ?c)))))"
    unfolding sha1_def Let_def by (simp only: case_prod_beta fst_conv)
  then show ?thesis unfolding w h using m by (simp only: simp_thms)
qed

lemma sha1_padded_fold_witness:
  "fst (sha1 [0x61, 0x62, 0x63]) = digest_of (fst (sha_fold (hs sha_init) (sha_pad [0x61, 0x62, 0x63]))) \<and>
   length (sha_pad [0x61, 0x62, 0x63]) mod 64 = 0"
  by (rule sha1_padded_fold) simp

end
