(* ===== verification/Websocket.thy ===== *)
theory Websocket
  imports Request Text Base64 Sha1
begin

text \<open>
  The WebSocket framing of \<open>ext/agoo/websocket.c\<close> and the event framing of \<open>ext/agoo/sse.c\<close>:
  the upgrade headers, the frame written for a text, the length of a frame in the receive
  buffer and the decoding in place. A frame length is a 64 bit word, as in the code.
\<close>

section \<open>Series of appends\<close>

text \<open>
  The interface of the writers: a sink takes one string after the other and is lost (NULL) when
  a write is refused. \<open>m\<close> is the environment of the writes, here the allocator.
\<close>

fun sink_all :: "('t option \<Rightarrow> string \<Rightarrow> 't option mem) \<Rightarrow> 't option \<Rightarrow> string list \<Rightarrow> 't option mem" where
  "sink_all put t [] = Val t"
| "sink_all put t (s # ss) = mem_bind (put t s) (\<lambda>t. sink_all put t ss)"

locale text_sink =
  fixes ok :: "'m \<Rightarrow> bool"
    and put :: "'m \<Rightarrow> 't option \<Rightarrow> string \<Rightarrow> 't option mem"
    and good :: "'t \<Rightarrow> bool"
    and view :: "'t \<Rightarrow> string"
  assumes put_None: "put m None s = Val None"
    and put_Some: "ok m \<Longrightarrow> good t \<Longrightarrow> s \<noteq> [] \<Longrightarrow>
      put m (Some t) s = Val None \<or> (\<exists>t'. put m (Some t) s = Val (Some t') \<and> good t' \<and> view t' = view t @ s)"
begin

lemma sink_None: "sink_all (put m) None ss = Val None"
  by (induction ss) (simp_all add: put_None)

lemma sink_all_ok:
  "ok m \<Longrightarrow> good t \<Longrightarrow> [] \<notin> set ss \<Longrightarrow>
   sink_all (put m) (Some t) ss = Val None \<or>
   (\<exists>t'. sink_all (put m) (Some t) ss = Val (Some t') \<and> good t' \<and> view t' = view t @ concat ss)"
proof (induction ss arbitrary: t)
  case (Cons s ss)
  from put_Some [OF Cons.prems(1,2), of s] Cons.prems(3)
  consider "put m (Some t) s = Val None"
    | t' where "put m (Some t) s = Val (Some t')" "good t'" "view t' = view t @ s" by auto
  then show ?case
  proof cases
    case 1
    then show ?thesis by (simp add: sink_None)
  next
    case (2 t')
    with Cons.IH [OF Cons.prems(1) 2(2)] Cons.prems(3) show ?thesis by auto
  qed
qed simp

end

definition text_put :: "allocator \<Rightarrow> agoo_text option \<Rightarrow> string \<Rightarrow> agoo_text option mem" where
  "text_put mal t s = agoo_text_append mal t s (int (length s))"

interpretation sink: text_sink malloc_ok text_put text_ok content
proof
  show "text_put m None s = Val None" for m s by (simp add: text_put_def agoo_text_append_def)
next
  fix m t and s :: string
  assume "malloc_ok m" "text_ok t" "s \<noteq> []"
  then have "appended m t s (text_put m (Some t) s)"
    using text_append_ok_len [of m t s "int (length s)"] by (simp add: text_put_def arg_len_def)
  then show "text_put m (Some t) s = Val None \<or>
      (\<exists>t'. text_put m (Some t) s = Val (Some t') \<and> text_ok t' \<and> content t' = content t @ s)"
    by (auto simp: appended_def split: if_splits)
qed

section \<open>The upgrade\<close>

definition AGOO_WS_OP_CONT :: byte where "AGOO_WS_OP_CONT = 0x00"
definition AGOO_WS_OP_TEXT :: byte where "AGOO_WS_OP_TEXT = 0x01"
definition AGOO_WS_OP_BIN :: byte where "AGOO_WS_OP_BIN = 0x02"
definition AGOO_WS_OP_CLOSE :: byte where "AGOO_WS_OP_CLOSE = 0x08"
definition AGOO_WS_OP_PING :: byte where "AGOO_WS_OP_PING = 0x09"
definition AGOO_WS_OP_PONG :: byte where "AGOO_WS_OP_PONG = 0x0A"

lemmas ws_ops = AGOO_WS_OP_CONT_def AGOO_WS_OP_TEXT_def AGOO_WS_OP_BIN_def AGOO_WS_OP_CLOSE_def
  AGOO_WS_OP_PING_def AGOO_WS_OP_PONG_def

definition CRLF :: string where
  "CRLF = [CHR 0x0D, CHR 0x0A]"

definition up_con :: string where
  "up_con = ''Upgrade: websocket'' @ CRLF @ ''Connection: Upgrade'' @ CRLF"

definition ws_magic :: string where
  "ws_magic = ''258EAFA5-E914-47DA-95CA-C5AB0DC85B11''"

definition ws_protocol :: string where
  "ws_protocol = ''Sec-WebSocket-Protocol: ''"

definition ws_accept :: string where
  "ws_accept = ''Sec-WebSocket-Accept: ''"

definition WS_MAX_KEY_LEN :: nat where
  "WS_MAX_KEY_LEN = 1024"

text \<open>The accept value: the digest of the key and the magic string, in base64.\<close>

definition ws_accept_value :: "string \<Rightarrow> nat \<Rightarrow> string" where
  "ws_accept_value key klen = b64_to (fst (sha1 (map byte_of (take klen key @ ws_magic))))"

definition agoo_ws_add_headers :: "allocator \<Rightarrow> 'h agoo_req \<Rightarrow> agoo_text option \<Rightarrow> agoo_text option mem" where
  "agoo_ws_add_headers mal r t =
    mem_bind (text_put mal t up_con) (\<lambda>t.
    mem_bind
      (case agoo_req_header_value r ''Sec-WebSocket-Key'' of
         None \<Rightarrow> Val t
       | Some (key, klen) \<Rightarrow>
           if klen + length ws_magic + 1 < WS_MAX_KEY_LEN then
             mem_bind (text_put mal t ws_accept) (\<lambda>t.
             mem_bind (text_put mal t (ws_accept_value key klen)) (\<lambda>t.
               text_put mal t CRLF))
           else Val t) (\<lambda>t.
      case agoo_req_header_value r ''Sec-WebSocket-Protocol'' of
        None \<Rightarrow> Val t
      | Some (key, klen) \<Rightarrow>
          mem_bind (text_put mal t ws_protocol) (\<lambda>t.
          mem_bind (agoo_text_append mal t key (int klen)) (\<lambda>t.
            text_put mal t CRLF))))"

section \<open>Frames\<close>

text \<open>The head that is put in front of a text: the operation and the length.\<close>

definition ws_head :: "bool \<Rightarrow> nat \<Rightarrow> string" where
  "ws_head bin len =
    (let w = of_nat len :: u64
     in chr_of (0x80 OR (if bin then AGOO_WS_OP_BIN else AGOO_WS_OP_TEXT)) #
        (if len \<le> 125 then [chr_of (ucast w)]
         else if len \<le> 0xFFFF then [chr_of 0x7E, chr_of (ucast (drop_bit 8 w)), chr_of (ucast w)]
         else chr_of 0x7F # map (\<lambda>i. chr_of (ucast (drop_bit i w))) [56, 48, 40, 32, 24, 16, 8, 0]))"

definition agoo_ws_expand :: "allocator \<Rightarrow> agoo_text \<Rightarrow> agoo_text option mem" where
  "agoo_ws_expand mal t =
    (let head = ws_head (tbin t) (tlen t)
     in agoo_text_prepend mal (Some t) head (int (length head)))"

text \<open>Big endian bytes, and the length field: the mask flag, the length, the offset behind it.\<close>

definition be_word :: "string \<Rightarrow> u64" where
  "be_word s = foldl (\<lambda>v c. push_bit 8 v OR ucast (byte_of c)) 0 s"

definition ws_len_field :: "string \<Rightarrow> (bool \<times> u64 \<times> nat) mem" where
  "ws_len_field buf =
    (if length buf < 2 then UB else
     let b = byte_of (buf ! 1); masked = (0x80 AND b \<noteq> 0); plen = ucast (0x7F AND b) :: u64
     in if plen = 126 then
          (if length buf < 4 then UB else Val (masked, be_word (take 2 (drop 2 buf)), 4))
        else if plen = 127 then
          (if length buf < 10 then UB else Val (masked, be_word (take 8 (drop 2 buf)), 10))
        else Val (masked, plen, 2))"

text \<open>The loop over the payload.\<close>

definition ws_mask :: "string \<Rightarrow> string \<Rightarrow> string" where
  "ws_mask m s = map (\<lambda>i. chr_of (byte_of (s ! i) XOR byte_of (m ! (i mod 4)))) [0..<length s]"

text \<open>Decoding in place: the block afterwards and the length of the payload.\<close>

definition agoo_ws_decode :: "string \<Rightarrow> (string \<times> u64) mem" where
  "agoo_ws_decode buf =
    mem_bind (ws_len_field buf) (\<lambda>(masked, plen, off).
      let n = unat plen
      in if masked then
           (if length buf < off + 4 + n then UB
            else let data = ws_mask (take 4 (drop off buf)) (take n (drop (off + 4) buf));
                     blk = take (off + 4) buf @ data @ drop (off + 4 + n) buf
                 in mem_bind (blk_write blk 0 data) (\<lambda>blk.
                    mem_bind (blk_write blk n [NUL]) (\<lambda>blk. Val (blk, plen))))
         else
           (if length buf < off + n then UB
            else mem_bind (blk_write buf 0 (take n (drop off buf))) (\<lambda>blk.
                 mem_bind (blk_write blk n [NUL]) (\<lambda>blk. Val (blk, plen)))))"

text \<open>
  The length of the first frame in the receive buffer, of which \<open>cnt\<close> bytes are read (\<open>bcnt\<close> in
  the connection): -1 is an error, 0 not enough bytes to tell.
\<close>

definition agoo_ws_calc_len :: "nat \<Rightarrow> string \<Rightarrow> nat \<Rightarrow> int mem" where
  "agoo_ws_calc_len bcnt buf cnt =
    (if length buf < 2 then UB
     else if 0x80 AND byte_of (buf ! 0) = 0 then Val (- 1)
     else if cnt < 3 then Val 0
     else if 0x7F AND byte_of (buf ! 1) = 126 \<and> cnt < 5 then Val 0
     else if 0x7F AND byte_of (buf ! 1) = 127 \<and> bcnt < 11 then Val 0
     else mem_bind (ws_len_field buf) (\<lambda>(masked, plen, off).
       Val (sint (of_nat off + (if masked then 4 else 0) + plen))))"

section \<open>Events\<close>

definition sse_prefix :: string where
  "sse_prefix = ''event: msg'' @ [CHR 0x0A] @ ''data: ''"

definition sse_suffix :: string where
  "sse_suffix = [CHR 0x0A, CHR 0x0A]"

definition sse_up :: string where
  "sse_up = ''HTTP/1.1 200 OK'' @ CRLF @ ''Content-Type: text/event-stream'' @ CRLF @
     ''Cache-Control: no-cache'' @ CRLF @ ''Connection: keep-alive'' @ CRLF @ CRLF @ ''retry: 5'' @ [CHR 0x0A, CHR 0x0A]"

definition agoo_sse_upgrade :: "allocator \<Rightarrow> agoo_text \<Rightarrow> agoo_text option mem" where
  "agoo_sse_upgrade mal t = text_put mal (Some (t\<lparr>tlen := 0\<rparr>)) sse_up"

definition agoo_sse_expand :: "allocator \<Rightarrow> agoo_text option \<Rightarrow> agoo_text option mem" where
  "agoo_sse_expand mal t =
    mem_bind (agoo_text_prepend mal t sse_prefix (int (length sse_prefix))) (\<lambda>t. text_put mal t sse_suffix)"

section \<open>Frames as RFC 6455 defines them\<close>

text \<open>A frame with the FIN bit, masked or not, written without the code's own functions.\<close>

definition ws_len_bytes :: "byte \<Rightarrow> nat \<Rightarrow> string" where
  "ws_len_bytes flag n =
    (if n \<le> 125 then [chr_of (flag OR of_nat n)]
     else if n < 2 ^ 16 then chr_of (flag OR 126) # map (\<lambda>k. char_of (n div 256 ^ k)) [1, 0]
     else chr_of (flag OR 127) # map (\<lambda>k. char_of (n div 256 ^ k)) [7, 6, 5, 4, 3, 2, 1, 0])"

text \<open>The masking of RFC 6455: the key is repeated over the payload.\<close>

definition key_mask :: "string \<Rightarrow> string \<Rightarrow> string" where
  "key_mask m s = map2 (\<lambda>c k. chr_of (byte_of c XOR byte_of k)) s (concat (replicate (length s) m))"

definition ws_frame :: "byte \<Rightarrow> string option \<Rightarrow> string \<Rightarrow> string" where
  "ws_frame op mo s = chr_of (0x80 OR op) #
     (case mo of None \<Rightarrow> ws_len_bytes 0 (length s) @ s
      | Some m \<Rightarrow> ws_len_bytes 0x80 (length s) @ m @ key_mask m s)"

lemma byte_chr [simp]: "byte_of (chr_of b) = b"
proof -
  have "unat b < 256" using unsigned_less [of b] by simp
  then show ?thesis by (simp add: byte_of_def chr_of_def)
qed

lemma byte_of_char_of [simp]: "byte_of (char_of n) = of_nat n"
  by (simp add: byte_of_def word_unat_eq_iff unsigned_of_nat take_bit_eq_mod)

lemma chr_byte [simp]: "chr_of (byte_of c) = c"
  using nat_of_char_less_256 [of c] by (simp add: byte_of_def chr_of_def unsigned_of_nat take_bit_nat_eq_self)

lemma char_div_byte: "char_of (n div 256 ^ k) = chr_of (ucast (drop_bit (8 * k) (of_nat n :: u64)))" if "k < 8" "n < 2 ^ 64"
proof -
  have "unat (drop_bit (8 * k) (of_nat n :: u64)) = n div 256 ^ k"
  proof -
    have u: "unat (of_nat n :: u64) = n" by (rule unat_small) (use that(2) in simp)
    have p: "(2 :: nat) ^ (8 * k) = 256 ^ k" by (simp add: power_mult)
    have t: "take_bit LENGTH(64) n = n" by (rule take_bit_nat_eq_self) (use that(2) in simp)
    show ?thesis unfolding unsigned_drop_bit_eq unfolding u t by (simp add: drop_bit_eq_div p)
  qed
  then have "unat (ucast (drop_bit (8 * k) (of_nat n :: u64)) :: byte) = n div 256 ^ k mod 256"
    by (simp add: unsigned_ucast_eq take_bit_eq_mod)
  then show ?thesis by (simp add: chr_of_def)
qed

lemma be_step: "push_bit 8 (drop_bit (k + 8) w) OR ucast (ucast (drop_bit k w) :: byte) = drop_bit k (w :: u64)"
  by (rule bit_word_eqI) (auto simp: bit_simps)

lemma be_word_8:
  "be_word (map (\<lambda>i. chr_of (ucast (drop_bit i w))) [56, 48, 40, 32, 24, 16, 8, 0]) = (w :: u64)"
proof -
  have "drop_bit 64 w = 0" by (rule bit_word_eqI) (simp add: bit_simps)
  then show ?thesis
    using be_step [of 56 w] be_step [of 48 w] be_step [of 40 w] be_step [of 32 w] be_step [of 24 w]
      be_step [of 16 w] be_step [of 8 w] be_step [of 0 w]
    by (simp add: be_word_def)
qed

lemma be_word_2:
  "drop_bit 16 w = 0 \<Longrightarrow> be_word [chr_of (ucast (drop_bit 8 w)), chr_of (ucast w)] = (w :: u64)"
  using be_step [of 8 w] be_step [of 0 w] by (simp add: be_word_def)

lemma head_byte:
  assumes "n < 128" "flag = 0 \<or> flag = (0x80 :: byte)"
  shows "0x7F AND (flag OR of_nat n) = (of_nat n :: byte)" "0x80 AND (flag OR of_nat n) = flag"
proof -
  have m: "(0x7F :: byte) = mask 7" by (simp add: mask_eq_exp_minus_1)
  have "take_bit 7 n = n" by (rule take_bit_nat_eq_self) (use assms(1) in simp)
  then have "take_bit 7 (of_nat n :: byte) = of_nat n" by (metis of_nat_take_bit)
  then have n: "0x7F AND of_nat n = (of_nat n :: byte)" unfolding m by (simp add: take_bit_eq_mask and.commute)
  have "0x80 AND (0x7F AND of_nat n) = (0 :: byte)" unfolding and.assoc [symmetric] by simp
  then have z: "0x80 AND of_nat n = (0 :: byte)" by (simp only: n)
  show "0x7F AND (flag OR of_nat n) = (of_nat n :: byte)" using assms(2) n by (auto simp: bit.conj_disj_distrib)
  show "0x80 AND (flag OR of_nat n) = flag" using assms(2) z by (auto simp: bit.conj_disj_distrib)
qed

lemma ucast_small: "n < 128 \<Longrightarrow> (ucast (of_nat n :: byte) :: u64) = of_nat n"
  by (simp add: word_unat_eq_iff unsigned_ucast_eq unsigned_of_nat take_bit_nat_eq_self)

lemma ws_len_field_frame:
  assumes "flag = 0 \<or> flag = (0x80 :: byte)" "n < 2 ^ 64"
  shows "ws_len_field (c # ws_len_bytes flag n @ r) = Val (flag \<noteq> 0, of_nat n, 1 + length (ws_len_bytes flag n))"
proof -
  consider "n \<le> 125" | "125 < n" "n < 2 ^ 16" | "2 ^ 16 \<le> n" by linarith
  then show ?thesis
  proof cases
    case 1
    then have "(of_nat n :: u64) \<noteq> 126" "(of_nat n :: u64) \<noteq> 127"
      by (simp_all add: word_unat_eq_iff unsigned_of_nat take_bit_nat_eq_self)
    with 1 show ?thesis
      using head_byte [of n, OF _ assms(1)] by (simp add: ws_len_field_def ws_len_bytes_def ucast_small)
  next
    case 2
    have d: "drop_bit 16 (of_nat n :: u64) = 0"
    proof -
      have "unat (drop_bit 16 (of_nat n :: u64)) = 0"
        unfolding unsigned_drop_bit_eq using 2 by (simp add: unsigned_of_nat take_bit_nat_eq_self drop_bit_eq_div)
      then show ?thesis by (simp add: word_unat_eq_iff)
    qed
    have b: "map (\<lambda>k. char_of (n div 256 ^ k)) [1, 0] = [chr_of (ucast (drop_bit 8 (of_nat n :: u64))), chr_of (ucast (of_nat n :: u64))]"
      using char_div_byte [of 1 n] char_div_byte [of 0 n] assms(2) by simp
    have w: "be_word (take 2 (map (\<lambda>k. char_of (n div 256 ^ k)) [1, 0] @ r)) = of_nat n"
      unfolding b using be_word_2 [OF d] by simp
    show ?thesis
      using 2 head_byte [of 126, OF _ assms(1)] w
      by (simp add: ws_len_field_def ws_len_bytes_def)
  next
    case 3
    have b: "map (\<lambda>k. char_of (n div 256 ^ k)) [7, 6, 5, 4, 3, 2, 1, 0] =
        map (\<lambda>i. chr_of (ucast (drop_bit i (of_nat n :: u64)))) [56, 48, 40, 32, 24, 16, 8, 0]"
      using char_div_byte [OF _ assms(2), of 7] char_div_byte [OF _ assms(2), of 6] char_div_byte [OF _ assms(2), of 5]
        char_div_byte [OF _ assms(2), of 4] char_div_byte [OF _ assms(2), of 3] char_div_byte [OF _ assms(2), of 2]
        char_div_byte [OF _ assms(2), of 1] char_div_byte [OF _ assms(2), of 0] by simp
    have w: "be_word (take 8 (map (\<lambda>k. char_of (n div 256 ^ k)) [7, 6, 5, 4, 3, 2, 1, 0] @ r)) = of_nat n"
      unfolding b using be_word_8 [of "of_nat n"] by simp
    show ?thesis
      using 3 head_byte [of 127, OF _ assms(1)] w
      by (simp add: ws_len_field_def ws_len_bytes_def)
  qed
qed

section \<open>The code's frames are those of the RFC\<close>

lemma ws_head_frame:
  assumes "n < 2 ^ 64"
  shows "ws_head bin n = chr_of (0x80 OR (if bin then 0x02 else 0x01)) # ws_len_bytes 0 n"
proof -
  have c: "char_of (n div 256 ^ k) = chr_of (ucast (drop_bit (8 * k) (of_nat n :: u64)))" if "k < 8" for k
    using char_div_byte [OF that assms] .
  have e: "chr_of (ucast (of_nat n :: u64)) = chr_of (of_nat n)" if "n \<le> 125"
    using c [of 0] that by (simp add: chr_of_def unsigned_of_nat take_bit_nat_eq_self)
  show ?thesis
    using c [of 0] c [of 1] c [of 2] c [of 3] c [of 4] c [of 5] c [of 6] c [of 7] e
    by (auto simp: ws_head_def ws_len_bytes_def Let_def ws_ops)
qed

lemma ws_frame_None: "ws_frame op None s = chr_of (0x80 OR op) # ws_len_bytes 0 (length s) @ s"
  by (simp add: ws_frame_def)

text \<open>Flag and payload part of a frame.\<close>

definition ws_flag :: "string option \<Rightarrow> byte" where
  "ws_flag mo = (if mo = None then 0 else 0x80)"

definition ws_payload :: "string option \<Rightarrow> string \<Rightarrow> string" where
  "ws_payload mo s = (case mo of None \<Rightarrow> s | Some m \<Rightarrow> m @ ws_mask m s)"

lemma nth_concat_replicate: "i < n * length m \<Longrightarrow> concat (replicate n m) ! i = m ! (i mod length m)"
proof (induction n arbitrary: i)
  case (Suc n)
  show ?case
  proof (cases "i < length m")
    case False
    then show ?thesis using Suc.IH [of "i - length m"] Suc.prems by (simp add: nth_append mod_if)
  qed (simp add: nth_append)
qed simp

lemma key_mask_eq: "length m = 4 \<Longrightarrow> key_mask m s = ws_mask m s"
proof (rule nth_equalityI)
  assume m: "length m = 4"
  have l: "length (concat (replicate (length s) m)) = length s * 4" using m by (simp add: length_concat sum_list_replicate)
  show "length (key_mask m s) = length (ws_mask m s)" using l by (simp add: key_mask_def ws_mask_def)
  fix i assume "i < length (key_mask m s)"
  then have i: "i < length s" using l by (simp add: key_mask_def)
  show "key_mask m s ! i = ws_mask m s ! i" using i l m nth_concat_replicate [of i "length s" m] by (simp add: key_mask_def ws_mask_def)
qed

definition key_ok :: "string option \<Rightarrow> bool" where
  "key_ok mo \<longleftrightarrow> (case mo of None \<Rightarrow> True | Some m \<Rightarrow> length m = 4)"

lemma ws_frame_parts: "key_ok mo \<Longrightarrow> ws_frame op mo s = chr_of (0x80 OR op) # ws_len_bytes (ws_flag mo) (length s) @ ws_payload mo s"
  by (cases mo) (simp_all add: ws_frame_def ws_flag_def ws_payload_def key_mask_eq key_ok_def)

lemma ws_flag_cases: "ws_flag mo = 0 \<or> ws_flag mo = 0x80"
  by (simp add: ws_flag_def)

lemma ws_mask_length [simp]: "length (ws_mask m s) = length s"
  by (simp add: ws_mask_def)

lemma ws_mask_mask: "length m = 4 \<Longrightarrow> ws_mask m (ws_mask m s) = s"
  by (rule nth_equalityI) (simp_all add: ws_mask_def xor.assoc)

lemma ws_len_bytes_length: "length (ws_len_bytes fl n) = (if n \<le> 125 then 1 else if n < 2 ^ 16 then 3 else 9)"
  by (simp add: ws_len_bytes_def)

lemma blk_write_front:
  "k \<le> length buf \<Longrightarrow> length s = k \<Longrightarrow> blk_write buf 0 s = Val (s @ drop k buf)"
  by (simp add: blk_write_ok)

lemma blk_write_one: "n < length buf \<Longrightarrow> blk_write buf n [c] = Val (buf[n := c])"
  by (simp add: blk_write_ok upd_conv_take_nth_drop)

lemma drop_ne: "n < length xs \<Longrightarrow> drop n xs \<noteq> []"
  by simp

lemma ws_decode_frame:
  assumes "case mo of None \<Rightarrow> True | Some m \<Rightarrow> length m = 4" "length s < 2 ^ 64"
  shows "\<exists>buf. agoo_ws_decode (ws_frame op mo s @ r) = Val (buf, of_nat (length s)) \<and>
     take (length s) buf = s \<and> buf ! length s = NUL \<and> length buf = length (ws_frame op mo s @ r)"
proof -
  let ?f = "ws_flag mo" and ?n = "length s"
  let ?off = "1 + length (ws_len_bytes ?f ?n)"
  let ?h = "chr_of (0x80 OR op) # ws_len_bytes ?f ?n"
  let ?buf = "ws_frame op mo s @ r"
  have lf: "ws_len_field ?buf = Val (?f \<noteq> 0, of_nat ?n, ?off)"
    unfolding ws_frame_parts [OF assms(1) [folded key_ok_def]] using ws_len_field_frame [OF ws_flag_cases assms(2)] by simp
  have u: "unat (of_nat ?n :: u64) = ?n" by (rule unat_small) (use assms(2) in simp)
  have b: "?buf = ?h @ ws_payload mo s @ r" using assms(1) by (simp add: ws_frame_parts key_ok_def)
  have lh: "length ?h = ?off" by simp
  have d: "drop (?off + k) ?buf = drop k (ws_payload mo s @ r)" for k unfolding b by simp
  have last: "\<exists>buf. blk_write (s @ q) ?n [NUL] = Val buf \<and> take ?n buf = s \<and> buf ! ?n = NUL \<and> length buf = ?n + length q"
    if "q \<noteq> []" for q
    using that by (cases q) (simp_all add: blk_write_one)
  show ?thesis
  proof (cases mo)
    case None
    have t: "take ?n (drop ?off ?buf) = s" using d [of 0] None by (simp add: ws_payload_def)
    have l: "\<not> length ?buf < ?off + ?n" unfolding b using None by (simp add: ws_payload_def)
    have w: "blk_write ?buf 0 s = Val (s @ drop ?n ?buf)" by (rule blk_write_front) (use l in simp_all)
    have ne: "drop ?n ?buf \<noteq> []" by (rule drop_ne) (use l in linarith)
    have f: "\<not> ws_flag mo \<noteq> 0" using None by (simp add: ws_flag_def)
    have eq: "agoo_ws_decode ?buf = mem_bind (blk_write (s @ drop ?n ?buf) ?n [NUL]) (\<lambda>blk. Val (blk, of_nat ?n))"
      unfolding agoo_ws_decode_def lf
      by (simp only: mem_bind_simps case_prod_conv Let_def u f if_False l t w)
    obtain b where "blk_write (s @ drop ?n ?buf) ?n [NUL] = Val b" "take ?n b = s" "b ! ?n = NUL"
      "length b = ?n + length (drop ?n ?buf)" using last [OF ne] by blast
    with eq l show ?thesis by (auto simp only: mem_bind_simps length_drop)
  next
    case (Some m)
    have m: "length m = 4" using assms(1) Some by simp
    have tm: "take 4 (drop ?off ?buf) = m" using d [of 0] Some m by (simp add: ws_payload_def)
    have tp: "take ?n (drop (?off + 4) ?buf) = ws_mask m s" using d [of 4] Some m by (simp add: ws_payload_def)
    have l: "\<not> length ?buf < ?off + 4 + ?n" unfolding b using Some m by (simp add: ws_payload_def)
    let ?blk = "take (?off + 4) ?buf @ s @ drop (?off + 4 + ?n) ?buf"
    have lb: "length ?blk = length ?buf" using l by simp
    have w: "blk_write ?blk 0 s = Val (s @ drop ?n ?blk)" by (rule blk_write_front) (use lb l in simp_all)
    have ne: "drop ?n ?blk \<noteq> []" by (rule drop_ne) (use lb l in linarith)
    have f: "ws_flag mo \<noteq> 0" using Some by (simp add: ws_flag_def)
    have eq: "agoo_ws_decode ?buf = mem_bind (blk_write (s @ drop ?n ?blk) ?n [NUL]) (\<lambda>blk. Val (blk, of_nat ?n))"
      unfolding agoo_ws_decode_def lf
      by (simp only: mem_bind_simps case_prod_conv Let_def u f if_True if_False simp_thms l tm tp ws_mask_mask [OF m] w)
    obtain b where "blk_write (s @ drop ?n ?blk) ?n [NUL] = Val b" "take ?n b = s" "b ! ?n = NUL"
      "length b = ?n + length (drop ?n ?blk)" using last [OF ne] by blast
    with eq lb l show ?thesis by (auto simp only: mem_bind_simps length_drop)
  qed
qed



text \<open>
  C24. Decoding a frame of any length, masked with any key or not, at the front of its block
  leaves the payload there, NUL terminated, and returns its length, whatever follows the frame.
\<close>

theorem ws_decode_round_trip:
  assumes "case mo of None \<Rightarrow> True | Some m \<Rightarrow> length m = 4" "length s < 2 ^ 64"
  shows "\<exists>buf. agoo_ws_decode (ws_frame op mo s @ r) = Val (buf, of_nat (length s)) \<and>
     take (length s) buf = s \<and> buf ! length s = NUL \<and> length buf = length (ws_frame op mo s @ r)"
  using assms by (rule ws_decode_frame)

lemma ws_decode_round_trip_witness:
  "\<exists>buf. agoo_ws_decode (ws_frame 0x01 (Some ''k#!z'') ''hello'' @ ''yy'') = Val (buf, of_nat (length ''hello'')) \<and>
     take (length ''hello'') buf = ''hello'' \<and> buf ! length ''hello'' = NUL \<and>
     length buf = length (ws_frame 0x01 (Some ''k#!z'') ''hello'' @ ''yy'')"
  by (rule ws_decode_round_trip) simp_all

lemma sint_of_nat_small: "n < 2 ^ 63 \<Longrightarrow> sint (of_nat n :: u64) = int n"
  by (simp add: signed_of_nat signed_take_bit_int_eq_self)

lemma ws_frame_length: "key_ok mo \<Longrightarrow> length (ws_frame op mo s) = 1 + length (ws_len_bytes (ws_flag mo) (length s)) + length (ws_payload mo s)"
  by (simp add: ws_frame_parts)

lemma ws_calc_len_bytes:
  assumes "flag = 0 \<or> flag = (0x80 :: byte)" "n < 2 ^ 64" "0x80 AND byte_of c \<noteq> 0" "11 \<le> cnt \<or> n < 2 ^ 16 \<and> 5 \<le> cnt \<or> n \<le> 125 \<and> 3 \<le> cnt"
  shows "agoo_ws_calc_len cnt (c # ws_len_bytes flag n @ r) cnt =
    Val (sint (of_nat (1 + length (ws_len_bytes flag n)) + (if flag \<noteq> 0 then 4 else 0) + of_nat n :: u64))"
proof -
  have h: "0x7F AND byte_of ((ws_len_bytes flag n @ r) ! 0) =
      (if n \<le> 125 then of_nat n else if n < 2 ^ 16 then 126 else 127)"
    using head_byte [of n, OF _ assms(1)] head_byte [of 126, OF _ assms(1)] head_byte [of 127, OF _ assms(1)]
    by (simp add: ws_len_bytes_def)
  have l: "\<not> length (c # ws_len_bytes flag n @ r) < 2" by (simp add: ws_len_bytes_def)
  have e: "(of_nat n :: byte) \<noteq> 126" "(of_nat n :: byte) \<noteq> 127" if "n \<le> 125"
    using that by (simp_all add: word_unat_eq_iff unsigned_of_nat take_bit_nat_eq_self)
  have i: "(c # ws_len_bytes flag n @ r) ! 1 = (ws_len_bytes flag n @ r) ! 0" by simp
  have z: "0x80 AND byte_of ((c # ws_len_bytes flag n @ r) ! 0) \<noteq> 0" using assms(3) by simp
  have g: "\<not> cnt < 3" "\<not> (0x7F AND byte_of ((c # ws_len_bytes flag n @ r) ! 1) = 126 \<and> cnt < 5)"
    "\<not> (0x7F AND byte_of ((c # ws_len_bytes flag n @ r) ! 1) = 127 \<and> cnt < 11)"
    unfolding i h using assms(4) e by (auto split: if_splits)
  show ?thesis
    unfolding agoo_ws_calc_len_def ws_len_field_frame [OF assms(1,2)]
    by (simp only: if_not_P [OF l] if_not_P [OF z] if_not_P [OF g(1)] if_not_P [OF g(2)] if_not_P [OF g(3)]
        mem_bind_simps case_prod_conv)
qed

lemma fin_op: "0x80 AND (0x80 OR op :: byte) \<noteq> 0"
proof -
  have "x AND (x OR op) = x" for x :: byte by (rule bit_word_eqI) (auto simp: bit_simps)
  from this [of "0x80"] show ?thesis by simp
qed

text \<open>The length is that of the frame once its length field is read.\<close>

lemma ws_calc_len_known:
  assumes "case mo of None \<Rightarrow> True | Some m \<Rightarrow> length m = 4" "length s < 2 ^ 62"
    "11 \<le> k \<or> length s < 2 ^ 16 \<and> 5 \<le> k \<or> length s \<le> 125 \<and> 3 \<le> k" "k \<le> cnt"
  shows "agoo_ws_calc_len cnt (take k (ws_frame op mo s) @ r) cnt = Val (int (length (ws_frame op mo s)))"
proof -
  let ?n = "length s" and ?f = "ws_flag mo"
  let ?c = "chr_of (0x80 OR op)"
  have pl: "length (ws_payload mo s) = (if mo = None then 0 else 4) + ?n"
    using assms(1) by (cases mo) (simp_all add: ws_payload_def)
  have "1 + length (ws_len_bytes ?f ?n) \<le> k" using assms(3) by (auto simp: ws_len_bytes_length)
  then have b: "take k (ws_frame op mo s) @ r = ?c # ws_len_bytes ?f ?n @ (take (k - (1 + length (ws_len_bytes ?f ?n))) (ws_payload mo s) @ r)"
    using ws_frame_parts [OF assms(1) [folded key_ok_def]] by (cases k) simp_all
  have "agoo_ws_calc_len cnt (take k (ws_frame op mo s) @ r) cnt =
      Val (sint (of_nat (1 + length (ws_len_bytes ?f ?n)) + (if ?f \<noteq> 0 then 4 else 0) + of_nat ?n :: u64))"
    unfolding b by (rule ws_calc_len_bytes) (use ws_flag_cases assms(2-4) fin_op in auto)
  also have "of_nat (1 + length (ws_len_bytes ?f ?n)) + (if ?f \<noteq> 0 then 4 else 0) + of_nat ?n
      = (of_nat (length (ws_frame op mo s)) :: u64)"
    unfolding ws_frame_length [OF assms(1) [folded key_ok_def]] pl by (cases mo) (simp_all add: ws_flag_def)
  also have "sint (of_nat (length (ws_frame op mo s)) :: u64) = int (length (ws_frame op mo s))"
  proof (rule sint_of_nat_small)
    have "length (ws_frame op mo s) \<le> 14 + ?n" unfolding ws_frame_length [OF assms(1) [folded key_ok_def]] pl by (simp add: ws_len_bytes_length)
    then show "length (ws_frame op mo s) < 2 ^ 63" using assms(2) by simp
  qed
  finally show ?thesis .
qed

text \<open>
  With any number \<open>k\<close> of bytes of a frame in the buffer, from two on, the length is either
  not known yet (0) or the length of the whole frame; it is known from eleven bytes on, and
  when the frame is complete, unless that is an empty frame without a mask. Bytes of earlier
  reads behind the \<open>k\<close> bytes make no difference.
\<close>

theorem ws_calc_len_prefix:
  assumes "case mo of None \<Rightarrow> True | Some m \<Rightarrow> length m = 4" "length s < 2 ^ 62" "2 \<le> k" "k \<le> length (ws_frame op mo s)"
  shows "agoo_ws_calc_len k (take k (ws_frame op mo s) @ stale) k \<in> {Val 0, Val (int (length (ws_frame op mo s)))} \<and>
    (11 \<le> k \<or> k = length (ws_frame op mo s) \<and> (mo \<noteq> None \<or> s \<noteq> []) \<longrightarrow>
     agoo_ws_calc_len k (take k (ws_frame op mo s) @ stale) k = Val (int (length (ws_frame op mo s))))"
proof -
  let ?n = "length s" and ?f = "ws_flag mo"
  let ?b = "take k (ws_frame op mo s) @ stale" and ?c = "chr_of (0x80 OR op)"
  have pl: "length (ws_payload mo s) = (if mo = None then 0 else 4) + ?n"
    using assms(1) by (cases mo) (simp_all add: ws_payload_def)
  have full: "agoo_ws_calc_len k ?b k = Val (int (length (ws_frame op mo s)))"
    if k: "11 \<le> k \<or> ?n < 2 ^ 16 \<and> 5 \<le> k \<or> ?n \<le> 125 \<and> 3 \<le> k"
    by (rule ws_calc_len_known [OF assms(1,2) k order.refl])
  have none: "agoo_ws_calc_len k ?b k = Val 0"
    if k: "\<not> (11 \<le> k \<or> ?n < 2 ^ 16 \<and> 5 \<le> k \<or> ?n \<le> 125 \<and> 3 \<le> k)"
  proof -
    obtain j where j: "k = Suc (Suc j)" using assms(3) by (metis Suc_le_D numeral_2_eq_2 Suc_le_mono)
    obtain x xs where x: "ws_len_bytes ?f ?n = x # xs" by (cases "ws_len_bytes ?f ?n") (simp_all add: ws_len_bytes_def split: if_splits)
    have b: "?b = ?c # x # take j (xs @ ws_payload mo s) @ stale" using ws_frame_parts [OF assms(1) [folded key_ok_def]] by (simp add: j x)
    have "byte_of x = (if ?n \<le> 125 then ?f OR of_nat ?n else if ?n < 2 ^ 16 then ?f OR 126 else ?f OR 127)"
      using x by (auto simp: ws_len_bytes_def split: if_splits)
    then have h: "0x7F AND byte_of x = (if ?n \<le> 125 then of_nat ?n else if ?n < 2 ^ 16 then 126 else 127)"
      using head_byte [of ?n, OF _ ws_flag_cases [of mo]] head_byte [of 126, OF _ ws_flag_cases [of mo]]
        head_byte [of 127, OF _ ws_flag_cases [of mo]] by simp
    show ?thesis using k h fin_op unfolding b by (auto simp: agoo_ws_calc_len_def split: if_splits)
  qed
  have "11 \<le> k \<or> ?n < 2 ^ 16 \<and> 5 \<le> k \<or> ?n \<le> 125 \<and> 3 \<le> k"
    if "11 \<le> k \<or> k = length (ws_frame op mo s) \<and> (mo \<noteq> None \<or> s \<noteq> [])"
    using that unfolding ws_frame_length [OF assms(1) [folded key_ok_def]] pl ws_len_bytes_length by (auto simp: Suc_le_eq split: if_splits)
  with full none show ?thesis by blast
qed

lemma ws_calc_len_prefix_witness:
  "agoo_ws_calc_len 11 (take 11 (ws_frame 0x01 (Some ''k#!z'') ''hello'') @ ''old'') 11 = Val (int (length (ws_frame 0x01 (Some ''k#!z'') ''hello'')))"
proof -
  have "length (ws_frame 0x01 (Some ''k#!z'') ''hello'') = 11" by (simp add: ws_frame_def ws_len_bytes_def key_mask_eq)
  then show ?thesis using ws_calc_len_prefix [of "Some ''k#!z''" "''hello''" 11 "0x01" "''old''"] by simp
qed

text \<open>
  The sum of the lengths wraps: a masked frame that announces \<open>2^64 - 14 + v\<close> bytes, for
  \<open>v\<close> from 10 to 13, counts as a complete frame of \<open>v\<close> bytes, and decoding the copy that is
  made of these leaves its block.
\<close>

theorem ws_len_wrap:
  assumes "10 \<le> v" "v < 14" "0x80 AND byte_of c \<noteq> 0" "11 \<le> cnt"
  shows "agoo_ws_calc_len cnt (c # ws_len_bytes 0x80 (2 ^ 64 - 14 + v) @ r) cnt = Val (int v) \<and>
    agoo_ws_decode (take v (c # ws_len_bytes 0x80 (2 ^ 64 - 14 + v) @ r) @ [NUL]) = UB"
proof
  let ?n = "2 ^ 64 - 14 + v"
  have n: "?n < 2 ^ 64" "2 ^ 16 \<le> ?n" using assms by simp_all
  have l: "length (ws_len_bytes 0x80 ?n) = 9" unfolding ws_len_bytes_length using n by simp
  have z: "(18446744073709551616 :: u64) = 0" by simp
  show "agoo_ws_calc_len cnt (c # ws_len_bytes 0x80 ?n @ r) cnt = Val (int v)"
    using ws_calc_len_bytes [of "0x80" ?n c cnt r] assms n(1) sint_of_nat_small [of v] z unfolding l by simp
  let ?t = "take (v - 10) r @ [NUL]"
  have t: "take v (c # ws_len_bytes 0x80 ?n @ r) @ [NUL] = c # ws_len_bytes 0x80 ?n @ ?t"
    using assms(1) l by (cases v) (simp_all del: of_nat_add)
  have u: "unat (of_nat ?n :: u64) = ?n" by (rule unat_small) (use n in simp)
  have f: "ws_len_field (c # ws_len_bytes 0x80 ?n @ ?t) = Val (True, of_nat ?n, 1 + 9)"
    using ws_len_field_frame [of "0x80" ?n c ?t] n(1) unfolding l by simp
  have "length (c # ws_len_bytes 0x80 ?n @ ?t) < 1 + 9 + 4 + ?n" using l assms by simp
  then show "agoo_ws_decode (take v (c # ws_len_bytes 0x80 ?n @ r) @ [NUL]) = UB"
    unfolding t agoo_ws_decode_def f by (simp only: mem_bind_simps case_prod_conv Let_def u if_True simp_thms)
qed

lemma ws_len_wrap_witness:
  "agoo_ws_calc_len 14 (chr_of 0x82 # ws_len_bytes 0x80 (2 ^ 64 - 14 + 12) @ ''abcd'') 14 = Val (int 12) \<and>
    agoo_ws_decode (take 12 (chr_of 0x82 # ws_len_bytes 0x80 (2 ^ 64 - 14 + 12) @ ''abcd'') @ [NUL]) = UB"
  by (rule ws_len_wrap) simp_all

section \<open>The upgrade headers\<close>

lemma header_value_len: "agoo_con_header_value h n k = Some (v, l) \<Longrightarrow> l = value_len v"
proof (induction h n k rule: agoo_con_header_value.induct)
  case (1 h hlen key)
  show ?case
  proof (cases "hlen = 0 \<or> strncasecmp_eq key h (length key) \<and> cat h (length key) = CHR '':''")
    case True
    with 1(2) show ?thesis by (subst (asm) agoo_con_header_value.simps) (auto simp: Let_def split: if_splits)
  next
    case False
    then have "agoo_con_header_value (drop (next_line h hlen) h) (hlen - next_line h hlen) key = Some (v, l)"
      using 1(2) by (subst (asm) agoo_con_header_value.simps) (auto simp: Let_def)
    with 1(1) False show ?thesis by auto
  qed
qed

text \<open>What the two optional parts of the upgrade headers add.\<close>

definition accept_part :: "'h agoo_req \<Rightarrow> string" where
  "accept_part r = (case agoo_req_header_value r ''Sec-WebSocket-Key'' of
     None \<Rightarrow> []
   | Some (key, klen) \<Rightarrow> if klen < 987 then ws_accept @ ws_accept_value key klen @ CRLF else [])"

definition protocol_part :: "'h agoo_req \<Rightarrow> string" where
  "protocol_part r = (case agoo_req_header_value r ''Sec-WebSocket-Protocol'' of
     None \<Rightarrow> []
   | Some (v, vlen) \<Rightarrow> ws_protocol @ (if vlen = 0 then cstr v else take vlen v) @ CRLF)"

definition sink_result :: "string \<Rightarrow> agoo_text option mem \<Rightarrow> bool" where
  "sink_result s r \<longleftrightarrow> r = Val None \<or> (\<exists>t'. r = Val (Some t') \<and> text_ok t' \<and> content t' = s)"

lemma sink_result_bind:
  assumes "sink_result s r" "f None = Val None"
    "\<And>t. text_ok t \<Longrightarrow> content t = s \<Longrightarrow> sink_result s' (f (Some t))"
  shows "sink_result s' (mem_bind r f)"
proof -
  from assms(1) consider "r = Val None" | t where "r = Val (Some t)" "text_ok t" "content t = s"
    unfolding sink_result_def by blast
  then show ?thesis by cases (use assms(2,3) in \<open>simp_all add: sink_result_def\<close>)
qed

lemma sink_result_put: "malloc_ok mal \<Longrightarrow> text_ok t \<Longrightarrow> s \<noteq> [] \<Longrightarrow> sink_result (content t @ s) (text_put mal (Some t) s)"
  using sink.put_Some [of mal t s] by (auto simp: sink_result_def)

lemma sink_result_puts:
  "malloc_ok mal \<Longrightarrow> text_ok t \<Longrightarrow> [] \<notin> set ss \<Longrightarrow>
   sink_result (content t @ concat ss) (sink_all (text_put mal) (Some t) ss)"
  using sink.sink_all_ok [of mal t ss] by (auto simp: sink_result_def)

lemma ws_accept_value_nonempty: "ws_accept_value k n \<noteq> []"
  by (simp add: ws_accept_value_def sha1_def digest_of_def word_bytes_def Let_def split: prod.split)

lemma accept_step:
  assumes "malloc_ok mal" "text_ok t"
  shows "sink_result (content t @ accept_part r)
    (case agoo_req_header_value r ''Sec-WebSocket-Key'' of
       None \<Rightarrow> Val (Some t)
     | Some (key, klen) \<Rightarrow>
         if klen + length ws_magic + 1 < WS_MAX_KEY_LEN then
           mem_bind (text_put mal (Some t) ws_accept) (\<lambda>t.
           mem_bind (text_put mal t (ws_accept_value key klen)) (\<lambda>t. text_put mal t CRLF))
         else Val (Some t))"
proof (cases "agoo_req_header_value r ''Sec-WebSocket-Key''")
  case None
  then show ?thesis using assms(2) by (simp add: accept_part_def sink_result_def)
next
  case (Some p)
  obtain key klen where p: "p = (key, klen)" by fastforce
  have m: "klen + length ws_magic + 1 < WS_MAX_KEY_LEN \<longleftrightarrow> klen < 987" by (simp add: ws_magic_def WS_MAX_KEY_LEN_def)
  have "sink_result (content t @ concat [ws_accept, ws_accept_value key klen, CRLF])
      (sink_all (text_put mal) (Some t) [ws_accept, ws_accept_value key klen, CRLF])"
    by (rule sink_result_puts [OF assms]) (use ws_accept_value_nonempty [of key klen] in \<open>simp add: ws_accept_def CRLF_def\<close>)
  then show ?thesis using assms(2) Some p m by (simp add: accept_part_def sink_result_def)
qed

lemma text_append_None [simp]: "agoo_text_append mal None s n = Val None" "text_put mal None s = Val None"
  by (simp_all add: agoo_text_append_def text_put_def)

text \<open>
  The upgrade answer is the two fixed lines, the accept line with the base64 of the digest
  of the key and the magic string (for keys of less than 987 bytes), and the line of the
  requested protocol. Where the request names the protocol with an empty value, the line holds
  the rest of the request up to a NUL instead.
\<close>

theorem ws_add_headers_ok:
  assumes "malloc_ok mal" "text_ok t"
  shows "sink_result (content t @ up_con @ accept_part r @ protocol_part r) (agoo_ws_add_headers mal r (Some t))"
  unfolding agoo_ws_add_headers_def
proof (rule sink_result_bind [where s = "content t @ up_con"], goal_cases)
  case 1
  then show ?case by (rule sink_result_put [OF assms]) (simp add: up_con_def)
next
  case 2
  then show ?case by (simp split: option.split prod.split)
next
  case (3 t1)
  show ?case
  proof (rule sink_result_bind [where s = "(content t @ up_con) @ accept_part r"], goal_cases)
    case 1
    then show ?case using accept_step [OF assms(1) 3(1), of r] 3(2) by simp
  next
    case 2
    then show ?case by (simp split: option.split prod.split)
  next
    case (3 t2)
    show ?case
    proof (cases "agoo_req_header_value r ''Sec-WebSocket-Protocol''")
      case None
      with 3 show ?thesis by (simp add: protocol_part_def sink_result_def)
    next
      case (Some p)
      obtain v l where p: "p = (v, l)" by fastforce
      have "l = value_len v" using Some p unfolding agoo_req_header_value_def by (blast intro: header_value_len)
      then have l: "l \<le> length v" by (simp add: value_len_def length_takeWhile_le)
      have tk: "take (arg_len v (int l)) v = (if l = 0 then cstr v else take l v)" "arg_len v (int l) \<le> length v"
        using l by (simp_all add: arg_len_def take_strlen strlen_le)
      have "sink_result (content t2 @ ws_protocol @ (if l = 0 then cstr v else take l v) @ CRLF)
        (mem_bind (text_put mal (Some t2) ws_protocol) (\<lambda>t. mem_bind (agoo_text_append mal t v (int l)) (\<lambda>t. text_put mal t CRLF)))"
      proof (rule sink_result_bind [where s = "content t2 @ ws_protocol"], goal_cases)
        case 1
        then show ?case by (rule sink_result_put [OF assms(1) 3(1)]) (simp add: ws_protocol_def)
      next
        case (3 t3)
        show ?case
        proof (rule sink_result_bind [where s = "(content t2 @ ws_protocol) @ (if l = 0 then cstr v else take l v)"], goal_cases)
          case 1
          then show ?case using text_append_ok_len [OF assms(1) 3(1) tk(2)] tk(1) 3(2)
            by (auto simp: appended_def sink_result_def split: if_splits)
        next
          case (3 t4)
          then show ?case using sink_result_put [OF assms(1) 3(1), of CRLF] by (simp add: CRLF_def)
        qed simp
      qed simp
      with 3 Some p show ?thesis by (simp add: protocol_part_def)
    qed
  qed
qed

definition echo_req :: "unit agoo_req" where
  "echo_req = (agoo_req_create 0)\<lparr>rheader := \<lparr>sstart = 0, slen = 37\<rparr>,
     rmsg := ws_protocol @ CRLF @ ''Cookie: x'' @ CRLF @ [NUL]\<rparr>"

lemma ws_add_headers_ok_witness:
  "sink_result (content abc_text @ up_con @ accept_part echo_req @ protocol_part echo_req)
     (agoo_ws_add_headers mal0 echo_req (Some abc_text)) \<and>
   protocol_part echo_req = ws_protocol @ (CRLF @ ''Cookie: x'' @ CRLF) @ CRLF"
proof
  show "sink_result (content abc_text @ up_con @ accept_part echo_req @ protocol_part echo_req)
     (agoo_ws_add_headers mal0 echo_req (Some abc_text))"
    by (rule ws_add_headers_ok) (simp_all add: mal0_ok abc_text_ok)
  show "protocol_part echo_req = ws_protocol @ (CRLF @ ''Cookie: x'' @ CRLF) @ CRLF" by code_simp
qed

end
