(* ===== verification/Domain.thy ===== *)
theory Domain
  imports Prelude
begin

text \<open>
  The root directories by host of \<open>ext/agoo/domain.c\<close>. Regular expressions are the C library's:
  \<open>regcomp\<close> and \<open>regexec\<close> are arguments. \<open>regexec\<close> gives the offsets of the whole match and of
  the groups, -1 for a group that took no part; \<open>MAX_MATCH\<close> entries are written.
\<close>

section \<open>Domains\<close>

definition MAX_MATCH :: nat where
  "MAX_MATCH = 8"

record agoo_domain =
  dhost :: "string option"
  dpath :: string
  drhost :: string

datatype domain_error = DOMAIN_ERR_MEMORY | DOMAIN_ERR_REGEX

definition agoo_domain_use :: "agoo_domain list \<Rightarrow> bool" where
  "agoo_domain_use domains \<longleftrightarrow> domains \<noteq> []"

text \<open>The argument \<open>ok\<close> tells whether the three allocations succeed.\<close>

definition agoo_domain_add :: "bool \<Rightarrow> agoo_domain list \<Rightarrow> string \<Rightarrow> string \<Rightarrow> domain_error + agoo_domain list" where
  "agoo_domain_add ok domains host path =
    (if \<not> ok then Inl DOMAIN_ERR_MEMORY
     else Inr (domains @ [\<lparr>dhost = Some (cstr host), dpath = cstr path, drhost = []\<rparr>]))"

definition agoo_domain_add_regex ::
  "bool \<Rightarrow> (string \<Rightarrow> bool) \<Rightarrow> agoo_domain list \<Rightarrow> string \<Rightarrow> string \<Rightarrow> domain_error + agoo_domain list" where
  "agoo_domain_add_regex ok regcomp domains host path =
    (if \<not> ok then Inl DOMAIN_ERR_MEMORY
     else if \<not> regcomp (cstr host) then Inl DOMAIN_ERR_REGEX
     else Inr (domains @ [\<lparr>dhost = None, dpath = cstr path, drhost = cstr host\<rparr>]))"

type_synonym regexec = "string \<Rightarrow> string \<Rightarrow> (int \<times> int) list option"

text \<open>
  The loop over the path of a domain: \<open>p\<close> is what is left of the path, \<open>out\<close> what is written
  to the buffer of \<open>blen\<close> bytes. A write behind the buffer, a read behind the NUL of the path
  and a negative index into the matches are \<open>UB\<close>.
\<close>

function domain_subst :: "(int \<times> int) list \<Rightarrow> string \<Rightarrow> nat \<Rightarrow> string \<Rightarrow> string \<Rightarrow> string mem" where
  "domain_subst matches host blen p out =
    (case p of
       [] \<Rightarrow> if length out < blen then Val out else UB
     | c # q \<Rightarrow>
         if c = CHR ''$'' \<and> cat q 0 = CHR ''('' then
           let p2 = drop 1 q; (i, n) = c_strtol p2; e = drop n p2
           in if cat e 0 \<noteq> CHR '')'' \<or> int MAX_MATCH \<le> i then
                (if p2 = [] then UB else domain_subst matches host blen (drop 1 p2) out)
              else if i < 0 then UB
              else
                let (so, eo) = matches ! nat i; start = so; len = eo - start
                in if start < 0 \<or> int blen - 1 - int (length out) \<le> len then
                     domain_subst matches host blen (drop 1 e) out
                   else domain_subst matches host blen (drop 1 e)
                     (out @ take (nat len) (drop (nat start) host))
         else if length out < blen then domain_subst matches host blen q (out @ [c])
         else UB)"
  by pat_completeness auto
termination by (relation "measure (\<lambda>(m, h, b, p, out). length p)") auto

declare domain_subst.simps [simp del]

fun agoo_domain_resolve :: "regexec \<Rightarrow> agoo_domain list \<Rightarrow> string \<Rightarrow> nat \<Rightarrow> string option mem" where
  "agoo_domain_resolve rx [] host blen = Val None"
| "agoo_domain_resolve rx (d # ds) host blen =
    (case dhost d of
       Some h \<Rightarrow> if host = h then Val (Some (dpath d)) else agoo_domain_resolve rx ds host blen
     | None \<Rightarrow>
         (case rx (drhost d) host of
            None \<Rightarrow> agoo_domain_resolve rx ds host blen
          | Some matches \<Rightarrow> mem_bind (domain_subst matches host blen (dpath d) []) (\<lambda>s. Val (Some s))))"

section \<open>Templates\<close>

text \<open>A path as its pieces: a character, or the reference to a group.\<close>

datatype piece = Lit char | Grp nat

fun piece_str :: "piece \<Rightarrow> string" where
  "piece_str (Lit c) = [c]"
| "piece_str (Grp i) = ''$('' @ dec_str i @ '')''"

definition piece_ok :: "piece \<Rightarrow> bool" where
  "piece_ok p \<longleftrightarrow> (case p of Lit c \<Rightarrow> c \<noteq> CHR ''$'' \<and> c \<noteq> NUL | Grp i \<Rightarrow> i < MAX_MATCH)"

definition group_text :: "(int \<times> int) list \<Rightarrow> string \<Rightarrow> nat \<Rightarrow> string" where
  "group_text ms host i =
    (case ms ! i of (so, eo) \<Rightarrow> if so < 0 then [] else take (nat (eo - so)) (drop (nat so) host))"

fun piece_val :: "(int \<times> int) list \<Rightarrow> string \<Rightarrow> piece \<Rightarrow> string" where
  "piece_val ms host (Lit c) = [c]"
| "piece_val ms host (Grp i) = group_text ms host i"

text \<open>What \<open>regexec\<close> promises of its matches: inside the string, or -1.\<close>

definition matches_ok :: "string \<Rightarrow> (int \<times> int) list \<Rightarrow> bool" where
  "matches_ok host ms \<longleftrightarrow> length ms = MAX_MATCH \<and>
     list_all (\<lambda>(so, eo). so < 0 \<or> so \<le> eo \<and> eo \<le> int (length host)) ms"

lemma strtol_group: "i < MAX_MATCH \<Longrightarrow> c_strtol (dec_str i @ '')'' @ r) = (int i, length (dec_str i))"
  using scan_dec [of "'')'' @ r" i] by (simp add: c_strtol_def MAX_MATCH_def is_digit_def)

lemma domain_subst_pieces:
  assumes "matches_ok host ms" "list_all piece_ok ps" "length out + length (concat (map (piece_val ms host) ps)) + 1 < blen"
  shows "domain_subst ms host blen (concat (map piece_str ps)) out = Val (out @ concat (map (piece_val ms host) ps))"
  using assms(2,3)
proof (induction ps arbitrary: out)
  case Nil
  then show ?case by (simp add: domain_subst.simps)
next
  case (Cons p ps)
  let ?r = "concat (map piece_str ps)"
  show ?case
  proof (cases p)
    case (Lit c)
    then have "domain_subst ms host blen (concat (map piece_str (p # ps))) out = domain_subst ms host blen ?r (out @ [c])"
      using Cons.prems by (subst domain_subst.simps) (simp add: piece_ok_def)
    then show ?thesis using Cons.IH [of "out @ [c]"] Cons.prems Lit by simp
  next
    case (Grp i)
    then have i: "i < MAX_MATCH" using Cons.prems(1) by (simp add: piece_ok_def)
    obtain so eo where m: "ms ! i = (so, eo)" by fastforce
    have mo: "so < 0 \<or> so \<le> eo \<and> eo \<le> int (length host)"
      using assms(1) i m unfolding matches_ok_def list_all_length by fastforce
    have s: "concat (map piece_str (p # ps)) = CHR ''$'' # CHR ''('' # dec_str i @ '')'' @ ?r" using Grp by simp
    have t: "c_strtol (dec_str i @ '')'' @ ?r) = (int i, length (dec_str i))" by (rule strtol_group [OF i])
    have i8: "\<not> int MAX_MATCH \<le> int i" using i by simp
    have step: "domain_subst ms host blen (concat (map piece_str (p # ps))) out =
        (if so < 0 \<or> int blen - 1 - int (length out) \<le> eo - so then domain_subst ms host blen ?r out
         else domain_subst ms host blen ?r (out @ take (nat (eo - so)) (drop (nat so) host)))"
      unfolding s by (subst domain_subst.simps) (use t i8 m in \<open>simp add: Let_def\<close>)
    have g: "group_text ms host i = (if so < 0 then [] else take (nat (eo - so)) (drop (nat so) host))"
      by (simp add: group_text_def m)
    show ?thesis
    proof (cases "so < 0")
      case True
      then show ?thesis using step g Cons.IH [of out] Cons.prems Grp by simp
    next
      case False
      then have "length (group_text ms host i) = nat (eo - so)" using g mo by auto
      then have "\<not> int blen - 1 - int (length out) \<le> eo - so" using Cons.prems(2) Grp False mo by auto
      then show ?thesis using step g False Cons.IH [of "out @ group_text ms host i"] Cons.prems Grp by simp
    qed
  qed
qed


text \<open>A matcher that takes any host and gives its first three bytes as group 1.\<close>

definition rx3 :: regexec where
  "rx3 pat host = (if 3 \<le> length host then Some ((0, int (length host)) # (0, 3) # replicate 6 (- 1, - 1)) else None)"


text \<open>A negative reference indexes the matches at -1, and a path that ends in an open reference is read past its end.\<close>

lemma domain_subst_unsafe:
  assumes "0 < blen"
  shows "domain_subst ms host blen ''$(-1)'' [] = UB" "domain_subst ms host blen ''$('' [] = UB"
proof -
  have "c_strtol ''-1)'' = (- 1, 2)" by code_simp
  then show "domain_subst ms host blen ''$(-1)'' [] = UB" by (simp add: domain_subst.simps [of _ _ _ "_ # _"] MAX_MATCH_def)
  have "c_strtol [] = (0, 0)" by code_simp
  then show "domain_subst ms host blen ''$('' [] = UB" by (simp add: domain_subst.simps [of _ _ _ "_ # _"] NUL_def)
qed

end
