(* ===== verification/Connection.thy ===== *)
theory Connection
  imports Page Http Domain Websocket
begin

text \<open>
  The state of the connection side of the server (\<open>con.h\<close>, \<open>res.h\<close>, \<open>upgraded.h\<close>, \<open>kinds.h\<close>),
  the responses of \<open>ext/agoo/res.c\<close> and the operations of \<open>ext/agoo/con.c\<close> and
  \<open>ext/agoo/websocket.c\<close> that make responses and requests. Texts, responses and upgraded
  connections are shared between threads and components, so they live in a store and are
  passed by their address; an access to a freed one is \<open>UB\<close>.
\<close>

section \<open>State\<close>

datatype con_kind = AGOO_CON_ANY | AGOO_CON_HTTP | AGOO_CON_HTTPS | AGOO_CON_WS | AGOO_CON_SSE

definition agoo_con_kind_str :: "con_kind \<Rightarrow> string" where
  "agoo_con_kind_str kind = (case kind of AGOO_CON_ANY \<Rightarrow> ''ANY'' | AGOO_CON_HTTP \<Rightarrow> ''HTTP''
     | AGOO_CON_HTTPS \<Rightarrow> ''HTTPS'' | AGOO_CON_WS \<Rightarrow> ''WS'' | AGOO_CON_SSE \<Rightarrow> ''SSE'')"

text \<open>A response: the chain of its messages (a text is in the chain of one response at most).\<close>

record agoo_res =
  rsmsgs :: "nat list"
  rsfinal :: bool
  rskind :: con_kind
  rsclose :: bool
  rsping :: bool
  rspong :: bool

text \<open>An upgraded connection; a context of \<open>None\<close> is the nil value of the embedding language.\<close>

record 'h agoo_upgraded =
  upcon :: "nat option"
  uppending :: int
  upref :: int
  upsubjects :: "string list"
  upctx :: "'h option"
  on_empty :: bool
  on_close :: bool
  on_shut :: bool
  on_msg :: bool
  on_error :: bool

record 'h agoo_con =
  cid :: nat
  cbuf :: string
  cbcnt :: nat
  cwcnt :: nat
  ctimeout :: int
  cclosing :: bool
  cdead :: bool
  csock :: bool
  ckind :: con_kind
  creq :: "'h agoo_req option"
  cres :: "nat list"
  cup :: "nat option"
  cgsub :: bool

definition MAX_HEADER_SIZE :: nat where
  "MAX_HEADER_SIZE = 8192"

text \<open>
  The shared state: the texts, responses and upgraded connections by address, the loop's cache of
  responses, the requests put on the evaluation queue and those handled at once by a function
  hook, and the page cache. \<open>wnext\<close> is the next fresh address.
\<close>

record 'h world =
  wnext :: nat
  wtexts :: "nat \<Rightarrow> agoo_text option"
  wress :: "nat \<Rightarrow> agoo_res option"
  wcache :: "nat list"
  wups :: "nat \<Rightarrow> 'h agoo_upgraded option"
  wuplist :: "nat list"
  weval :: "'h agoo_req list"
  wdirect :: "'h agoo_req list"
  wpages :: page_cache

text \<open>
  What the operations read and do not change: the allocator, whether a response at an address or
  a request of a length can be allocated, whether \<open>realloc\<close> moves the blocks it grows, whether an
  upgraded connection or a publication can be allocated, the limit of pending pushes, the file system, the regular expressions, the configuration of the server, the clock and the time out
  in milliseconds.
\<close>

record 'h con_env =
  ev_mal :: allocator
  ev_res :: "nat \<Rightarrow> bool"
  ev_req :: "nat \<Rightarrow> bool"
  ev_moves :: bool
  ev_up :: bool
  ev_pub :: bool
  ev_max_pending :: int
  ev_fs :: fs_env
  ev_rx :: regexec
  ev_domains :: "agoo_domain list"
  ev_hooks :: "'h agoo_hook list"
  ev_hook404 :: "'h agoo_hook option"
  ev_root_first :: bool
  ev_now :: int
  ev_timeout :: int

section \<open>Texts in the store\<close>

definition w_text :: "agoo_text option \<Rightarrow> 'h world \<Rightarrow> nat option \<times> 'h world" where
  "w_text t w = (case t of None \<Rightarrow> (None, w)
     | Some t \<Rightarrow> (Some (wnext w), w\<lparr>wnext := wnext w + 1, wtexts := (wtexts w)(wnext w \<mapsto> t)\<rparr>))"

definition w_get :: "nat \<Rightarrow> 'h world \<Rightarrow> agoo_text mem" where
  "w_get a w = (case wtexts w a of None \<Rightarrow> UB | Some t \<Rightarrow> Val t)"

definition w_ref :: "nat \<Rightarrow> 'h world \<Rightarrow> 'h world mem" where
  "w_ref a w = (case wtexts w a of None \<Rightarrow> UB
     | Some t \<Rightarrow> Val (w\<lparr>wtexts := (wtexts w)(a \<mapsto> agoo_text_ref t)\<rparr>))"

definition w_release :: "nat \<Rightarrow> 'h world \<Rightarrow> 'h world mem" where
  "w_release a w = (case wtexts w a of None \<Rightarrow> UB
     | Some t \<Rightarrow> Val (w\<lparr>wtexts := (wtexts w)(a := agoo_text_release t)\<rparr>))"

section \<open>Responses\<close>

definition res_new :: agoo_res where
  "res_new = \<lparr>rsmsgs = [], rsfinal = False, rskind = AGOO_CON_HTTP, rsclose = False, rsping = False, rspong = False\<rparr>"

text \<open>A response from the cache of the loop, or a new one; \<open>None\<close> when memory is refused.\<close>

definition agoo_res_create :: "'h con_env \<Rightarrow> 'h world \<Rightarrow> nat option \<times> 'h world" where
  "agoo_res_create env w =
    (case wcache w of
       r # rs \<Rightarrow> (Some r, w\<lparr>wcache := rs, wress := (wress w)(r \<mapsto> res_new)\<rparr>)
     | [] \<Rightarrow>
         if ev_res env (wnext w)
         then (Some (wnext w), w\<lparr>wnext := wnext w + 1, wress := (wress w)(wnext w \<mapsto> res_new)\<rparr>)
         else (None, w))"

definition w_res :: "nat \<Rightarrow> 'h world \<Rightarrow> agoo_res mem" where
  "w_res r w = (case wress w r of None \<Rightarrow> UB | Some rs \<Rightarrow> Val rs)"

definition w_res_set :: "nat \<Rightarrow> agoo_res \<Rightarrow> 'h world \<Rightarrow> 'h world" where
  "w_res_set r rs w = w\<lparr>wress := (wress w)(r \<mapsto> rs)\<rparr>"

text \<open>Only the first message of the chain is released.\<close>

definition agoo_res_destroy :: "nat \<Rightarrow> 'h world \<Rightarrow> 'h world mem" where
  "agoo_res_destroy r w =
    mem_bind (w_res r w) (\<lambda>rs.
    mem_bind (case rsmsgs rs of [] \<Rightarrow> Val w | a # _ \<Rightarrow> w_release a w) (\<lambda>w.
      Val (w_res_set r (rs\<lparr>rsmsgs := []\<rparr>) w\<lparr>wcache := wcache w @ [r]\<rparr>)))"

text \<open>Appending to the chain; a text of \<open>None\<close> is NULL.\<close>

definition res_chain :: "agoo_res \<Rightarrow> nat option \<Rightarrow> bool \<Rightarrow> agoo_res" where
  "res_chain rs t final =
    (if rsfinal rs then rs
     else rs\<lparr>rsmsgs := rsmsgs rs @ (case t of None \<Rightarrow> [] | Some a \<Rightarrow> [a]), rsfinal := final\<rparr>)"

definition agoo_res_message_push :: "nat \<Rightarrow> nat option \<Rightarrow> 'h world \<Rightarrow> 'h world mem" where
  "agoo_res_message_push r t w =
    mem_bind (case t of None \<Rightarrow> Val w | Some a \<Rightarrow> w_ref a w) (\<lambda>w.
    mem_bind (w_res r w) (\<lambda>rs.
      Val (w_res_set r (res_chain rs t True) w)))"

definition early_103 :: string where
  "early_103 = ''HTTP/1.1 103 Early Hints'' @ CRLF"

fun early_links :: "allocator \<Rightarrow> string list \<Rightarrow> agoo_text option \<Rightarrow> agoo_text option mem" where
  "early_links mal [] t = Val t"
| "early_links mal (link # ls) t =
     mem_bind (agoo_text_append mal t ''Link: '' 6) (\<lambda>t.
     mem_bind (agoo_text_append mal t link (- 1)) (\<lambda>t.
     mem_bind (agoo_text_append mal t CRLF 2) (\<lambda>t. early_links mal ls t)))"

definition agoo_res_add_early :: "'h con_env \<Rightarrow> nat \<Rightarrow> string list \<Rightarrow> 'h world \<Rightarrow> 'h world mem" where
  "agoo_res_add_early env r early w =
    mem_bind (agoo_text_allocate (ev_mal env) 1024) (\<lambda>t.
    mem_bind (agoo_text_append (ev_mal env) t early_103 (int (length early_103))) (\<lambda>t.
    mem_bind (early_links (ev_mal env) early t) (\<lambda>t.
    mem_bind (agoo_text_append (ev_mal env) t CRLF 2) (\<lambda>t.
      let (a, w) = w_text t w
      in mem_bind (w_res r w) (\<lambda>rs. Val (w_res_set r (res_chain rs a False) w))))))"

definition agoo_res_message_peek :: "nat \<Rightarrow> 'h world \<Rightarrow> nat option mem" where
  "agoo_res_message_peek r w =
    mem_bind (w_res r w) (\<lambda>rs. Val (case rsmsgs rs of [] \<Rightarrow> None | a # _ \<Rightarrow> Some a))"

definition agoo_res_message_next :: "nat \<Rightarrow> 'h world \<Rightarrow> (nat option \<times> 'h world) mem" where
  "agoo_res_message_next r w =
    mem_bind (w_res r w) (\<lambda>rs.
      case rsmsgs rs of
        [] \<Rightarrow> Val (None, w)
      | a # as \<Rightarrow>
          mem_bind (w_release a w) (\<lambda>w.
            Val (case as of [] \<Rightarrow> None | b # _ \<Rightarrow> Some b, w_res_set r (rs\<lparr>rsmsgs := as\<rparr>) w)))"

section \<open>The responses of a connection\<close>

definition agoo_con_res_append :: "'h agoo_con \<Rightarrow> nat \<Rightarrow> 'h agoo_con" where
  "agoo_con_res_append c r = c\<lparr>cres := cres c @ [r]\<rparr>"

definition agoo_con_res_prepend :: "'h agoo_con \<Rightarrow> nat \<Rightarrow> 'h agoo_con" where
  "agoo_con_res_prepend c r = c\<lparr>cres := r # cres c\<rparr>"

definition agoo_con_res_pop :: "'h agoo_con \<Rightarrow> nat option \<times> 'h agoo_con" where
  "agoo_con_res_pop c = (case cres c of [] \<Rightarrow> (None, c) | r # rs \<Rightarrow> (Some r, c\<lparr>cres := rs\<rparr>))"

definition agoo_con_res_peek :: "'h agoo_con \<Rightarrow> nat option" where
  "agoo_con_res_peek c = (case cres c of [] \<Rightarrow> None | r # _ \<Rightarrow> Some r)"

text \<open>A connection as it is accepted.\<close>

definition agoo_con_create :: "'h con_env \<Rightarrow> nat \<Rightarrow> bool \<Rightarrow> con_kind \<Rightarrow> 'h agoo_con" where
  "agoo_con_create env i sock kind =
    \<lparr>cid = i, cbuf = replicate MAX_HEADER_SIZE NUL, cbcnt = 0, cwcnt = 0, ctimeout = ev_now env + ev_timeout env,
     cclosing = False, cdead = False, csock = sock, ckind = kind, creq = None, cres = [], cup = None, cgsub = False\<rparr>"

text \<open>The answer to a request that is not accepted.\<close>

definition bad_text :: "int \<Rightarrow> string" where
  "bad_text status = ''HTTP/1.1 '' @ int_str status @ '' '' @ http_code_message status @ CRLF @
     ''Connection: Close'' @ CRLF @ ''Content-Length: 0'' @ CRLF @ CRLF"

definition bad_request :: "'h con_env \<Rightarrow> 'h agoo_con \<Rightarrow> int \<Rightarrow> 'h world \<Rightarrow> ('h agoo_con \<times> 'h world) mem" where
  "bad_request env c status w =
    (case agoo_res_create env w of
       (None, w) \<Rightarrow> Val (c, w)
     | (Some r, w) \<Rightarrow>
         let full = bad_text status; buf = take 255 full @ [NUL]
         in mem_bind (agoo_text_create (ev_mal env) buf (length full)) (\<lambda>t.
            let (a, w) = w_text t w; c = agoo_con_res_append c r
            in mem_bind (w_res r w) (\<lambda>rs.
               mem_bind (agoo_res_message_push r a (w_res_set r (rs\<lparr>rsclose := True\<rparr>) w)) (\<lambda>w.
                 Val (c, w)))))"

section \<open>Requests made for upgraded connections\<close>

definition w_up :: "nat \<Rightarrow> 'h world \<Rightarrow> 'h agoo_upgraded mem" where
  "w_up u w = (case wups w u of None \<Rightarrow> UB | Some up \<Rightarrow> Val up)"

definition w_up_set :: "nat \<Rightarrow> 'h agoo_upgraded \<Rightarrow> 'h world \<Rightarrow> 'h world" where
  "w_up_set u up w = w\<lparr>wups := (wups w)(u \<mapsto> up)\<rparr>"

definition agoo_upgraded_ref :: "nat \<Rightarrow> 'h world \<Rightarrow> 'h world mem" where
  "agoo_upgraded_ref u w = mem_bind (w_up u w) (\<lambda>up. Val (w_up_set u (up\<lparr>upref := upref up + 1\<rparr>) w))"

definition eval_push :: "'h agoo_req \<Rightarrow> 'h world \<Rightarrow> 'h world" where
  "eval_push req w = w\<lparr>weval := weval w @ [req]\<rparr>"

definition push_req :: "nat \<Rightarrow> agoo_method \<Rightarrow> 'h \<Rightarrow> string \<Rightarrow> 'h agoo_req" where
  "push_req u method ctx msg =
    (agoo_req_create (length msg))\<lparr>rup := Some u, rmethod := method,
       rhook := Some (agoo_hook_create AGOO_NONE None ctx PUSH_HOOK), rmsg := msg @ [NUL]\<rparr>"

definition push_error :: "'h con_env \<Rightarrow> nat option \<Rightarrow> string \<Rightarrow> 'h world \<Rightarrow> 'h world mem" where
  "push_error env u msg w =
    (case u of
       None \<Rightarrow> Val w
     | Some u \<Rightarrow>
         mem_bind (w_up u w) (\<lambda>up.
           case upctx up of
             None \<Rightarrow> Val w
           | Some ctx \<Rightarrow>
               if \<not> on_error up \<or> \<not> ev_req env (length msg) then Val w
               else mem_bind (agoo_upgraded_ref u w) (\<lambda>w.
                 Val (eval_push (push_req u AGOO_ON_ERROR ctx msg) w))))"

text \<open>The close message: where memory is refused the result is used all the same.\<close>

definition agoo_ws_req_close :: "'h con_env \<Rightarrow> 'h agoo_con \<Rightarrow> 'h world \<Rightarrow> 'h world mem" where
  "agoo_ws_req_close env c w =
    (case cup c of
       None \<Rightarrow> Val w
     | Some u \<Rightarrow>
         mem_bind (w_up u w) (\<lambda>up.
           case upctx up of
             None \<Rightarrow> Val w
           | Some ctx \<Rightarrow>
               if \<not> on_close up then Val w
               else if \<not> ev_req env 0 then UB
               else mem_bind (agoo_upgraded_ref u w) (\<lambda>w.
                 Val (eval_push (push_req u AGOO_ON_CLOSE ctx []) w))))"

text \<open>The copy of the first \<open>mlen\<close> bytes of the buffer, filled up with NUL.\<close>

definition copy_msg :: "'h agoo_con \<Rightarrow> nat \<Rightarrow> string" where
  "copy_msg c mlen =
    (if cbcnt c \<le> mlen then take (cbcnt c) (cbuf c) @ replicate (mlen - cbcnt c) NUL else take mlen (cbuf c)) @ [NUL]"

text \<open>The result is true on an error, with the request left in the connection.\<close>

definition agoo_ws_create_req :: "'h con_env \<Rightarrow> 'h agoo_con \<Rightarrow> nat \<Rightarrow> 'h world \<Rightarrow> (bool \<times> 'h agoo_con) mem" where
  "agoo_ws_create_req env c mlen w =
    (if \<not> ev_req env mlen then Val (True, c\<lparr>creq := None\<rparr>)
     else
       let req = agoo_req_create mlen; c = c\<lparr>creq := Some req\<rparr>
       in case cup c of
            None \<Rightarrow> Val (True, c)
          | Some u \<Rightarrow>
              mem_bind (w_up u w) (\<lambda>up.
                case upctx up of
                  None \<Rightarrow> Val (True, c)
                | Some ctx \<Rightarrow>
                    let op = 0x0F AND byte_of (cat (cbuf c) 0);
                        req = req\<lparr>rmsg := copy_msg c mlen,
                          rmethod := (if op = AGOO_WS_OP_BIN then AGOO_ON_BIN else AGOO_ON_MSG),
                          rup := Some u,
                          rhook := (if on_msg up then Some (agoo_hook_create AGOO_NONE None ctx PUSH_HOOK) else None)\<rparr>
                    in Val (False, c\<lparr>creq := Some req\<rparr>)))"

definition ws_control :: "'h con_env \<Rightarrow> (agoo_res \<Rightarrow> agoo_res) \<Rightarrow> 'h agoo_con \<Rightarrow> 'h world \<Rightarrow> ('h agoo_con \<times> 'h world) mem" where
  "ws_control env f c w =
    (case agoo_res_create env w of
       (None, w) \<Rightarrow> Val (c, w)
     | (Some r, w) \<Rightarrow>
         mem_bind (w_res r w) (\<lambda>rs.
           Val (agoo_con_res_append c r, w_res_set r (f (rs\<lparr>rsclose := False, rskind := AGOO_CON_WS\<rparr>)) w)))"

definition agoo_ws_ping :: "'h con_env \<Rightarrow> 'h agoo_con \<Rightarrow> 'h world \<Rightarrow> ('h agoo_con \<times> 'h world) mem" where
  "agoo_ws_ping env c w = ws_control env (\<lambda>rs. rs\<lparr>rsping := True\<rparr>) c w"

definition agoo_ws_pong :: "'h con_env \<Rightarrow> 'h agoo_con \<Rightarrow> 'h world \<Rightarrow> ('h agoo_con \<times> 'h world) mem" where
  "agoo_ws_pong env c w = ws_control env (\<lambda>rs. rs\<lparr>rspong := True\<rparr>) c w"

section \<open>A server for concrete runs\<close>

text \<open>No files, no hooks, memory without end; a new connection and an empty store.\<close>

definition fs0 :: fs_env where
  "fs0 = \<lparr>e_open = (\<lambda>_. None), e_stat = (\<lambda>_. None), e_access = (\<lambda>_. False), e_now = 0, e_mem = True\<rparr>"

definition env0 :: "nat con_env" where
  "env0 = \<lparr>ev_mal = mal0, ev_res = (\<lambda>_. True), ev_req = (\<lambda>_. True), ev_moves = True, ev_up = True, ev_pub = True, ev_max_pending = 0, ev_fs = fs0, ev_rx = (\<lambda>_ _. None), ev_domains = [],
     ev_hooks = [], ev_hook404 = None, ev_root_first = False, ev_now = 0, ev_timeout = 30000\<rparr>"

definition world0 :: "nat world" where
  "world0 = \<lparr>wnext = 0, wtexts = (\<lambda>_. None), wress = (\<lambda>_. None), wcache = [], wups = (\<lambda>_. None), wuplist = [],
     weval = [], wdirect = [], wpages = empty_cache\<rparr>"

definition con0 :: "nat agoo_con" where
  "con0 = agoo_con_create env0 1 True AGOO_CON_HTTP"

end
