(* ===== verification/ConRead.thy ===== *)
theory ConRead
  imports Connection
begin

text \<open>
  The reading side of \<open>ext/agoo/con.c\<close>: parsing a request head from the receive buffer, finding
  what answers it, the loop of \<open>agoo_con_http_read\<close> over the requests in the buffer and that of
  \<open>con_ws_read\<close> over the frames. Offsets into the buffer stand for the pointers of the code.
\<close>

section \<open>Parsing the head of a request\<close>

datatype head_return = HEAD_AGAIN | HEAD_ERR | HEAD_OK | HEAD_HANDLED

text \<open>The method and whether a length is needed (True), allowed (False) or ignored.\<close>

definition upper_c :: "char \<Rightarrow> char" where
  "upper_c c = (if 97 \<le> (of_char c :: nat) \<and> (of_char c :: nat) \<le> 122 then char_of ((of_char c :: nat) - 32) else c)"

definition head_method :: "string \<Rightarrow> nat \<Rightarrow> (agoo_method \<times> bool option) option" where
  "head_method buf b =
    (let c = upper_c (cat buf 0); is = (\<lambda>name. b = length name \<and> strncmp_eq name buf (length name))
     in if c = CHR ''G'' then (if is ''GET'' then Some (AGOO_GET, None) else None)
        else if c = CHR ''P'' then
          (if is ''PUT'' then Some (AGOO_PUT, Some True)
           else if is ''POST'' then Some (AGOO_POST, Some True)
           else if is ''PATCH'' then Some (AGOO_PATCH, Some True) else None)
        else if c = CHR ''D'' then (if is ''DELETE'' then Some (AGOO_DELETE, Some False) else None)
        else if c = CHR ''H'' then (if is ''HEAD'' then Some (AGOO_HEAD, None) else None)
        else if c = CHR ''O'' then (if is ''OPTIONS'' then Some (AGOO_OPTIONS, None) else None)
        else if c = CHR ''C'' then (if is ''CONNECT'' then Some (AGOO_CONNECT, None) else None)
        else None)"

text \<open>The length of the body; \<open>Inl\<close> is the status of the refusal.\<close>

definition content_length :: "string \<Rightarrow> nat \<Rightarrow> bool option \<Rightarrow> int + u64" where
  "content_length buf hend need =
    (case need of
       None \<Rightarrow> Inr 0
     | Some req \<Rightarrow>
         (case agoo_con_header_value buf hend ''Content-Length'' of
            None \<Rightarrow> if req then Inl 411 else Inr 0
          | Some (v, vlen) \<Rightarrow> (case c_strtoul v of (n, k) \<Rightarrow> if k \<noteq> vlen then Inl 411 else Inr n)))"

text \<open>The place of the last question mark.\<close>

definition last_mark :: "string \<Rightarrow> nat option" where
  "last_mark s =
    (if CHR ''?'' \<in> set s then Some (length s - 1 - length (takeWhile (\<lambda>c. c \<noteq> CHR ''?'') (rev s))) else None)"

record head_parts =
  hp_method :: agoo_method
  hp_path :: nat
  hp_pathend :: nat
  hp_query :: nat
  hp_qend :: nat
  hp_hend :: nat
  hp_clen :: u64

text \<open>The offset of the first byte of the buffer from \<open>i\<close> on that is not, or is, in a set.\<close>

definition skip_from :: "(char \<Rightarrow> bool) \<Rightarrow> string \<Rightarrow> nat \<Rightarrow> nat" where
  "skip_from P buf i = i + length (takeWhile P (drop i buf))"

text \<open>
  The request line and the length. The path ends at the next space, wherever that is; the
  query begins behind its last question mark.
\<close>

definition head_parse :: "string \<Rightarrow> nat \<Rightarrow> int + head_parts" where
  "head_parse buf hend =
    (let b = skip_from (\<lambda>c. c \<noteq> CHR '' '' \<and> c \<noteq> NUL) buf 0
     in if cat buf b = NUL then Inl 400
        else case head_method buf b of
          None \<Rightarrow> Inl 400
        | Some (method, need) \<Rightarrow>
            (case content_length buf hend need of
               Inl status \<Rightarrow> Inl status
             | Inr clen \<Rightarrow>
                 let ps = skip_from (\<lambda>c. c = CHR '' '') buf b;
                     e = skip_from (\<lambda>c. c \<noteq> CHR '' '' \<and> c \<noteq> NUL) buf ps
                 in if cat buf e = NUL then Inl 400
                    else let (pe, q) = (case last_mark (take (e - ps) (drop ps buf)) of
                                          None \<Rightarrow> (e, e) | Some k \<Rightarrow> (ps + k, ps + k + 1))
                         in Inr \<lparr>hp_method = method, hp_path = ps, hp_pathend = pe, hp_query = q, hp_qend = e,
                                 hp_hend = hend, hp_clen = clen\<rparr>))"

text \<open>The protocol; the search for its end stops at no NUL and not at the end of the buffer.\<close>

definition head_proto :: "string \<Rightarrow> nat \<Rightarrow> (nat \<times> nat) mem" where
  "head_proto buf qend =
    (let p = skip_from (\<lambda>c. c = CHR '' '') buf qend; e = skip_from (\<lambda>c. c \<noteq> CHR 0x0D) buf p
     in if e < length buf then Val (p, e) else UB)"

section \<open>Answering with a page\<close>

text \<open>
  The text of a page is shared by all answers; the store gets a copy, as no answer writes to it.
\<close>

definition page_text :: "agoo_page \<Rightarrow> agoo_text option" where
  "page_text p = map_option (\<lambda>s. \<lparr>tlen = length s, talen = length s, tref = 1, tbin = False, tbuf = s @ [NUL]\<rparr>) (presp p)"

definition page_response :: "'h con_env \<Rightarrow> 'h agoo_con \<Rightarrow> agoo_page \<Rightarrow> nat \<Rightarrow> 'h world \<Rightarrow> (bool \<times> 'h agoo_con \<times> 'h world) mem" where
  "page_response env c p hend w =
    (case agoo_res_create env w of
       (None, w) \<Rightarrow> Val (True, c, w)
     | (Some r, w) \<Rightarrow>
         let c = agoo_con_res_append c r
         in case strstr (cstr (cbuf c)) CRLF of
              None \<Rightarrow> UB
            | Some b \<Rightarrow>
                mem_bind (w_res r w) (\<lambda>rs.
                  let cl = should_close (drop b (cbuf c)) (hend - b);
                      c = (if cl then c\<lparr>cclosing := True\<rparr> else c);
                      (a, w) = w_text (page_text p) (w_res_set r (rs\<lparr>rsclose := cl\<rparr>) w)
                  in mem_bind (agoo_res_message_push r a w) (\<lambda>w. Val (False, c, w))))"

section \<open>The head of a request\<close>

text \<open>The root of the host; \<open>Inl\<close> when the host is missing. The value is cut off at its end for the call.\<close>

definition head_root :: "'h con_env \<Rightarrow> string \<Rightarrow> nat \<Rightarrow> (int + string option) mem" where
  "head_root env buf hend =
    (if \<not> agoo_domain_use (ev_domains env) then Val (Inr None)
     else case agoo_con_header_value buf hend ''Host'' of
       None \<Rightarrow> Val (Inl 411)
     | Some (host, vlen) \<Rightarrow>
         mem_bind (agoo_domain_resolve (ev_rx env) (ev_domains env) (take vlen host) 20148) (\<lambda>root. Val (Inr root)))"

definition head_page :: "'h con_env \<Rightarrow> 'h agoo_con \<Rightarrow> agoo_page \<Rightarrow> nat \<Rightarrow> 'h world \<Rightarrow> (head_return \<times> 'h agoo_con \<times> 'h world) mem" where
  "head_page env c p hend w =
    mem_bind (page_response env c p hend w) (\<lambda>(failed, c, w).
      if failed then mem_bind (bad_request env c 500 w) (\<lambda>(c, w). Val (HEAD_ERR, c, w))
      else Val (HEAD_HANDLED, c, w))"

definition head_refuse :: "'h con_env \<Rightarrow> 'h agoo_con \<Rightarrow> int \<Rightarrow> 'h world \<Rightarrow> (head_return \<times> 'h agoo_con \<times> 'h world) mem" where
  "head_refuse env c status w = mem_bind (bad_request env c status w) (\<lambda>(c, w). Val (HEAD_ERR, c, w))"

text \<open>
  What answers a GET: \<open>Inl\<close> a page, \<open>Inr\<close> a hook; \<open>None\<close> nothing. The lookups may change the
  page cache.
\<close>

definition get_page :: "'h con_env \<Rightarrow> string \<Rightarrow> nat \<Rightarrow> string option \<Rightarrow> 'h world \<Rightarrow> (agoo_page option \<times> 'h world) mem" where
  "get_page env path plen root w =
    mem_bind (agoo_page_get (ev_fs env) (wpages w) path plen root) (\<lambda>(err, p, pc).
      Val (p, w\<lparr>wpages := pc\<rparr>))"

definition get_target :: "'h con_env \<Rightarrow> string \<Rightarrow> nat \<Rightarrow> string option \<Rightarrow> 'h world \<Rightarrow> ((agoo_page + 'h agoo_hook) option \<times> 'h world) mem" where
  "get_target env path plen root w =
    mem_bind (if ev_root_first env then get_page env path plen root w else Val (None, w)) (\<lambda>(p, w).
    case p of
      Some p \<Rightarrow> Val (Some (Inl p), w)
    | None \<Rightarrow>
        mem_bind (agoo_hook_find (ev_hooks env) AGOO_GET (take plen path)) (\<lambda>hook.
        case hook of
          Some h \<Rightarrow> Val (Some (Inr h), w)
        | None \<Rightarrow>
            mem_bind (get_page env path plen root w) (\<lambda>(p, w).
            Val (case p of Some p \<Rightarrow> Some (Inl p) | None \<Rightarrow> map_option Inr (ev_hook404 env), w))))"

text \<open>
  The request that is made of the head: the copy of what is read of the message, and the parts
  as offsets into it. Writing the NUL behind the query and the parts must stay in the copy.
\<close>

definition head_request :: "'h agoo_con \<Rightarrow> head_parts \<Rightarrow> nat \<times> nat \<Rightarrow> nat \<Rightarrow> 'h agoo_hook \<Rightarrow> 'h agoo_req mem" where
  "head_request c hp proto mlen hook =
    (case strstr (drop (hp_qend hp) (cstr (cbuf c))) CRLF of
       None \<Rightarrow> UB
     | Some k \<Rightarrow>
         let b = hp_qend hp + k; qlen = hp_qend hp - hp_query hp; hend = hp_hend hp
         in mem_bind (blk_write (copy_msg c mlen) (hp_query hp + qlen) [NUL]) (\<lambda>msg.
            Val ((agoo_req_create mlen)\<lparr>
              rmsg := msg, rmethod := hp_method hp,
              rpath := \<lparr>sstart = hp_path hp, slen = hp_pathend hp - hp_path hp\<rparr>,
              rquery := \<lparr>sstart = hp_query hp, slen = qlen\<rparr>,
              rprotocol := \<lparr>sstart = fst proto, slen = snd proto - fst proto\<rparr>,
              rbody := \<lparr>sstart = hend + 4, slen = unat (ucast (hp_clen hp) :: u32)\<rparr>,
              rheader := \<lparr>sstart = b + 2, slen = (if b < hend then hend - b - 2 else 0)\<rparr>,
              rhook := Some hook\<rparr>)))"

text \<open>
  A hook answers: the request is created, for a length that is signed from here on. A length
  that is negative as a signed number is refused by the allocator or copied out of bounds.
\<close>

definition head_hook :: "'h con_env \<Rightarrow> 'h agoo_con \<Rightarrow> head_parts \<Rightarrow> nat \<times> nat \<Rightarrow> u64 \<Rightarrow> 'h agoo_hook \<Rightarrow> 'h world
    \<Rightarrow> (head_return \<times> 'h agoo_con \<times> 'h world) mem" where
  "head_hook env c hp proto mlen hook w =
    (if \<not> ev_req env (unat mlen) then head_refuse env (c\<lparr>creq := None\<rparr>) 413 w
     else if sint mlen < 0 then UB
     else mem_bind (head_request c hp proto (unat mlen) hook) (\<lambda>req.
       Val (HEAD_OK, c\<lparr>creq := Some req\<rparr>, w)))"

text \<open>What answers a request with a complete head.\<close>

definition head_get :: "'h con_env \<Rightarrow> 'h agoo_con \<Rightarrow> head_parts \<Rightarrow> nat \<times> nat \<Rightarrow> u64 \<Rightarrow> 'h world
    \<Rightarrow> (head_return \<times> 'h agoo_con \<times> 'h world) mem" where
  "head_get env c hp proto mlen w =
    (let path = drop (hp_path hp) (cbuf c); plen = hp_pathend hp - hp_path hp; hend = hp_hend hp
     in mem_bind (agoo_group_get (ev_fs env) (wpages w) path plen) (\<lambda>(err, p, pc).
        let w = w\<lparr>wpages := pc\<rparr>
        in case p of
             Some p \<Rightarrow> head_page env c p hend w
           | None \<Rightarrow>
               mem_bind (head_root env (cbuf c) hend) (\<lambda>root.
               case root of
                 Inl status \<Rightarrow> head_refuse env c status w
               | Inr root \<Rightarrow>
                   mem_bind (get_target env path plen root w) (\<lambda>(t, w).
                   case t of
                     None \<Rightarrow> head_refuse env c 404 w
                   | Some (Inl p) \<Rightarrow> head_page env c p hend w
                   | Some (Inr hook) \<Rightarrow> head_hook env c hp proto mlen hook w))))"

definition head_other :: "'h con_env \<Rightarrow> 'h agoo_con \<Rightarrow> head_parts \<Rightarrow> nat \<times> nat \<Rightarrow> u64 \<Rightarrow> 'h world
    \<Rightarrow> (head_return \<times> 'h agoo_con \<times> 'h world) mem" where
  "head_other env c hp proto mlen w =
    mem_bind (agoo_hook_find (ev_hooks env) (hp_method hp) (take (hp_pathend hp - hp_path hp) (drop (hp_path hp) (cbuf c)))) (\<lambda>hook.
      case hook of
        None \<Rightarrow> head_refuse env c 404 w
      | Some hook \<Rightarrow> head_hook env c hp proto mlen hook w)"

text \<open>The result, and the length of the message where the head is complete.\<close>

definition con_header_read :: "'h con_env \<Rightarrow> 'h agoo_con \<Rightarrow> 'h world
    \<Rightarrow> (head_return \<times> u64 \<times> 'h agoo_con \<times> 'h world) mem" where
  "con_header_read env c w =
    (case strstr (cstr (cbuf c)) (CRLF @ CRLF) of
       None \<Rightarrow>
         if MAX_HEADER_SIZE - 1 \<le> cbcnt c
         then mem_bind (head_refuse env c 431 w) (\<lambda>(r, c, w). Val (r, 0, c, w))
         else Val (HEAD_AGAIN, 0, c, w)
     | Some hend \<Rightarrow>
         (case head_parse (cbuf c) hend of
            Inl status \<Rightarrow> mem_bind (head_refuse env c status w) (\<lambda>(r, c, w). Val (r, 0, c, w))
          | Inr hp \<Rightarrow>
              let mlen = of_nat (hend + 4) + hp_clen hp
              in mem_bind (head_proto (cbuf c) (hp_qend hp)) (\<lambda>proto.
                 mem_bind
                   (if hp_method hp = AGOO_GET then head_get env c hp proto mlen w
                    else head_other env c hp proto mlen w) (\<lambda>(r, c, w).
                 Val (r, mlen, c, w)))))"

section \<open>Upgrades\<close>

definition check_upgrade :: "'h agoo_con \<Rightarrow> 'h world \<Rightarrow> 'h world mem" where
  "check_upgrade c w =
    (case creq c of
       None \<Rightarrow> Val w
     | Some req \<Rightarrow>
         let set_kind = (\<lambda>k. if cres c = [] then UB
               else mem_bind (w_res (last (cres c)) w) (\<lambda>rs.
                 Val (w_res_set (last (cres c)) (rs\<lparr>rsclose := False, rskind := k\<rparr>) w)));
             ws = (case agoo_req_header_value req ''Connection'' of
                     None \<Rightarrow> False
                   | Some (v, _) \<Rightarrow> has_sub ''Upgrade'' (cstr v) \<and>
                       (case agoo_req_header_value req ''Upgrade'' of
                          None \<Rightarrow> False
                        | Some (v, vlen) \<Rightarrow> strncasecmp_eq ''WebSocket'' v vlen));
             sse = (case agoo_req_header_value req ''Accept'' of
                      None \<Rightarrow> False
                    | Some (v, vlen) \<Rightarrow> strncasecmp_eq ''text/event-stream'' v vlen)
         in if ws then set_kind AGOO_CON_WS else if sse then set_kind AGOO_CON_SSE else Val w)"

section \<open>Reading\<close>

text \<open>
  What the call that reads gives: bytes (at least one), the end of the stream, or an error; for
  TLS the flag tells an error without a code. The string is that of \<open>strerror\<close>.
\<close>

datatype recv_result = RECV string | RECV_ZERO | RECV_ERR bool string

text \<open>The room the code asks for, and the bytes put behind those already read.\<close>

definition recv_room :: "'h agoo_con \<Rightarrow> nat" where
  "recv_room c = (case creq c of Some req \<Rightarrow> rmlen req - cbcnt c | None \<Rightarrow> MAX_HEADER_SIZE - cbcnt c - 1)"

definition recv_put :: "'h agoo_con \<Rightarrow> string \<Rightarrow> 'h agoo_con mem" where
  "recv_put c data =
    (case creq c of
       Some req \<Rightarrow> mem_bind (blk_write (rmsg req) (cbcnt c) data) (\<lambda>m.
         Val (c\<lparr>creq := Some (req\<lparr>rmsg := m\<rparr>), cbcnt := cbcnt c + length data\<rparr>))
     | None \<Rightarrow> mem_bind (blk_write (cbuf c) (cbcnt c) data) (\<lambda>b.
         Val (c\<lparr>cbuf := b, cbcnt := cbcnt c + length data\<rparr>)))"

text \<open>Dropping the first \<open>m\<close> bytes of the buffer; what was read before stays behind the rest.\<close>

definition buf_shift :: "nat \<Rightarrow> 'h agoo_con \<Rightarrow> 'h agoo_con" where
  "buf_shift m c = c\<lparr>cbuf := take (cbcnt c - m) (drop m (cbuf c)) @ drop (cbcnt c - m) (cbuf c), cbcnt := cbcnt c - m\<rparr>"

definition buf_reset :: "'h agoo_con \<Rightarrow> 'h agoo_con" where
  "buf_reset c = c\<lparr>cbcnt := 0, cbuf := (cbuf c)[0 := NUL]\<rparr>"

text \<open>One round of a loop: \<open>Inl\<close> the loop is left with a result, \<open>Inr\<close> another round.\<close>

type_synonym 'h round = "(bool \<times> 'h agoo_con \<times> 'h world) + 'h agoo_con \<times> 'h world"

fun rounds :: "('s \<Rightarrow> ('r + 's) mem) \<Rightarrow> nat \<Rightarrow> 's \<Rightarrow> 'r mem option" where
  "rounds f 0 s = None"
| "rounds f (Suc n) s = (case f s of UB \<Rightarrow> Some UB | Val (Inl r) \<Rightarrow> Some (Val r) | Val (Inr s) \<Rightarrow> rounds f n s)"

text \<open>The request is complete: its response is made and it is handed over.\<close>

definition http_request :: "'h con_env \<Rightarrow> 'h agoo_con \<Rightarrow> 'h agoo_req \<Rightarrow> 'h world \<Rightarrow> 'h round mem" where
  "http_request env c req w =
    (case agoo_res_create env w of
       (None, w) \<Rightarrow> mem_bind (bad_request env (c\<lparr>creq := None\<rparr>) 500 w) (\<lambda>(c, w). Val (Inl (True, c, w)))
     | (Some r, w) \<Rightarrow>
         mem_bind (w_res r w) (\<lambda>rs.
         let cl = should_close (str_at req (rheader req)) (slen (rheader req));
             req = req\<lparr>rres := Some r\<rparr>;
             c = (agoo_con_res_append c r)\<lparr>cclosing := cclosing c \<or> cl, creq := Some req\<rparr>;
             mlen = rmlen req
         in mem_bind (check_upgrade c (w_res_set r (rs\<lparr>rsclose := cl\<rparr>) w)) (\<lambda>w.
            case rhook req of
              None \<Rightarrow> UB
            | Some h \<Rightarrow>
                let c = c\<lparr>creq := None\<rparr>;
                    w = (if no_queue h \<and> htype h = FUNC_HOOK then w\<lparr>wdirect := wdirect w @ [req]\<rparr> else eval_push req w)
                in Val (if mlen < cbcnt c then Inr (buf_shift mlen c, w) else Inl (False, buf_reset c, w)))))"

definition http_round :: "'h con_env \<Rightarrow> 'h agoo_con \<times> 'h world \<Rightarrow> 'h round mem" where
  "http_round env s =
    (case s of (c, w) \<Rightarrow>
     let go = (\<lambda>c w. case creq c of
                 None \<Rightarrow> Val (Inl (False, c, w))
               | Some req \<Rightarrow> if rmlen req \<le> cbcnt c then http_request env c req w else Val (Inl (False, c, w)))
     in case creq c of
          Some _ \<Rightarrow> go c w
        | None \<Rightarrow>
            mem_bind (con_header_read env c w) (\<lambda>(r, mlen, c, w).
              case r of
                HEAD_AGAIN \<Rightarrow> Val (Inl (False, c, w))
              | HEAD_OK \<Rightarrow> go c w
              | HEAD_HANDLED \<Rightarrow>
                  Val (if unat mlen < cbcnt c then Inr (buf_shift (unat mlen) c, w) else Inl (False, buf_reset c, w))
              | HEAD_ERR \<Rightarrow> Val (Inl (False, buf_reset c, w))))"

text \<open>True is the request to close the connection. The fuel is that of the loop.\<close>

definition agoo_con_http_read :: "'h con_env \<Rightarrow> nat \<Rightarrow> recv_result \<Rightarrow> 'h agoo_con \<Rightarrow> 'h world
    \<Rightarrow> (bool \<times> 'h agoo_con \<times> 'h world) mem option" where
  "agoo_con_http_read env n io c w =
    (if cdead c \<or> \<not> csock c \<or> cclosing c then Some (Val (True, c, w))
     else let c' = c\<lparr>ctimeout := ev_now env + ev_timeout env\<rparr>
     in case io of
          RECV_ERR ag m \<Rightarrow>
            if ckind c = AGOO_CON_HTTPS then (if ag then Some (Val (False, c, w)) else Some (Val (True, c\<lparr>cdead := True\<rparr>, w)))
            else Some (Val (True, c'\<lparr>cdead := True\<rparr>, w))
        | RECV_ZERO \<Rightarrow> Some (Val (True, c'\<lparr>cdead := True\<rparr>, w))
        | RECV data \<Rightarrow>
            (case recv_put c' data of UB \<Rightarrow> Some UB | Val c \<Rightarrow> rounds (http_round env) n (c, w)))"

section \<open>Reading frames\<close>

definition hex_lower :: "nat \<Rightarrow> string" where
  "hex_lower n = [hex_chars ! (n div 16 mod 16), hex_chars ! (n mod 16)]"

definition ws_op_msg :: "byte \<Rightarrow> nat \<Rightarrow> string" where
  "ws_op_msg op i = ''WebSocket op 0x'' @ hex_lower (unat op) @ '' not supported on '' @ dec_str i @ ''.''"

text \<open>
  The frame in the request is decoded and handed over in the round that makes the request,
  whether all of it is read or not.
\<close>

definition ws_request :: "'h con_env \<Rightarrow> 'h agoo_con \<Rightarrow> 'h agoo_req \<Rightarrow> 'h world \<Rightarrow> 'h round mem" where
  "ws_request env c req w =
    (let mlen = rmlen req
     in mem_bind (agoo_ws_decode (rmsg req)) (\<lambda>(m, plen).
        case cup c of
          None \<Rightarrow> UB
        | Some u \<Rightarrow>
            mem_bind (agoo_upgraded_ref u w) (\<lambda>w.
            let w = eval_push (req\<lparr>rmsg := m, rmlen := unat plen\<rparr>) w; c = c\<lparr>creq := None\<rparr>
            in Val (if mlen < cbcnt c then Inr (buf_shift mlen c, w) else Inl (False, buf_reset c, w)))))"

definition ws_round :: "'h con_env \<Rightarrow> 'h agoo_con \<times> 'h world \<Rightarrow> 'h round mem" where
  "ws_round env s =
    (case s of (c, w) \<Rightarrow>
     let go = (\<lambda>c w. case creq c of
                 None \<Rightarrow> Val (Inl (False, c, w))
               | Some req \<Rightarrow> ws_request env c req w)
     in case creq c of
          Some _ \<Rightarrow> go c w
        | None \<Rightarrow>
            if cbcnt c < 2 then Val (Inl (False, c, w))
            else mem_bind (agoo_ws_calc_len (cbcnt c) (cbuf c) (cbcnt c)) (\<lambda>mlen.
              if mlen \<le> 0 then Val (Inl (mlen < 0, c, w))
              else
                let op = 0x0F AND byte_of (cat (cbuf c) 0)
                in if op = AGOO_WS_OP_TEXT \<or> op = AGOO_WS_OP_BIN then
                     (if cgsub c then go c w
                      else mem_bind (agoo_ws_create_req env c (nat mlen) w) (\<lambda>(failed, c).
                        if failed then Val (Inl (True, c, w)) else go c w))
                   else if op = AGOO_WS_OP_CLOSE then Val (Inl (True, c, w))
                   else if op = AGOO_WS_OP_PING then
                     (if mlen = int (cbcnt c)
                      then mem_bind (agoo_ws_pong env c w) (\<lambda>(c, w). go (c\<lparr>cbcnt := 0\<rparr>) w)
                      else go c w)
                   else if op = AGOO_WS_OP_PONG then
                     (if mlen = int (cbcnt c) then go (c\<lparr>cbcnt := 0\<rparr>) w else go c w)
                   else mem_bind (push_error env (cup c) (ws_op_msg op (cid c)) w) (\<lambda>w.
                     Val (Inl (True, c, w)))))"

definition con_ws_read :: "'h con_env \<Rightarrow> nat \<Rightarrow> recv_result \<Rightarrow> 'h agoo_con \<Rightarrow> 'h world
    \<Rightarrow> (bool \<times> 'h agoo_con \<times> 'h world) mem option" where
  "con_ws_read env n io c w =
    (let c = c\<lparr>ctimeout := ev_now env + ev_timeout env\<rparr>
     in case io of
          RECV_ZERO \<Rightarrow> Some (Val (True, c, w))
        | RECV_ERR ag m \<Rightarrow>
            if 0 < cbcnt c then
              Some (mem_bind (push_error env (cup c) (''Failed to read WebSocket message. '' @ m @ ''.'') w) (\<lambda>w.
                Val (True, c, w)))
            else Some (Val (True, c, w))
        | RECV data \<Rightarrow>
            (case recv_put c data of UB \<Rightarrow> Some UB | Val c \<Rightarrow> rounds (ws_round env) n (c, w)))"

end
