(* ===== verification/ConInv.thy ===== *)
theory ConInv
  imports ConRead
begin

text \<open>
  What every read keeps: the receive buffer has its size and room for a NUL, the message being
  filled is as long as announced, and the loop over the buffer ends.
\<close>

section \<open>Frame conditions\<close>

lemma mem_bind_Val_iff: "mem_bind m f = Val y \<longleftrightarrow> (\<exists>x. m = Val x \<and> f x = Val y)"
  by (cases m) simp_all

text \<open>What the refusals and answers leave of a connection.\<close>

definition same_buf :: "'h agoo_con \<Rightarrow> 'h agoo_con \<Rightarrow> bool" where
  "same_buf c c' \<longleftrightarrow> cbuf c' = cbuf c \<and> cbcnt c' = cbcnt c \<and> cup c' = cup c \<and> cgsub c' = cgsub c \<and> cwcnt c' = cwcnt c"

lemma same_buf_refl [simp]: "same_buf c c"
  by (simp add: same_buf_def)

lemma bad_request_con:
  "bad_request env c st w = Val (c', w') \<Longrightarrow> same_buf c c' \<and> creq c' = creq c"
  by (auto simp: bad_request_def mem_bind_Val_iff Let_def agoo_con_res_append_def same_buf_def case_prod_beta
      split: option.splits)

lemma head_refuse_con:
  "head_refuse env c st w = Val (r, c', w') \<Longrightarrow> r = HEAD_ERR \<and> same_buf c c' \<and> creq c' = creq c"
  by (auto simp: head_refuse_def mem_bind_Val_iff dest: bad_request_con)

lemma page_response_con:
  "page_response env c p hend w = Val (b, c', w') \<Longrightarrow> same_buf c c' \<and> creq c' = creq c"
  by (auto simp: page_response_def mem_bind_Val_iff Let_def agoo_con_res_append_def same_buf_def case_prod_beta
      split: option.splits if_splits)

lemma same_buf_trans: "same_buf a b \<Longrightarrow> same_buf b c \<Longrightarrow> same_buf a c"
  by (simp add: same_buf_def)

lemma head_page_con:
  "head_page env c p hend w = Val (r, c', w') \<Longrightarrow> (r = HEAD_ERR \<or> r = HEAD_HANDLED) \<and> same_buf c c' \<and> creq c' = creq c"
  by (auto simp: head_page_def mem_bind_Val_iff split: if_splits
      dest!: page_response_con bad_request_con intro: same_buf_trans)

lemma copy_msg_length: "length (copy_msg c mlen) = mlen + 1" if "cbcnt c \<le> length (cbuf c)"
  using that by (simp add: copy_msg_def)

lemma head_request_ok:
  assumes "head_request c hp proto mlen h = Val req" "cbcnt c \<le> length (cbuf c)" "hp_query hp \<le> hp_qend hp"
  shows "rmlen req = mlen \<and> length (rmsg req) = mlen + 1 \<and> hp_qend hp \<le> mlen \<and> rhook req = Some h \<and> rres req = None"
  using assms copy_msg_length [OF assms(2), of mlen]
  by (auto simp: head_request_def mem_bind_Val_iff blk_write_def agoo_req_create_def Let_def split: option.splits if_splits)

lemma head_hook_con:
  assumes "head_hook env c hp proto mlen h w = Val (r, c', w')" "cbcnt c \<le> length (cbuf c)" "hp_query hp \<le> hp_qend hp" "0 < hp_qend hp"
  shows "same_buf c c' \<and> (r = HEAD_ERR \<and> creq c' = None \<or>
     r = HEAD_OK \<and> (\<exists>req. creq c' = Some req \<and> rmlen req = unat mlen \<and> length (rmsg req) = rmlen req + 1 \<and> 0 < rmlen req \<and> rhook req = Some h))"
proof (cases "ev_req env (unat mlen)")
  case True
  with assms(1) obtain req where "head_request c hp proto (unat mlen) h = Val req" "r = HEAD_OK" "c' = c\<lparr>creq := Some req\<rparr>"
    by (auto simp: head_hook_def mem_bind_Val_iff split: if_splits)
  with head_request_ok [OF this(1) assms(2,3)] assms(4) show ?thesis by (simp add: same_buf_def)
next
  case False
  with assms(1) have "head_refuse env (c\<lparr>creq := None\<rparr>) 413 w = Val (r, c', w')" by (simp add: head_hook_def)
  from head_refuse_con [OF this] show ?thesis by (simp add: same_buf_def)
qed

text \<open>The offsets of a parsed head are in order.\<close>

lemma head_parse_order:
  assumes "head_parse buf hend = Inr hp"
  shows "0 < hp_qend hp \<and> hp_query hp \<le> hp_qend hp \<and> hp_path hp \<le> hp_pathend hp \<and> hp_pathend hp \<le> hp_query hp \<and>
     hp_hend hp = hend \<and> (hp_method hp = AGOO_GET \<longrightarrow> hp_clen hp = 0)"
proof -
  define b where "b = skip_from (\<lambda>c. c \<noteq> CHR '' '' \<and> c \<noteq> NUL) buf 0"
  define ps where "ps = skip_from (\<lambda>c. c = CHR '' '') buf b"
  define e where "e = skip_from (\<lambda>c. c \<noteq> CHR '' '' \<and> c \<noteq> NUL) buf ps"
  have o: "b \<le> ps" "ps \<le> e" by (simp_all add: ps_def e_def skip_from_def)
  obtain m need clen where h: "head_method buf b = Some (m, need)" "content_length buf hend need = Inr clen"
    and hp: "hp = (let (pe, q) = (case last_mark (take (e - ps) (drop ps buf)) of None \<Rightarrow> (e, e) | Some k \<Rightarrow> (ps + k, ps + k + 1))
       in \<lparr>hp_method = m, hp_path = ps, hp_pathend = pe, hp_query = q, hp_qend = e, hp_hend = hend, hp_clen = clen\<rparr>)"
    using assms unfolding head_parse_def Let_def b_def [symmetric] ps_def [symmetric] e_def [symmetric]
    by (auto split: if_splits option.splits sum.splits prod.splits)
  have b: "0 < b" using h(1) by (auto simp: head_method_def Let_def split: if_splits)
  have g: "m = AGOO_GET \<Longrightarrow> clen = 0" using h by (auto simp: head_method_def content_length_def Let_def split: if_splits)
  have k: "ps + k + 1 \<le> e" if "last_mark (take (e - ps) (drop ps buf)) = Some k" for k
  proof -
    have "k < length (take (e - ps) (drop ps buf))"
      using that by (cases "take (e - ps) (drop ps buf)") (auto simp: last_mark_def split: if_splits)
    then have "k < e - ps" by simp
    then show ?thesis by linarith
  qed
  show ?thesis unfolding hp using o b g k by (auto split: option.splits)
qed

lemma strstr_less: "strstr s n = Some k \<Longrightarrow> n \<noteq> [] \<Longrightarrow> k < length s"
  by (induction s arbitrary: k) (auto split: if_splits)

lemma strlen_cstr_le: "length (cstr s) \<le> length s"
  by (simp add: cstr_def length_takeWhile_le)

section \<open>Reading the head\<close>

text \<open>The four outcomes: refused, answered with a page, made into a request, or not complete.\<close>

definition head_outcome :: "'h agoo_con \<Rightarrow> 'h agoo_con \<Rightarrow> head_return \<Rightarrow> u64 \<Rightarrow> bool" where
  "head_outcome c c' r mlen \<longleftrightarrow> same_buf c c' \<and>
     (case r of
        HEAD_OK \<Rightarrow> \<exists>req. creq c' = Some req \<and> rmlen req = unat mlen \<and> length (rmsg req) = rmlen req + 1 \<and> 0 < rmlen req \<and> rhook req \<noteq> None
      | HEAD_HANDLED \<Rightarrow> creq c' = None \<and> (\<exists>hend. hend < length (cbuf c) \<and> mlen = of_nat (hend + 4))
      | _ \<Rightarrow> creq c' = None)"

lemma head_outcome_err: "same_buf c c' \<Longrightarrow> creq c' = None \<Longrightarrow> head_outcome c c' HEAD_ERR mlen"
  by (simp add: head_outcome_def)

lemma con_header_read_con:
  assumes "con_header_read env c w = Val (r, mlen, c', w')" "cbcnt c \<le> length (cbuf c)" "creq c = None"
  shows "head_outcome c c' r mlen"
proof (cases "strstr (cstr (cbuf c)) (CRLF @ CRLF)")
  case None
  with assms(1,3) show ?thesis
    by (auto simp: con_header_read_def mem_bind_Val_iff head_outcome_def split: if_splits dest!: head_refuse_con)
next
  case (Some hend)
  then have hl: "hend < length (cbuf c)" using strstr_less [OF Some] strlen_cstr_le [of "cbuf c"] by (simp add: CRLF_def)
  show ?thesis
  proof (cases "head_parse (cbuf c) hend")
    case (Inl st)
    with Some assms(1,3) show ?thesis
      by (auto simp: con_header_read_def mem_bind_Val_iff head_outcome_def dest!: head_refuse_con)
  next
    case (Inr hp)
    note o = head_parse_order [OF Inr]
    let ?m = "of_nat (hend + 4) + hp_clen hp" and ?P = "\<lambda>m (r, c', w'). head_outcome c c' r m"
    have hook: "mem_post (head_hook env c hp proto ?m h w1) (?P ?m)" for proto h w1
      by (rule mem_postI) (use head_hook_con [OF _ assms(2)] o in \<open>fastforce simp: head_outcome_def\<close>)
    have refuse: "mem_post (head_refuse env c st w1) (?P m)" for st w1 m
      by (rule mem_postI) (use head_refuse_con assms(3) in \<open>fastforce simp: head_outcome_def\<close>)
    have page: "mem_post (head_page env c p hend w1) (?P ?m)" if "hp_method hp = AGOO_GET" for p w1
    proof (rule mem_postI)
      fix x assume x: "head_page env c p hend w1 = Val x"
      obtain r c' w' where "x = (r, c', w')" by (cases x)
      moreover have "?m = of_nat (hend + 4)" using that o by simp
      ultimately show "?P ?m x" using head_page_con x assms(3) hl by (fastforce simp: head_outcome_def)
    qed
    have hend: "hp_hend hp = hend" using o by simp
    have get: "mem_post (head_get env c hp proto ?m w1) (?P ?m)" if g: "hp_method hp = AGOO_GET" for proto w1
      unfolding head_get_def Let_def mem_post_simps(3) hend
      by (rule mem_postI) (auto simp del: of_nat_add simp: refuse split: option.split sum.split
          intro!: page [OF g] hook mem_postI [of "head_root env _ _"] mem_postI [of "get_target env _ _ _ _"])
    have other: "mem_post (head_other env c hp proto ?m w1) (?P ?m)" for proto w1
      unfolding head_other_def mem_post_simps(3)
      by (rule mem_postI) (auto simp del: of_nat_add split: option.split intro: refuse hook)
    have "mem_post (if hp_method hp = AGOO_GET then head_get env c hp proto ?m w else head_other env c hp proto ?m w) (?P ?m)" for proto
      using get other by simp
    note answer = this [unfolded case_prod_beta]
    have "mem_post (con_header_read env c w) (\<lambda>(r, mlen, c', w'). mlen = ?m \<and> head_outcome c c' r mlen)"
      unfolding con_header_read_def Some Inr option.case sum.case Let_def mem_post_simps(3) case_prod_beta
      by (rule mem_postI) (use answer in \<open>simp del: of_nat_add\<close>)
    from mem_post_D [OF this assms(1)] show ?thesis by (simp only: prod.case) (elim conjE, simp only:)
  qed
qed

section \<open>The loop over the requests in the buffer\<close>

text \<open>A connection between two reads.\<close>

definition con_ok :: "'h agoo_con \<Rightarrow> bool" where
  "con_ok c \<longleftrightarrow> length (cbuf c) = MAX_HEADER_SIZE \<and>
     (case creq c of
        None \<Rightarrow> cbcnt c < MAX_HEADER_SIZE
      | Some req \<Rightarrow> cbcnt c \<le> rmlen req \<and> length (rmsg req) = rmlen req + 1 \<and> rhook req \<noteq> None)"

lemma buf_reset_ok: "length (cbuf c) = MAX_HEADER_SIZE \<Longrightarrow> creq c = None \<Longrightarrow> con_ok (buf_reset c)"
  by (simp add: con_ok_def buf_reset_def MAX_HEADER_SIZE_def)

lemma buf_shift_ok:
  "length (cbuf c) = MAX_HEADER_SIZE \<Longrightarrow> creq c = None \<Longrightarrow> cbcnt c < MAX_HEADER_SIZE \<Longrightarrow> con_ok (buf_shift m c)"
  by (auto simp: con_ok_def buf_shift_def MAX_HEADER_SIZE_def)

lemma http_request_con:
  assumes "http_request env c req w = Val x" "length (cbuf c) = MAX_HEADER_SIZE" "rmlen req < cbcnt c \<Longrightarrow> cbcnt c < MAX_HEADER_SIZE"
    "cbcnt c < MAX_HEADER_SIZE \<or> rmlen req = cbcnt c"
  shows "case x of Inl (b, c', w') \<Rightarrow> b \<or> con_ok c'
    | Inr (c', w') \<Rightarrow> con_ok c' \<and> creq c' = None \<and> cbcnt c' = cbcnt c - rmlen req"
proof (cases "agoo_res_create env w")
  case (Pair ro w1)
  show ?thesis
  proof (cases ro)
    case None
    with assms(1) Pair show ?thesis by (auto simp: http_request_def mem_bind_Val_iff)
  next
    case (Some r)
    let ?c = "\<lambda>cl. (agoo_con_res_append c r)\<lparr>cclosing := cclosing c \<or> cl, creq := None\<rparr>"
    have ok: "con_ok (buf_reset (?c cl))" for cl
      by (rule buf_reset_ok) (simp_all add: agoo_con_res_append_def assms(2))
    have sh: "con_ok (buf_shift (rmlen req) (?c cl))" if "rmlen req < cbcnt c" for cl
      by (rule buf_shift_ok) (use assms(2,3) that in \<open>simp_all add: agoo_con_res_append_def\<close>)
    have q: "creq (buf_shift m (?c cl)) = None" "cbcnt (buf_shift m (?c cl)) = cbcnt c - m" for m cl
      by (simp_all add: buf_shift_def agoo_con_res_append_def)
    let ?post = "\<lambda>x. case x of Inl (b, c', w') \<Rightarrow> b \<or> con_ok c'
      | Inr (c', w') \<Rightarrow> con_ok c' \<and> creq c' = None \<and> cbcnt c' = cbcnt c - rmlen req"
    have "mem_post (http_request env c req w) ?post"
      unfolding http_request_def Pair Some prod.case option.case mem_post_simps(3) Let_def
    proof (rule mem_postI, rule mem_postI, goal_cases)
      case (1 rs w2)
      have e: "x\<lparr>creq := a, creq := b\<rparr> = x\<lparr>creq := b\<rparr>" for x :: "'a agoo_con" and a b by simp
      show ?case by (cases "rhook (req\<lparr>rres := Some r\<rparr>)") (simp_all add: e ok sh q agoo_con_res_append_def [THEN arg_cong [where f = cbcnt], simplified])
    qed
    from mem_post_D [OF this assms(1)] show ?thesis .
  qed
qed

text \<open>A bounded number of rounds, when each one that goes on makes a measure smaller.\<close>

lemma rounds_end:
  assumes "\<And>s s'. I s \<Longrightarrow> f s = Val (Inr s') \<Longrightarrow> I s' \<and> m s' < (m s :: nat)" "\<And>s r. I s \<Longrightarrow> f s = Val (Inl r) \<Longrightarrow> Q r"
    "I s" "m s < n"
  shows "\<exists>x. rounds f n s = Some x \<and> mem_post x Q"
  using assms(3,4)
proof (induction n arbitrary: s)
  case (Suc n)
  show ?case
  proof (cases "f s")
    case (Val x)
    then show ?thesis
    proof (cases x)
      case (Inl r)
      then show ?thesis using Val assms(2) [OF Suc.prems(1)] by simp
    next
      case (Inr s')
      then have "I s' \<and> m s' < m s" using Val assms(1) [OF Suc.prems(1)] by simp
      then show ?thesis using Suc.IH [of s'] Suc.prems(2) Val Inr by simp
    qed
  qed simp
qed simp

text \<open>In the loop the buffer may hold more than the request that is taken from it.\<close>

definition con_mid :: "'h agoo_con \<Rightarrow> bool" where
  "con_mid c \<longleftrightarrow> length (cbuf c) = MAX_HEADER_SIZE \<and>
     (case creq c of
        None \<Rightarrow> cbcnt c < MAX_HEADER_SIZE
      | Some req \<Rightarrow> (cbcnt c < MAX_HEADER_SIZE \<or> cbcnt c \<le> rmlen req) \<and> length (rmsg req) = rmlen req + 1 \<and> rhook req \<noteq> None)"

lemma con_ok_mid: "con_ok c \<Longrightarrow> con_mid c"
  by (auto simp: con_ok_def con_mid_def split: option.splits)

lemma head_small: "hend < MAX_HEADER_SIZE \<Longrightarrow> unat (of_nat (hend + 4) :: u64) = hend + 4"
  by (rule unat_small) (simp add: MAX_HEADER_SIZE_def)

definition read_post :: "bool \<times> 'h agoo_con \<times> 'h world \<Rightarrow> bool" where
  "read_post r \<longleftrightarrow> (case r of (b, c, w) \<Rightarrow> b \<or> con_ok c)"

lemma http_round_req:
  assumes "con_mid c" "creq c = Some req" "0 < rmlen req \<or> cbcnt c \<le> rmlen req"
    "(if rmlen req \<le> cbcnt c then http_request env c req w else Val (Inl (False, c, w))) = Val x"
  shows "case x of Inl r \<Rightarrow> read_post r | Inr (c', w') \<Rightarrow> con_ok c' \<and> creq c' = None \<and> cbcnt c' < cbcnt c"
proof (cases "rmlen req \<le> cbcnt c")
  case True
  then have h: "http_request env c req w = Val x" using assms(4) by simp
  have l: "length (cbuf c) = MAX_HEADER_SIZE" "cbcnt c < MAX_HEADER_SIZE \<or> cbcnt c \<le> rmlen req"
    using assms(1,2) by (auto simp: con_mid_def)
  have "case x of Inl (b, c', w') \<Rightarrow> b \<or> con_ok c'
      | Inr (c', w') \<Rightarrow> con_ok c' \<and> creq c' = None \<and> cbcnt c' = cbcnt c - rmlen req"
    by (rule http_request_con [OF h l(1)]) (use l(2) True in auto)
  moreover have "rmlen req < cbcnt c \<Longrightarrow> 0 < rmlen req" using assms(3) by simp
  moreover have "\<exists>s. x = Inr s \<Longrightarrow> rmlen req < cbcnt c"
    using h by (auto simp: http_request_def mem_bind_Val_iff Let_def agoo_con_res_append_def split: prod.splits option.splits if_splits)
  ultimately show ?thesis by (auto simp: read_post_def split: sum.splits)
next
  case False
  then show ?thesis using assms by (auto simp: read_post_def con_ok_def con_mid_def)
qed

lemma http_round_ok:
  assumes "con_ok c" "http_round env (c, w) = Val x"
  shows "case x of Inl r \<Rightarrow> read_post r | Inr (c', w') \<Rightarrow> con_ok c' \<and> cbcnt c' < cbcnt c"
proof (cases "creq c")
  case (Some req)
  with assms have "case x of Inl r \<Rightarrow> read_post r | Inr (c', w') \<Rightarrow> con_ok c' \<and> creq c' = None \<and> cbcnt c' < cbcnt c"
    by (intro http_round_req [of c req env w]) (auto simp: con_ok_mid http_round_def con_ok_def)
  then show ?thesis by (auto split: sum.splits)
next
  case None
  have l: "length (cbuf c) = MAX_HEADER_SIZE" "cbcnt c < MAX_HEADER_SIZE" "cbcnt c \<le> length (cbuf c)"
    using assms(1) None by (auto simp: con_ok_def)
  from assms(2) None obtain r mlen c1 w1 where h: "con_header_read env c w = Val (r, mlen, c1, w1)"
    by (auto simp: http_round_def mem_bind_Val_iff)
  have o: "head_outcome c c1 r mlen" by (rule con_header_read_con [OF h l(3) None])
  then have s: "length (cbuf c1) = MAX_HEADER_SIZE" "cbcnt c1 = cbcnt c" using l by (auto simp: head_outcome_def same_buf_def)
  have idle: "con_ok c1" if "creq c1 = None" using that s l by (simp add: con_ok_def)
  show ?thesis
  proof (cases r)
    case HEAD_AGAIN
    with o have "creq c1 = None" by (simp add: head_outcome_def)
    with HEAD_AGAIN assms(2) None h show ?thesis by (auto simp: http_round_def read_post_def idle)
  next
    case HEAD_ERR
    with o have "creq c1 = None" by (simp add: head_outcome_def)
    with HEAD_ERR assms(2) None h show ?thesis by (auto simp: http_round_def read_post_def buf_reset_ok s)
  next
    case HEAD_HANDLED
    with o obtain hend where "creq c1 = None" "hend < MAX_HEADER_SIZE" "mlen = of_nat (hend + 4)"
      using l by (auto simp: head_outcome_def)
    then have "creq c1 = None" "unat mlen = hend + 4" by (simp_all only: head_small)
    with HEAD_HANDLED assms(2) None h s l show ?thesis
      by (auto simp: http_round_def read_post_def buf_reset_ok buf_shift_ok split: if_splits) (simp_all add: buf_shift_def)
  next
    case HEAD_OK
    with o obtain req where q: "creq c1 = Some req" "length (rmsg req) = rmlen req + 1" "0 < rmlen req" "rhook req \<noteq> None"
      by (auto simp: head_outcome_def)
    then have m: "con_mid c1" using s l by (simp add: con_mid_def)
    have "(if rmlen req \<le> cbcnt c1 then http_request env c1 req w1 else Val (Inl (False, c1, w1))) = Val x"
      using HEAD_OK assms(2) None h q(1) by (simp add: http_round_def)
    from http_round_req [OF m q(1) _ this] q(3) s(2) show ?thesis by (auto split: sum.splits)
  qed
qed

lemma recv_put_ok:
  "con_ok c \<Longrightarrow> length data \<le> recv_room c \<Longrightarrow>
   \<exists>c'. recv_put c data = Val c' \<and> con_ok c' \<and> cbcnt c' = cbcnt c + length data \<and> (creq c = None \<longrightarrow> creq c' = None)"
  by (cases "creq c") (auto simp: con_ok_def recv_put_def recv_room_def blk_write_def)

lemma con_ok_time [simp]: "con_ok (c\<lparr>ctimeout := t\<rparr>) = con_ok c" "recv_room (c\<lparr>ctimeout := t\<rparr>) = recv_room c"
  by (simp_all add: con_ok_def recv_room_def split: option.split)

lemma read_post_eq: "read_post = (\<lambda>(close, c', w'). close \<or> con_ok c')"
  by (simp add: fun_eq_iff read_post_def)

definition recv_size :: "recv_result \<Rightarrow> nat" where
  "recv_size io = (case io of RECV d \<Rightarrow> length d | _ \<Rightarrow> 0)"


section \<open>The loop over the frames in the buffer\<close>

lemma agoo_upgraded_ref_post: "mem_post (agoo_upgraded_ref u w) (\<lambda>_. True)"
  by (rule mem_postI) simp

lemma ws_request_ok:
  assumes "length (cbuf c) = MAX_HEADER_SIZE" "cbcnt c < MAX_HEADER_SIZE" "0 < rmlen req" "ws_request env c req w = Val x"
  shows "case x of Inl r \<Rightarrow> read_post r \<and> creq (fst (snd r)) = None
     | Inr (c', w') \<Rightarrow> con_ok c' \<and> creq c' = None \<and> cbcnt c' < cbcnt c"
proof -
  let ?c = "c\<lparr>creq := None\<rparr>"
  have ok: "con_ok (buf_reset ?c)" "con_ok (buf_shift m ?c)" for m
    using assms(1,2) by (simp_all add: buf_reset_ok buf_shift_ok)
  have q: "creq (buf_reset ?c) = None" "creq (buf_shift m ?c) = None" "cbcnt (buf_shift m ?c) = cbcnt c - m" for m
    by (simp_all add: buf_reset_def buf_shift_def)
  have "mem_post (ws_request env c req w) (\<lambda>x. case x of Inl r \<Rightarrow> read_post r \<and> creq (fst (snd r)) = None
     | Inr (c', w') \<Rightarrow> con_ok c' \<and> creq c' = None \<and> cbcnt c' < cbcnt c)"
    unfolding ws_request_def Let_def mem_post_simps(3)
  proof (rule mem_postI, goal_cases)
    case (1 md)
    obtain m plen where "md = (m, plen)" by fastforce
    then show ?case
      by (cases "cup c") (auto simp: ok q read_post_def assms(3) intro!: mem_postI [of "agoo_upgraded_ref _ _"])
  qed
  from mem_post_D [OF this assms(4)] show ?thesis .
qed

lemma ws_create_req_con:
  assumes "agoo_ws_create_req env c mlen w = Val (failed, c')"
  shows "cbuf c' = cbuf c \<and> cbcnt c' = cbcnt c \<and> (\<not> failed \<longrightarrow> (\<exists>req. creq c' = Some req \<and> rmlen req = mlen))"
proof -
  have "mem_post (agoo_ws_create_req env c mlen w) (\<lambda>(failed, c'). cbuf c' = cbuf c \<and> cbcnt c' = cbcnt c \<and>
      (\<not> failed \<longrightarrow> (\<exists>req. creq c' = Some req \<and> rmlen req = mlen)))"
  proof (cases "ev_req env mlen")
    case True
    then show ?thesis
    proof (cases "cup c")
      case (Some u)
      have "mem_post (case upctx up of None \<Rightarrow> Val (True, c\<lparr>creq := Some (agoo_req_create mlen)\<rparr>)
          | Some ctx \<Rightarrow> Val (False, c\<lparr>creq := Some (f ctx (agoo_req_create mlen))\<rparr>)) (\<lambda>(failed, c'). cbuf c' = cbuf c \<and>
            cbcnt c' = cbcnt c \<and> (\<not> failed \<longrightarrow> (\<exists>req. creq c' = Some req \<and> rmlen req = mlen)))"
        if "\<And>ctx. rmlen (f ctx (agoo_req_create mlen)) = mlen" for up :: "'a agoo_upgraded" and f
        using that by (simp split: option.split)
      then show ?thesis using True Some
        by (cases "wups w u") (simp_all add: agoo_ws_create_req_def w_up_def agoo_req_create_def Let_def split: option.split)
    qed (simp add: agoo_ws_create_req_def)
  qed (simp add: agoo_ws_create_req_def)
  from mem_post_D [OF this assms] show ?thesis by simp
qed

lemma ws_pong_con: "agoo_ws_pong env c w = Val (c', w') \<Longrightarrow> cbuf c' = cbuf c \<and> cbcnt c' = cbcnt c \<and> creq c' = creq c"
  by (auto simp: agoo_ws_pong_def ws_control_def mem_bind_Val_iff agoo_con_res_append_def split: prod.splits option.splits)

text \<open>Between two reads of frames no request is left.\<close>

definition ws_idle :: "'h agoo_con \<Rightarrow> bool" where
  "ws_idle c \<longleftrightarrow> con_ok c \<and> creq c = None"

lemma ws_idleD: "ws_idle c \<Longrightarrow> length (cbuf c) = MAX_HEADER_SIZE \<and> cbcnt c < MAX_HEADER_SIZE \<and> creq c = None"
  by (auto simp: ws_idle_def con_ok_def)

definition ws_post :: "bool \<times> 'h agoo_con \<times> 'h world \<Rightarrow> bool" where
  "ws_post r \<longleftrightarrow> (case r of (b, c, w) \<Rightarrow> b \<or> ws_idle c)"

lemma ws_post_eq: "ws_post = (\<lambda>(close, c', w'). close \<or> ws_idle c')"
  by (simp add: fun_eq_iff ws_post_def)

lemma ws_round_ok:
  assumes "ws_idle c" "ws_round env (c, w) = Val x"
  shows "case x of Inl r \<Rightarrow> ws_post r | Inr (c', w') \<Rightarrow> ws_idle c' \<and> cbcnt c' < cbcnt c"
proof -
  note i = ws_idleD [OF assms(1)]
  have idle: "ws_idle (c1\<lparr>cbcnt := k\<rparr>)" if "cbuf c1 = cbuf c" "creq c1 = None" "k < MAX_HEADER_SIZE" for c1 k
    using that i by (simp add: ws_idle_def con_ok_def)
  have req: "case x of Inl r \<Rightarrow> ws_post r | Inr (c', w') \<Rightarrow> ws_idle c' \<and> cbcnt c' < cbcnt c"
    if "cbuf c1 = cbuf c" "cbcnt c1 = cbcnt c" "0 < rmlen q" "ws_request env c1 q w = Val x" for c1 q
    using ws_request_ok [of c1 q env w x] that i by (cases x) (auto simp: ws_post_def read_post_def ws_idle_def)
  show ?thesis
  proof (cases "cbcnt c < 2")
    case True
    with assms i show ?thesis by (auto simp: ws_round_def ws_post_def)
  next
    case False
    with assms(2) i obtain mlen where m: "agoo_ws_calc_len (cbcnt c) (cbuf c) (cbcnt c) = Val mlen"
      by (auto simp: ws_round_def mem_bind_Val_iff)
    show ?thesis
    proof (cases "mlen \<le> 0")
      case True
      with assms False i m show ?thesis by (auto simp: ws_round_def ws_post_def)
    next
      case pos: False
      let ?op = "0x0F AND byte_of (cat (cbuf c) 0)"
      note r = assms(2) [unfolded ws_round_def prod.case Let_def, simplified i False m pos, simplified]
      show ?thesis
      proof (cases "?op = AGOO_WS_OP_TEXT \<or> ?op = AGOO_WS_OP_BIN")
        case True
        show ?thesis
        proof (cases "cgsub c")
          case True
          with r \<open>?op = AGOO_WS_OP_TEXT \<or> ?op = AGOO_WS_OP_BIN\<close> i False m pos assms(1) show ?thesis
            by (auto simp: ws_post_def)
        next
          case g: False
          with r True i False m pos obtain failed c1 where c1: "agoo_ws_create_req env c (nat mlen) w = Val (failed, c1)"
            by (auto simp: mem_bind_Val_iff)
          note cc = ws_create_req_con [OF c1]
          show ?thesis
          proof (cases failed)
            case True
            with r \<open>?op = AGOO_WS_OP_TEXT \<or> ?op = AGOO_WS_OP_BIN\<close> i False m pos g c1 show ?thesis by (auto simp: ws_post_def)
          next
            case nf: False
            with cc obtain q where q: "creq c1 = Some q" "rmlen q = nat mlen" by auto
            with r True i False m pos g c1 nf have "ws_request env c1 q w = Val x" by auto
            with req [of c1 q] cc q(2) pos show ?thesis by simp
          qed
        qed
      next
        case False
        with r i m pos assms(1) show ?thesis
          by (auto simp: ws_post_def ws_ops mem_bind_Val_iff MAX_HEADER_SIZE_def split: if_splits
              dest!: ws_pong_con intro!: idle)
      qed
    qed
  qed
qed

lemma con0_ok: "con_ok con0" "ws_idle con0" "recv_room con0 = 8191" "cbcnt con0 = 0"
  by (simp_all add: con_ok_def ws_idle_def con0_def agoo_con_create_def recv_room_def MAX_HEADER_SIZE_def)




end
