(* ===== verification/ConFrames.thy ===== *)
theory ConFrames
  imports ConInv
begin

text \<open>
  The messages that come out of a stream of WebSocket frames: complete frames are handed over in
  order, and a frame of which a part is read is handed over at once.
\<close>

section \<open>Streams of messages\<close>

text \<open>
  The interface between a loop over a buffer and the encoding of the messages in it: while the
  buffer begins with a message, a round takes it off, with \<open>out\<close> as its effect on what is
  observed; the loop is left after the last one.
\<close>

locale message_stream =
  fixes enc :: "'m \<Rightarrow> string"
    and valid :: "'m \<Rightarrow> bool"
    and step :: "'e \<Rightarrow> 's \<Rightarrow> ('r + 's) mem"
    and holds :: "'e \<Rightarrow> 's \<Rightarrow> string \<Rightarrow> 'o \<Rightarrow> bool"
    and out :: "'m \<Rightarrow> 'o \<Rightarrow> 'o"
    and left :: "'r \<Rightarrow> 'o \<Rightarrow> bool"
  assumes more: "holds e s (enc m @ d) x \<Longrightarrow> valid m \<Longrightarrow> d \<noteq> [] \<Longrightarrow> \<exists>s'. step e s = Val (Inr s') \<and> holds e s' d (out m x)"
    and last: "holds e s (enc m) x \<Longrightarrow> valid m \<Longrightarrow> \<exists>r. step e s = Val (Inl r) \<and> left r (out m x)"
    and enc_ne: "enc m \<noteq> []"
begin

lemma stream:
  "holds e s (concat (map enc ms)) x \<Longrightarrow> list_all valid ms \<Longrightarrow> ms \<noteq> [] \<Longrightarrow>
   \<exists>r. rounds (step e) (length ms) s = Some (Val r) \<and> left r (fold out ms x)"
proof (induction ms arbitrary: s x)
  case (Cons m ms)
  show ?case
  proof (cases "ms = []")
    case True
    with last [of e s m x] Cons.prems show ?thesis by auto
  next
    case False
    then obtain m' ms' where "ms = m' # ms'" by (cases ms) auto
    then have "concat (map enc ms) \<noteq> []" using enc_ne [of m'] by simp
    from more [OF _ _ this, of e s m x] Cons.prems obtain s' where s': "step e s = Val (Inr s')"
      "holds e s' (concat (map enc ms)) (out m x)" by auto
    from Cons.IH [OF s'(2)] Cons.prems(2) False s'(1) show ?thesis by auto
  qed
qed simp

end

section \<open>Frames in the receive buffer\<close>

text \<open>A client message: the operation, the mask and the payload.\<close>

record client_frame =
  cf_op :: byte
  cf_mask :: string
  cf_data :: string

definition frame_bytes :: "client_frame \<Rightarrow> string" where
  "frame_bytes f = ws_frame (cf_op f) (Some (cf_mask f)) (cf_data f)"

definition frame_valid :: "client_frame \<Rightarrow> bool" where
  "frame_valid f \<longleftrightarrow> (cf_op f = AGOO_WS_OP_TEXT \<or> cf_op f = AGOO_WS_OP_BIN) \<and> length (cf_mask f) = 4 \<and> length (cf_data f) < MAX_HEADER_SIZE"

definition frame_method :: "client_frame \<Rightarrow> agoo_method" where
  "frame_method f = (if cf_op f = AGOO_WS_OP_BIN then AGOO_ON_BIN else AGOO_ON_MSG)"

text \<open>What the evaluation thread sees of a request: its method and its message.\<close>

definition req_view :: "'h agoo_req \<Rightarrow> agoo_method \<times> string" where
  "req_view r = (rmethod r, take (rmlen r) (rmsg r))"

text \<open>
  A connection that is ready for frames: upgraded, with a handler object and memory for
  requests, \<open>d\<close> in the buffer and the requests seen so far.
\<close>

definition ws_holds :: "'h con_env \<Rightarrow> 'h agoo_con \<times> 'h world \<Rightarrow> string \<Rightarrow> (agoo_method \<times> string) list \<Rightarrow> bool" where
  "ws_holds env s d x \<longleftrightarrow> (case s of (c, w) \<Rightarrow>
     (\<forall>n. ev_req env n) \<and> ws_idle c \<and> \<not> cgsub c \<and> take (cbcnt c) (cbuf c) = d \<and> cbcnt c = length d \<and>
     (\<exists>u up ctx. cup c = Some u \<and> wups w u = Some up \<and> upctx up = Some ctx) \<and> map req_view (weval w) = x)"

lemma frame_op: "frame_valid f \<Longrightarrow> 0x0F AND byte_of (cat (frame_bytes f @ r) 0) = cf_op f"
  by (auto simp: frame_valid_def frame_bytes_def ws_frame_def key_mask_eq ws_ops)

lemma frame_bytes_length: "length (frame_bytes f) = 1 + length (ws_len_bytes 0x80 (length (cf_data f))) + 4 + length (cf_data f)"
  if "frame_valid f"
  using that by (simp add: frame_bytes_def frame_valid_def ws_frame_def key_mask_eq)

lemma copy_msg_creq [simp]: "copy_msg (c\<lparr>creq := r\<rparr>) n = copy_msg c n"
  by (simp add: copy_msg_def)

text \<open>The round on a buffer from which the length and the operation of a frame are known.\<close>

lemma ws_round_frame:
  assumes "ws_holds env (c, w) d x" "frame_valid f" "agoo_ws_calc_len (cbcnt c) (cbuf c) (cbcnt c) = Val (int (length (frame_bytes f)))"
    "cat (cbuf c) 0 = cat (frame_bytes f) 0" "2 \<le> cbcnt c"
    "copy_msg c (length (frame_bytes f)) = frame_bytes f' @ [NUL]" "frame_valid f'"
  shows "\<exists>c' w'. ws_round env (c, w) = Val (if length (frame_bytes f) < cbcnt c then Inr (buf_shift (length (frame_bytes f)) c', w')
       else Inl (False, buf_reset c', w')) \<and> same_buf c c' \<and> creq c' = None \<and>
     map req_view (weval w') = x @ [(frame_method f, cf_data f')] \<and>
     (\<exists>u up ctx. cup c = Some u \<and> wups w' u = Some up \<and> upctx up = Some ctx)"
proof -
  let ?n = "length (frame_bytes f)"
  from assms(1) obtain u up ctx where h: "cup c = Some u" "wups w u = Some up" "upctx up = Some ctx" "ws_idle c" "\<not> cgsub c"
    "\<And>n. ev_req env n" "map req_view (weval w) = x" by (auto simp: ws_holds_def)
  have i: "creq c = None" using h(4) by (simp add: ws_idle_def)
  have op: "0x0F AND byte_of (cat (cbuf c) 0) = cf_op f" using frame_op [OF assms(2), of "[]"] assms(4) by simp
  have opv: "cf_op f = AGOO_WS_OP_TEXT \<or> cf_op f = AGOO_WS_OP_BIN" using assms(2) by (simp add: frame_valid_def)
  have n: "\<not> int ?n \<le> 0" using frame_bytes_length [OF assms(2)] by simp
  define req where "req = (agoo_req_create ?n :: 'a agoo_req)\<lparr>rmsg := frame_bytes f' @ [NUL], rmethod := frame_method f, rup := Some u,
    rhook := (if on_msg up then Some (agoo_hook_create AGOO_NONE None ctx PUSH_HOOK) else None)\<rparr>"
  have cr: "agoo_ws_create_req env c ?n w = Val (False, c\<lparr>creq := Some req\<rparr>)"
    using h assms(6) op by (simp add: agoo_ws_create_req_def Let_def w_up_def req_def frame_method_def copy_msg_creq)
  have l: "length (cf_mask f') = 4" "length (cf_data f') < 2 ^ 64"
    using assms(7) by (simp_all add: frame_valid_def MAX_HEADER_SIZE_def)
  obtain buf where dec: "agoo_ws_decode (frame_bytes f' @ [NUL]) = Val (buf, of_nat (length (cf_data f')))"
    "take (length (cf_data f')) buf = cf_data f'"
    using ws_decode_frame [of "Some (cf_mask f')" "cf_data f'" "cf_op f'" "[NUL]"] l by (auto simp: frame_bytes_def)
  have un: "unat (of_nat (length (cf_data f')) :: u64) = length (cf_data f')" by (rule unat_small) (use l in simp)
  define req' where "req' = req\<lparr>rmsg := buf, rmlen := length (cf_data f')\<rparr>"
  define w' where "w' = eval_push req' (w_up_set u (up\<lparr>upref := upref up + 1\<rparr>) w)"
  have v: "req_view req' = (frame_method f, cf_data f')" using dec(2) by (simp add: req'_def req_def req_view_def)
  have rl: "rmlen req = ?n" "rmsg req = frame_bytes f' @ [NUL]" by (simp_all add: req_def agoo_req_create_def)
  have wr: "ws_request env (c\<lparr>creq := Some req\<rparr>) req w =
      Val (if ?n < cbcnt c then Inr (buf_shift ?n (c\<lparr>creq := None\<rparr>), w') else Inl (False, buf_reset (c\<lparr>creq := None\<rparr>), w'))"
    using h(1,2) dec(1) un by (simp add: ws_request_def Let_def rl agoo_upgraded_ref_def w_up_def w'_def req'_def)
  have "ws_round env (c, w) = Val (if ?n < cbcnt c then Inr (buf_shift ?n (c\<lparr>creq := None\<rparr>), w') else Inl (False, buf_reset (c\<lparr>creq := None\<rparr>), w'))"
    unfolding ws_round_def prod.case Let_def op
    using i assms(5) n opv h(5) wr cr by (simp add: assms(3))
  moreover have "map req_view (weval w') = x @ [(frame_method f, cf_data f')]"
    using h(7) v by (simp add: w'_def eval_push_def w_up_set_def)
  moreover have "same_buf c (c\<lparr>creq := None\<rparr>)" by (simp add: same_buf_def)
  moreover have "wups w' u = Some (up\<lparr>upref := upref up + 1\<rparr>)" by (simp add: w'_def eval_push_def w_up_set_def)
  ultimately show ?thesis using h(1,3) by (intro exI [of _ "c\<lparr>creq := None\<rparr>"] exI [of _ w']) auto
qed

lemma frame_head: "cat (frame_bytes f @ r) 0 = cat (frame_bytes f) 0"
  by (simp add: frame_bytes_def ws_frame_def key_mask_eq)

lemma ws_holds_frame:
  assumes "ws_holds env (c, w) (frame_bytes f @ d) x" "frame_valid f"
  shows "\<exists>c' w'. ws_round env (c, w) = Val (if length (frame_bytes f) < cbcnt c then Inr (buf_shift (length (frame_bytes f)) c', w')
       else Inl (False, buf_reset c', w')) \<and> same_buf c c' \<and> creq c' = None \<and>
     map req_view (weval w') = x @ [(frame_method f, cf_data f)] \<and>
     (\<exists>u up ctx. cup c = Some u \<and> wups w' u = Some up \<and> upctx up = Some ctx)"
proof -
  let ?F = "frame_bytes f"
  have b: "take (cbcnt c) (cbuf c) = ?F @ d" "cbcnt c = length ?F + length d" using assms(1) by (auto simp: ws_holds_def)
  have fl: "5 \<le> length ?F" using frame_bytes_length [OF assms(2)] by (simp add: ws_len_bytes_def)
  have buf: "cbuf c = take (length ?F) ?F @ d @ drop (cbcnt c) (cbuf c)" using b(1) by (metis append.assoc append_take_drop_id take_all_iff order_refl)
  show ?thesis
  proof (rule ws_round_frame [OF assms])
    show "agoo_ws_calc_len (cbcnt c) (cbuf c) (cbcnt c) = Val (int (length ?F))"
      unfolding frame_bytes_def
    proof (subst buf [unfolded frame_bytes_def], rule ws_calc_len_known)
      show "11 \<le> length (ws_frame (cf_op f) (Some (cf_mask f)) (cf_data f)) \<or>
        length (cf_data f) < 2 ^ 16 \<and> 5 \<le> length (ws_frame (cf_op f) (Some (cf_mask f)) (cf_data f)) \<or>
        length (cf_data f) \<le> 125 \<and> 3 \<le> length (ws_frame (cf_op f) (Some (cf_mask f)) (cf_data f))"
        using fl assms(2) by (simp add: frame_bytes_def frame_valid_def MAX_HEADER_SIZE_def)
    qed (use assms(2) b(2) in \<open>simp_all add: frame_valid_def frame_bytes_def MAX_HEADER_SIZE_def\<close>)
    show "cat (cbuf c) 0 = cat ?F 0" by (subst buf) (simp add: frame_head)
    show "2 \<le> cbcnt c" using b(2) fl by simp
    show "copy_msg c (length ?F) = ?F @ [NUL]"
    proof (cases "d = []")
      case True
      then show ?thesis using b by (simp add: copy_msg_def)
    next
      case False
      then have "\<not> cbcnt c \<le> length ?F" using b(2) by simp
      moreover have "take (length ?F) (cbuf c) = ?F" by (subst buf) simp
      ultimately show ?thesis by (simp add: copy_msg_def)
    qed
  qed (rule assms(2))
qed

interpretation ws: message_stream frame_bytes frame_valid ws_round ws_holds
  "\<lambda>f x. x @ [(frame_method f, cf_data f)]"
  "\<lambda>r x. case r of (close, c, w) \<Rightarrow> \<not> close \<and> cbcnt c = 0 \<and> creq c = None \<and> map req_view (weval w) = x"
proof
  fix e :: "'a con_env" and s :: "'a agoo_con \<times> 'a world" and f d x
  assume h: "ws_holds e s (frame_bytes f @ d) x" and v: "frame_valid f" and ne: "d \<noteq> []"
  obtain c w where s: "s = (c, w)" by fastforce
  have b: "take (cbcnt c) (cbuf c) = frame_bytes f @ d" "cbcnt c = length (frame_bytes f) + length d" "ws_idle c" "\<not> cgsub c" "\<And>n. ev_req e n"
    using h s by (auto simp: ws_holds_def)
  obtain c' w' where r: "ws_round e (c, w) = Val (Inr (buf_shift (length (frame_bytes f)) c', w'))" "same_buf c c'" "creq c' = None"
    "map req_view (weval w') = x @ [(frame_method f, cf_data f)]" "\<exists>u up ctx. cup c = Some u \<and> wups w' u = Some up \<and> upctx up = Some ctx"
    using ws_holds_frame [of e c w f d x] h v s ne b(2) by auto
  have i: "length (cbuf c) = MAX_HEADER_SIZE" "cbcnt c < MAX_HEADER_SIZE" using ws_idleD [OF b(3)] by simp_all
  have sh: "ws_idle (buf_shift (length (frame_bytes f)) c')"
    using r(2,3) i by (simp add: ws_idle_def buf_shift_ok same_buf_def) (simp add: buf_shift_def)
  have tk: "take (length d) (drop (length (frame_bytes f)) (cbuf c)) = d"
    using b(1,2) by (metis add_diff_cancel_left' append_eq_conv_conj drop_take)
  have q: "cbcnt (buf_shift (length (frame_bytes f)) c') = length d" "cgsub (buf_shift (length (frame_bytes f)) c') = cgsub c"
    "cup (buf_shift (length (frame_bytes f)) c') = cup c"
    "take (length d) (cbuf (buf_shift (length (frame_bytes f)) c')) = d"
    using r(2) b(2) tk i by (simp_all add: buf_shift_def same_buf_def)
  have "ws_holds e (buf_shift (length (frame_bytes f)) c', w') d (x @ [(frame_method f, cf_data f)])"
    using r(4,5) sh b(4,5) q by (simp add: ws_holds_def)
  then show "\<exists>s'. ws_round e s = Val (Inr s') \<and> ws_holds e s' d (x @ [(frame_method f, cf_data f)])"
    using r(1) s by blast
next
  fix e :: "'a con_env" and s :: "'a agoo_con \<times> 'a world" and f x
  assume h: "ws_holds e s (frame_bytes f) x" and v: "frame_valid f"
  obtain c w where s: "s = (c, w)" by fastforce
  have b: "cbcnt c = length (frame_bytes f)" using h s by (simp add: ws_holds_def)
  obtain c' w' where r: "ws_round e (c, w) = Val (Inl (False, buf_reset c', w'))" "creq c' = None"
    "map req_view (weval w') = x @ [(frame_method f, cf_data f)]"
    using ws_holds_frame [of e c w f "[]" x] h v s b by auto
  then show "\<exists>r. ws_round e s = Val (Inl r) \<and>
      (case r of (close, c, w) \<Rightarrow> \<not> close \<and> cbcnt c = 0 \<and> creq c = None \<and> map req_view (weval w) = x @ [(frame_method f, cf_data f)])"
    using s by (auto simp: buf_reset_def)
next
  show "frame_bytes f \<noteq> []" for f by (simp add: frame_bytes_def ws_frame_def key_mask_eq)
qed

text \<open>
  C9. Complete frames in the buffer are handed over in their order, each with its payload
  unmasked, in as many rounds as there are frames; afterwards the buffer is empty and the
  connection waits for more.
\<close>

theorem ws_frames_in_order:
  assumes "ws_holds env (c, w) (concat (map frame_bytes fs)) x" "list_all frame_valid fs" "fs \<noteq> []"
  shows "\<exists>c' w'. rounds (ws_round env) (length fs) (c, w) = Some (Val (False, c', w')) \<and> cbcnt c' = 0 \<and> creq c' = None \<and>
     map req_view (weval w') = x @ map (\<lambda>f. (frame_method f, cf_data f)) fs"
proof -
  have f: "fold (\<lambda>f x. x @ [(frame_method f, cf_data f)]) fs x = x @ map (\<lambda>f. (frame_method f, cf_data f)) fs"
    by (induction fs arbitrary: x) simp_all
  from ws.stream [OF assms] show ?thesis unfolding f by auto
qed

text \<open>An upgraded connection with two frames in its buffer.\<close>

definition up0 :: "nat agoo_upgraded" where
  "up0 = \<lparr>upcon = Some 1, uppending = 0, upref = 1, upsubjects = [], upctx = Some 7, on_empty = False, on_close = False,
     on_shut = False, on_msg = True, on_error = False\<rparr>"

definition world_up :: "nat world" where
  "world_up = world0\<lparr>wups := (wups world0)(3 \<mapsto> up0)\<rparr>"

definition con_ws :: "string \<Rightarrow> nat agoo_con" where
  "con_ws d = con0\<lparr>cbuf := d @ drop (length d) (cbuf con0), cbcnt := length d, ckind := AGOO_CON_WS, cup := Some 3\<rparr>"

definition hi :: client_frame where "hi = \<lparr>cf_op = AGOO_WS_OP_TEXT, cf_mask = ''k#!z'', cf_data = ''hi''\<rparr>"

definition bye :: client_frame where "bye = \<lparr>cf_op = AGOO_WS_OP_BIN, cf_mask = ''%abc'', cf_data = ''bye''\<rparr>"

lemma con_ws_holds: "length d < MAX_HEADER_SIZE \<Longrightarrow> ws_holds env0 (con_ws d, world_up) d []"
  by (simp add: ws_holds_def ws_idle_def con_ok_def con_ws_def con0_def agoo_con_create_def env0_def world_up_def world0_def up0_def)

lemma hi_bye: "frame_valid hi" "frame_valid bye"
  by (simp_all add: frame_valid_def hi_def bye_def MAX_HEADER_SIZE_def)

lemma ws_frames_in_order_witness:
  "\<exists>c' w'. rounds (ws_round env0) 2 (con_ws (frame_bytes hi @ frame_bytes bye), world_up) = Some (Val (False, c', w')) \<and>
     cbcnt c' = 0 \<and> creq c' = None \<and> map req_view (weval w') = [(AGOO_ON_MSG, ''hi''), (AGOO_ON_BIN, ''bye'')]"
proof -
  have "length (frame_bytes hi @ frame_bytes bye) < MAX_HEADER_SIZE"
    by (simp add: frame_bytes_length hi_bye) (simp add: hi_def bye_def ws_len_bytes_def MAX_HEADER_SIZE_def)
  then show ?thesis
    using ws_frames_in_order [of env0 "con_ws (frame_bytes hi @ frame_bytes bye)" world_up "[hi, bye]" "[]"] con_ws_holds hi_bye
    by (simp add: frame_method_def hi_def bye_def ws_ops numeral_2_eq_2)
qed

section \<open>A frame of which a part is read\<close>

lemma ws_mask_take: "take j (ws_mask m s) = ws_mask m (take j s)"
  by (rule nth_equalityI) (simp_all add: ws_mask_def)

text \<open>
  A frame of which only a part of the payload has been read is not waited for: the round
  hands over a message with the payload's length, of which only what was read is right (the
  rest is made of the mask), and empties the buffer, so that the bytes that follow are taken for
  the start of another frame.
\<close>

theorem ws_partial_frame:
  assumes "ws_holds env (c, w) (take k (frame_bytes f)) x" "frame_valid f"
    "length (frame_bytes f) = n + length (cf_data f)" "n \<le> k" "k < length (frame_bytes f)"
  shows "\<exists>c' w'. ws_round env (c, w) = Val (Inl (False, c', w')) \<and> cbcnt c' = 0 \<and> creq c' = None \<and>
     map req_view (weval w') = x @ [(frame_method f,
       take (k - n) (cf_data f) @ drop (k - n) (ws_mask (cf_mask f) (replicate (length (cf_data f)) NUL)))]"
proof -
  let ?F = "frame_bytes f" and ?s = "cf_data f" and ?m = "cf_mask f"
  define j where "j = k - n"
  define s' where "s' = ws_mask ?m (take j (ws_mask ?m ?s) @ replicate (length ?s - j) NUL)"
  define f' where "f' = f\<lparr>cf_data := s'\<rparr>"
  have m4: "length ?m = 4" using assms(2) by (simp add: frame_valid_def)
  have jl: "j \<le> length ?s" using assms(3-5) by (simp add: j_def)
  have sl: "length s' = length ?s" using jl by (simp add: s'_def)
  have v': "frame_valid f'" using assms(2) sl by (simp add: f'_def frame_valid_def)
  have n: "n = 1 + length (ws_len_bytes 0x80 (length ?s)) + 4" using assms(3) frame_bytes_length [OF assms(2)] by simp
  have b: "take (cbcnt c) (cbuf c) = take k ?F" "cbcnt c = k" using assms(1,5) by (auto simp: ws_holds_def)
  have buf: "cbuf c = take k ?F @ drop k (cbuf c)" using b by (metis append_take_drop_id)
  have k6: "6 \<le> k" using assms(4) n by (simp add: ws_len_bytes_def split: if_splits)
  have r: "\<exists>c' w'. ws_round env (c, w) = Val (if length ?F < cbcnt c then Inr (buf_shift (length ?F) c', w')
       else Inl (False, buf_reset c', w')) \<and> same_buf c c' \<and> creq c' = None \<and>
     map req_view (weval w') = x @ [(frame_method f, cf_data f')] \<and>
     (\<exists>u up ctx. cup c = Some u \<and> wups w' u = Some up \<and> upctx up = Some ctx)"
  proof (rule ws_round_frame [OF assms(1,2)])
    show "agoo_ws_calc_len (cbcnt c) (cbuf c) (cbcnt c) = Val (int (length ?F))"
      unfolding frame_bytes_def
    proof (subst buf [unfolded frame_bytes_def], rule ws_calc_len_known)
      show "11 \<le> k \<or> length ?s < 2 ^ 16 \<and> 5 \<le> k \<or> length ?s \<le> 125 \<and> 3 \<le> k"
        using k6 assms(2) by (simp add: frame_valid_def MAX_HEADER_SIZE_def)
    qed (use assms(2) b(2) in \<open>simp_all add: frame_valid_def MAX_HEADER_SIZE_def\<close>)
    show "cat (cbuf c) 0 = cat ?F 0" by (subst buf) (use k6 in \<open>cases k; simp add: frame_bytes_def ws_frame_def key_mask_eq\<close>)
    show "2 \<le> cbcnt c" using b(2) k6 by simp
    have mm: "ws_mask ?m s' = take j (ws_mask ?m ?s) @ replicate (length ?s - j) NUL"
      unfolding s'_def by (rule ws_mask_mask [OF m4])
    have "take k ?F = chr_of (0x80 OR cf_op f) # ws_len_bytes 0x80 (length ?s) @ ?m @ take j (ws_mask ?m ?s)"
      using n m4 assms(4) by (cases k) (simp_all add: frame_bytes_def ws_frame_def key_mask_eq j_def add.commute)
    then have "take k ?F @ replicate (length ?F - k) NUL = frame_bytes f'"
      using mm sl assms(3,4) m4 by (simp add: frame_bytes_def ws_frame_def key_mask_eq f'_def j_def)
    then show "copy_msg c (length ?F) = frame_bytes f' @ [NUL]"
      using b assms(5) by (simp add: copy_msg_def)
  qed (rule v')
  have "s' = take j ?s @ drop j (ws_mask ?m (replicate (length ?s) NUL))"
  proof (rule nth_equalityI)
    show "length s' = length (take j ?s @ drop j (ws_mask ?m (replicate (length ?s) NUL)))" using sl jl by simp
    show "s' ! i = (take j ?s @ drop j (ws_mask ?m (replicate (length ?s) NUL))) ! i" if "i < length s'" for i
    proof (cases "i < j")
      case True
      then show ?thesis using that sl jl by (simp add: s'_def ws_mask_def nth_append xor.assoc)
    next
      case False
      then show ?thesis using that sl jl by (simp add: s'_def ws_mask_def nth_append)
    qed
  qed
  with r assms(5) b(2) show ?thesis by (auto simp: j_def f'_def buf_reset_def)
qed

lemma ws_partial_frame_witness:
  "\<exists>c' w'. ws_round env0 (con_ws (take 7 (frame_bytes bye)), world_up) = Val (Inl (False, c', w')) \<and> cbcnt c' = 0 \<and> creq c' = None \<and>
     map req_view (weval w') = [(AGOO_ON_BIN, ''bab'')]"
proof -
  have l: "length (frame_bytes bye) = 9" by (simp add: frame_bytes_length hi_bye) (simp add: bye_def ws_len_bytes_def)
  have g: "drop 1 (ws_mask ''%abc'' (replicate 3 NUL)) = ''ab''" by code_simp
  have "ws_holds env0 (con_ws (take 7 (frame_bytes bye)), world_up) (take 7 (frame_bytes bye)) []"
    by (rule con_ws_holds) (simp add: l MAX_HEADER_SIZE_def)
  from ws_partial_frame [OF this hi_bye(2), of 6] l g show ?thesis
    by (simp add: bye_def frame_method_def ws_ops eval_nat_numeral)
qed

end
