(* ===== verification/ConParse.thy ===== *)
theory ConParse
  imports ConInv
begin

text \<open>
  What the parsing of a request head gives: the parts of a request line, the length of a body,
  and what the bytes of an earlier request do to the next one.
\<close>

section \<open>Request lines\<close>

definition head_methods :: "(string \<times> agoo_method \<times> bool option) list" where
  "head_methods = [(''GET'', AGOO_GET, None), (''PUT'', AGOO_PUT, Some True), (''POST'', AGOO_POST, Some True),
     (''PATCH'', AGOO_PATCH, Some True), (''DELETE'', AGOO_DELETE, Some False), (''HEAD'', AGOO_HEAD, None),
     (''OPTIONS'', AGOO_OPTIONS, None), (''CONNECT'', AGOO_CONNECT, None)]"

definition word_ok :: "string \<Rightarrow> bool" where
  "word_ok s \<longleftrightarrow> CHR '' '' \<notin> set s \<and> NUL \<notin> set s"

lemma strncmp_eq_prefix: "NUL \<notin> set s \<Longrightarrow> strncmp_eq s (s @ r) (length s)"
  by (induction s) auto

lemma strncmp_eq_iff: "NUL \<notin> set s \<Longrightarrow> strncmp_eq s b (length s) \<longleftrightarrow> take (length s) b = s"
proof (induction s arbitrary: b)
  case (Cons c s)
  then show ?case by (cases b) auto
qed simp

lemma head_method_table:
  assumes "(name, m, need) \<in> set head_methods"
  shows "head_method (name @ CHR '' '' # r) (length name) = Some (m, need)"
proof -
  have u: "upper_c CHR ''G'' = CHR ''G''" "upper_c CHR ''P'' = CHR ''P''" "upper_c CHR ''D'' = CHR ''D''"
    "upper_c CHR ''H'' = CHR ''H''" "upper_c CHR ''O'' = CHR ''O''" "upper_c CHR ''C'' = CHR ''C''"
    by (simp_all add: upper_c_def)
  have z: "NUL \<notin> set ''GET''" "NUL \<notin> set ''PUT''" "NUL \<notin> set ''POST''" "NUL \<notin> set ''PATCH''" "NUL \<notin> set ''DELETE''"
    "NUL \<notin> set ''HEAD''" "NUL \<notin> set ''OPTIONS''" "NUL \<notin> set ''CONNECT''" by (simp_all add: NUL_def)
  note eqs = z [THEN strncmp_eq_iff]
  show ?thesis
    using assms [unfolded head_methods_def list.set insert_iff empty_iff]
    by (elim disjE FalseE; hypsubst_thin?) (simp_all add: head_method_def Let_def u eqs)
qed

lemma takeWhile_word: "word_ok s \<Longrightarrow> takeWhile (\<lambda>c. c \<noteq> CHR '' '' \<and> c \<noteq> NUL) (s @ CHR '' '' # r) = s"
  unfolding word_ok_def by (induction s) auto

lemma skip_from_word:
  "word_ok s \<Longrightarrow> length p = i \<Longrightarrow> skip_from (\<lambda>c. c \<noteq> CHR '' '' \<and> c \<noteq> NUL) (p @ s @ CHR '' '' # r) i = i + length s"
  by (simp add: skip_from_def takeWhile_word)

lemma last_mark_snoc: "CHR ''?'' \<notin> set q \<Longrightarrow> last_mark (p @ CHR ''?'' # q) = Some (length p)"
proof -
  assume "CHR ''?'' \<notin> set q"
  then have "takeWhile (\<lambda>c. c \<noteq> CHR ''?'') (rev q @ CHR ''?'' # rev p) = rev q"
    by (subst takeWhile_append2) auto
  then show ?thesis by (simp add: last_mark_def)
qed

text \<open>
  C27. A request line is split into its parts: the method by its name, the path up to the last
  question mark before the next space and the query behind it, or the whole with an empty query
  where there is no question mark. So a question mark in a query moves the end of the path.
\<close>

theorem request_line_parts:
  assumes "(name, m, need) \<in> set head_methods" "word_ok path" "path \<noteq> []" "word_ok q" "CHR ''?'' \<notin> set q"
    "hasq \<or> CHR ''?'' \<notin> set path"
    "buf = name @ CHR '' '' # (path @ (if hasq then CHR ''?'' # q else [])) @ CHR '' '' # rest"
    "content_length buf hend need = Inr clen"
  shows "\<exists>hp. head_parse buf hend = Inr hp \<and> hp_method hp = m \<and> hp_clen hp = clen \<and>
     take (hp_pathend hp - hp_path hp) (drop (hp_path hp) buf) = path \<and>
     take (hp_qend hp - hp_query hp) (drop (hp_query hp) buf) = (if hasq then q else [])"
proof -
  let ?t = "path @ (if hasq then CHR ''?'' # q else [])" and ?n = "length name"
  have nm: "word_ok name" "name \<noteq> []" using assms(1) by (auto simp: head_methods_def word_ok_def NUL_def)
  have t: "word_ok ?t" "?t \<noteq> []" using assms(2-4) by (auto simp: word_ok_def NUL_def)
  have b: "skip_from (\<lambda>c. c \<noteq> CHR '' '' \<and> c \<noteq> NUL) buf 0 = ?n"
    using skip_from_word [OF nm(1), of "[]" 0 "?t @ CHR '' '' # rest"] assms(7) by simp
  have c0: "cat buf ?n \<noteq> NUL" unfolding assms(7) by (simp add: cat_def NUL_def)
  have hm: "head_method buf ?n = Some (m, need)" unfolding assms(7) by (rule head_method_table [OF assms(1)])
  have "hd ?t \<noteq> CHR '' ''" using t by (cases ?t) (auto simp: word_ok_def)
  then have ps: "skip_from (\<lambda>c. c = CHR '' '') buf ?n = ?n + 1"
    unfolding assms(7) using t(2) by (cases ?t) (auto simp: skip_from_def)
  have e: "skip_from (\<lambda>c. c \<noteq> CHR '' '' \<and> c \<noteq> NUL) buf (?n + 1) = ?n + 1 + length ?t"
    using skip_from_word [OF t(1), of "name @ '' ''" "?n + 1" rest] assms(7) by simp
  have ce: "cat buf (?n + 1 + length ?t) \<noteq> NUL" unfolding assms(7) by (simp add: cat_def NUL_def nth_append)
  have dp: "drop (?n + 1) buf = ?t @ CHR '' '' # rest" unfolding assms(7) by simp
  have tk: "take (?n + 1 + length ?t - (?n + 1)) (drop (?n + 1) buf) = ?t" unfolding dp by simp
  have lm: "last_mark ?t = (if hasq then Some (length path) else None)"
    using last_mark_snoc [OF assms(5)] assms(6) by (auto simp: last_mark_def)
  have dk: "drop (?n + 1 + k) buf = drop k (?t @ CHR '' '' # rest)" for k
    unfolding dp [symmetric] by (simp add: add.commute)
  let ?hp = "if hasq then \<lparr>hp_method = m, hp_path = ?n + 1, hp_pathend = ?n + 1 + length path,
      hp_query = ?n + 1 + length path + 1, hp_qend = ?n + 1 + length ?t, hp_hend = hend, hp_clen = clen\<rparr>
    else \<lparr>hp_method = m, hp_path = ?n + 1, hp_pathend = ?n + 1 + length ?t,
      hp_query = ?n + 1 + length ?t, hp_qend = ?n + 1 + length ?t, hp_hend = hend, hp_clen = clen\<rparr>"
  have "head_parse buf hend = Inr ?hp"
    unfolding head_parse_def Let_def b if_not_P [OF c0] hm option.case prod.case assms(8) sum.case ps e if_not_P [OF ce] tk lm
    by simp
  moreover have "take (hp_pathend ?hp - hp_path ?hp) (drop (hp_path ?hp) buf) = path" using dp by simp
  moreover have "take (hp_qend ?hp - hp_query ?hp) (drop (hp_query ?hp) buf) = (if hasq then q else [])"
    using dk [of "length path + 1"] by (simp add: add.assoc)
  ultimately show ?thesis by (intro exI [of _ ?hp]) simp
qed

definition get_buf :: string where
  "get_buf = ''GET /a?b=1?c=2 HTTP/1.1'' @ CRLF @ CRLF"

lemma request_line_parts_witness:
  "\<exists>hp. head_parse get_buf 23 = Inr hp \<and> hp_method hp = AGOO_GET \<and> hp_clen hp = 0 \<and>
     take (hp_pathend hp - hp_path hp) (drop (hp_path hp) get_buf) = ''/a?b=1'' \<and>
     take (hp_qend hp - hp_query hp) (drop (hp_query hp) get_buf) = ''c=2''"
  using request_line_parts [of "''GET''" AGOO_GET None "''/a?b=1''" "''c=2''" True get_buf "''HTTP/1.1'' @ CRLF @ CRLF" 23 0]
  by (simp add: head_methods_def word_ok_def NUL_def get_buf_def content_length_def)

section \<open>The length of the body\<close>

text \<open>
  A negative length is accepted: the value is taken modulo 2^64, the message becomes
  shorter than its head and the body of the request is nearly 4 GB, past the end of its block.
\<close>

theorem negative_content_length:
  assumes "agoo_con_header_value buf hend ''Content-Length'' = Some (CHR ''-'' # dec_str n @ CHR 0x0D # r, vlen)" "0 < n" "n < 2 ^ 32"
    "hp_clen hp = - of_nat n" "cbcnt c \<le> length (cbuf c)" "hp_query hp \<le> hp_qend hp"
    "head_request c hp proto (hend + 4 - n) h = Val req"
  shows "content_length buf hend (Some b) = Inr (hp_clen hp) \<and>
    slen (rbody req) = 2 ^ 32 - n \<and> length (rmsg req) = hend + 4 - n + 1"
proof
  have vl: "vlen = Suc (length (dec_str n))"
  proof -
    have "vlen = value_len (CHR ''-'' # dec_str n @ CHR 0x0D # r)" by (rule header_value_len [OF assms(1)])
    moreover have "CHR 0x0D \<notin> set (dec_str n)" "NUL \<notin> set (dec_str n)" "CHR ''-'' \<noteq> NUL"
      using dec_str_digits [of n] by (auto simp: is_digit_def NUL_def)
    ultimately show ?thesis by (simp add: value_len_def takeWhile_field)
  qed
  have tw: "takeWhile is_digit (dec_str n @ CHR 0x0D # r) = dec_str n"
    using dec_str_digits [of n] by (simp add: takeWhile_append is_digit_def)
  have "scan_num (CHR ''-'' # dec_str n @ CHR 0x0D # r) = Some (True, n, Suc (length (dec_str n)))"
    using tw dec_str_digits [of n] dec_str_val [of n] by (simp add: scan_num_def Let_def c_isspace_def dec_val_def)
  then have "c_strtoul (CHR ''-'' # dec_str n @ CHR 0x0D # r) = (- of_nat n, vlen)"
    using assms(3) vl by (simp add: c_strtoul_def)
  then show "content_length buf hend (Some b) = Inr (hp_clen hp)" by (simp add: content_length_def assms(1,4))
  have u: "unat (ucast (- of_nat n :: u64) :: u32) = 2 ^ 32 - n"
  proof -
    have "ucast (- of_nat n :: u64) = (- of_nat n :: u32)"
    proof -
      have m: "(- of_nat n :: u64) = word_of_int (- int n)" "(- of_nat n :: u32) = word_of_int (- int n)" by simp_all
      show ?thesis unfolding m unsigned_of_int by (subst of_nat_nat) (simp_all only: take_bit_nonnegative word_of_int_eq_iff take_bit_take_bit, simp)
    qed
    moreover have "unat (- of_nat n :: u32) = 2 ^ 32 - n"
    proof -
      have m: "(- of_nat n :: u32) = word_of_int (- int n)" by simp
      have "take_bit LENGTH(32) (- int n) = 2 ^ 32 - int n"
        using assms(2,3) by (simp add: take_bit_eq_mod zmod_zminus1_eq_if)
      then show ?thesis unfolding m unsigned_of_int using assms(3) by (simp add: nat_diff_distrib)
    qed
    ultimately show ?thesis by simp
  qed
  have "slen (rbody req) = unat (ucast (hp_clen hp) :: u32)"
    using assms(7) by (auto simp: head_request_def mem_bind_Val_iff Let_def split: option.splits)
  with u show "slen (rbody req) = 2 ^ 32 - n \<and> length (rmsg req) = hend + 4 - n + 1"
    using head_request_ok [OF assms(7,5,6)] assms(4) by simp
qed

definition post_buf :: string where
  "post_buf = ''POST /a HTTP/1.1'' @ CRLF @ ''Content-Length: -1'' @ CRLF @ CRLF"

definition post_con :: "nat agoo_con" where
  "post_con = con0\<lparr>cbuf := post_buf, cbcnt := 40\<rparr>"

definition post_parts :: head_parts where
  "post_parts = \<lparr>hp_method = AGOO_POST, hp_path = 5, hp_pathend = 7, hp_query = 7, hp_qend = 7, hp_hend = 36, hp_clen = - 1\<rparr>"

lemma negative_content_length_witness:
  "content_length post_buf 36 (Some True) = Inr (- 1) \<and>
   (\<exists>req. head_request post_con post_parts (8, 16) 39 (agoo_hook_create AGOO_POST None 1 FAST_HOOK) = Val req \<and>
     slen (rbody req) = 4294967295 \<and> length (rmsg req) = 40)"
proof -
  have h: "agoo_con_header_value post_buf 36 ''Content-Length'' = Some (CHR ''-'' # dec_str 1 @ CHR 0x0D # [CHR 0x0A, CHR 0x0D, CHR 0x0A], 2)"
    by code_simp
  have l: "length post_buf = 40" by (simp add: post_buf_def CRLF_def)
  have k: "strstr (drop 7 (cstr post_buf)) CRLF = Some 9" by code_simp
  obtain req where r: "head_request post_con post_parts (8, 16) 39 (agoo_hook_create AGOO_POST None 1 FAST_HOOK) = Val req"
    using k l by (auto simp: head_request_def post_con_def post_parts_def blk_write_def copy_msg_def Let_def)
  show ?thesis
    using negative_content_length [of post_buf 36 1 _ 2 post_parts post_con "(8, 16)" _ req True] h r l
    by (simp add: post_parts_def post_con_def)
qed

section \<open>What an earlier request leaves in the buffer\<close>

text \<open>Two consecutive substrings make the search succeed.\<close>

lemma strstr_found: "strstr (a @ n @ b) n \<noteq> None"
proof (induction a)
  case Nil
  have "take (length n) (n @ b) = n" by simp
  then show ?case by (cases "n @ b") auto
qed simp

lemma head_not_again:
  assumes "strstr (cstr (cbuf c)) (CRLF @ CRLF) \<noteq> None" "con_header_read env c w = Val (r, m, c', w')"
  shows "r \<noteq> HEAD_AGAIN"
proof -
  have hook: "mem_post (head_hook env c hp p ml h w1) (\<lambda>(r, c, w). r \<noteq> HEAD_AGAIN)" for hp p ml h w1
    by (rule mem_postI) (auto simp: head_hook_def mem_bind_Val_iff dest!: head_refuse_con split: if_splits)
  have refuse: "mem_post (head_refuse env c st w1) (\<lambda>(r, c, w). r \<noteq> HEAD_AGAIN)" for st w1
    by (rule mem_postI) (auto dest!: head_refuse_con)
  have page: "mem_post (head_page env c p he w1) (\<lambda>(r, c, w). r \<noteq> HEAD_AGAIN)" for p he w1
    by (rule mem_postI) (auto dest!: head_page_con)
  have get: "mem_post (head_get env c hp proto ml w1) (\<lambda>(r, c, w). r \<noteq> HEAD_AGAIN)" for hp proto ml w1
    unfolding head_get_def Let_def mem_post_simps(3)
    by (rule mem_postI) (auto simp: refuse page split: option.split sum.split
        intro!: hook mem_postI [of "head_root env _ _"] mem_postI [of "get_target env _ _ _ _"])
  have other: "mem_post (head_other env c hp proto ml w1) (\<lambda>(r, c, w). r \<noteq> HEAD_AGAIN)" for hp proto ml w1
    unfolding head_other_def mem_post_simps(3)
    by (rule mem_postI) (auto split: option.split intro: refuse hook)
  obtain hend where h: "strstr (cstr (cbuf c)) (CRLF @ CRLF) = Some hend" using assms(1) by auto
  have "mem_post (con_header_read env c w) (\<lambda>(r, m, c, w). r \<noteq> HEAD_AGAIN)"
  proof (cases "head_parse (cbuf c) hend")
    case (Inl st)
    then show ?thesis using refuse [of st w, unfolded case_prod_beta] by (simp add: con_header_read_def h case_prod_beta)
  next
    case (Inr hp)
    have "mem_post (if hp_method hp = AGOO_GET then head_get env c hp p ml w else head_other env c hp p ml w) (\<lambda>x. fst x \<noteq> HEAD_AGAIN)" for p ml
      using get [unfolded case_prod_beta] other [unfolded case_prod_beta] by simp
    then show ?thesis
      unfolding con_header_read_def h Inr option.case sum.case Let_def mem_post_simps(3) case_prod_beta
      by (intro mem_postI [of "head_proto _ _"]) simp
  qed
  from mem_post_D [OF this assms(2)] show ?thesis by simp
qed

text \<open>
  The receive buffer is not terminated behind what was read: when a request is taken from
  the buffer and the start \<open>x\<close> of the next one, shorter than the taken one's head, moves to the
  front, the end of the taken request is still in the buffer and completes it. The head is then
  processed (or refused) at once, while the same \<open>x\<close> on a new connection waits for the rest.
\<close>

theorem stale_head_completes:
  assumes "cbuf c = a @ CRLF @ CRLF @ x @ NUL # z" "cbcnt c = length a + 4 + length x" "NUL \<notin> set (a @ x)"
    "length x \<le> length a" "\<not> has_sub (CRLF @ CRLF) x"
    "con_header_read env (buf_shift (length a + 4) c) w = Val (r, m, c', w')"
    "cbuf c0 = x @ NUL # z'" "cbcnt c0 = length x" "length x < MAX_HEADER_SIZE - 1"
  shows "r \<noteq> HEAD_AGAIN \<and> con_header_read env c0 w = Val (HEAD_AGAIN, 0, c0, w)"
proof
  let ?c = "buf_shift (length a + 4) c"
  have "cbuf ?c = x @ drop (length x) (a @ CRLF @ CRLF @ x @ NUL # z)"
    using assms(1,2) by (simp add: buf_shift_def CRLF_def)
  also have "\<dots> = (x @ drop (length x) a) @ (CRLF @ CRLF) @ x @ NUL # z" using assms(4) by simp
  finally have b: "cbuf ?c = ((x @ drop (length x) a) @ (CRLF @ CRLF) @ x) @ NUL # z" by simp
  have "NUL \<notin> set ((x @ drop (length x) a) @ (CRLF @ CRLF) @ x)"
    using assms(3) by (auto simp: CRLF_def NUL_def dest: in_set_dropD)
  then have "cstr (cbuf ?c) = (x @ drop (length x) a) @ (CRLF @ CRLF) @ x"
    unfolding b cstr_def by (subst takeWhile_append2) auto
  then have "strstr (cstr (cbuf ?c)) (CRLF @ CRLF) \<noteq> None" by (simp only: strstr_found not_False_eq_True)
  from head_not_again [OF this assms(6)] show "r \<noteq> HEAD_AGAIN" .
  have "cstr (cbuf c0) = x" unfolding assms(7) cstr_def using assms(3) by (subst takeWhile_append2) auto
  moreover have "strstr s n = None" if "\<not> has_sub n s" for s n
    using that by (induction s) auto
  ultimately show "con_header_read env c0 w = Val (HEAD_AGAIN, 0, c0, w)"
    using assms(5,8,9) by (simp add: con_header_read_def)
qed

definition stale_con :: "nat agoo_con" where
  "stale_con = con0\<lparr>cbuf := ''HEAD /a HTTP/1.1'' @ CRLF @ CRLF @ ''HEAD /b'' @ [NUL], cbcnt := 27\<rparr>"

definition fresh_con :: "nat agoo_con" where
  "fresh_con = con0\<lparr>cbuf := ''HEAD /b'' @ [NUL], cbcnt := 7\<rparr>"

lemma stale_head_completes_witness:
  "\<exists>r m c' w'. con_header_read env0 (buf_shift 20 stale_con) world0 = Val (r, m, c', w') \<and> r \<noteq> HEAD_AGAIN \<and>
     con_header_read env0 fresh_con world0 = Val (HEAD_AGAIN, 0, fresh_con, world0)"
proof -
  have "case con_header_read env0 (buf_shift 20 stale_con) world0 of UB \<Rightarrow> False | Val _ \<Rightarrow> True" by code_simp
  then obtain r m c' w' where h: "con_header_read env0 (buf_shift 20 stale_con) world0 = Val (r, m, c', w')"
    by (cases "con_header_read env0 (buf_shift 20 stale_con) world0") auto
  have "r \<noteq> HEAD_AGAIN \<and> con_header_read env0 fresh_con world0 = Val (HEAD_AGAIN, 0, fresh_con, world0)"
  proof (rule stale_head_completes)
    show "cbuf stale_con = ''HEAD /a HTTP/1.1'' @ CRLF @ CRLF @ ''HEAD /b'' @ NUL # []" by (simp add: stale_con_def)
    show "cbuf fresh_con = ''HEAD /b'' @ NUL # []" by (simp add: fresh_con_def)
    show "\<not> has_sub (CRLF @ CRLF) ''HEAD /b''" by (simp add: CRLF_def)
    show "con_header_read env0 (buf_shift (length ''HEAD /a HTTP/1.1'' + 4) stale_con) world0 = Val (r, m, c', w')"
      using h by (simp add: numeral_eq_Suc)
  qed (simp_all add: stale_con_def fresh_con_def NUL_def MAX_HEADER_SIZE_def)
  with h show ?thesis by blast
qed

end
