(* ===== verification/ConWrite.thy ===== *)
theory ConWrite
  imports ConRead
begin

text \<open>
  The writing side of \<open>ext/agoo/con.c\<close>: the write functions of the three kinds of connections, the
  events they wait for, and the handlers the poll loop calls (\<open>con_ready_io\<close>, \<open>con_ready_check\<close>,
  \<open>con_ready_read\<close>, \<open>con_ready_write\<close>).
\<close>

section \<open>Sending\<close>

text \<open>
  What the call that sends gives: bytes are taken, never more than are offered; an error with
  \<open>EAGAIN\<close> (for TLS without a code); any other error.
\<close>

datatype send_result = SENT nat | SEND_AGAIN | SEND_ERR

text \<open>
  A text is grown by \<open>realloc\<close>, which may move it: the old address is freed then and the
  responses that hold it are not told.
\<close>

definition w_grow :: "'h con_env \<Rightarrow> (agoo_text \<Rightarrow> agoo_text option mem) \<Rightarrow> nat \<Rightarrow> 'h world \<Rightarrow> (nat option \<times> 'h world) mem" where
  "w_grow env f a w =
    mem_bind (w_get a w) (\<lambda>t.
    mem_bind (f t) (\<lambda>t'.
      case t' of
        None \<Rightarrow> Val (None, w)
      | Some t' \<Rightarrow>
          if talen t' \<noteq> talen t \<and> ev_moves env
          then Val (Some (wnext w), w\<lparr>wnext := wnext w + 1, wtexts := (wtexts w)(a := None, wnext w \<mapsto> t')\<rparr>)
          else Val (Some a, w\<lparr>wtexts := (wtexts w)(a \<mapsto> t')\<rparr>)))"

text \<open>
  A message is expanded before its first byte is sent. A moved one is pushed to the response,
  which does nothing for a response that is final and follows the freed text for another.
\<close>

definition w_expand :: "'h con_env \<Rightarrow> (agoo_text \<Rightarrow> agoo_text option mem) \<Rightarrow> nat \<Rightarrow> nat \<Rightarrow> 'h world \<Rightarrow> (nat option \<times> 'h world) mem" where
  "w_expand env f r a w =
    mem_bind (w_grow env f a w) (\<lambda>(b, w).
      if b = Some a then Val (b, w)
      else mem_bind (w_res r w) (\<lambda>rs.
        if \<not> rsfinal rs then UB
        else mem_bind (agoo_res_message_push r b w) (\<lambda>w. Val (b, w))))"

text \<open>The rest of a message from the write count on, as far as it is taken.\<close>

definition sent_of :: "nat \<Rightarrow> 'h agoo_con \<Rightarrow> agoo_text \<Rightarrow> string" where
  "sent_of n c t = take n (drop (cwcnt c) (content t))"

text \<open>
  After sending: a message that is finished is released; \<open>done\<close> tells from the response whether
  it is over when there is no next message. The result is false to close the connection.
\<close>

definition write_end :: "(agoo_res \<Rightarrow> bool) \<Rightarrow> nat \<Rightarrow> agoo_text \<Rightarrow> string \<Rightarrow> 'h agoo_con \<Rightarrow> 'h world
    \<Rightarrow> (bool \<times> string \<times> 'h agoo_con \<times> 'h world) mem" where
  "write_end over r t d c w =
    (let c = c\<lparr>cwcnt := cwcnt c + length d\<rparr>
     in if cwcnt c = tlen t then
          mem_bind (agoo_res_message_next r w) (\<lambda>(next, w).
          mem_bind (w_res r w) (\<lambda>rs.
            let c = c\<lparr>cwcnt := 0\<rparr>
            in if next = None \<and> over rs
               then mem_bind (agoo_res_destroy r w) (\<lambda>w. Val (\<not> rsclose rs, d, c, w))
               else Val (True, d, agoo_con_res_prepend c r, w)))
        else Val (True, d, agoo_con_res_prepend c r, w))"

definition agoo_con_http_write :: "'h con_env \<Rightarrow> send_result \<Rightarrow> 'h agoo_con \<Rightarrow> 'h world
    \<Rightarrow> (bool \<times> string \<times> 'h agoo_con \<times> 'h world) mem" where
  "agoo_con_http_write env io c w =
    (case agoo_con_res_pop c of
       (None, c) \<Rightarrow> UB
     | (Some r, c) \<Rightarrow>
         mem_bind (agoo_res_message_peek r w) (\<lambda>message.
         case message of
           None \<Rightarrow> Val (True, [], c, w)
         | Some a \<Rightarrow>
             mem_bind (w_get a w) (\<lambda>t.
               let c = c\<lparr>ctimeout := ev_now env + ev_timeout env\<rparr>
               in case io of
                    SEND_AGAIN \<Rightarrow> Val (True, [], c, w)
                  | SEND_ERR \<Rightarrow> Val (False, [], c\<lparr>cdead := True\<rparr>, w)
                  | SENT n \<Rightarrow> write_end rsfinal r t (sent_of n c t) c w)))"

definition ping_msg :: string where
  "ping_msg = [chr_of 0x89, chr_of 0x00]"

definition pong_msg :: string where
  "pong_msg = [chr_of 0x8A, chr_of 0x00]"

definition socket_msg :: "'h agoo_con \<Rightarrow> string" where
  "socket_msg c = ''Socket error @ '' @ dec_str (cid c) @ ''.''"

text \<open>A ping or a pong; the response is not put back and not destroyed.\<close>

definition write_control :: "'h con_env \<Rightarrow> string \<Rightarrow> send_result \<Rightarrow> nat \<Rightarrow> 'h agoo_con \<Rightarrow> 'h world
    \<Rightarrow> (bool \<times> string \<times> 'h agoo_con \<times> 'h world) mem" where
  "write_control env bs io r c w =
    (case io of
       SENT n \<Rightarrow> Val (True, take n bs, c, w)
     | SEND_AGAIN \<Rightarrow> Val (True, [], c, w)
     | SEND_ERR \<Rightarrow>
         mem_bind (push_error env (cup c) (socket_msg c) w) (\<lambda>w.
         mem_bind (agoo_ws_req_close env c w) (\<lambda>w.
         mem_bind (agoo_res_destroy r w) (\<lambda>w. Val (False, [], c, w)))))"

definition con_ws_write :: "'h con_env \<Rightarrow> send_result \<Rightarrow> 'h agoo_con \<Rightarrow> 'h world
    \<Rightarrow> (bool \<times> string \<times> 'h agoo_con \<times> 'h world) mem" where
  "con_ws_write env io c w =
    (case agoo_con_res_pop c of
       (None, c) \<Rightarrow> UB
     | (Some r, c) \<Rightarrow>
         mem_bind (agoo_res_message_peek r w) (\<lambda>message.
         mem_bind (w_res r w) (\<lambda>rs.
         case message of
           None \<Rightarrow>
             if rsping rs then write_control env ping_msg io r c w
             else if rspong rs then write_control env pong_msg io r c w
             else mem_bind (agoo_ws_req_close env c w) (\<lambda>w.
                  mem_bind (agoo_res_destroy r w) (\<lambda>w. Val (False, [], c, w)))
         | Some a \<Rightarrow>
             let c = c\<lparr>ctimeout := ev_now env + ev_timeout env\<rparr>
             in mem_bind (if cwcnt c = 0 then w_expand env (agoo_ws_expand (ev_mal env)) r a w else Val (Some a, w)) (\<lambda>(b, w).
                case b of
                  None \<Rightarrow> UB
                | Some b \<Rightarrow>
                    mem_bind (w_get b w) (\<lambda>t.
                    case io of
                      SEND_AGAIN \<Rightarrow> Val (True, [], c, w)
                    | SEND_ERR \<Rightarrow>
                        mem_bind (push_error env (cup c) (socket_msg c) w) (\<lambda>w.
                        mem_bind (agoo_ws_req_close env c w) (\<lambda>w. Val (False, [], c, w)))
                    | SENT n \<Rightarrow> write_end rsfinal r t (sent_of n c t) c w)))))"

definition con_sse_write :: "'h con_env \<Rightarrow> send_result \<Rightarrow> 'h agoo_con \<Rightarrow> 'h world
    \<Rightarrow> (bool \<times> string \<times> 'h agoo_con \<times> 'h world) mem" where
  "con_sse_write env io c w =
    (case agoo_con_res_pop c of
       (None, c) \<Rightarrow> UB
     | (Some r, c) \<Rightarrow>
         mem_bind (agoo_res_message_peek r w) (\<lambda>message.
         case message of
           None \<Rightarrow> mem_bind (agoo_res_destroy r w) (\<lambda>w. Val (False, [], c, w))
         | Some a \<Rightarrow>
             let c = c\<lparr>ctimeout := ev_now env + ev_timeout env * 2\<rparr>
             in mem_bind (if cwcnt c = 0 then w_expand env (\<lambda>t. agoo_sse_expand (ev_mal env) (Some t)) r a w else Val (Some a, w)) (\<lambda>(b, w).
                case b of
                  None \<Rightarrow> UB
                | Some b \<Rightarrow>
                    mem_bind (w_get b w) (\<lambda>t.
                    case io of
                      SEND_AGAIN \<Rightarrow> Val (True, [], c, w)
                    | SEND_ERR \<Rightarrow> mem_bind (push_error env (cup c) (socket_msg c) w) (\<lambda>w. Val (False, [], c, w))
                    | SENT n \<Rightarrow> write_end (\<lambda>_. True) r t (sent_of n c t) c w))))"

section \<open>Events\<close>

datatype ready_io = AGOO_READY_NONE | AGOO_READY_IN | AGOO_READY_OUT | AGOO_READY_BOTH

text \<open>The first response of a connection.\<close>

definition head_res :: "'h agoo_con \<Rightarrow> 'h world \<Rightarrow> agoo_res option mem" where
  "head_res c w = (case agoo_con_res_peek c of None \<Rightarrow> Val None | Some r \<Rightarrow> mem_bind (w_res r w) (\<lambda>rs. Val (Some rs)))"

definition agoo_con_http_events :: "'h agoo_con \<Rightarrow> 'h world \<Rightarrow> ready_io mem" where
  "agoo_con_http_events c w =
    mem_bind (head_res c w) (\<lambda>res.
      Val (case res of
             Some rs \<Rightarrow> if rsmsgs rs \<noteq> [] then AGOO_READY_BOTH else if cclosing c then AGOO_READY_NONE else AGOO_READY_IN
           | None \<Rightarrow> if cclosing c then AGOO_READY_NONE else AGOO_READY_IN))"

definition con_ws_events :: "'h agoo_con \<Rightarrow> 'h world \<Rightarrow> ready_io mem" where
  "con_ws_events c w =
    mem_bind (head_res c w) (\<lambda>res.
      Val (case res of
             Some rs \<Rightarrow> if rsclose rs \<or> rsping rs \<or> rsmsgs rs \<noteq> [] then AGOO_READY_BOTH
               else if cclosing c then AGOO_READY_NONE else AGOO_READY_IN
           | None \<Rightarrow> if cclosing c then AGOO_READY_NONE else AGOO_READY_IN))"

definition con_sse_events :: "'h agoo_con \<Rightarrow> 'h world \<Rightarrow> ready_io mem" where
  "con_sse_events c w =
    mem_bind (head_res c w) (\<lambda>res.
      Val (case res of Some rs \<Rightarrow> if rsmsgs rs \<noteq> [] then AGOO_READY_OUT else AGOO_READY_NONE | None \<Rightarrow> AGOO_READY_NONE))"

section \<open>Handlers of the poll loop\<close>

definition con_ready_io :: "'h agoo_con \<Rightarrow> 'h world \<Rightarrow> ready_io mem" where
  "con_ready_io c w =
    (if cdead c \<or> \<not> csock c then Val AGOO_READY_NONE
     else case ckind c of
            AGOO_CON_WS \<Rightarrow> con_ws_events c w
          | AGOO_CON_SSE \<Rightarrow> con_sse_events c w
          | _ \<Rightarrow> agoo_con_http_events c w)"

text \<open>The responses of a dead connection are dropped up to the first that still waits for its message.\<close>

fun remove_dead_res :: "nat list \<Rightarrow> 'h world \<Rightarrow> (nat list \<times> 'h world) mem" where
  "remove_dead_res [] w = Val ([], w)"
| "remove_dead_res (r # rs) w =
     mem_bind (w_res r w) (\<lambda>x.
       if rsmsgs x = [] \<and> \<not> rsclose x \<and> \<not> rsping x then Val (r # rs, w)
       else mem_bind (agoo_res_destroy r w) (\<lambda>w. remove_dead_res rs w))"

text \<open>True when the connection is to be destroyed. A time out of 0 is none.\<close>

definition con_ready_check :: "'h con_env \<Rightarrow> int \<Rightarrow> 'h agoo_con \<Rightarrow> 'h world \<Rightarrow> (bool \<times> 'h agoo_con \<times> 'h world) mem" where
  "con_ready_check env now c w =
    (let dead = mem_bind (remove_dead_res (cres c) w) (\<lambda>(rs, w). Val (rs = [], c\<lparr>cres := rs\<rparr>, w))
     in if cdead c \<or> \<not> csock c then dead
        else if ctimeout c = 0 \<or> now < ctimeout c then Val (False, c, w)
        else if cclosing c then dead
        else if ckind c = AGOO_CON_WS \<or> ckind c = AGOO_CON_SSE then
          let c = c\<lparr>ctimeout := ev_now env + ev_timeout env\<rparr>
          in if ckind c = AGOO_CON_WS
             then mem_bind (agoo_ws_ping env c w) (\<lambda>(c, w). Val (False, c, w))
             else Val (False, c, w)
        else Val (False, c\<lparr>cclosing := True, ctimeout := now + 500\<rparr>, w))"

definition con_ready_read :: "'h con_env \<Rightarrow> nat \<Rightarrow> recv_result \<Rightarrow> 'h agoo_con \<Rightarrow> 'h world
    \<Rightarrow> (bool \<times> 'h agoo_con \<times> 'h world) mem option" where
  "con_ready_read env n io c w =
    (let fin = map_option (\<lambda>m. mem_bind m (\<lambda>(close, c, w). Val (if close then (False, c\<lparr>cdead := True\<rparr>, w) else (True, c, w))))
     in case ckind c of
          AGOO_CON_SSE \<Rightarrow> Some (Val (True, c, w))
        | AGOO_CON_WS \<Rightarrow> fin (con_ws_read env n io c w)
        | _ \<Rightarrow> fin (agoo_con_http_read env n io c w))"

text \<open>The kind of a response that has been written, even in part, becomes that of the connection.\<close>

definition next_kind :: "con_kind \<Rightarrow> agoo_res \<Rightarrow> con_kind" where
  "next_kind k rs = (if rskind rs = AGOO_CON_WS \<or> rskind rs = AGOO_CON_SSE then rskind rs else k)"

definition con_ready_write :: "'h con_env \<Rightarrow> send_result \<Rightarrow> 'h agoo_con \<Rightarrow> 'h world
    \<Rightarrow> (bool \<times> string \<times> 'h agoo_con \<times> 'h world) mem" where
  "con_ready_write env io c w =
    mem_bind (head_res c w) (\<lambda>res.
    case res of
      None \<Rightarrow> Val (False, [], c\<lparr>cdead := True\<rparr>, w)
    | Some rs \<Rightarrow>
        mem_bind (case ckind c of
                    AGOO_CON_WS \<Rightarrow> con_ws_write env io c w
                  | AGOO_CON_SSE \<Rightarrow> con_sse_write env io c w
                  | _ \<Rightarrow> agoo_con_http_write env io c w) (\<lambda>(keep, d, c, w).
          Val (if keep then (True, d, c\<lparr>ckind := next_kind (ckind c) rs\<rparr>, w)
               else (False, d, c\<lparr>cdead := True\<rparr>, w))))"

end
