(* ===== verification/ConOut.thy ===== *)
theory ConOut
  imports ConWrite
begin

text \<open>
  What a connection sends. The responses queued in a connection stand for a stream of bytes: the
  messages of an HTTP connection as they are, those of a WebSocket or event connection framed,
  with the change of kind after the response that upgrades. The writes of the poll loop, however
  the kernel splits them, send that stream.
\<close>

section \<open>Growing within the reserve\<close>

lemma text_prepend_fits:
  assumes "text_ok t" "terminated t" "arg_len s len \<le> length s" "tlen t + arg_len s len < talen t"
  shows "\<exists>t'. agoo_text_prepend mal (Some t) s len = Val (Some t') \<and> text_ok t' \<and> terminated t' \<and>
     content t' = take (arg_len s len) s @ content t \<and> talen t' = talen t \<and> tlen t' = tlen t + arg_len s len"
proof -
  have g: "text_grow m t (arg_len s len) = Some t" for m using assms(4) by (simp add: text_grow_def)
  have eq: "agoo_text_prepend mal (Some t) s len = agoo_text_prepend mal0 (Some t) s len"
    by (simp add: agoo_text_prepend_def Let_def g)
  have "\<not> refused mal0 t (arg_len s len)" using assms(4) by (simp add: refused_def)
  then obtain t' where t': "agoo_text_prepend mal0 (Some t) s len = Val (Some t')" "text_ok t'" "terminated t'"
    "content t' = take (arg_len s len) s @ content t"
    using text_prepend_ok_len [OF mal0_ok assms(1-3)] by auto
  have "talen t' = talen t \<and> tlen t' = tlen t + arg_len s len"
    using t'(1) by (auto simp: agoo_text_prepend_def Let_def g mem_bind_eq_Val)
  with t' eq show ?thesis by auto
qed

lemma text_append_fits:
  assumes "text_ok t" "arg_len s len \<le> length s" "tlen t + arg_len s len < talen t"
  shows "\<exists>t'. agoo_text_append mal (Some t) s len = Val (Some t') \<and> text_ok t' \<and> terminated t' \<and>
     content t' = content t @ take (arg_len s len) s \<and> talen t' = talen t \<and> tlen t' = tlen t + arg_len s len"
proof -
  have g: "text_grow m t (arg_len s len) = Some t" for m using assms(3) by (simp add: text_grow_def)
  have eq: "agoo_text_append mal (Some t) s len = agoo_text_append mal0 (Some t) s len"
    by (simp add: agoo_text_append_def Let_def g)
  have "\<not> refused mal0 t (length (take (arg_len s len) s))" using assms(2,3) by (simp add: refused_def)
  then obtain t' where t': "agoo_text_append mal0 (Some t) s len = Val (Some t')" "text_ok t'" "terminated t'"
    "content t' = content t @ take (arg_len s len) s"
    using text_append_ok_len [OF mal0_ok assms(1,2)] by (auto simp: appended_def)
  have "talen t' = talen t \<and> tlen t' = tlen t + arg_len s len"
    using t'(1) by (auto simp: agoo_text_append_def Let_def g mem_bind_eq_Val)
  with t' eq show ?thesis by auto
qed

section \<open>The stream of a connection\<close>

text \<open>A message as a connection of the kind sends it, and the room its expansion needs.\<close>

definition framed :: "con_kind \<Rightarrow> agoo_text \<Rightarrow> string" where
  "framed k t = (case k of
       AGOO_CON_WS \<Rightarrow> ws_frame (if tbin t then AGOO_WS_OP_BIN else AGOO_WS_OP_TEXT) None (content t)
     | AGOO_CON_SSE \<Rightarrow> sse_prefix @ content t @ sse_suffix
     | _ \<Rightarrow> content t)"

definition has_room :: "con_kind \<Rightarrow> agoo_text \<Rightarrow> bool" where
  "has_room k t \<longleftrightarrow> (k = AGOO_CON_WS \<or> k = AGOO_CON_SSE \<longrightarrow> tlen t + 32 \<le> talen t \<and> tlen t < 2 ^ 63)"

text \<open>The messages queued, in order, each with the kind of the connection when it is its turn.\<close>

fun out_msgs :: "con_kind \<Rightarrow> 'h world \<Rightarrow> nat list \<Rightarrow> (con_kind \<times> nat) list" where
  "out_msgs k w [] = []"
| "out_msgs k w (r # rs) =
     (case wress w r of
        None \<Rightarrow> []
      | Some x \<Rightarrow>
          let k' = next_kind k x
          in (case rsmsgs x of [] \<Rightarrow> [] | a # as \<Rightarrow> (k, a) # map (Pair k') as) @
             (if rsclose x then [] else out_msgs k' w rs))"

definition msg_bytes :: "'h world \<Rightarrow> con_kind \<times> nat \<Rightarrow> string" where
  "msg_bytes w m = (case m of (k, a) \<Rightarrow> case wtexts w a of None \<Rightarrow> [] | Some t \<Rightarrow> framed k t)"

text \<open>What is left to send; a message of which some bytes have been sent is framed already.\<close>

definition out_left :: "'h agoo_con \<Rightarrow> 'h world \<Rightarrow> string" where
  "out_left c w =
    (if cdead c then []
     else let ms = out_msgs (ckind c) w (cres c)
          in if cwcnt c = 0 then concat (map (msg_bytes w) ms)
             else (case ms of [] \<Rightarrow> [] | (k, a) # ms \<Rightarrow>
               (case wtexts w a of None \<Rightarrow> [] | Some t \<Rightarrow> drop (cwcnt c) (content t)) @ concat (map (msg_bytes w) ms)))"

text \<open>A bound on the writes needed to send it.\<close>

definition out_work :: "'h agoo_con \<Rightarrow> 'h world \<Rightarrow> nat" where
  "out_work c w = (if cdead c then 0 else Suc (length (out_left c w) + length (out_msgs (ckind c) w (cres c))))"

text \<open>
  The queue of a connection is in order: its responses are allocated, none is a ping or a pong,
  their messages are different texts, those still to be expanded have room for it, the write
  count is inside the first message, and the upgraded connection exists.
\<close>

definition text_fit :: "'h world \<Rightarrow> bool \<Rightarrow> con_kind \<times> nat \<Rightarrow> bool" where
  "text_fit w fresh m \<longleftrightarrow> (case m of (k, a) \<Rightarrow> case wtexts w a of None \<Rightarrow> False
     | Some t \<Rightarrow> text_ok t \<and> terminated t \<and> (fresh \<longrightarrow> has_room k t))"

definition out_ok :: "'h agoo_con \<Rightarrow> 'h world \<Rightarrow> bool" where
  "out_ok c w \<longleftrightarrow>
    (let ms = out_msgs (ckind c) w (cres c)
     in (\<forall>u. cup c = Some u \<longrightarrow> wups w u \<noteq> None) \<and> distinct (cres c) \<and> list_all (\<lambda>r. \<exists>x. wress w r = Some x \<and> \<not> rsping x \<and> \<not> rspong x) (cres c) \<and>
        distinct (map snd ms) \<and>
        (case ms of [] \<Rightarrow> True | m # ms \<Rightarrow> text_fit w (cwcnt c = 0) m \<and> list_all (text_fit w True) ms) \<and>
        (cwcnt c = 0 \<or> (\<exists>r x a as t. cres c \<noteq> [] \<and> r = hd (cres c) \<and> wress w r = Some x \<and> rsmsgs x = a # as \<and>
           wtexts w a = Some t \<and> cwcnt c < tlen t)))"

text \<open>The connection waits to be able to write.\<close>

definition out_ready :: "'h agoo_con \<times> 'h world \<Rightarrow> bool" where
  "out_ready s = (case s of (c, w) \<Rightarrow> con_ready_io c w = Val AGOO_READY_OUT \<or> con_ready_io c w = Val AGOO_READY_BOTH)"

section \<open>One write\<close>

lemma out_msgs_cong: "(\<And>r. r \<in> set rs \<Longrightarrow> wress w' r = wress w r) \<Longrightarrow> out_msgs k w' rs = out_msgs k w rs"
  by (induction rs arbitrary: k) (auto simp: Let_def split: option.split)

lemma next_kind_idem [simp]: "next_kind (next_kind k x) x = next_kind k x"
  by (simp add: next_kind_def)

lemma next_kind_upd [simp]: "next_kind k (x\<lparr>rsmsgs := as\<rparr>) = next_kind k x"
  by (simp add: next_kind_def)

text \<open>The rest of the queue is not touched by what happens to a text and a response that are not in it.\<close>

lemma rest_same:
  assumes "a \<notin> snd ` set ms" "\<And>b. b \<noteq> a \<Longrightarrow> wtexts w' b = wtexts w b"
  shows "map (msg_bytes w') ms = map (msg_bytes w) ms" "list_all (text_fit w' True) ms = list_all (text_fit w True) ms"
proof -
  have "wtexts w' (snd m) = wtexts w (snd m)" if "m \<in> set ms" for m using assms that by force
  then show "map (msg_bytes w') ms = map (msg_bytes w) ms" "list_all (text_fit w' True) ms = list_all (text_fit w True) ms"
    by (auto simp: msg_bytes_def text_fit_def list_all_iff split: prod.splits)
qed

lemma out_fresh:
  assumes "\<not> cdead c" "cwcnt c = 0" "out_msgs (ckind c) w (cres c) = ms" "distinct (cres c)" "distinct (map snd ms)"
    "list_all (\<lambda>r. \<exists>x. wress w r = Some x \<and> \<not> rsping x \<and> \<not> rspong x) (cres c)" "list_all (text_fit w True) ms"
    "\<forall>u. cup c = Some u \<longrightarrow> wups w u \<noteq> None"
  shows "out_ok c w \<and> out_left c w = concat (map (msg_bytes w) ms) \<and>
     out_work c w = Suc (length (concat (map (msg_bytes w) ms)) + length ms)"
  using assms by (cases ms) (auto simp: out_ok_def out_left_def out_work_def)

text \<open>
  The end of a write, from the state in which the text \<open>t\<close> at the head is as it is sent: what
  was sent and what is left make up what was to be sent.
\<close>

definition out_next :: "con_kind \<Rightarrow> agoo_res \<Rightarrow> 'h world \<Rightarrow> nat list \<Rightarrow> nat list \<Rightarrow> (con_kind \<times> nat) list" where
  "out_next k x w as rs = map (Pair (next_kind k x)) as @ (if rsclose x then [] else out_msgs (next_kind k x) w rs)"

definition after_write :: "con_kind \<Rightarrow> agoo_res \<Rightarrow> bool \<Rightarrow> 'h agoo_con \<Rightarrow> 'h agoo_con" where
  "after_write k x keep c = (if keep then c\<lparr>ckind := next_kind k x\<rparr> else c\<lparr>cdead := True\<rparr>)"

lemma dead_out: "cdead c \<Longrightarrow> out_left c w = []" "cdead c \<Longrightarrow> out_work c w = 0"
  by (simp_all add: out_left_def out_work_def)

lemma write_end_out:
  fixes c :: "'h agoo_con"
  assumes c: "\<not> cdead c" "cres c = rs" "d = sent_of n c t" "0 < n" "cwcnt c < tlen t \<or> cwcnt c = 0 \<and> tlen t = 0"
    and x: "wress w r = Some x" "rsmsgs x = a # as" "\<not> rsping x" "\<not> rspong x"
    and t: "wtexts w a = Some t" "text_ok t" "terminated t"
    and rest: "rest = out_next (ckind c) x w as rs" "distinct (a # map snd rest)" "list_all (text_fit w True) rest"
    and up: "\<forall>u. cup c = Some u \<longrightarrow> wups w u \<noteq> None"
    and rs: "distinct (r # rs)" "list_all (\<lambda>r. \<exists>x. wress w r = Some x \<and> \<not> rsping x \<and> \<not> rspong x) rs"
  shows "\<exists>keep c' w'. write_end over r t d c w = Val (keep, d, c', w') \<and> ckind c' = ckind c \<and>
    (let c' = after_write (ckind c) x keep c'
     in (cdead c' \<or> out_ok c' w') \<and> drop (cwcnt c) (content t) @ concat (map (msg_bytes w) rest) = d @ out_left c' w' \<and>
        out_work c' w' \<le> length (drop (cwcnt c) (content t) @ concat (map (msg_bytes w) rest)) + length rest + 1)"
proof -
  have lc: "length (content t) = tlen t" using t(2) by simp
  let ?k = "next_kind (ckind c) x"
  have an: "a \<notin> snd ` set rest" using rest(2) by simp
  have al: "list_all (\<lambda>r. \<exists>x. wress w' r = Some x \<and> \<not> rsping x \<and> \<not> rspong x) rs"
    if "\<And>q. q \<noteq> r \<Longrightarrow> wress w' q = wress w q" for w' :: "'h world"
    unfolding list_all_iff
  proof
    fix q assume "q \<in> set rs"
    then show "\<exists>x. wress w' q = Some x \<and> \<not> rsping x \<and> \<not> rspong x"
      using rs that [of q] by (force simp: list_all_iff)
  qed
  show ?thesis
  proof (cases "cwcnt c + length d = tlen t")
    case False
    have dpos: "d \<noteq> []" using c(3-5) lc False by (auto simp: sent_of_def)
    have dl: "cwcnt c + length d < tlen t" using False c(3,5) lc by (auto simp: sent_of_def min_def split: if_splits)
    define c' where "c' = agoo_con_res_prepend (c\<lparr>cwcnt := cwcnt c + length d\<rparr>) r"
    have e: "write_end over r t d c w = Val (True, d, c', w)" using False by (simp add: write_end_def c'_def Let_def)
    have f: "cres c' = r # rs" "cwcnt c' = cwcnt c + length d" "cdead c' = cdead c" "cup c' = cup c" "ckind c' = ckind c"
      using c(2) by (simp_all add: c'_def agoo_con_res_prepend_def)
    have ms: "out_msgs ?k w (r # rs) = (?k, a) # rest" using x rest(1) by (simp add: Let_def out_next_def)
    have spl: "drop (cwcnt c) (content t) = d @ drop (cwcnt c + length d) (content t)"
      unfolding c(3) sent_of_def using lc c(5)
      by (metis append_take_drop_id c(3) drop_drop add.commute sent_of_def append_eq_conv_conj drop_eq_Nil)
    have ok: "out_ok (c'\<lparr>ckind := ?k\<rparr>) w"
      using ms f x t rest rs dl dpos up by (auto simp: out_ok_def text_fit_def)
    have left: "out_left (c'\<lparr>ckind := ?k\<rparr>) w = drop (cwcnt c + length d) (content t) @ concat (map (msg_bytes w) rest)"
      using ms f c(1) t dpos by (simp add: out_left_def)
    have "1 \<le> length d" using dpos by (cases d) simp_all
    then show ?thesis using e ok spl ms f c(1) left
      by (intro exI [of _ True] exI [of _ c'] exI [of _ w]) (simp add: after_write_def out_work_def)
  next
    case True
    have d: "d = drop (cwcnt c) (content t)" using True c(3) lc by (auto simp: sent_of_def)
    let ?w = "w\<lparr>wtexts := (wtexts w)(a := agoo_text_release t)\<rparr>"
    let ?w1 = "w_res_set r (x\<lparr>rsmsgs := as\<rparr>) ?w"
    have nx: "agoo_res_message_next r w = Val (case as of [] \<Rightarrow> None | b # _ \<Rightarrow> Some b, ?w1)"
      using x t by (simp add: agoo_res_message_next_def w_res_def w_release_def)
    have g: "w_res r ?w1 = Val (x\<lparr>rsmsgs := as\<rparr>)" by (simp add: w_res_def w_res_set_def)
    note same = rest_same [OF an]
    show ?thesis
    proof (cases "as = [] \<and> over (x\<lparr>rsmsgs := as\<rparr>)")
      case True': True
      then have fin: "as = []" "over (x\<lparr>rsmsgs := []\<rparr>)" by auto
      let ?w2 = "w_res_set r (x\<lparr>rsmsgs := []\<rparr>) ?w1\<lparr>wcache := wcache ?w1 @ [r]\<rparr>"
      have ds: "agoo_res_destroy r ?w1 = Val ?w2" using g fin by (simp add: agoo_res_destroy_def)
      have e: "write_end over r t d c w = Val (\<not> rsclose x, d, c\<lparr>cwcnt := 0\<rparr>, ?w2)"
        using True fin nx g ds by (simp add: write_end_def Let_def)
      show ?thesis
      proof (cases "rsclose x")
        case True
        then show ?thesis using e d fin rest(1) by (simp add: after_write_def out_next_def dead_out ex_bool_eq)
      next
        case False
        have "out_msgs ?k ?w2 rs = out_msgs ?k w rs"
          by (rule out_msgs_cong) (use rs(1) in \<open>auto simp: w_res_set_def\<close>)
        then have ms: "out_msgs ?k ?w2 rs = rest" using False fin rest(1) by (simp add: out_next_def)
        have sm: "map (msg_bytes ?w2) rest = map (msg_bytes w) rest" by (rule same(1)) (simp add: w_res_set_def)
        have o: "out_ok (c\<lparr>cwcnt := 0, ckind := ?k\<rparr>) ?w2 \<and>
            out_left (c\<lparr>cwcnt := 0, ckind := ?k\<rparr>) ?w2 = concat (map (msg_bytes ?w2) rest) \<and>
            out_work (c\<lparr>cwcnt := 0, ckind := ?k\<rparr>) ?w2 = Suc (length (concat (map (msg_bytes ?w2) rest)) + length rest)"
          by (rule out_fresh) (use c ms rs rest up same(2) [of ?w2 w] al [of ?w2] in \<open>auto simp: w_res_set_def\<close>)
        show ?thesis using e d False o [unfolded sm] by (simp add: after_write_def ex_bool_eq)
      qed
    next
      case nfin: False
      let ?c = "agoo_con_res_prepend (c\<lparr>cwcnt := 0\<rparr>) r"
      have e: "write_end over r t d c w = Val (True, d, ?c, ?w1)"
        using True nfin nx g by (auto simp: write_end_def Let_def split: list.split)
      have "out_msgs ?k ?w1 rs = out_msgs ?k w rs"
        by (rule out_msgs_cong) (use rs(1) in \<open>auto simp: w_res_set_def\<close>)
      moreover have "wress ?w1 r = Some (x\<lparr>rsmsgs := as\<rparr>)" by (simp add: w_res_set_def)
      ultimately have ms: "out_msgs ?k ?w1 (r # rs) = rest"
        using rest(1) by (simp add: out_next_def Let_def split: list.split)
      have sm: "map (msg_bytes ?w1) rest = map (msg_bytes w) rest" by (rule same(1)) (simp add: w_res_set_def)
      have o: "out_ok (?c\<lparr>ckind := ?k\<rparr>) ?w1 \<and> out_left (?c\<lparr>ckind := ?k\<rparr>) ?w1 = concat (map (msg_bytes ?w1) rest) \<and>
          out_work (?c\<lparr>ckind := ?k\<rparr>) ?w1 = Suc (length (concat (map (msg_bytes ?w1) rest)) + length rest)"
        by (rule out_fresh)
          (use c ms x rs rest up same(2) [of ?w1 w] al [of ?w1] in \<open>auto simp: w_res_set_def agoo_con_res_prepend_def\<close>)
      have "ckind ?c = ckind c" by (simp add: agoo_con_res_prepend_def)
      then show ?thesis using e d o [unfolded sm] by (simp add: after_write_def ex_bool_eq)
    qed
  qed
qed

section \<open>Expanding the message at the head\<close>

lemma w_expand_fits:
  assumes "wtexts w a = Some t" "f t = Val (Some t')" "talen t' = talen t"
  shows "w_expand env f r a w = Val (Some a, w\<lparr>wtexts := (wtexts w)(a \<mapsto> t')\<rparr>)"
  using assms by (simp add: w_expand_def w_grow_def w_get_def)

lemma ws_expand_fits:
  assumes "text_ok t" "terminated t" "has_room AGOO_CON_WS t"
  shows "\<exists>t'. agoo_ws_expand mal t = Val (Some t') \<and> text_ok t' \<and> terminated t' \<and> talen t' = talen t \<and>
     content t' = framed AGOO_CON_WS t"
proof -
  let ?h = "ws_head (tbin t) (tlen t)"
  have l: "length ?h \<le> 10" "0 < length ?h" by (simp_all add: ws_head_def Let_def)
  then have a: "arg_len ?h (int (length ?h)) = length ?h" by (simp add: arg_len_def)
  have "?h @ content t = framed AGOO_CON_WS t"
    using assms by (simp add: framed_def has_room_def ws_frame_None ws_head_frame ws_ops)
  then show ?thesis
    using text_prepend_fits [OF assms(1,2), of ?h "int (length ?h)" mal] a l assms(3)
    by (auto simp: agoo_ws_expand_def Let_def has_room_def)
qed

lemma sse_expand_fits:
  assumes "text_ok t" "terminated t" "has_room AGOO_CON_SSE t"
  shows "\<exists>t'. agoo_sse_expand mal (Some t) = Val (Some t') \<and> text_ok t' \<and> terminated t' \<and> talen t' = talen t \<and>
     content t' = framed AGOO_CON_SSE t"
proof -
  have l: "length sse_prefix = 17" "length sse_suffix = 2" by (simp_all add: sse_prefix_def sse_suffix_def)
  have a: "arg_len sse_prefix 17 = 17" "arg_len sse_suffix 2 = 2" by (simp_all add: arg_len_def)
  obtain t1 where t1: "agoo_text_prepend mal (Some t) sse_prefix 17 = Val (Some t1)" "text_ok t1" "terminated t1"
    "content t1 = sse_prefix @ content t" "talen t1 = talen t" "tlen t1 = tlen t + 17"
    using text_prepend_fits [OF assms(1,2), of sse_prefix 17 mal] a l assms(3) by (auto simp: has_room_def)
  obtain t2 where t2: "agoo_text_append mal (Some t1) sse_suffix 2 = Val (Some t2)" "text_ok t2" "terminated t2"
    "content t2 = content t1 @ sse_suffix" "talen t2 = talen t1"
    using text_append_fits [OF t1(2), of sse_suffix 2 mal] a l t1(5,6) assms(3) by (auto simp: has_room_def)
  show ?thesis using t1 t2 l by (simp add: agoo_sse_expand_def text_put_def framed_def)
qed

section \<open>The stream is what is sent\<close>

lemma out_ready_head:
  assumes "out_ready (c, w)"
  shows "\<not> cdead c \<and> (\<exists>r rs x. cres c = r # rs \<and> wress w r = Some x \<and> (rsmsgs x \<noteq> [] \<or> ckind c = AGOO_CON_WS \<and> (rsclose x \<or> rsping x)))"
  using assms
  by (cases "ckind c"; cases "cres c"; cases "wress w (hd (cres c))")
    (auto simp: out_ready_def con_ready_io_def con_ws_events_def con_sse_events_def agoo_con_http_events_def head_res_def
      agoo_con_res_peek_def w_res_def split: if_splits)

definition popped :: "'h agoo_con \<Rightarrow> nat list \<Rightarrow> int \<Rightarrow> 'h agoo_con" where
  "popped c rs tm = c\<lparr>cres := rs, ctimeout := tm\<rparr>"

definition kind_write :: "'h con_env \<Rightarrow> send_result \<Rightarrow> 'h agoo_con \<Rightarrow> 'h world \<Rightarrow> (bool \<times> string \<times> 'h agoo_con \<times> 'h world) mem" where
  "kind_write env io c w = (case ckind c of
      AGOO_CON_WS \<Rightarrow> con_ws_write env io c w | AGOO_CON_SSE \<Rightarrow> con_sse_write env io c w | _ \<Rightarrow> agoo_con_http_write env io c w)"

text \<open>Every kind of write is the end of a write on the message as it is sent.\<close>

lemma kind_write_end:
  assumes "cres c = r # rs" "wress w r = Some x" "rsmsgs x = a # as" "wtexts w a = Some t" "text_ok t" "terminated t"
    "cwcnt c = 0 \<Longrightarrow> has_room (ckind c) t" "cwcnt c < tlen t \<or> cwcnt c = 0"
  shows "\<exists>t1 tm over. kind_write env (SENT n) c w =
      write_end over r t1 (sent_of n c t1) (popped c rs tm) (w\<lparr>wtexts := (wtexts w)(a \<mapsto> t1)\<rparr>) \<and>
    text_ok t1 \<and> terminated t1 \<and> content t1 = (if cwcnt c = 0 then framed (ckind c) t else content t) \<and>
    (cwcnt c < tlen t1 \<or> cwcnt c = 0 \<and> tlen t1 = 0)"
proof -
  have same: "w\<lparr>wtexts := (wtexts w)(a \<mapsto> t)\<rparr> = w" using assms(4) by (simp add: fun_upd_idem)
  have so: "sent_of n (c\<lparr>cres := rs, ctimeout := tm\<rparr>) y = sent_of n c y" for tm y by (simp add: sent_of_def)
  have http: "agoo_con_http_write env (SENT n) c w = write_end rsfinal r t (sent_of n c t) (popped c rs (ev_now env + ev_timeout env)) w"
    using assms so by (simp add: agoo_con_http_write_def agoo_con_res_pop_def agoo_res_message_peek_def w_res_def w_get_def popped_def Let_def)
  have pos: "cwcnt c < tlen t1 \<or> cwcnt c = 0 \<and> tlen t1 = 0" if "cwcnt c = 0" for t1 using that by auto
  show ?thesis
  proof (cases "ckind c = AGOO_CON_WS \<or> ckind c = AGOO_CON_SSE")
    case False
    then have "kind_write env (SENT n) c w = agoo_con_http_write env (SENT n) c w" "framed (ckind c) t = content t"
      by (cases "ckind c"; simp add: kind_write_def framed_def)+
    then show ?thesis using http same assms(5,6,8) pos by (intro exI [of _ t] exI) auto
  next
    case True
    show ?thesis
    proof (cases "cwcnt c = 0")
      case z: False
      have "kind_write env (SENT n) c w = write_end (if ckind c = AGOO_CON_WS then rsfinal else (\<lambda>_. True)) r t (sent_of n c t)
          (popped c rs (if ckind c = AGOO_CON_WS then ev_now env + ev_timeout env else ev_now env + ev_timeout env * 2)) w"
        using True assms so z by (auto simp: kind_write_def con_ws_write_def con_sse_write_def agoo_con_res_pop_def
          agoo_res_message_peek_def w_res_def w_get_def popped_def Let_def)
      then show ?thesis using z same assms(5,6,8) by (intro exI [of _ t] exI) auto
    next
      case z: True
      show ?thesis
      proof (cases "ckind c = AGOO_CON_WS")
        case ws: True
        obtain t1 where t1: "agoo_ws_expand (ev_mal env) t = Val (Some t1)" "text_ok t1" "terminated t1" "talen t1 = talen t"
          "content t1 = framed AGOO_CON_WS t"
          using ws_expand_fits [OF assms(5,6)] assms(7) z ws by auto
        have "con_ws_write env (SENT n) c w = write_end rsfinal r t1 (sent_of n c t1)
            (popped c rs (ev_now env + ev_timeout env)) (w\<lparr>wtexts := (wtexts w)(a \<mapsto> t1)\<rparr>)"
          using assms(1-4) z so w_expand_fits [OF assms(4), of "agoo_ws_expand (ev_mal env)" t1 env r] t1
          by (simp add: con_ws_write_def agoo_con_res_pop_def agoo_res_message_peek_def w_res_def w_get_def popped_def Let_def)
        then show ?thesis using ws z t1 pos by (intro exI [of _ t1] exI) (auto simp: kind_write_def)
      next
        case False
        then have sse: "ckind c = AGOO_CON_SSE" using True by simp
        obtain t1 where t1: "agoo_sse_expand (ev_mal env) (Some t) = Val (Some t1)" "text_ok t1" "terminated t1" "talen t1 = talen t"
          "content t1 = framed AGOO_CON_SSE t"
          using sse_expand_fits [OF assms(5,6)] assms(7) z sse by auto
        have "con_sse_write env (SENT n) c w = write_end (\<lambda>_. True) r t1 (sent_of n c t1)
            (popped c rs (ev_now env + ev_timeout env * 2)) (w\<lparr>wtexts := (wtexts w)(a \<mapsto> t1)\<rparr>)"
          using assms(1-4) z so w_expand_fits [OF assms(4), of "\<lambda>t. agoo_sse_expand (ev_mal env) (Some t)" t1 env r] t1
          by (simp add: con_sse_write_def agoo_con_res_pop_def agoo_res_message_peek_def w_res_def w_get_def popped_def Let_def)
        then show ?thesis using sse z t1 pos by (intro exI [of _ t1] exI) (auto simp: kind_write_def)
      qed
    qed
  qed
qed

lemma con_ready_write_out:
  assumes "out_ok c w" "out_ready (c, w)" "0 < n" "ev_req env 0"
  shows "\<exists>keep d c' w'. con_ready_write env (SENT n) c w = Val (keep, d, c', w') \<and> (cdead c' \<or> out_ok c' w') \<and>
    out_left c w = d @ out_left c' w' \<and> out_work c' w' < out_work c w"
proof -
  from out_ready_head [OF assms(2)] obtain r rs x where live: "\<not> cdead c" and r: "cres c = r # rs" "wress w r = Some x"
    and m: "rsmsgs x \<noteq> [] \<or> ckind c = AGOO_CON_WS \<and> (rsclose x \<or> rsping x)" by auto
  have hr: "head_res c w = Val (Some x)" using r by (simp add: head_res_def agoo_con_res_peek_def w_res_def)
  have ok: "\<forall>u. cup c = Some u \<longrightarrow> wups w u \<noteq> None" "distinct (r # rs)" "\<not> rsping x" "\<not> rspong x"
    "list_all (\<lambda>r. \<exists>x. wress w r = Some x \<and> \<not> rsping x \<and> \<not> rspong x) rs"
    using assms(1) r by (auto simp: out_ok_def Let_def)
  have step: "con_ready_write env (SENT n) c w = mem_bind (kind_write env (SENT n) c w) (\<lambda>(keep, d, c, w).
      Val (if keep then (True, d, c\<lparr>ckind := next_kind (ckind c) x\<rparr>, w) else (False, d, c\<lparr>cdead := True\<rparr>, w)))"
    by (simp add: con_ready_write_def hr kind_write_def)
  show ?thesis
  proof (cases "rsmsgs x")
    case Nil
    then have ws: "ckind c = AGOO_CON_WS" "rsclose x" using m ok by auto
    let ?c = "c\<lparr>cres := rs\<rparr>"
    have "\<exists>w1. agoo_ws_req_close env ?c w = Val w1 \<and> wress w1 = wress w"
    proof (cases "cup c")
      case (Some u)
      then obtain up where "wups w u = Some up" using ok(1) by auto
      then show ?thesis using Some assms(4)
        by (auto simp: agoo_ws_req_close_def w_up_def agoo_upgraded_ref_def w_up_set_def eval_push_def split: option.split)
    qed (simp add: agoo_ws_req_close_def)
    then obtain w1 where w1: "agoo_ws_req_close env ?c w = Val w1" "wress w1 = wress w" by blast
    then obtain w2 where w2: "agoo_res_destroy r w1 = Val w2" using r(2) Nil by (simp add: agoo_res_destroy_def w_res_def)
    have "kind_write env (SENT n) c w = Val (False, [], ?c, w2)"
      using ws r Nil ok w1(1) w2 by (simp add: kind_write_def con_ws_write_def agoo_con_res_pop_def agoo_res_message_peek_def w_res_def)
    moreover have "out_left c w = []" using live r ws Nil by (simp add: out_left_def)
    moreover have "0 < out_work c w" using live by (simp add: out_work_def)
    ultimately show ?thesis using step by (simp add: dead_out ex_bool_eq)
  next
    case (Cons a as)
    define rest where "rest = out_next (ckind c) x w as rs"
    have ms: "out_msgs (ckind c) w (cres c) = (ckind c, a) # rest" using r Cons by (simp add: rest_def out_next_def Let_def)
    have rest: "distinct (a # map snd rest)" "list_all (text_fit w True) rest" and tf: "text_fit w (cwcnt c = 0) (ckind c, a)"
      using assms(1) ms by (auto simp: out_ok_def Let_def)
    from tf obtain t where t: "wtexts w a = Some t" "text_ok t" "terminated t" "cwcnt c = 0 \<longrightarrow> has_room (ckind c) t"
      by (auto simp: text_fit_def split: option.splits)
    have wc: "cwcnt c < tlen t \<or> cwcnt c = 0" using assms(1) r Cons t by (auto simp: out_ok_def Let_def)
    obtain t1 tm over where k: "kind_write env (SENT n) c w =
        write_end over r t1 (sent_of n c t1) (popped c rs tm) (w\<lparr>wtexts := (wtexts w)(a \<mapsto> t1)\<rparr>)"
      and t1: "text_ok t1" "terminated t1" "content t1 = (if cwcnt c = 0 then framed (ckind c) t else content t)"
        "cwcnt c < tlen t1 \<or> cwcnt c = 0 \<and> tlen t1 = 0"
      using kind_write_end [where env = env and n = n, OF r Cons t(1-3)] t(4) wc by blast
    let ?c = "popped c rs tm" and ?w = "w\<lparr>wtexts := (wtexts w)(a \<mapsto> t1)\<rparr>"
    have c1: "ckind ?c = ckind c" "cwcnt ?c = cwcnt c" "cup ?c = cup c" "cres ?c = rs" "cdead ?c = cdead c" "sent_of n c t1 = sent_of n ?c t1"
      by (simp_all add: popped_def sent_of_def)
    have "out_msgs k ?w rs = out_msgs k w rs" for k by (rule out_msgs_cong) simp
    then have rest1: "rest = out_next (ckind ?c) x ?w as rs" by (simp add: rest_def out_next_def c1)
    have an: "a \<notin> snd ` set rest" using rest(1) by simp
    have same: "map (msg_bytes ?w) rest = map (msg_bytes w) rest" "list_all (text_fit ?w True) rest"
      using rest_same [OF an, of ?w w] rest(2) by auto
    have left: "out_left c w = drop (cwcnt c) (content t1) @ concat (map (msg_bytes w) rest)"
      using live ms t(1) t1(3) by (simp add: out_left_def msg_bytes_def)
    obtain keep c' w' where e: "write_end over r t1 (sent_of n c t1) ?c ?w = Val (keep, sent_of n c t1, c', w')" "ckind c' = ckind ?c"
      and post: "let c' = after_write (ckind ?c) x keep c'
        in (cdead c' \<or> out_ok c' w') \<and> drop (cwcnt ?c) (content t1) @ concat (map (msg_bytes ?w) rest) = sent_of n c t1 @ out_left c' w' \<and>
           out_work c' w' \<le> length (drop (cwcnt ?c) (content t1) @ concat (map (msg_bytes ?w) rest)) + length rest + 1"
      using write_end_out [of ?c rs "sent_of n c t1" n t1 ?w r x a as rest over, OF _ c1(4) c1(6) assms(3) _ _ Cons ok(3,4) _ t1(1,2) rest1 rest(1) same(2) _ ok(2)]
        live t1(4) r(2) ok(1,5) c1 by auto
    have "out_work c w = Suc (length (out_left c w) + Suc (length rest))" using live ms by (simp add: out_work_def)
    then show ?thesis
      using step k e post left same(1) c1 by (cases keep) (simp_all add: after_write_def Let_def ex_bool_eq)
  qed
qed

section \<open>Byte streams\<close>

text \<open>
  A writer that is offered to the kernel as long as it is ready: what it sends comes off the
  front of what it has left, and every write brings it nearer to its end.
\<close>

fun offers :: "(nat \<Rightarrow> 's \<Rightarrow> (string \<times> 's) mem) \<Rightarrow> ('s \<Rightarrow> bool) \<Rightarrow> nat list \<Rightarrow> 's \<Rightarrow> (string \<times> 's) mem" where
  "offers f ready [] s = Val ([], s)"
| "offers f ready (n # ns) s =
     (if ready s then mem_bind (f n s) (\<lambda>(d, s). mem_bind (offers f ready ns s) (\<lambda>(e, s). Val (d @ e, s)))
      else Val ([], s))"

locale byte_stream =
  fixes write_step :: "nat \<Rightarrow> 's \<Rightarrow> (string \<times> 's) mem" and ready :: "'s \<Rightarrow> bool"
    and valid :: "'s \<Rightarrow> bool" and left :: "'s \<Rightarrow> string" and work :: "'s \<Rightarrow> nat"
  assumes write_law: "valid s \<Longrightarrow> ready s \<Longrightarrow> 0 < n \<Longrightarrow>
      \<exists>d s'. write_step n s = Val (d, s') \<and> valid s' \<and> left s = d @ left s' \<and> work s' < work s"
begin

lemma stream:
  assumes "valid s" "list_all (\<lambda>n. 0 < n) ns"
  shows "\<exists>d s'. offers write_step ready ns s = Val (d, s') \<and> valid s' \<and> left s = d @ left s' \<and> (ready s' \<longrightarrow> work s' + length ns \<le> work s)"
  using assms
proof (induction ns arbitrary: s)
  case (Cons n ns)
  show ?case
  proof (cases "ready s")
    case True
    obtain d s1 where 1: "write_step n s = Val (d, s1)" "valid s1" "left s = d @ left s1" "work s1 < work s"
      using write_law [OF Cons.prems(1) True, of n] Cons.prems(2) by auto
    obtain e s2 where 2: "offers write_step ready ns s1 = Val (e, s2)" "valid s2" "left s1 = e @ left s2"
      "ready s2 \<longrightarrow> work s2 + length ns \<le> work s1"
      using Cons.IH [OF 1(2)] Cons.prems(2) by auto
    have "offers write_step ready (n # ns) s = Val (d @ e, s2)" using True 1(1) 2(1) by simp
    then show ?thesis using 1 2 by force
  qed (use Cons.prems in simp)
qed simp

lemma stream_end:
  assumes "valid s" "list_all (\<lambda>n. 0 < n) ns" "work s < length ns"
  shows "\<exists>d s'. offers write_step ready ns s = Val (d, s') \<and> \<not> ready s' \<and> left s = d @ left s'"
  using stream [OF assms(1,2)] assms(3) by fastforce

end

text \<open>The poll loop's writes of a connection, as a writer.\<close>

definition con_offer :: "'h con_env \<Rightarrow> nat \<Rightarrow> 'h agoo_con \<times> 'h world \<Rightarrow> (string \<times> 'h agoo_con \<times> 'h world) mem" where
  "con_offer env n s = (case s of (c, w) \<Rightarrow>
    mem_bind (con_ready_write env (SENT n) c w) (\<lambda>(keep, d, c, w). Val (d, c, w)))"

definition con_valid :: "'h con_env \<Rightarrow> 'h agoo_con \<times> 'h world \<Rightarrow> bool" where
  "con_valid env s \<longleftrightarrow> ev_req env 0 \<and> (case s of (c, w) \<Rightarrow> cdead c \<or> out_ok c w)"

lemma dead_not_ready: "cdead c \<Longrightarrow> \<not> out_ready (c, w)"
  by (simp add: out_ready_def con_ready_io_def)

interpretation con: byte_stream "con_offer env" out_ready "con_valid env" "\<lambda>(c, w). out_left c w" "\<lambda>(c, w). out_work c w" for env
proof
  fix s :: "'a agoo_con \<times> 'a world" and n :: nat
  assume v: "con_valid env s" and r: "out_ready s" and n: "0 < n"
  obtain c w where s: "s = (c, w)" by (cases s)
  have "out_ok c w" "ev_req env 0" using v r dead_not_ready by (auto simp: s con_valid_def)
  then obtain keep d c' w' where w: "con_ready_write env (SENT n) c w = Val (keep, d, c', w')" "cdead c' \<or> out_ok c' w'"
      "out_left c w = d @ out_left c' w'" "out_work c' w' < out_work c w"
    using con_ready_write_out [of c w n env] r n s by blast
  then show "\<exists>d s'. con_offer env n s = Val (d, s') \<and> con_valid env s' \<and> (case s of (c, w) \<Rightarrow> out_left c w) = d @ (case s' of (c, w) \<Rightarrow> out_left c w)
      \<and> (case s' of (c, w) \<Rightarrow> out_work c w) < (case s of (c, w) \<Rightarrow> out_work c w)"
    using v by (simp add: s con_offer_def con_valid_def)
qed

text \<open>
  C1. However the kernel splits the writes, a connection sends the bytes of its queued responses:
  what it has sent and what it has left are always what was queued, each message framed for the
  kind the connection has when its turn comes, an upgrade taking effect behind the response that
  makes it, and nothing behind a response that closes. After enough writes it has nothing ready.
\<close>

theorem con_output_stream:
  assumes "out_ok c w" "list_all (\<lambda>n. 0 < n) ns" "ev_req env 0"
  shows "\<exists>d c' w'. offers (con_offer env) out_ready ns (c, w) = Val (d, c', w') \<and> out_left c w = d @ out_left c' w' \<and>
     (out_work c w < length ns \<longrightarrow> \<not> out_ready (c', w'))"
proof -
  have v: "con_valid env (c, w)" using assms by (simp add: con_valid_def)
  from con.stream [OF v assms(2)] show ?thesis by (auto simp: prod_eq_iff)
qed

text \<open>An upgrade answer with a message pushed behind it.\<close>

definition reserve_text :: "string \<Rightarrow> agoo_text" where
  "reserve_text s = \<lparr>tlen = length s, talen = length s + 32, tref = 1, tbin = False, tbuf = s @ replicate 40 NUL\<rparr>"

lemma reserve_text [simp]: "text_ok (reserve_text s)" "terminated (reserve_text s)" "content (reserve_text s) = s"
    "tlen (reserve_text s) = length s" "talen (reserve_text s) = length s + 32" "tbin (reserve_text s) = False"
  by (simp_all add: reserve_text_def text_ok_def terminated_def content_def nth_append)

definition world_out :: "nat world" where
  "world_out = world0\<lparr>wnext := 4,
     wtexts := (\<lambda>a. if a = 1 then Some (reserve_text ''101 up'') else if a = 3 then Some (reserve_text ''hi'') else None),
     wress := (\<lambda>r. if r = 0 then Some (res_new\<lparr>rsmsgs := [1], rsfinal := True, rskind := AGOO_CON_WS\<rparr>)
       else if r = 2 then Some (res_new\<lparr>rsmsgs := [3], rsfinal := True, rskind := AGOO_CON_ANY\<rparr>) else None)\<rparr>"

lemma con_output_stream_witness:
  "out_left (con0\<lparr>cres := [0, 2]\<rparr>) world_out = ''101 up'' @ chr_of 0x81 # chr_of 2 # ''hi'' \<and>
   (\<exists>d c' w'. offers (con_offer env0) out_ready (replicate 20 1) (con0\<lparr>cres := [0, 2]\<rparr>, world_out) = Val (d, c', w') \<and>
     out_left (con0\<lparr>cres := [0, 2]\<rparr>) world_out = d @ out_left c' w' \<and> \<not> out_ready (c', w'))"
proof -
  let ?c = "con0\<lparr>cres := [0, 2]\<rparr>"
  have ms: "out_msgs (ckind ?c) world_out (cres ?c) = [(AGOO_CON_HTTP, 1), (AGOO_CON_WS, 3)]"
    by (simp add: con0_def agoo_con_create_def world_out_def next_kind_def res_new_def)
  have ok: "out_ok ?c world_out"
    unfolding out_ok_def ms
    by (simp add: con0_def agoo_con_create_def world_out_def world0_def res_new_def text_fit_def has_room_def)
  have l: "out_left ?c world_out = ''101 up'' @ chr_of 0x81 # chr_of 2 # ''hi''"
    unfolding out_left_def ms
    by (simp add: con0_def agoo_con_create_def msg_bytes_def world_out_def framed_def ws_frame_None ws_len_bytes_def ws_ops)
  have "out_work ?c world_out = 13" unfolding out_work_def ms l by (simp add: con0_def agoo_con_create_def)
  then show ?thesis using con_output_stream [OF ok, of "replicate 20 1" env0] l by (simp add: list_all_iff env0_def)
qed

end
