(* ===== verification/ConStall.thy ===== *)
theory ConStall
  imports ConOut
begin

text \<open>
  Two ways in which a connection loses or withholds its output: a write that the kernel refuses
  for now, and a response that holds a pong.
\<close>

section \<open>A refused write\<close>

text \<open>
  C28. A write that the kernel refuses for now (\<open>EAGAIN\<close>) loses the response: it has been taken
  from the queue and is not put back, while the connection stays alive and keeps the count of
  the bytes already sent. What is left to send is the responses behind it, without their first
  \<open>cwcnt\<close> bytes.
\<close>

theorem http_write_again_loses:
  assumes "ckind c = AGOO_CON_HTTP" "cres c = r # r2 # rs" "\<not> cdead c"
    "wress w r = Some x" "rsmsgs x = a # as" "wtexts w a \<noteq> None" "rskind x = AGOO_CON_HTTP"
    "wress w r2 = Some x2" "rsmsgs x2 = b # bs" "wtexts w b = Some t2" "text_ok t2" "cwcnt c \<le> tlen t2"
  shows "\<exists>c'. con_ready_write env SEND_AGAIN c w = Val (True, [], c', w) \<and> cres c' = r2 # rs \<and> \<not> cdead c' \<and>
     out_left c' w = drop (cwcnt c) (concat (map (msg_bytes w) (out_msgs AGOO_CON_HTTP w (r2 # rs))))"
proof -
  let ?c = "c\<lparr>cres := r2 # rs, ctimeout := ev_now env + ev_timeout env\<rparr>"
  have k: "next_kind AGOO_CON_HTTP x = AGOO_CON_HTTP" using assms(7) by (simp add: next_kind_def)
  have e: "con_ready_write env SEND_AGAIN c w = Val (True, [], ?c, w)"
    using assms(1-6) k by (auto simp: con_ready_write_def head_res_def agoo_con_res_peek_def w_res_def agoo_con_http_write_def
      agoo_con_res_pop_def agoo_res_message_peek_def w_get_def)
  have l: "length (content t2) = tlen t2" using assms(11) by simp
  have "out_left ?c w = drop (cwcnt c) (concat (map (msg_bytes w) (out_msgs AGOO_CON_HTTP w (r2 # rs))))"
    using assms(1,3,8-10,12) l
    by (cases "cwcnt c") (auto simp: out_left_def Let_def msg_bytes_def framed_def)
  then show ?thesis using e assms(3) by auto
qed

text \<open>Two responses, of the first of which four bytes have been sent.\<close>

definition world_two :: "nat world" where
  "world_two = world0\<lparr>wnext := 4,
     wtexts := (\<lambda>a. if a = 1 then Some (reserve_text ''first'') else if a = 3 then Some (reserve_text ''second'') else None),
     wress := (\<lambda>r. if r = 0 then Some (res_new\<lparr>rsmsgs := [1], rsfinal := True\<rparr>)
       else if r = 2 then Some (res_new\<lparr>rsmsgs := [3], rsfinal := True\<rparr>) else None)\<rparr>"

lemma http_write_again_loses_witness:
  "\<exists>c'. con_ready_write env0 SEND_AGAIN (con0\<lparr>cres := [0, 2], cwcnt := 4\<rparr>) world_two = Val (True, [], c', world_two) \<and>
     cres c' = [2] \<and> \<not> cdead c' \<and> out_left c' world_two = ''nd''"
  using http_write_again_loses [of "con0\<lparr>cres := [0, 2], cwcnt := 4\<rparr>" 0 2 "[]" world_two "res_new\<lparr>rsmsgs := [1], rsfinal := True\<rparr>" 1 "[]"
      "res_new\<lparr>rsmsgs := [3], rsfinal := True\<rparr>" 3 "[]" "reserve_text ''second''" env0]
  by (simp add: con0_def agoo_con_create_def world_two_def res_new_def Let_def msg_bytes_def framed_def)

section \<open>A pong\<close>

text \<open>The connection with responses \<open>qs\<close> appended.\<close>

definition queued :: "'h agoo_con \<Rightarrow> nat list \<Rightarrow> 'h agoo_con" where
  "queued c qs = c\<lparr>cres := cres c @ qs\<rparr>"

lemma pong_head_stalls:
  assumes "ckind c = AGOO_CON_WS" "cres c = r # rs" "wress w r = Some x" "rsmsgs x = []" "\<not> rsclose x" "\<not> rsping x"
  shows "\<not> out_ready (c, w)" "cdead c \<Longrightarrow> con_ready_check env now c w = Val (False, c, w)"
  using assms by (auto simp: out_ready_def con_ready_io_def con_ws_events_def head_res_def agoo_con_res_peek_def w_res_def con_ready_check_def Let_def)

text \<open>
  C29. A ping makes an upgraded connection mute: its answer is queued as a response that the
  connection does not wait to write, so nothing that is queued behind it is ever sent, and a
  connection that is dead is never destroyed.
\<close>

theorem ws_ping_stalls:
  assumes "take (cbcnt c) (cbuf c) = ws_frame AGOO_WS_OP_PING (Some m) s" "length m = 4" "length s \<le> 125"
    "cbcnt c \<le> length (cbuf c)" "creq c = None" "cres c = []" "ckind c = AGOO_CON_WS" "agoo_res_create env w = (Some r, w1)"
  shows "\<exists>c' w'. ws_round env (c, w) = Val (Inl (False, c', w')) \<and>
     (\<forall>qs w''. wress w'' r = wress w' r \<longrightarrow> \<not> out_ready (queued c' qs, w'') \<and>
        (\<forall>env now. con_ready_check env now ((queued c' qs)\<lparr>cdead := True\<rparr>) w'' = Val (False, (queued c' qs)\<lparr>cdead := True\<rparr>, w'')))"
proof -
  let ?f = "ws_frame AGOO_WS_OP_PING (Some m) s"
  have n: "cbcnt c = length ?f" using assms(1,4) by (metis length_take min.absorb2)
  have l: "length ?f = 6 + length s" using assms(2,3) by (simp add: ws_frame_def key_mask_eq ws_len_bytes_def)
  have b: "cbuf c = ?f @ drop (cbcnt c) (cbuf c)" using assms(1) by (metis append_take_drop_id)
  have len: "agoo_ws_calc_len (cbcnt c) (cbuf c) (cbcnt c) = Val (int (cbcnt c))"
    using ws_calc_len_known [of "Some m" s "cbcnt c" "cbcnt c" AGOO_WS_OP_PING "drop (cbcnt c) (cbuf c)"] assms(2,3) n l b by simp
  have op: "0x0F AND byte_of (cat (cbuf c) 0) = AGOO_WS_OP_PING" by (subst b) (simp add: ws_frame_def ws_ops AGOO_WS_OP_PING_def)
  have rw: "wress w1 r = Some res_new" using assms(8) by (auto simp: agoo_res_create_def split: list.splits if_splits)
  define x where "x = (res_new\<lparr>rsclose := False, rskind := AGOO_CON_WS\<rparr>)\<lparr>rspong := True\<rparr>"
  define c' where "c' = c\<lparr>cres := [r], cbcnt := 0\<rparr>"
  have p: "agoo_ws_pong env c w = Val (c\<lparr>cres := [r]\<rparr>, w_res_set r x w1)"
    using assms(6,8) rw by (simp add: agoo_ws_pong_def ws_control_def w_res_def agoo_con_res_append_def x_def)
  have ne: "AGOO_WS_OP_PING \<noteq> AGOO_WS_OP_TEXT" "AGOO_WS_OP_PING \<noteq> AGOO_WS_OP_BIN" "AGOO_WS_OP_PING \<noteq> AGOO_WS_OP_CLOSE"
    by (simp_all add: AGOO_WS_OP_PING_def AGOO_WS_OP_TEXT_def AGOO_WS_OP_BIN_def AGOO_WS_OP_CLOSE_def)
  have "ws_round env (c, w) = Val (Inl (False, c', w_res_set r x w1))"
    unfolding ws_round_def prod.case Let_def op len using assms(5) n l ne p by (simp add: c'_def)
  moreover have "\<not> out_ready (queued c' qs, w'')"
    "con_ready_check env' now ((queued c' qs)\<lparr>cdead := True\<rparr>) w'' = Val (False, (queued c' qs)\<lparr>cdead := True\<rparr>, w'')"
    if "wress w'' r = wress (w_res_set r x w1) r" for qs w'' and env' :: "'a con_env" and now
  proof -
    have k: "wress w'' r = Some x" "rsmsgs x = []" "\<not> rsclose x" "\<not> rsping x" "ckind (queued c' qs) = AGOO_CON_WS" "cres (queued c' qs) = r # qs"
      using that assms(7) by (simp_all add: w_res_set_def x_def res_new_def queued_def c'_def)
    show "\<not> out_ready (queued c' qs, w'')" by (rule pong_head_stalls(1) [OF k(5,6,1-4)])
    show "con_ready_check env' now ((queued c' qs)\<lparr>cdead := True\<rparr>) w'' = Val (False, (queued c' qs)\<lparr>cdead := True\<rparr>, w'')"
      by (rule pong_head_stalls(2) [of _ r qs w'' x]) (use k in simp_all)
  qed
  ultimately show ?thesis by blast
qed

text \<open>An upgraded connection that has received a ping.\<close>

definition con_pinged :: "nat agoo_con" where
  "con_pinged = con0\<lparr>cbuf := ws_frame AGOO_WS_OP_PING (Some ''k#!z'') ''hi'' @ drop 8 (cbuf con0), cbcnt := 8, ckind := AGOO_CON_WS\<rparr>"

lemma ws_ping_stalls_witness:
  "\<exists>c' w'. ws_round env0 (con_pinged, world0) = Val (Inl (False, c', w')) \<and>
     (\<forall>qs w''. wress w'' 0 = wress w' 0 \<longrightarrow> \<not> out_ready (queued c' qs, w'') \<and>
        (\<forall>env now. con_ready_check env now ((queued c' qs)\<lparr>cdead := True\<rparr>) w'' = Val (False, (queued c' qs)\<lparr>cdead := True\<rparr>, w'')))"
proof (rule ws_ping_stalls)
  have l: "length (ws_frame AGOO_WS_OP_PING (Some ''k#!z'') ''hi'') = 8" by (simp add: ws_frame_def key_mask_eq ws_len_bytes_def)
  show "take (cbcnt con_pinged) (cbuf con_pinged) = ws_frame AGOO_WS_OP_PING (Some ''k#!z'') ''hi''" "cbcnt con_pinged \<le> length (cbuf con_pinged)"
    using l by (simp_all add: con_pinged_def con0_def agoo_con_create_def MAX_HEADER_SIZE_def)
qed (simp_all add: con_pinged_def con0_def agoo_con_create_def agoo_res_create_def world0_def env0_def)

end
