(* ===== verification/Push.thy ===== *)
theory Push
  imports ConWrite Patterns
begin

text \<open>
  Upgraded connections and what is published to them: \<open>ext/agoo/upgraded.c\<close>, \<open>ext/agoo/pub.c\<close>,
  \<open>agoo_server_publish\<close> and \<open>agoo_server_add_upgraded\<close> of \<open>ext/agoo/server.c\<close>, and the processing
  of publications by a connection loop in \<open>ext/agoo/con.c\<close>. A publication is put on the queue of
  every loop; the loop that has the connection acts on it.
\<close>

section \<open>State\<close>

datatype pub_kind = AGOO_PUB_SUB | AGOO_PUB_CLOSE | AGOO_PUB_UN | AGOO_PUB_MSG | AGOO_PUB_WRITE

record agoo_pub =
  pkind :: pub_kind
  pup :: "nat option"
  psubject :: "string option"
  pmsg :: "nat option"

text \<open>
  The connections by address, the loop each belongs to, the loops in the order of the server's
  list and the publications queued for each.
\<close>

record 'h push =
  pworld :: "'h world"
  pcons :: "nat \<Rightarrow> 'h agoo_con option"
  ploop :: "nat \<Rightarrow> nat"
  ploops :: "nat list"
  pqueue :: "nat \<Rightarrow> agoo_pub list"

definition p_con :: "nat \<Rightarrow> 'h push \<Rightarrow> 'h agoo_con mem" where
  "p_con i s = (case pcons s i of None \<Rightarrow> UB | Some c \<Rightarrow> Val c)"

definition p_con_set :: "nat \<Rightarrow> 'h agoo_con \<Rightarrow> 'h push \<Rightarrow> 'h push" where
  "p_con_set i c s = s\<lparr>pcons := (pcons s)(i \<mapsto> c)\<rparr>"

text \<open>An operation on the shared state.\<close>

definition p_world :: "('h world \<Rightarrow> 'h world mem) \<Rightarrow> 'h push \<Rightarrow> 'h push mem" where
  "p_world f s = mem_bind (f (pworld s)) (\<lambda>w. Val (s\<lparr>pworld := w\<rparr>))"

section \<open>Upgraded connections\<close>

text \<open>The end of an upgraded connection; the callback of the embedding language only clears its wrapper.\<close>

definition up_destroy :: "nat \<Rightarrow> 'h world \<Rightarrow> 'h world" where
  "up_destroy u w = w\<lparr>wuplist := remove1 u (wuplist w), wups := (wups w)(u := None)\<rparr>"

definition agoo_upgraded_release :: "nat \<Rightarrow> 'h world \<Rightarrow> 'h world mem" where
  "agoo_upgraded_release u w =
    mem_bind (w_up u w) (\<lambda>up.
      let w = w_up_set u (up\<lparr>upref := upref up - 1\<rparr>) w
      in Val (if upref up \<le> 1 then up_destroy u w else w))"

definition agoo_upgraded_release_con :: "nat \<Rightarrow> 'h world \<Rightarrow> 'h world mem" where
  "agoo_upgraded_release_con u w =
    mem_bind (w_up u w) (\<lambda>up.
      let w = w_up_set u (up\<lparr>upcon := None, upref := upref up - 1\<rparr>) w
      in Val (if upref up \<le> 1 then up_destroy u w else w))"

definition agoo_upgraded_add_subject :: "'h agoo_upgraded \<Rightarrow> string \<Rightarrow> 'h agoo_upgraded" where
  "agoo_upgraded_add_subject up pat =
    (if pat \<in> set (upsubjects up) then up else up\<lparr>upsubjects := pat # upsubjects up\<rparr>)"

definition agoo_upgraded_del_subject :: "'h agoo_upgraded \<Rightarrow> string option \<Rightarrow> 'h agoo_upgraded" where
  "agoo_upgraded_del_subject up pat =
    (case pat of None \<Rightarrow> up\<lparr>upsubjects := []\<rparr> | Some p \<Rightarrow> up\<lparr>upsubjects := remove1 p (upsubjects up)\<rparr>)"

definition agoo_upgraded_match :: "'h agoo_upgraded \<Rightarrow> string \<Rightarrow> bool" where
  "agoo_upgraded_match up subject = list_ex (\<lambda>s. agoo_subject_check s subject) (upsubjects up)"

definition agoo_upgraded_pending :: "'h agoo_upgraded \<Rightarrow> int" where
  "agoo_upgraded_pending up = uppending up"

definition agoo_upgraded_create :: "'h con_env \<Rightarrow> nat \<Rightarrow> 'h option \<Rightarrow> 'h world \<Rightarrow> nat option \<times> 'h world" where
  "agoo_upgraded_create env c ctx w =
    (if ev_up env
     then (Some (wnext w), w\<lparr>wnext := wnext w + 1, wups := (wups w)(wnext w \<mapsto>
       \<lparr>upcon = Some c, uppending = 0, upref = 1, upsubjects = [], upctx = ctx, on_empty = False, on_close = False,
        on_shut = False, on_msg = False, on_error = False\<rparr>)\<rparr>)
     else (None, w))"

definition agoo_server_add_upgraded :: "nat \<Rightarrow> 'h push \<Rightarrow> 'h push mem" where
  "agoo_server_add_upgraded u s =
    mem_bind (w_up u (pworld s)) (\<lambda>up.
      case upcon up of
        None \<Rightarrow> UB
      | Some i \<Rightarrow> mem_bind (p_con i s) (\<lambda>c.
          Val (p_con_set i (c\<lparr>cup := Some u\<rparr>) (s\<lparr>pworld := (pworld s)\<lparr>wuplist := u # wuplist (pworld s)\<rparr>\<rparr>))))"

section \<open>Publications\<close>

definition agoo_pub_close :: "'h con_env \<Rightarrow> nat option \<Rightarrow> agoo_pub option" where
  "agoo_pub_close env up = (if ev_pub env then Some \<lparr>pkind = AGOO_PUB_CLOSE, pup = up, psubject = None, pmsg = None\<rparr> else None)"

definition agoo_pub_subscribe :: "'h con_env \<Rightarrow> nat option \<Rightarrow> string \<Rightarrow> nat \<Rightarrow> agoo_pub option mem" where
  "agoo_pub_subscribe env up subject sl =
    (if ev_pub env then
       mem_bind (agoo_subject_create subject sl) (\<lambda>s.
         Val (Some \<lparr>pkind = AGOO_PUB_SUB, pup = up, psubject = Some s, pmsg = None\<rparr>))
     else Val None)"

definition agoo_pub_unsubscribe :: "'h con_env \<Rightarrow> nat option \<Rightarrow> string option \<Rightarrow> nat \<Rightarrow> agoo_pub option mem" where
  "agoo_pub_unsubscribe env up subject sl =
    (if ev_pub env then
       mem_bind (case subject of None \<Rightarrow> Val None | Some s \<Rightarrow> mem_bind (agoo_subject_create s sl) (\<lambda>s. Val (Some s))) (\<lambda>s.
         Val (Some \<lparr>pkind = AGOO_PUB_UN, pup = up, psubject = s, pmsg = None\<rparr>))
     else Val None)"

text \<open>
  The text of a message has 32 bytes to spare, so that it can be expanded in place. The message
  is used without a test for NULL.
\<close>

definition pub_text :: "'h con_env \<Rightarrow> string \<Rightarrow> nat \<Rightarrow> agoo_text option mem" where
  "pub_text env message mlen =
    mem_bind (agoo_text_allocate (ev_mal env) (mlen + 32)) (\<lambda>t. agoo_text_append (ev_mal env) t message (int mlen))"

definition agoo_pub_publish :: "'h con_env \<Rightarrow> string \<Rightarrow> nat \<Rightarrow> string \<Rightarrow> nat \<Rightarrow> 'h world \<Rightarrow> (agoo_pub option \<times> 'h world) mem" where
  "agoo_pub_publish env subject sl message mlen w =
    (if ev_pub env then
       mem_bind (agoo_subject_create subject sl) (\<lambda>s.
       mem_bind (pub_text env message mlen) (\<lambda>t.
         case t of
           None \<Rightarrow> UB
         | Some t \<Rightarrow>
             let (a, w) = w_text (Some (agoo_text_ref t)) w
             in Val (Some \<lparr>pkind = AGOO_PUB_MSG, pup = None, psubject = Some s, pmsg = a\<rparr>, w)))
     else Val (None, w))"

definition agoo_pub_write :: "'h con_env \<Rightarrow> nat option \<Rightarrow> string \<Rightarrow> nat \<Rightarrow> bool \<Rightarrow> 'h world \<Rightarrow> (agoo_pub option \<times> 'h world) mem" where
  "agoo_pub_write env up message mlen bin w =
    (if ev_pub env then
       mem_bind (pub_text env message mlen) (\<lambda>t.
         case t of
           None \<Rightarrow> UB
         | Some t \<Rightarrow>
             let (a, w) = w_text (Some (agoo_text_ref (t\<lparr>tbin := bin\<rparr>))) w
             in Val (Some \<lparr>pkind = AGOO_PUB_WRITE, pup = up, psubject = None, pmsg = a\<rparr>, w))
     else Val (None, w))"

text \<open>A copy for another loop takes references of its own.\<close>

definition agoo_pub_dup :: "'h con_env \<Rightarrow> agoo_pub \<Rightarrow> 'h world \<Rightarrow> (agoo_pub option \<times> 'h world) mem" where
  "agoo_pub_dup env src w =
    (if ev_pub env then
       mem_bind (case pup src of None \<Rightarrow> Val w | Some u \<Rightarrow> agoo_upgraded_ref u w) (\<lambda>w.
       mem_bind (case pmsg src of None \<Rightarrow> Val w | Some a \<Rightarrow> w_ref a w) (\<lambda>w.
         Val (Some src, w)))
     else Val (None, w))"

definition agoo_pub_destroy :: "agoo_pub \<Rightarrow> 'h world \<Rightarrow> 'h world mem" where
  "agoo_pub_destroy pub w =
    mem_bind (case pmsg pub of None \<Rightarrow> Val w | Some a \<Rightarrow> w_release a w) (\<lambda>w.
      case pup pub of None \<Rightarrow> Val w | Some u \<Rightarrow> agoo_upgraded_release u w)"

section \<open>Publishing\<close>

text \<open>The queues are those of the theory \<open>Queue\<close>, here as the lists they stand for. NULL is not tested for.\<close>

definition pub_push :: "nat \<Rightarrow> agoo_pub \<Rightarrow> 'h push \<Rightarrow> 'h push" where
  "pub_push l pub s = s\<lparr>pqueue := (pqueue s)(l := pqueue s l @ [pub])\<rparr>"

fun publish_to :: "'h con_env \<Rightarrow> agoo_pub \<Rightarrow> nat list \<Rightarrow> 'h push \<Rightarrow> 'h push mem" where
  "publish_to env pub [] s = Val s"
| "publish_to env pub [l] s = Val (pub_push l pub s)"
| "publish_to env pub (l # m # ls) s =
     mem_bind (agoo_pub_dup env pub (pworld s)) (\<lambda>(dup, w).
       case dup of
         None \<Rightarrow> UB
       | Some d \<Rightarrow> publish_to env pub (m # ls) (pub_push l d (s\<lparr>pworld := w\<rparr>)))"

definition agoo_server_publish :: "'h con_env \<Rightarrow> agoo_pub option \<Rightarrow> 'h push \<Rightarrow> 'h push mem" where
  "agoo_server_publish env pub s = (case pub of None \<Rightarrow> UB | Some p \<Rightarrow> publish_to env p (ploops s) s)"

definition up_add :: "(int \<Rightarrow> int) \<Rightarrow> (int \<Rightarrow> int) \<Rightarrow> nat \<Rightarrow> 'h push \<Rightarrow> 'h push mem" where
  "up_add f g u s = p_world (\<lambda>w. mem_bind (w_up u w) (\<lambda>up.
     Val (w_up_set u (up\<lparr>upref := f (upref up), uppending := g (uppending up)\<rparr>) w))) s"

text \<open>
  The result is false when too many messages are pending; a reference is dropped then whether the
  caller asked for one to be taken or brought it along.
\<close>

definition agoo_upgraded_write :: "'h con_env \<Rightarrow> nat \<Rightarrow> string \<Rightarrow> nat \<Rightarrow> bool \<Rightarrow> bool \<Rightarrow> 'h push \<Rightarrow> (bool \<times> 'h push) mem" where
  "agoo_upgraded_write env u message mlen bin inc_ref s =
    mem_bind (w_up u (pworld s)) (\<lambda>up.
      if 0 < ev_max_pending env \<and> ev_max_pending env \<le> uppending up
      then mem_bind (up_add (\<lambda>r. r - 1) id u s) (\<lambda>s. Val (False, s))
      else
        mem_bind (if inc_ref then up_add (\<lambda>r. r + 1) id u s else Val s) (\<lambda>s.
        mem_bind (agoo_pub_write env (Some u) message mlen bin (pworld s)) (\<lambda>(p, w).
        mem_bind (up_add id (\<lambda>n. n + 1) u (s\<lparr>pworld := w\<rparr>)) (\<lambda>s.
        mem_bind (agoo_server_publish env p s) (\<lambda>s. Val (True, s))))))"

definition up_publish :: "'h con_env \<Rightarrow> nat \<Rightarrow> bool \<Rightarrow> agoo_pub option mem \<Rightarrow> 'h push \<Rightarrow> 'h push mem" where
  "up_publish env u inc_ref pub s =
    mem_bind (if inc_ref then up_add (\<lambda>r. r + 1) id u s else Val s) (\<lambda>s.
    mem_bind (up_add id (\<lambda>n. n + 1) u s) (\<lambda>s.
    mem_bind pub (\<lambda>p. agoo_server_publish env p s)))"

definition agoo_upgraded_subscribe :: "'h con_env \<Rightarrow> nat \<Rightarrow> string \<Rightarrow> nat \<Rightarrow> bool \<Rightarrow> 'h push \<Rightarrow> 'h push mem" where
  "agoo_upgraded_subscribe env u subject sl inc_ref s = up_publish env u inc_ref (agoo_pub_subscribe env (Some u) subject sl) s"

definition agoo_upgraded_unsubscribe :: "'h con_env \<Rightarrow> nat \<Rightarrow> string option \<Rightarrow> nat \<Rightarrow> bool \<Rightarrow> 'h push \<Rightarrow> 'h push mem" where
  "agoo_upgraded_unsubscribe env u subject sl inc_ref s = up_publish env u inc_ref (agoo_pub_unsubscribe env (Some u) subject sl) s"

definition agoo_upgraded_close :: "'h con_env \<Rightarrow> nat \<Rightarrow> bool \<Rightarrow> 'h push \<Rightarrow> 'h push mem" where
  "agoo_upgraded_close env u inc_ref s = up_publish env u inc_ref (Val (agoo_pub_close env (Some u))) s"

section \<open>Processing in a connection loop\<close>

text \<open>The connection of an upgraded one, if it is still open, and whether a loop has it.\<close>

definition up_con :: "nat \<Rightarrow> 'h push \<Rightarrow> nat option mem" where
  "up_con u s = mem_bind (w_up u (pworld s)) (\<lambda>up. Val (upcon up))"

text \<open>A response for a connection; \<open>f\<close> sets it up, with what it holds.\<close>

definition respond :: "'h con_env \<Rightarrow> nat \<Rightarrow> (nat \<Rightarrow> 'h world \<Rightarrow> 'h world mem) \<Rightarrow> 'h push \<Rightarrow> 'h push mem" where
  "respond env i f s =
    mem_bind (p_con i s) (\<lambda>c.
      case agoo_res_create env (pworld s) of
        (None, w) \<Rightarrow> Val (s\<lparr>pworld := w\<rparr>)
      | (Some r, w) \<Rightarrow>
          mem_bind (f r w) (\<lambda>w. Val (p_con_set i (agoo_con_res_append c r) (s\<lparr>pworld := w\<rparr>))))"

definition set_kind :: "con_kind \<Rightarrow> bool \<Rightarrow> nat \<Rightarrow> 'h world \<Rightarrow> 'h world mem" where
  "set_kind k cl r w = mem_bind (w_res r w) (\<lambda>rs. Val (w_res_set r (rs\<lparr>rskind := k, rsclose := cl\<rparr>) w))"

text \<open>A copy of the message for every upgraded connection of the loop that subscribes to the subject.\<close>

fun publish_ups :: "'h con_env \<Rightarrow> nat \<Rightarrow> string \<Rightarrow> nat option \<Rightarrow> nat list \<Rightarrow> 'h push \<Rightarrow> 'h push mem" where
  "publish_ups env loop sub msg [] s = Val s"
| "publish_ups env loop sub msg (u # us) s =
     mem_bind (w_up u (pworld s)) (\<lambda>up.
     mem_bind
       (case upcon up of
          None \<Rightarrow> Val s
        | Some i \<Rightarrow>
            if ploop s i = loop \<and> agoo_upgraded_match up sub then
              respond env i (\<lambda>r w.
                mem_bind (set_kind AGOO_CON_ANY False r w) (\<lambda>w.
                mem_bind (case msg of None \<Rightarrow> Val None | Some a \<Rightarrow> mem_bind (w_get a w) (\<lambda>t. agoo_text_dup (ev_mal env) (Some t))) (\<lambda>t.
                  let (a, w) = w_text t w in agoo_res_message_push r a w))) s
            else Val s)
       (publish_ups env loop sub msg us))"

definition publish_pub :: "'h con_env \<Rightarrow> agoo_pub \<Rightarrow> nat \<Rightarrow> 'h push \<Rightarrow> 'h push mem" where
  "publish_pub env pub loop s =
    (case psubject pub of None \<Rightarrow> UB | Some sub \<Rightarrow> publish_ups env loop sub (pmsg pub) (wuplist (pworld s)) s)"

definition up_subjects :: "('h agoo_upgraded \<Rightarrow> 'h agoo_upgraded) \<Rightarrow> nat \<Rightarrow> 'h push \<Rightarrow> 'h push mem" where
  "up_subjects f u = p_world (\<lambda>w. mem_bind (w_up u w) (\<lambda>up. Val (w_up_set u (f up) w)))"

text \<open>With no upgraded connection given, the subject is removed from all of them.\<close>

fun unsubscribe_ups :: "string option \<Rightarrow> nat list \<Rightarrow> 'h push \<Rightarrow> 'h push mem" where
  "unsubscribe_ups sub [] s = Val s"
| "unsubscribe_ups sub (u # us) s = mem_bind (up_subjects (\<lambda>up. agoo_upgraded_del_subject up sub) u s) (unsubscribe_ups sub us)"

definition unsubscribe_pub :: "agoo_pub \<Rightarrow> 'h push \<Rightarrow> 'h push mem" where
  "unsubscribe_pub pub s =
    (case pup pub of
       None \<Rightarrow> unsubscribe_ups (psubject pub) (wuplist (pworld s)) s
     | Some u \<Rightarrow> up_subjects (\<lambda>up. agoo_upgraded_del_subject up (psubject pub)) u s)"

text \<open>One push less is pending; the handler is told when it was the last.\<close>

definition pub_pending :: "'h con_env \<Rightarrow> nat \<Rightarrow> 'h push \<Rightarrow> 'h push mem" where
  "pub_pending env u s =
    mem_bind (w_up u (pworld s)) (\<lambda>up.
    mem_bind (up_add id (\<lambda>n. n - 1) u s) (\<lambda>s.
      case upctx up of
        Some ctx \<Rightarrow>
          if uppending up = 1 \<and> on_empty up then
            (if \<not> ev_req env 0 then UB
             else p_world (\<lambda>w. mem_bind (agoo_upgraded_ref u w) (\<lambda>w. Val (eval_push (push_req u AGOO_ON_EMPTY ctx []) w))) s)
          else Val s
      | None \<Rightarrow> Val s))"

text \<open>
  The connection is looked at for every kind but a message to all: a subscription does so
  without a test for NULL.
\<close>

definition process_pub_con :: "'h con_env \<Rightarrow> nat \<Rightarrow> agoo_pub \<Rightarrow> 'h push \<Rightarrow> 'h push mem" where
  "process_pub_con env loop pub s =
    mem_bind
      (case pup pub of
         None \<Rightarrow> Val s
       | Some u \<Rightarrow> mem_bind (up_con u s) (\<lambda>i.
           if i \<noteq> None \<and> ploop s (the i) = loop then pub_pending env u s else Val s)) (\<lambda>s.
    mem_bind
      (case pkind pub of
         AGOO_PUB_CLOSE \<Rightarrow>
           (case pup pub of
              None \<Rightarrow> UB
            | Some u \<Rightarrow> mem_bind (up_con u s) (\<lambda>i.
                case i of
                  Some i \<Rightarrow>
                    if ploop s i = loop
                    then mem_bind (p_con i s) (\<lambda>c. respond env i (set_kind (ckind c) True) s)
                    else Val s
                | None \<Rightarrow> Val s))
       | AGOO_PUB_WRITE \<Rightarrow>
           (case pup pub of
              None \<Rightarrow> UB
            | Some u \<Rightarrow> mem_bind (up_con u s) (\<lambda>i.
                case i of
                  Some i \<Rightarrow>
                    if ploop s i = loop
                    then respond env i (\<lambda>r w. mem_bind (set_kind AGOO_CON_ANY False r w) (agoo_res_message_push r (pmsg pub))) s
                    else Val s
                | None \<Rightarrow> Val s))
       | AGOO_PUB_SUB \<Rightarrow>
           (case pup pub of
              None \<Rightarrow> Val s
            | Some u \<Rightarrow> mem_bind (up_con u s) (\<lambda>i.
                case i of
                  Some i \<Rightarrow>
                    if ploop s i = loop
                    then (case psubject pub of None \<Rightarrow> UB | Some p \<Rightarrow> up_subjects (\<lambda>up. agoo_upgraded_add_subject up p) u s)
                    else Val s
                | None \<Rightarrow> UB))
       | AGOO_PUB_UN \<Rightarrow>
           (case pup pub of
              None \<Rightarrow> Val s
            | Some u \<Rightarrow> mem_bind (up_con u s) (\<lambda>i.
                case i of
                  Some i \<Rightarrow> if ploop s i = loop then unsubscribe_pub pub s else Val s
                | None \<Rightarrow> UB))
       | AGOO_PUB_MSG \<Rightarrow> publish_pub env pub loop s) (\<lambda>s.
      p_world (agoo_pub_destroy pub) s))"

text \<open>The loop takes the publications off its queue in their order.\<close>

fun pub_queue_ready_read :: "'h con_env \<Rightarrow> nat \<Rightarrow> agoo_pub list \<Rightarrow> 'h push \<Rightarrow> 'h push mem" where
  "pub_queue_ready_read env loop [] s = Val s"
| "pub_queue_ready_read env loop (p # ps) s =
     mem_bind (process_pub_con env loop p (s\<lparr>pqueue := (pqueue s)(loop := ps)\<rparr>)) (pub_queue_ready_read env loop ps)"

text \<open>A connection is destroyed: its upgraded connection, if any, loses it. The responses are freed without their messages.\<close>

definition agoo_con_destroy :: "'h con_env \<Rightarrow> nat \<Rightarrow> 'h push \<Rightarrow> 'h push mem" where
  "agoo_con_destroy env i s =
    mem_bind (p_con i s) (\<lambda>c.
    mem_bind (if ckind c = AGOO_CON_WS \<or> ckind c = AGOO_CON_SSE then agoo_ws_req_close env c (pworld s) else Val (pworld s)) (\<lambda>w.
    mem_bind (case cup c of None \<Rightarrow> Val w | Some u \<Rightarrow> agoo_upgraded_release_con u w) (\<lambda>w.
      Val (s\<lparr>pworld := w\<lparr>wress := (\<lambda>r. if r \<in> set (cres c) then None else wress w r)\<rparr>, pcons := (pcons s)(i := None)\<rparr>))))"

end
