(* ===== verification/PushMsg.thy ===== *)
theory PushMsg
  imports Push ConOut
begin

text \<open>
  A message published on a subject reaches every connection that subscribes to it once, however
  many loops there are.
\<close>

section \<open>The store and what waits in a connection\<close>

text \<open>
  The store is in order: addresses in use are below the next one, responses of the cache are in
  no queue, and the upgraded connections of the list belong to the connections they name.
\<close>

definition cons_ok :: "'h push \<Rightarrow> bool" where
  "cons_ok s \<longleftrightarrow> (\<forall>i c r. pcons s i = Some c \<and> r \<in> set (cres c) \<longrightarrow>
     r < wnext (pworld s) \<and> r \<notin> set (wcache (pworld s)) \<and>
     (\<exists>x. wress (pworld s) r = Some x \<and> (\<forall>a \<in> set (rsmsgs x). a < wnext (pworld s))))"

definition ups_ok :: "'h push \<Rightarrow> bool" where
  "ups_ok s \<longleftrightarrow> distinct (wuplist (pworld s)) \<and>
     (\<forall>u \<in> set (wuplist (pworld s)). \<exists>up. wups (pworld s) u = Some up \<and>
        (\<forall>i. upcon up = Some i \<longrightarrow> (\<exists>c. pcons s i = Some c \<and> cup c = Some u)))"

definition push_ok :: "'h push \<Rightarrow> bool" where
  "push_ok s \<longleftrightarrow> cons_ok s \<and> ups_ok s \<and> distinct (wcache (pworld s)) \<and> (\<forall>r \<in> set (wcache (pworld s)). r < wnext (pworld s))"

text \<open>The contents of the messages queued in a connection, by response.\<close>

definition res_texts :: "'h world \<Rightarrow> nat \<Rightarrow> string option list" where
  "res_texts w r = (case wress w r of None \<Rightarrow> [] | Some x \<Rightarrow> map (\<lambda>a. map_option content (wtexts w a)) (rsmsgs x))"

definition inbox :: "'h push \<Rightarrow> nat \<Rightarrow> string option list list" where
  "inbox s i = (case pcons s i of None \<Rightarrow> [] | Some c \<Rightarrow> map (res_texts (pworld s)) (cres c))"

text \<open>A text that no response in a queue holds.\<close>

definition unused :: "'h push \<Rightarrow> nat \<Rightarrow> bool" where
  "unused s a \<longleftrightarrow> a < wnext (pworld s) \<and> (\<forall>i c r x. pcons s i = Some c \<and> r \<in> set (cres c) \<and> wress (pworld s) r = Some x \<longrightarrow> a \<notin> set (rsmsgs x))"

text \<open>Memory is not refused.\<close>

definition mem_enough :: "'h con_env \<Rightarrow> bool" where
  "mem_enough env \<longleftrightarrow> malloc_ok (ev_mal env) \<and> (\<forall>n. ev_mal env n \<noteq> None) \<and> (\<forall>r. ev_res env r) \<and> (\<forall>n. ev_req env n) \<and> ev_pub env"

lemma res_create_ok:
  assumes "mem_enough env"
  shows "\<exists>r w'. agoo_res_create env w = (Some r, w') \<and> wress w' = (wress w)(r \<mapsto> res_new) \<and> wtexts w' = wtexts w \<and>
     wups w' = wups w \<and> wuplist w' = wuplist w \<and> wnext w \<le> wnext w' \<and>
     (wcache w = r # wcache w' \<and> wnext w' = wnext w \<or> r = wnext w \<and> wnext w' = wnext w + 1 \<and> wcache w = [] \<and> wcache w' = [])"
  using assms by (auto simp: agoo_res_create_def mem_enough_def split: list.split)

lemma text_dup_enough:
  assumes "mem_enough env" "text_ok t"
  shows "\<exists>t'. agoo_text_dup (ev_mal env) (Some t) = Val (Some t') \<and> text_ok t' \<and> content t' = content t \<and> tref t' = 0"
proof -
  have "ev_mal env (talen t + 1) \<noteq> None" using assms(1) by (simp add: mem_enough_def)
  then obtain b where b: "ev_mal env (talen t + 1) = Some b" by auto
  then have bl: "length b = talen t + 1" using assms(1) by (auto simp: mem_enough_def malloc_ok_def)
  have l: "tlen t + 1 \<le> length (tbuf t)" "tlen t + 1 \<le> length b" using assms(2) bl by (auto simp: text_ok_def)
  have w: "blk_write b 0 (take (tlen t + 1) (tbuf t)) = Val (take (tlen t + 1) (tbuf t) @ drop (tlen t + 1) b)"
    by (rule blk_write_front) (use l in auto)
  then show ?thesis using b bl l assms(2) by (auto simp: agoo_text_dup_def blk_read_ok text_ok_def content_def)
qed

lemma pub_response:
  fixes s :: "'h push"
  assumes ok: "push_ok s" and mem: "mem_enough env" and i: "pcons s i = Some c"
    and t: "wtexts (pworld s) a = Some t" "text_ok t" "unused s a"
  shows "\<exists>s'. respond env i (\<lambda>r w.
        mem_bind (set_kind AGOO_CON_ANY False r w) (\<lambda>w.
        mem_bind (mem_bind (w_get a w) (\<lambda>t. agoo_text_dup (ev_mal env) (Some t))) (\<lambda>t.
          let (a, w) = w_text t w in agoo_res_message_push r a w))) s = Val s' \<and>
     push_ok s' \<and> (\<forall>j. inbox s' j = inbox s j @ (if j = i then [[Some (content t)]] else [])) \<and>
     ploop s' = ploop s \<and> ploops s' = ploops s \<and> pqueue s' = pqueue s \<and> wups (pworld s') = wups (pworld s) \<and>
     wuplist (pworld s') = wuplist (pworld s) \<and> wtexts (pworld s') a = Some t \<and> unused s' a"
proof -
  let ?w = "pworld s"
  obtain r w1 where r: "agoo_res_create env ?w = (Some r, w1)" and w1: "wress w1 = (wress ?w)(r \<mapsto> res_new)" "wtexts w1 = wtexts ?w"
     "wups w1 = wups ?w" "wuplist w1 = wuplist ?w" "wnext ?w \<le> wnext w1"
     "wcache ?w = r # wcache w1 \<and> wnext w1 = wnext ?w \<or> r = wnext ?w \<and> wnext w1 = wnext ?w + 1 \<and> wcache ?w = [] \<and> wcache w1 = []"
    using res_create_ok [OF mem, of ?w] by blast
  obtain t' where t': "agoo_text_dup (ev_mal env) (Some t) = Val (Some t')" "text_ok t'" "content t' = content t" "tref t' = 0"
    using text_dup_enough [OF mem t(2)] by blast
  let ?x = "res_new\<lparr>rskind := AGOO_CON_ANY, rsclose := False\<rparr>"
  define b where "b = wnext w1"
  define w' where "w' = w_res_set r (?x\<lparr>rsmsgs := [b], rsfinal := True\<rparr>)
      (w1\<lparr>wress := (wress w1)(r \<mapsto> ?x), wnext := b + 1, wtexts := (wtexts w1)(b \<mapsto> agoo_text_ref t')\<rparr>)"
  define s' where "s' = p_con_set i (agoo_con_res_append c r) (s\<lparr>pworld := w'\<rparr>)"
  have e: "respond env i (\<lambda>r w.
        mem_bind (set_kind AGOO_CON_ANY False r w) (\<lambda>w.
        mem_bind (mem_bind (w_get a w) (\<lambda>t. agoo_text_dup (ev_mal env) (Some t))) (\<lambda>t.
          let (a, w) = w_text t w in agoo_res_message_push r a w))) s = Val s'"
    using i r t(1) t'(1) w1(1,2)
    by (simp add: respond_def p_con_def set_kind_def w_res_def w_res_set_def w_get_def w_text_def agoo_res_message_push_def w_ref_def
        s'_def w'_def b_def res_chain_def res_new_def)
  have f: "wress w' = (wress ?w)(r \<mapsto> ?x\<lparr>rsmsgs := [b], rsfinal := True\<rparr>)" "wtexts w' = (wtexts ?w)(b \<mapsto> agoo_text_ref t')"
    "wups w' = wups ?w" "wuplist w' = wuplist ?w" "wcache w' = wcache w1" "wnext w' = b + 1"
    using w1 by (simp_all add: w'_def w_res_set_def)
  have fresh: "wnext ?w \<le> b" "r < b + 1" using w1(5,6) ok by (auto simp: b_def push_ok_def)
  have rn: "r \<notin> set (cres d)" if "pcons s j = Some d" for j d
    using that w1(6) ok unfolding push_ok_def cons_ok_def by fastforce
  have old: "q < b \<and> q \<notin> set (wcache w1) \<and> wress w' q = wress ?w q \<and>
      (\<exists>x. wress ?w q = Some x \<and> (\<forall>a \<in> set (rsmsgs x). a < b))" if "pcons s j = Some d" "q \<in> set (cres d)" for j d q
  proof -
    have "q \<noteq> r" using rn [OF that(1)] that(2) by auto
    moreover have "q < wnext ?w" "q \<notin> set (wcache ?w)" "\<exists>x. wress ?w q = Some x \<and> (\<forall>a \<in> set (rsmsgs x). a < wnext ?w)"
      using ok that unfolding push_ok_def cons_ok_def by blast+
    moreover have "set (wcache w1) \<subseteq> set (wcache ?w)" using w1(6) by auto
    ultimately show ?thesis using f(1) fresh(1) by fastforce
  qed
  have texts: "res_texts w' q = res_texts ?w q" if "pcons s j = Some d" "q \<in> set (cres d)" for j d q
    using old [OF that] f(2) by (auto simp: res_texts_def)
  have rc: "r \<notin> set (wcache w1)" "distinct (wcache w1)" "\<forall>q \<in> set (wcache w1). q < b"
    using w1(6) ok fresh by (auto simp: push_ok_def dest!: bspec)
  have pc: "pcons s' = (pcons s)(i \<mapsto> c\<lparr>cres := cres c @ [r]\<rparr>)" "pworld s' = w'"
    by (simp_all add: s'_def p_con_set_def agoo_con_res_append_def)
  have "cons_ok s'"
    unfolding cons_ok_def pc f(5,6)
  proof (intro allI impI)
    fix j d q assume d: "((pcons s)(i \<mapsto> c\<lparr>cres := cres c @ [r]\<rparr>)) j = Some d \<and> q \<in> set (cres d)"
    show "q < b + 1 \<and> q \<notin> set (wcache w1) \<and> (\<exists>x. wress w' q = Some x \<and> (\<forall>a \<in> set (rsmsgs x). a < b + 1))"
    proof (cases "q = r")
      case True
      then show ?thesis using fresh rc f(1) by simp
    next
      case False
      then obtain d' where "pcons s j = Some d'" "q \<in> set (cres d')" using d i by (auto split: if_splits)
      from old [OF this] show ?thesis by force
    qed
  qed
  moreover have "ups_ok s'" using ok i pc f unfolding push_ok_def ups_ok_def by fastforce
  ultimately have "push_ok s'" using rc pc f by (auto simp: push_ok_def)
  moreover have "inbox s' j = inbox s j @ (if j = i then [[Some (content t)]] else [])" for j
  proof (cases "j = i")
    case True
    have "res_texts w' r = [Some (content t)]" using f t'(3) by (simp add: res_texts_def)
    then show ?thesis using True i texts [OF i] by (simp add: inbox_def pc)
  next
    case False
    then show ?thesis using texts [of j] by (auto simp: inbox_def pc split: option.split)
  qed
  moreover have "wtexts w' a = Some t" using f(2) t fresh by (auto simp: unused_def)
  moreover have un: "unused s' a"
    unfolding unused_def pc f(6)
  proof (intro conjI allI impI)
    show "a < b + 1" using t(3) fresh by (simp add: unused_def)
    fix j d q x assume d: "((pcons s)(i \<mapsto> c\<lparr>cres := cres c @ [r]\<rparr>)) j = Some d \<and> q \<in> set (cres d) \<and> wress w' q = Some x"
    show "a \<notin> set (rsmsgs x)"
    proof (cases "q = r")
      case True
      then show ?thesis using d f(1) fresh t(3) by (auto simp: unused_def)
    next
      case False
      then obtain d' where "pcons s j = Some d'" "q \<in> set (cres d')" using d i by (auto split: if_splits)
      then show ?thesis using t(3) d f(1) False by (auto simp: unused_def)
    qed
  qed
  ultimately show ?thesis
    using e f fresh pc un by (intro exI [of _ s']) (auto simp: s'_def p_con_set_def)
qed

section \<open>The subscribers\<close>

text \<open>A connection is subscribed, in a loop, when an upgraded connection of a list is its own and matches.\<close>

definition subscribed :: "'h push \<Rightarrow> nat \<Rightarrow> string \<Rightarrow> nat list \<Rightarrow> nat \<Rightarrow> bool" where
  "subscribed s loop sub us i \<longleftrightarrow> ploop s i = loop \<and>
     (\<exists>u \<in> set us. \<exists>up. wups (pworld s) u = Some up \<and> upcon up = Some i \<and> agoo_upgraded_match up sub)"

lemma push_respond_ok:
  assumes "mem_enough env" "push_ok s" "distinct us" "set us \<subseteq> set (wuplist (pworld s))"
    "wtexts (pworld s) a = Some t" "text_ok t" "unused s a"
  shows "\<exists>s'. publish_ups env loop sub (Some a) us s = Val s' \<and> push_ok s' \<and>
    (\<forall>j. inbox s' j = inbox s j @ (if subscribed s loop sub us j then [[Some (content t)]] else [])) \<and>
    ploop s' = ploop s \<and> ploops s' = ploops s \<and> pqueue s' = pqueue s \<and> wups (pworld s') = wups (pworld s) \<and>
    wuplist (pworld s') = wuplist (pworld s) \<and> wtexts (pworld s') a = Some t \<and> unused s' a"
  using assms(2-7)
proof (induction us arbitrary: s)
  case Nil
  then show ?case by (simp add: subscribed_def)
next
  case (Cons u us)
  obtain up where up: "wups (pworld s) u = Some up" "\<And>i. upcon up = Some i \<Longrightarrow> \<exists>c. pcons s i = Some c \<and> cup c = Some u"
    using Cons.prems(1,3) by (auto simp: push_ok_def ups_ok_def)
  have others: "\<not> subscribed s loop sub us i" if "upcon up = Some i" for i
  proof
    assume "subscribed s loop sub us i"
    then obtain v upv where v: "v \<in> set us" "wups (pworld s) v = Some upv" "upcon upv = Some i"
      by (auto simp: subscribed_def)
    then have "\<exists>c. pcons s i = Some c \<and> cup c = Some v" using Cons.prems(1,3) by (fastforce simp: push_ok_def ups_ok_def)
    with up(2) [OF that] v(1) Cons.prems(2) show False by auto
  qed
  let ?hit = "\<lambda>i. upcon up = Some i \<and> ploop s i = loop \<and> agoo_upgraded_match up sub"
  have sub: "subscribed s loop sub (u # us) j \<longleftrightarrow> ?hit j \<or> subscribed s loop sub us j" for j
    using up(1) by (auto simp: subscribed_def)
  show ?case
  proof (cases "\<exists>i. ?hit i")
    case False
    have "publish_ups env loop sub (Some a) (u # us) s = publish_ups env loop sub (Some a) us s"
      using False up(1) by (auto simp: w_up_def split: option.split)
    moreover have "subscribed s loop sub (u # us) = subscribed s loop sub us" using sub False by (auto simp: fun_eq_iff)
    ultimately show ?thesis using Cons.IH [OF Cons.prems(1)] Cons.prems by simp
  next
    case True
    then obtain i where i: "upcon up = Some i" "ploop s i = loop" "agoo_upgraded_match up sub" by auto
    obtain c where c: "pcons s i = Some c" using up(2) [OF i(1)] by auto
    obtain s1 where s1: "respond env i (\<lambda>r w.
          mem_bind (set_kind AGOO_CON_ANY False r w) (\<lambda>w.
          mem_bind (mem_bind (w_get a w) (\<lambda>t. agoo_text_dup (ev_mal env) (Some t))) (\<lambda>t.
            let (a, w) = w_text t w in agoo_res_message_push r a w))) s = Val s1" "push_ok s1"
        "\<forall>j. inbox s1 j = inbox s j @ (if j = i then [[Some (content t)]] else [])"
        "ploop s1 = ploop s" "ploops s1 = ploops s" "pqueue s1 = pqueue s" "wups (pworld s1) = wups (pworld s)"
        "wuplist (pworld s1) = wuplist (pworld s)" "wtexts (pworld s1) a = Some t" "unused s1 a"
      using pub_response [OF Cons.prems(1) assms(1) c Cons.prems(4-6)] by blast
    have e: "publish_ups env loop sub (Some a) (u # us) s = publish_ups env loop sub (Some a) us s1"
      using i up(1) s1(1) by (simp add: w_up_def)
    have sub1: "subscribed s1 loop sub us j = subscribed s loop sub us j" for j
      using s1(4,7) by (simp add: subscribed_def)
    obtain s2 where s2: "publish_ups env loop sub (Some a) us s1 = Val s2" "push_ok s2"
        "\<forall>j. inbox s2 j = inbox s1 j @ (if subscribed s1 loop sub us j then [[Some (content t)]] else [])"
        "ploop s2 = ploop s1" "ploops s2 = ploops s1" "pqueue s2 = pqueue s1" "wups (pworld s2) = wups (pworld s1)"
        "wuplist (pworld s2) = wuplist (pworld s1)" "wtexts (pworld s2) a = Some t" "unused s2 a"
      using Cons.IH [OF s1(2)] Cons.prems s1 by auto
    have "inbox s2 j = inbox s j @ (if subscribed s loop sub (u # us) j then [[Some (content t)]] else [])" for j
      using s1(3) s2(3) sub [of j] sub1 [of j] others [OF i(1)] i by (cases "j = i") auto
    then show ?thesis using e s1 s2 by auto
  qed
qed

section \<open>All loops\<close>

text \<open>Every loop works off its queue, in some order of the loops.\<close>

fun loops_read :: "'h con_env \<Rightarrow> nat list \<Rightarrow> 'h push \<Rightarrow> 'h push mem" where
  "loops_read env [] s = Val s"
| "loops_read env (l # ls) s = mem_bind (pub_queue_ready_read env l (pqueue s l) s) (loops_read env ls)"

definition msg_pub :: "string \<Rightarrow> nat \<Rightarrow> agoo_pub" where
  "msg_pub sub a = \<lparr>pkind = AGOO_PUB_MSG, pup = None, psubject = Some sub, pmsg = Some a\<rparr>"

definition reached :: "'h push \<Rightarrow> nat list \<Rightarrow> string \<Rightarrow> nat \<Rightarrow> bool" where
  "reached s loops sub i \<longleftrightarrow> ploop s i \<in> set loops \<and>
     (\<exists>u \<in> set (wuplist (pworld s)). \<exists>up. wups (pworld s) u = Some up \<and> upcon up = Some i \<and> agoo_upgraded_match up sub)"

text \<open>Publishing puts the message, with a reference of its own for each, on the queues of the loops.\<close>

lemma publish_to_ok:
  assumes "ev_pub env" "distinct ls" "ls \<noteq> []" "pup p = None" "pmsg p = Some a" "wtexts (pworld s) a = Some t"
  shows "publish_to env p ls s = Val (s\<lparr>pqueue := (\<lambda>l. if l \<in> set ls then pqueue s l @ [p] else pqueue s l),
     pworld := (pworld s)\<lparr>wtexts := (wtexts (pworld s))(a \<mapsto> t\<lparr>tref := tref t + int (length ls) - 1\<rparr>)\<rparr>\<rparr>)"
  using assms
proof (induction env p ls s arbitrary: t rule: publish_to.induct)
  case (2 env pub l s)
  then show ?case by (auto simp: pub_push_def fun_upd_idem fun_eq_iff)
next
  case (3 env pub l m ls s)
  let ?w = "(pworld s)\<lparr>wtexts := (wtexts (pworld s))(a \<mapsto> agoo_text_ref t)\<rparr>"
  have d: "agoo_pub_dup env pub (pworld s) = Val (Some pub, ?w)"
    using 3 by (simp add: agoo_pub_dup_def w_ref_def)
  have "publish_to env pub (m # ls) (pub_push l pub (s\<lparr>pworld := ?w\<rparr>)) =
      Val (pub_push l pub (s\<lparr>pworld := ?w\<rparr>)\<lparr>pqueue := (\<lambda>q. if q \<in> set (m # ls) then pqueue (pub_push l pub (s\<lparr>pworld := ?w\<rparr>)) q @ [pub]
          else pqueue (pub_push l pub (s\<lparr>pworld := ?w\<rparr>)) q),
        pworld := (pworld (pub_push l pub (s\<lparr>pworld := ?w\<rparr>)))\<lparr>wtexts := (wtexts (pworld (pub_push l pub (s\<lparr>pworld := ?w\<rparr>))))(a \<mapsto>
          (agoo_text_ref t)\<lparr>tref := tref (agoo_text_ref t) + int (length (m # ls)) - 1\<rparr>)\<rparr>\<rparr>)"
    by (rule "3.IH" [OF refl]) (use 3 in \<open>auto simp: pub_push_def\<close>)
  then show ?case using d 3(3) by (auto simp: pub_push_def agoo_text_ref_def fun_eq_iff)
qed simp

text \<open>
  One loop that has only the message queued takes it, answers its subscribers and drops its
  reference of the text; the last one frees it.
\<close>

lemma push_ok_queue [simp]: "push_ok (s\<lparr>pqueue := q\<rparr>) = push_ok s" "inbox (s\<lparr>pqueue := q\<rparr>) = inbox s" "unused (s\<lparr>pqueue := q\<rparr>) = unused s"
  by (auto simp: push_ok_def cons_ok_def ups_ok_def inbox_def unused_def fun_eq_iff split: option.split)

lemma push_ok_texts: "push_ok (s\<lparr>pworld := (pworld s)\<lparr>wtexts := f\<rparr>\<rparr>) = push_ok s" "unused (s\<lparr>pworld := (pworld s)\<lparr>wtexts := f\<rparr>\<rparr>) = unused s"
  by (auto simp: push_ok_def cons_ok_def ups_ok_def unused_def fun_eq_iff)

lemma inbox_texts:
  assumes "unused s a" "\<And>b. b \<noteq> a \<Longrightarrow> f b = wtexts (pworld s) b"
  shows "inbox (s\<lparr>pworld := (pworld s)\<lparr>wtexts := f\<rparr>\<rparr>) i = inbox s i"
proof (cases "pcons s i")
  case (Some c)
  have "res_texts ((pworld s)\<lparr>wtexts := f\<rparr>) r = res_texts (pworld s) r" if "r \<in> set (cres c)" for r
  proof (cases "wress (pworld s) r")
    case (Some x)
    then have "a \<notin> set (rsmsgs x)" using assms(1) \<open>pcons s i = Some c\<close> that by (auto simp: unused_def)
    then have "f b = wtexts (pworld s) b" if "b \<in> set (rsmsgs x)" for b using assms(2) that by metis
    then show ?thesis using Some by (simp add: res_texts_def)
  qed (simp add: res_texts_def)
  then show ?thesis using Some by (simp add: inbox_def)
qed (simp add: inbox_def)

lemma loop_message:
  assumes "mem_enough env" "push_ok s" "pqueue s l = [msg_pub sub a]" "wtexts (pworld s) a = Some t" "text_ok t" "unused s a"
  shows "\<exists>s'. pub_queue_ready_read env l (pqueue s l) s = Val s' \<and> push_ok s' \<and>
    (\<forall>j. inbox s' j = inbox s j @ (if subscribed s l sub (wuplist (pworld s)) j then [[Some (content t)]] else [])) \<and>
    ploop s' = ploop s \<and> pqueue s' = (pqueue s)(l := []) \<and> wups (pworld s') = wups (pworld s) \<and>
    wuplist (pworld s') = wuplist (pworld s) \<and> wtexts (pworld s') a = agoo_text_release t \<and> unused s' a"
proof -
  let ?s = "s\<lparr>pqueue := (pqueue s)(l := [])\<rparr>"
  have d: "distinct (wuplist (pworld ?s))" "set (wuplist (pworld ?s)) \<subseteq> set (wuplist (pworld ?s))"
    using assms(2) by (simp_all add: push_ok_def ups_ok_def)
  have ok: "push_ok ?s" "wtexts (pworld ?s) a = Some t" "unused ?s a" using assms by simp_all
  obtain s1 where s1: "publish_ups env l sub (Some a) (wuplist (pworld ?s)) ?s = Val s1" "push_ok s1"
    "\<forall>j. inbox s1 j = inbox ?s j @ (if subscribed ?s l sub (wuplist (pworld ?s)) j then [[Some (content t)]] else [])"
    "ploop s1 = ploop ?s" "pqueue s1 = pqueue ?s" "wups (pworld s1) = wups (pworld ?s)"
    "wuplist (pworld s1) = wuplist (pworld ?s)" "wtexts (pworld s1) a = Some t" "unused s1 a"
    using push_respond_ok [OF assms(1) ok(1) d ok(2) assms(5) ok(3), of l sub] by blast
  let ?s2 = "s1\<lparr>pworld := (pworld s1)\<lparr>wtexts := (wtexts (pworld s1))(a := agoo_text_release t)\<rparr>\<rparr>"
  have e: "pub_queue_ready_read env l (pqueue s l) s = Val ?s2"
    using assms(3) s1(1,8) by (simp add: process_pub_con_def msg_pub_def publish_pub_def p_world_def agoo_pub_destroy_def w_release_def)
  have i: "inbox ?s2 j = inbox s1 j" for j by (rule inbox_texts [OF s1(9)]) simp
  have sb: "subscribed ?s l sub us = subscribed s l sub us" for us by (simp add: subscribed_def fun_eq_iff)
  show ?thesis using e s1 i sb by (intro exI [of _ ?s2]) (simp add: push_ok_texts)
qed

lemma loops_message:
  assumes "mem_enough env" "distinct ls" "push_ok s" "\<forall>l \<in> set ls. pqueue s l = [msg_pub sub a]"
    "wtexts (pworld s) a = Some t" "text_ok t" "int (length ls) \<le> tref t" "unused s a"
  shows "\<exists>s'. loops_read env ls s = Val s' \<and> (\<forall>j. inbox s' j = inbox s j @ (if reached s ls sub j then [[Some (content t)]] else []))"
  using assms(2-8)
proof (induction ls arbitrary: s t)
  case Nil
  then show ?case by (simp add: reached_def)
next
  case (Cons l ls)
  have q: "pqueue s l = [msg_pub sub a]" using Cons.prems(3) by simp
  obtain s1 where s1: "pub_queue_ready_read env l (pqueue s l) s = Val s1" "push_ok s1"
    "\<forall>j. inbox s1 j = inbox s j @ (if subscribed s l sub (wuplist (pworld s)) j then [[Some (content t)]] else [])"
    "ploop s1 = ploop s" "pqueue s1 = (pqueue s)(l := [])" "wups (pworld s1) = wups (pworld s)"
    "wuplist (pworld s1) = wuplist (pworld s)" "wtexts (pworld s1) a = agoo_text_release t" "unused s1 a"
    using loop_message [OF assms(1) Cons.prems(2) q Cons.prems(4,5,7)] by blast
  have rd: "reached s (l # ls) sub j \<longleftrightarrow> subscribed s l sub (wuplist (pworld s)) j \<or> reached s ls sub j" for j
    by (auto simp: reached_def subscribed_def)
  show ?case
  proof (cases ls)
    case Nil
    then show ?thesis using s1 rd by (simp add: reached_def)
  next
    case (Cons m ms)
    have t1: "wtexts (pworld s1) a = Some (t\<lparr>tref := tref t - 1\<rparr>)" using s1(8) Cons.prems(6) Cons by (simp add: agoo_text_release_def)
    have ok1: "text_ok (t\<lparr>tref := tref t - 1\<rparr>)" "content (t\<lparr>tref := tref t - 1\<rparr>) = content t"
      using Cons.prems(5) by (simp_all add: text_ok_def content_def)
    have "\<exists>s2. loops_read env ls s1 = Val s2 \<and>
        (\<forall>j. inbox s2 j = inbox s1 j @ (if reached s1 ls sub j then [[Some (content (t\<lparr>tref := tref t - 1\<rparr>))]] else []))"
      by (rule Cons.IH [OF _ s1(2) _ t1 ok1(1) _ s1(9)]) (use Cons.prems s1(5) in auto)
    then obtain s2 where s2: "loops_read env ls s1 = Val s2"
      "\<forall>j. inbox s2 j = inbox s1 j @ (if reached s1 ls sub j then [[Some (content t)]] else [])" unfolding ok1(2) by blast
    have r1: "reached s1 ls sub j = reached s ls sub j" for j using s1(4,6,7) by (simp add: reached_def)
    have ex: "\<not> (subscribed s l sub (wuplist (pworld s)) j \<and> reached s ls sub j)" for j
      using Cons.prems(1) by (auto simp: reached_def subscribed_def)
    have "inbox s2 j = inbox s j @ (if reached s (l # ls) sub j then [[Some (content t)]] else [])" for j
      using s1(3) s2(2) rd [of j] r1 [of j] ex [of j] by auto
    then show ?thesis using s1(1) s2(1) by auto
  qed
qed

section \<open>Publishing\<close>

lemma pub_text_ok:
  assumes "mem_enough env"
  shows "\<exists>t. pub_text env (m @ [NUL]) (length m) = Val (Some t) \<and> text_ok t \<and> terminated t \<and> content t = m \<and> tref t = 0 \<and>
     has_room AGOO_CON_SSE t = (length m < 2 ^ 63)"
proof -
  let ?n = "length m + 32"
  have "ev_mal env (AGOO_TEXT_MIN_SIZE + ?n + 1) \<noteq> None" using assms by (simp add: mem_enough_def)
  then obtain b where b: "ev_mal env (AGOO_TEXT_MIN_SIZE + ?n + 1) = Some b" by auto
  have bl: "length b = AGOO_TEXT_MIN_SIZE + ?n + 1" using assms b by (auto simp: mem_enough_def malloc_ok_def)
  define t0 where "t0 = \<lparr>tlen = 0, talen = ?n, tref = 0, tbin = False, tbuf = b[0 := NUL]\<rparr>"
  have a: "agoo_text_allocate (ev_mal env) ?n = Val (Some t0)"
    using b bl by (simp add: agoo_text_allocate_def AGOO_TEXT_MIN_SIZE_def blk_write_one t0_def)
  have t0: "text_ok t0" using bl by (simp add: t0_def text_ok_def)
  have al: "arg_len (m @ [NUL]) (int (length m)) = length m" by (cases m) (simp_all add: arg_len_def strlen_def cstr_def NUL_def)
  obtain t where t: "agoo_text_append (ev_mal env) (Some t0) (m @ [NUL]) (int (length m)) = Val (Some t)" "text_ok t" "terminated t"
    "content t = content t0 @ take (length m) (m @ [NUL])" "talen t = talen t0" "tlen t = tlen t0 + length m"
    using text_append_fits [OF t0, of "m @ [NUL]" "int (length m)" "ev_mal env"] al by (auto simp: t0_def)
  have "tref t = tref t0" using t(1) by (auto simp: agoo_text_append_def Let_def al text_grow_def t0_def mem_bind_eq_Val)
  then show ?thesis using a t by (auto simp: pub_text_def t0_def content_def has_room_def)
qed

text \<open>
  C7. A message that is published reaches every connection that has a subscription matching its
  subject and belongs to one of the loops, exactly once and whole, in whatever order the loops
  work off their queues; the other connections get nothing, and nothing is lost of what waits.
\<close>

theorem publish_once:
  assumes "mem_enough env" "push_ok s" "distinct (ploops s)" "ploops s \<noteq> []" "\<forall>l. pqueue s l = []" "NUL \<notin> set sub"
    "distinct ls" "set ls = set (ploops s)"
  shows "\<exists>p w1 s1 s2. agoo_pub_publish env (sub @ [NUL]) (length sub) (m @ [NUL]) (length m) (pworld s) = Val (p, w1) \<and>
     agoo_server_publish env p (s\<lparr>pworld := w1\<rparr>) = Val s1 \<and> loops_read env ls s1 = Val s2 \<and>
     (\<forall>i. inbox s2 i = inbox s i @ (if reached s (ploops s) sub i then [[Some m]] else []))"
proof -
  obtain t where t: "pub_text env (m @ [NUL]) (length m) = Val (Some t)" "text_ok t" "content t = m" "tref t = 0"
    using pub_text_ok [OF assms(1)] by blast
  let ?w = "pworld s" and ?a = "wnext (pworld s)" and ?t = "agoo_text_ref t"
  define w1 where "w1 = ?w\<lparr>wnext := ?a + 1, wtexts := (wtexts ?w)(?a \<mapsto> ?t)\<rparr>"
  have sc: "agoo_subject_create (sub @ [NUL]) (length sub) = Val sub"
    using assms(6) by (auto simp: agoo_subject_create_def blk_read_ok cstr_def)
  have p: "agoo_pub_publish env (sub @ [NUL]) (length sub) (m @ [NUL]) (length m) ?w = Val (Some (msg_pub sub ?a), w1)"
    using assms(1) sc t(1) by (simp add: agoo_pub_publish_def mem_enough_def w_text_def msg_pub_def w1_def)
  let ?s = "s\<lparr>pworld := w1\<rparr>"
  define t1 where "t1 = ?t\<lparr>tref := tref ?t + int (length (ploops s)) - 1\<rparr>"
  define s1 where "s1 = ?s\<lparr>pqueue := (\<lambda>l. if l \<in> set (ploops s) then [msg_pub sub ?a] else []),
     pworld := w1\<lparr>wtexts := (wtexts w1)(?a \<mapsto> t1)\<rparr>\<rparr>"
  have q: "(\<lambda>l. if l \<in> set (ploops s) then pqueue ?s l @ [msg_pub sub ?a] else pqueue ?s l) =
      (\<lambda>l. if l \<in> set (ploops s) then [msg_pub sub ?a] else [])" using assms(5) by (simp add: fun_eq_iff)
  have "ev_pub env" "pup (msg_pub sub ?a) = None" "pmsg (msg_pub sub ?a) = Some ?a" "wtexts (pworld ?s) ?a = Some ?t"
    using assms(1) by (simp_all add: mem_enough_def msg_pub_def w1_def)
  from publish_to_ok [OF this(1) assms(3,4) this(2-4)]
  have "publish_to env (msg_pub sub ?a) (ploops s) ?s = Val s1" unfolding q by (simp add: s1_def t1_def)
  then have pub: "agoo_server_publish env (Some (msg_pub sub ?a)) ?s = Val s1" by (simp add: agoo_server_publish_def)
  have s1: "wnext (pworld s1) = ?a + 1" "wtexts (pworld s1) = (wtexts ?w)(?a \<mapsto> t1)" "wress (pworld s1) = wress ?w" "wups (pworld s1) = wups ?w"
    "wuplist (pworld s1) = wuplist ?w" "wcache (pworld s1) = wcache ?w" "pcons s1 = pcons s" "ploop s1 = ploop s"
    by (simp_all add: s1_def w1_def)
  have ok: "push_ok s1" using assms(2) unfolding push_ok_def cons_ok_def ups_ok_def s1 by force
  have un: "unused s1 ?a" using assms(2) unfolding unused_def push_ok_def cons_ok_def s1 by fastforce
  have tx: "res_texts (pworld s1) r = res_texts ?w r" if q: "pcons s i = Some c" "r \<in> set (cres c)" for i c r
  proof -
    obtain x where "wress ?w r = Some x" "\<forall>a \<in> set (rsmsgs x). a < ?a" using assms(2) q unfolding push_ok_def cons_ok_def by blast
    then show ?thesis using s1(2,3) by (auto simp: res_texts_def)
  qed
  have ib: "inbox s1 i = inbox s i" for i using tx by (auto simp: inbox_def s1(7) split: option.split)
  have dl: "distinct ls" "set ls = set (ploops s)" "length ls = length (ploops s)"
    using assms(3,7,8) by (simp_all add: distinct_card [symmetric])
  have tr: "text_ok t1" "content t1 = m" "int (length ls) \<le> tref t1"
    using t dl(3) by (simp_all add: t1_def agoo_text_ref_def text_ok_def content_def)
  obtain s2 where s2: "loops_read env ls s1 = Val s2" "\<forall>j. inbox s2 j = inbox s1 j @ (if reached s1 ls sub j then [[Some m]] else [])"
    using loops_message [OF assms(1) dl(1) ok _ _ tr(1,3) un, of sub] dl(2) tr(2) s1(2) by (auto simp: s1_def)
  have "reached s1 ls sub i = reached s (ploops s) sub i" for i using dl(2) s1(4,5,8) by (simp add: reached_def)
  then show ?thesis using p pub s2 ib by auto
qed

text \<open>Two loops with a connection each, of which one subscribes to what is published.\<close>

definition up_of :: "nat \<Rightarrow> string \<Rightarrow> nat agoo_upgraded" where
  "up_of i sub = \<lparr>upcon = Some i, uppending = 0, upref = 1, upsubjects = [sub], upctx = Some 7, on_empty = False, on_close = False,
     on_shut = False, on_msg = True, on_error = False\<rparr>"

definition push_two :: "nat push" where
  "push_two = \<lparr>pworld = world0\<lparr>wups := (\<lambda>u. if u = 1 then Some (up_of 10 ''a.*'') else if u = 2 then Some (up_of 11 ''b'') else None),
       wuplist := [2, 1]\<rparr>,
     pcons = (\<lambda>i. if i = 10 then Some (con0\<lparr>cup := Some 1\<rparr>) else if i = 11 then Some (con0\<lparr>cup := Some 2\<rparr>) else None),
     ploop = (\<lambda>i. i - 10), ploops = [0, 1], pqueue = (\<lambda>l. [])\<rparr>"

lemma push_two_ok: "push_ok push_two"
  by (auto simp: push_ok_def cons_ok_def ups_ok_def push_two_def world0_def con0_def agoo_con_create_def up_of_def)

lemma publish_once_witness:
  "\<exists>p w1 s1 s2. agoo_pub_publish env0 (''a.x'' @ [NUL]) 3 (''hello'' @ [NUL]) 5 (pworld push_two) = Val (p, w1) \<and>
     agoo_server_publish env0 p (push_two\<lparr>pworld := w1\<rparr>) = Val s1 \<and> loops_read env0 [1, 0] s1 = Val s2 \<and>
     inbox s2 10 = [[Some ''hello'']] \<and> inbox s2 11 = []"
proof -
  have m: "mem_enough env0" by (simp add: mem_enough_def env0_def mal0_ok) (simp add: mal0_def)
  have i: "inbox push_two 10 = []" "inbox push_two 11 = []" by (simp_all add: inbox_def push_two_def con0_def agoo_con_create_def)
  have c: "agoo_subject_check ''a.*'' ''a.x''" "\<not> agoo_subject_check ''b'' ''a.x''" by code_simp+
  have r: "reached push_two [0, 1] ''a.x'' 10" "\<not> reached push_two [0, 1] ''a.x'' 11"
    using c by (auto simp: reached_def push_two_def up_of_def agoo_upgraded_match_def)
  have l: "ploops push_two = [0, 1]" by (simp add: push_two_def)
  have q: "NUL \<notin> set ''a.x''" "distinct (ploops push_two)" "ploops push_two \<noteq> []" "\<forall>l. pqueue push_two l = []" "distinct [1, 0 :: nat]"
    "set [1, 0] = set (ploops push_two)" by (auto simp: NUL_def push_two_def)
  obtain p w1 s1 s2 where e: "agoo_pub_publish env0 (''a.x'' @ [NUL]) (length ''a.x'') (''hello'' @ [NUL]) (length ''hello'') (pworld push_two) = Val (p, w1)"
    "agoo_server_publish env0 p (push_two\<lparr>pworld := w1\<rparr>) = Val s1" "loops_read env0 [1, 0] s1 = Val s2"
    "\<forall>i. inbox s2 i = inbox push_two i @ (if reached push_two (ploops push_two) ''a.x'' i then [[Some ''hello'']] else [])"
    using publish_once [OF m push_two_ok, where sub = "''a.x''" and ls = "[1, 0]" and m = "''hello''"] q by blast
  have n: "length ''a.x'' = 3" "length ''hello'' = 5" by simp_all
  have "inbox s2 10 = [[Some ''hello'']]" "inbox s2 11 = []" using e(4) i r l by simp_all
  then show ?thesis using e(1) [unfolded n] e(2,3) by blast
qed

section \<open>Subscriptions\<close>

text \<open>The subscriptions of an upgraded connection are a set of patterns.\<close>

lemma subjects_add [simp]: "set (upsubjects (agoo_upgraded_add_subject up p)) = insert p (set (upsubjects up))"
  by (auto simp: agoo_upgraded_add_subject_def)

lemma subjects_distinct:
  "distinct (upsubjects up) \<Longrightarrow> distinct (upsubjects (agoo_upgraded_add_subject up p)) \<and> distinct (upsubjects (agoo_upgraded_del_subject up q))"
  by (auto simp: agoo_upgraded_add_subject_def agoo_upgraded_del_subject_def split: option.split)

lemma subjects_del:
  "distinct (upsubjects up) \<Longrightarrow>
     set (upsubjects (agoo_upgraded_del_subject up q)) = (case q of None \<Rightarrow> {} | Some p \<Rightarrow> set (upsubjects up) - {p})"
  by (auto simp: agoo_upgraded_del_subject_def split: option.split)

text \<open>The patterns after a publication.\<close>

definition sub_patterns :: "agoo_pub \<Rightarrow> string set \<Rightarrow> string set" where
  "sub_patterns p old = (case (pkind p, psubject p) of
      (AGOO_PUB_SUB, Some q) \<Rightarrow> insert q old | (AGOO_PUB_UN, Some q) \<Rightarrow> old - {q} | (AGOO_PUB_UN, None) \<Rightarrow> {} | _ \<Rightarrow> old)"

text \<open>
  C30. Processing the subscription and the end of a subscription of an open connection, in the
  loop that has it, keeps its patterns different and makes it match exactly what the remaining
  patterns match; all other upgraded connections keep theirs.
\<close>

theorem subscriptions_set:
  fixes up :: "'h agoo_upgraded"
  assumes "mem_enough env" "pkind p = AGOO_PUB_SUB \<and> psubject p \<noteq> None \<or> pkind p = AGOO_PUB_UN" "pup p = Some u" "pmsg p = None"
    "wups (pworld s) u = Some up" "upcon up = Some i" "ploop s i = l" "2 \<le> upref up" "distinct (upsubjects up)"
  shows "\<exists>s' up'. process_pub_con env l p s = Val s' \<and> wups (pworld s') u = Some up' \<and> distinct (upsubjects up') \<and>
     (\<forall>x. agoo_upgraded_match up' x = (\<exists>q \<in> sub_patterns p (set (upsubjects up)). agoo_subject_check q x)) \<and>
     (\<forall>v. v \<noteq> u \<longrightarrow> wups (pworld s') v = wups (pworld s) v)"
proof -
  define g :: "'h agoo_upgraded \<Rightarrow> 'h agoo_upgraded" where "g = (\<lambda>up. if pkind p = AGOO_PUB_SUB then agoo_upgraded_add_subject up (the (psubject p)) else agoo_upgraded_del_subject up (psubject p))"
  have pend: "\<exists>s1 up1. pub_pending env u s = Val s1 \<and> wups (pworld s1) u = Some up1 \<and> upcon up1 = Some i \<and> upref up \<le> upref up1 \<and>
      upsubjects up1 = upsubjects up \<and> ploop s1 = ploop s \<and> (\<forall>v. v \<noteq> u \<longrightarrow> wups (pworld s1) v = wups (pworld s) v)"
    using assms(1,5,6)
    by (auto simp: pub_pending_def w_up_def up_add_def p_world_def w_up_set_def agoo_upgraded_ref_def eval_push_def mem_enough_def
        split: option.split)
  then obtain s1 up1 where s1: "pub_pending env u s = Val s1" "wups (pworld s1) u = Some up1" "upcon up1 = Some i" "upref up \<le> upref up1"
      "upsubjects up1 = upsubjects up" "ploop s1 = ploop s" "\<forall>v. v \<noteq> u \<longrightarrow> wups (pworld s1) v = wups (pworld s) v" by blast
  let ?w = "w_up_set u (g up1) (pworld s1)"
  have gr: "upref (g up1) = upref up1" by (simp add: g_def agoo_upgraded_add_subject_def agoo_upgraded_del_subject_def split: option.split)
  have e: "process_pub_con env l p s = Val (s1\<lparr>pworld := w_up_set u ((g up1)\<lparr>upref := upref up1 - 1\<rparr>) (pworld s1)\<rparr>)"
    using assms(2-8) s1 gr
    by (auto simp: process_pub_con_def up_con_def w_up_def up_subjects_def p_world_def unsubscribe_pub_def agoo_pub_destroy_def
        agoo_upgraded_release_def w_up_set_def g_def split: option.splits)
  have d: "distinct (upsubjects (g up1))" using assms(9) s1(5) subjects_distinct [of up1] by (simp add: g_def)
  have m: "set (upsubjects (g up1)) = sub_patterns p (set (upsubjects up))"
    using assms(2,9) s1(5) by (auto simp: g_def sub_patterns_def subjects_del split: option.splits)
  have "agoo_upgraded_match ((g up1)\<lparr>upref := k\<rparr>) x = (\<exists>q \<in> sub_patterns p (set (upsubjects up)). agoo_subject_check q x)" for x k
    by (simp add: agoo_upgraded_match_def list_ex_iff m)
  then show ?thesis using e d s1(7) by (auto simp: w_up_set_def)
qed

text \<open>A subscription of a connection of the first loop.\<close>

definition push_ref :: "nat push" where
  "push_ref = push_two\<lparr>pworld := (pworld push_two)\<lparr>wups := (wups (pworld push_two))(1 \<mapsto> (up_of 10 ''a.*'')\<lparr>upref := 2\<rparr>)\<rparr>\<rparr>"

lemma subscriptions_set_witness:
  "\<exists>s' up'. process_pub_con env0 0 \<lparr>pkind = AGOO_PUB_SUB, pup = Some 1, psubject = Some ''c'', pmsg = None\<rparr> push_ref = Val s' \<and>
     wups (pworld s') 1 = Some up' \<and> agoo_upgraded_match up' ''c'' \<and> agoo_upgraded_match up' ''a.x''"
proof -
  let ?p = "\<lparr>pkind = AGOO_PUB_SUB, pup = Some 1, psubject = Some ''c'', pmsg = None\<rparr>"
  have m: "mem_enough env0" by (simp add: mem_enough_def env0_def mal0_ok) (simp add: mal0_def)
  have c: "agoo_subject_check ''a.*'' ''a.x''" "agoo_subject_check ''c'' ''c''" by code_simp+
  obtain s' up' where e: "process_pub_con env0 0 ?p push_ref = Val s'" "wups (pworld s') 1 = Some up'"
    "\<forall>x. agoo_upgraded_match up' x = (\<exists>q \<in> sub_patterns ?p (set (upsubjects ((up_of 10 ''a.*'')\<lparr>upref := 2\<rparr>))). agoo_subject_check q x)"
    using subscriptions_set [OF m, of ?p 1 push_ref "(up_of 10 ''a.*'')\<lparr>upref := 2\<rparr>" 10 0] by (auto simp: push_ref_def push_two_def up_of_def)
  then show ?thesis using c by (auto simp: sub_patterns_def up_of_def)
qed

lemma publish_to_queue:
  assumes "publish_to env p ls s = Val s'"
  shows "(l \<in> set ls \<longrightarrow> (\<exists>ps. pqueue s' l = pqueue s l @ p # ps)) \<and> (\<exists>ps. pqueue s' l = pqueue s l @ ps) \<and>
    (\<forall>u up. wups (pworld s) u = Some up \<longrightarrow> (\<exists>up'. wups (pworld s') u = Some up' \<and> upcon up' = upcon up))"
  using assms
proof (induction env p ls s rule: publish_to.induct)
  case (3 env pub l' m ls s)
  obtain d w where d: "agoo_pub_dup env pub (pworld s) = Val (Some d, w)" "publish_to env pub (m # ls) (pub_push l' d (s\<lparr>pworld := w\<rparr>)) = Val s'"
    using "3.prems" by (auto simp: mem_bind_eq_Val split: option.splits)
  have pd: "d = pub" "\<forall>u up. wups (pworld s) u = Some up \<longrightarrow> (\<exists>up'. wups w u = Some up' \<and> upcon up' = upcon up)"
    using d(1) by (auto simp: agoo_pub_dup_def mem_bind_eq_Val agoo_upgraded_ref_def w_up_def w_up_set_def w_ref_def split: option.splits if_splits)
  note ih = "3.IH" [OF refl d(2)]
  have ups: "\<forall>u up. wups (pworld s) u = Some up \<longrightarrow> (\<exists>up'. wups (pworld s') u = Some up' \<and> upcon up' = upcon up)"
  proof (intro allI impI)
    fix u up assume "wups (pworld s) u = Some up"
    then obtain up1 where "wups w u = Some up1" "upcon up1 = upcon up" using pd(2) by blast
    moreover have "\<forall>u up. wups w u = Some up \<longrightarrow> (\<exists>up'. wups (pworld s') u = Some up' \<and> upcon up' = upcon up)"
      using ih by (simp add: pub_push_def)
    ultimately show "\<exists>up'. wups (pworld s') u = Some up' \<and> upcon up' = upcon up" by metis
  qed
  show ?case
  proof (cases "l = l'")
    case True
    then obtain ps where "pqueue s' l = (pqueue s l @ [pub]) @ ps" using ih pd(1) by (auto simp: pub_push_def)
    then show ?thesis using ups by simp
  next
    case False
    then show ?thesis using ih pd(1) ups by (auto simp: pub_push_def)
  qed
qed (auto simp: pub_push_def)

lemma con_destroy_closes:
  assumes "pcons s i = Some c" "cup c = Some u" "agoo_con_destroy env i s = Val s1" "wups (pworld s1) u = Some up"
  shows "upcon up = None" "pqueue s1 = pqueue s" "ploops s1 = ploops s"
  using assms by (auto simp: agoo_con_destroy_def p_con_def mem_bind_eq_Val agoo_upgraded_release_con_def w_up_set_def up_destroy_def Let_def
      split: if_splits)

text \<open>
  A subscription requested after the connection is gone, while the handler still holds its
  upgraded connection, brings down whichever loop takes it from its queue.
\<close>

theorem subscribe_after_close:
  assumes "pcons s i = Some c" "cup c = Some u" "agoo_con_destroy env i s = Val s1" "wups (pworld s1) u \<noteq> None"
    "agoo_upgraded_subscribe env u subject n False s1 = Val s2" "l \<in> set (ploops s)" "pqueue s l = []"
  shows "pub_queue_ready_read env l (pqueue s2 l) s2 = UB"
proof -
  obtain up where up: "wups (pworld s1) u = Some up" using assms(4) by auto
  note cl = con_destroy_closes [OF assms(1-3) up]
  define s1' where "s1' = s1\<lparr>pworld := w_up_set u (up\<lparr>uppending := uppending up + 1\<rparr>) (pworld s1)\<rparr>"
  have "\<exists>p. pkind p = AGOO_PUB_SUB \<and> pup p = Some u \<and> publish_to env p (ploops s1') s1' = Val s2"
    using assms(5) up
    by (auto simp: agoo_upgraded_subscribe_def up_publish_def up_add_def p_world_def w_up_def mem_bind_eq_Val
        agoo_pub_subscribe_def agoo_server_publish_def s1'_def split: if_splits)
      (rule exI, rule conjI [rotated], rule conjI [rotated], assumption, simp_all)
  then obtain p where p: "wups (pworld s1') u = Some (up\<lparr>uppending := uppending up + 1\<rparr>)" "pqueue s1' = pqueue s1" "ploops s1' = ploops s1"
    "pkind p = AGOO_PUB_SUB" "pup p = Some u" "publish_to env p (ploops s1') s1' = Val s2"
    by (auto simp: s1'_def w_up_set_def)
  obtain ps where q: "pqueue s2 l = p # ps"
    using publish_to_queue [OF p(6), of l] p(2,3) cl(2,3) assms(6,7) by auto
  obtain up' where "wups (pworld s2) u = Some up'" "upcon up' = None"
    using publish_to_queue [OF p(6), of l] p(1) cl(1) by fastforce
  then show ?thesis using q p(4,5) by (simp add: process_pub_con_def up_con_def w_up_def)
qed

text \<open>The first connection is destroyed while its handler holds a reference.\<close>

lemma subscribe_after_close_witness:
  "\<exists>s1 s2. agoo_con_destroy env0 10 push_ref = Val s1 \<and> agoo_upgraded_subscribe env0 1 (''b'' @ [NUL]) 1 False s1 = Val s2 \<and>
     pub_queue_ready_read env0 0 (pqueue s2 0) s2 = UB"
proof -
  define s1 where "s1 = (case agoo_con_destroy env0 10 push_ref of Val s \<Rightarrow> s)"
  have s1: "agoo_con_destroy env0 10 push_ref = Val s1" "wups (pworld s1) 1 \<noteq> None" "ploops s1 = [0, 1]" "pqueue s1 = (\<lambda>_. [])"
    by (simp_all add: s1_def agoo_con_destroy_def push_ref_def push_two_def p_con_def con0_def agoo_con_create_def
        agoo_upgraded_release_con_def w_up_def w_up_set_def up_of_def Let_def)
  define s2 where "s2 = (case agoo_upgraded_subscribe env0 1 (''b'' @ [NUL]) 1 False s1 of Val s \<Rightarrow> s)"
  have s2: "agoo_upgraded_subscribe env0 1 (''b'' @ [NUL]) 1 False s1 = Val s2"
    using s1 by (auto simp: s2_def agoo_upgraded_subscribe_def up_publish_def up_add_def p_world_def w_up_def w_up_set_def
        agoo_pub_subscribe_def agoo_subject_create_def blk_read_ok env0_def agoo_server_publish_def agoo_pub_dup_def agoo_upgraded_ref_def)
  have "pcons push_ref 10 = Some (con0\<lparr>cup := Some 1\<rparr>)" "cup (con0\<lparr>cup := Some 1\<rparr>) = Some 1" "(0 :: nat) \<in> set (ploops push_ref)" "pqueue push_ref 0 = []"
    by (simp_all add: push_ref_def push_two_def)
  from subscribe_after_close [OF this(1,2) s1(1,2) s2 this(3,4)] s1(1) s2 show ?thesis by blast
qed

text \<open>
  A request to end a subscription of all connections, which names no upgraded connection,
  changes no subscription: the branch that would do so is never reached.
\<close>

theorem unsubscribe_all_ignored:
  assumes "pkind p = AGOO_PUB_UN" "pup p = None" "pmsg p = None"
  shows "process_pub_con env l p s = Val s"
  using assms by (cases s) (simp add: process_pub_con_def p_world_def agoo_pub_destroy_def)

lemma unsubscribe_all_ignored_witness:
  "process_pub_con env0 0 \<lparr>pkind = AGOO_PUB_UN, pup = None, psubject = Some ''a.*'', pmsg = None\<rparr> push_two = Val push_two"
  by (rule unsubscribe_all_ignored) simp_all

end
