(* ===== verification/Gqlvalue.thy ===== *)
theory Gqlvalue
  imports Err Text Sectime
begin

text \<open>
  The GraphQL values of \<open>ext/agoo/gqlvalue.c\<close>: the tagged union with its 16 bytes, so that what
  one member leaves behind for another is part of the model; creation, setting, lists and
  objects; the scanners of times and UUIDs; the printers as JSON and SDL.

  Doubles are bit patterns; the arithmetic, the comparisons and the text forms of them
  (\<open>%g\<close>, \<open>strtod\<close>) are the functions of a record \<open>double_ops\<close>, an argument of what uses them.
  \<open>AGOO_CALLOC\<close> and \<open>AGOO_STRNDUP\<close> are refused where the allocator refuses the size.
\<close>

declare mem_bind_cong [fundef_cong]

section \<open>Types\<close>

datatype gqlKind = GQL_UNDEF | GQL_SCHEMA | GQL_OBJECT | GQL_FRAG | GQL_INPUT | GQL_UNION
  | GQL_INTERFACE | GQL_ENUM | GQL_SCALAR | GQL_LIST | GQL_NON_NULL

datatype gqlScalarKind = GQL_SCALAR_UNDEF | GQL_SCALAR_NULL | GQL_SCALAR_BOOL | GQL_SCALAR_INT
  | GQL_SCALAR_I64 | GQL_SCALAR_FLOAT | GQL_SCALAR_STRING | GQL_SCALAR_TOKEN | GQL_SCALAR_VAR
  | GQL_SCALAR_TIME | GQL_SCALAR_UUID | GQL_SCALAR_ID | GQL_SCALAR_LIST | GQL_SCALAR_OBJECT

text \<open>
  What a value uses of its type: the name, which tells the registered types apart, the two
  kinds, whether the printer pointers of a scalar are set, and the base of a list or
  non-null type.
\<close>

datatype gqlType = GqlType (gname: string) (gkind: gqlKind) (gscalar: gqlScalarKind)
  (gprinters: bool) (gbase: "gqlType option")

definition gql_null_type :: gqlType where "gql_null_type = GqlType ''Null'' GQL_SCALAR GQL_SCALAR_NULL True None"
definition gql_int_type :: gqlType where "gql_int_type = GqlType ''Int'' GQL_SCALAR GQL_SCALAR_INT True None"
definition gql_i64_type :: gqlType where "gql_i64_type = GqlType ''I64'' GQL_SCALAR GQL_SCALAR_I64 True None"
definition gql_string_type :: gqlType where "gql_string_type = GqlType ''String'' GQL_SCALAR GQL_SCALAR_STRING True None"
definition gql_token_type :: gqlType where "gql_token_type = GqlType ''Token'' GQL_SCALAR GQL_SCALAR_TOKEN True None"
definition gql_id_type :: gqlType where "gql_id_type = GqlType ''ID'' GQL_SCALAR GQL_SCALAR_ID True None"
definition gql_var_type :: gqlType where "gql_var_type = GqlType ''Var'' GQL_SCALAR GQL_SCALAR_VAR True None"
definition gql_bool_type :: gqlType where "gql_bool_type = GqlType ''Boolean'' GQL_SCALAR GQL_SCALAR_BOOL True None"
definition gql_float_type :: gqlType where "gql_float_type = GqlType ''Float'' GQL_SCALAR GQL_SCALAR_FLOAT True None"
definition gql_time_type :: gqlType where "gql_time_type = GqlType ''Time'' GQL_SCALAR GQL_SCALAR_TIME True None"
definition gql_uuid_type :: gqlType where "gql_uuid_type = GqlType ''Uuid'' GQL_SCALAR GQL_SCALAR_UUID True None"
definition list_type :: gqlType where "list_type = GqlType ''__List'' GQL_SCALAR GQL_SCALAR_LIST True None"
definition object_type :: gqlType where "object_type = GqlType ''__Object'' GQL_SCALAR GQL_SCALAR_OBJECT True None"

lemmas gql_types = gql_null_type_def gql_int_type_def gql_i64_type_def gql_string_type_def gql_token_type_def
  gql_id_type_def gql_var_type_def gql_bool_type_def gql_float_type_def gql_time_type_def gql_uuid_type_def
  list_type_def object_type_def

section \<open>Values\<close>

text \<open>
  The union of \<open>struct _gqlValue\<close>. The first eight bytes are kept as they are; the last eight
  are bytes or the pointer of a string: to a string on the heap, or to one that was freed
  (a NULL pointer is eight zero bytes). The members of a list or an object are a list of
  keys and values.
\<close>

datatype gql_hi = Raw string | Ptr string | Freed

datatype gqlValue = GqlValue (vtype: gqlType) (vunion: gqlUnion)
  and gqlUnion = Scalar string gql_hi | Members "(string option \<times> gqlValue) list" "gqlType option"

definition zero8 :: string where
  "zero8 = replicate 8 NUL"

text \<open>Little endian integers in the union.\<close>

fun le_bytes :: "nat \<Rightarrow> 'a::len word \<Rightarrow> string" where
  "le_bytes 0 w = []"
| "le_bytes (Suc n) w = chr_of (ucast w) # le_bytes n (drop_bit 8 w)"

fun le_word :: "string \<Rightarrow> 'a::len word" where
  "le_word [] = 0"
| "le_word (c # cs) = ucast (byte_of c) OR push_bit 8 (le_word cs)"

lemma byte_of_chr_of [simp]: "byte_of (chr_of b) = b"
proof -
  have "unat b < 2 ^ LENGTH(8)" by (rule unsigned_less)
  then show ?thesis by (simp add: byte_of_def chr_of_def)
qed

lemma chr_of_byte_of [simp]: "chr_of (byte_of c) = c"
  using nat_of_char_less_256 [of c] by (simp add: byte_of_def chr_of_def unsigned_of_nat take_bit_nat_eq_self)

lemma length_le_bytes [simp]: "length (le_bytes n w) = n"
  by (induction n w rule: le_bytes.induct) simp_all

lemma le_word_bytes: "le_word (le_bytes n w @ cs) = take_bit (8 * n) w OR push_bit (8 * n) (le_word cs)"
  for w :: "'a::len word"
proof (induction n arbitrary: w)
  case (Suc n)
  have "bit (ucast (ucast w :: byte) OR push_bit 8 (take_bit (8 * n) (drop_bit 8 w) OR push_bit (8 * n) x)) k
      = bit (take_bit (8 * Suc n) w OR push_bit (8 * Suc n) x) k" if "k < LENGTH('a)" for k and x :: "'a word"
    using that by (cases "k < 8") (auto simp: bit_simps)
  then have "ucast (ucast w :: byte) OR push_bit 8 (take_bit (8 * n) (drop_bit 8 w) OR push_bit (8 * n) x)
      = take_bit (8 * Suc n) w OR push_bit (8 * Suc n) x" for x :: "'a word"
    by (intro bit_word_eqI) simp
  then show ?case using Suc by simp
qed simp

lemma le_bytes_inv: "8 * n = LENGTH('a) \<Longrightarrow> le_word (le_bytes n w) = (w :: 'a::len word)"
  using le_word_bytes [of n w "[]"] by (simp add: take_bit_word_eq_self)

text \<open>
  Reading and writing numbers at the start of the union. The bytes of the pointers of a list
  are not modelled: taking them for a number, or writing over them, is \<open>UB\<close> here.
\<close>

definition union_get :: "nat \<Rightarrow> gqlUnion \<Rightarrow> 'a::len word mem" where
  "union_get n u =
    (case u of Scalar lo hi \<Rightarrow> mem_bind (blk_read lo n) (\<lambda>b. Val (le_word b)) | Members ms t \<Rightarrow> UB)"

definition union_put :: "string \<Rightarrow> gqlUnion \<Rightarrow> gqlUnion mem" where
  "union_put s u =
    (case u of Scalar lo hi \<Rightarrow> mem_bind (blk_write lo 0 s) (\<lambda>lo. Val (Scalar lo hi)) | Members ms t \<Rightarrow> UB)"

text \<open>
  The string member: the flag \<open>alloced\<close> is the first byte, \<open>a\<close> the other 15, \<open>ptr\<close> the last
  eight. \<open>str_put\<close> copies bytes to the start of \<open>a\<close>; where they reach into a pointer what is
  left of its address is not known, and \<open>a\<close> ends behind them.
\<close>

definition str_alloced :: "gqlUnion \<Rightarrow> bool mem" where
  "str_alloced u = mem_bind (union_get 1 u) (\<lambda>b :: byte. Val (b \<noteq> 0))"

definition str_set_alloced :: "bool \<Rightarrow> gqlUnion \<Rightarrow> gqlUnion mem" where
  "str_set_alloced b u = union_put [if b then CHR 0x01 else NUL] u"

definition str_put :: "string \<Rightarrow> gqlUnion \<Rightarrow> gqlUnion mem" where
  "str_put s u =
    (case u of
       Members ms t \<Rightarrow> UB
     | Scalar lo hi \<Rightarrow>
         mem_bind (blk_write lo 1 (take 7 s)) (\<lambda>lo.
         if length s \<le> 7 then Val (Scalar lo hi)
         else Val (Scalar lo (Raw (drop 7 s @ (case hi of Raw h \<Rightarrow> drop (length s - 7) h | _ \<Rightarrow> []))))))"

definition str_a :: "gqlUnion \<Rightarrow> string mem" where
  "str_a u =
    (case u of
       Members ms t \<Rightarrow> UB
     | Scalar lo hi \<Rightarrow>
         let a = drop 1 lo @ (case hi of Raw h \<Rightarrow> h | _ \<Rightarrow> [])
         in if NUL \<in> set a then Val (cstr a) else UB)"

text \<open>The string at \<open>ptr\<close>, \<open>None\<close> for NULL; a wild or freed pointer cannot be read.\<close>

definition str_ptr :: "gqlUnion \<Rightarrow> string option mem" where
  "str_ptr u =
    (case u of
       Members ms t \<Rightarrow> UB
     | Scalar lo hi \<Rightarrow>
         (case hi of Ptr s \<Rightarrow> Val (Some s) | Raw h \<Rightarrow> if h = zero8 then Val None else UB | Freed \<Rightarrow> UB))"

definition str_set_ptr :: "string option \<Rightarrow> gqlUnion \<Rightarrow> gqlUnion mem" where
  "str_set_ptr p u =
    (case u of
       Members ms t \<Rightarrow> UB
     | Scalar lo hi \<Rightarrow> Val (Scalar lo (case p of None \<Rightarrow> Raw zero8 | Some s \<Rightarrow> Ptr s)))"

text \<open>\<open>AGOO_FREE(value->str.ptr)\<close>: NULL is ignored; anything but a string on the heap must not be freed.\<close>

definition str_free :: "gqlUnion \<Rightarrow> gqlUnion mem" where
  "str_free u =
    (case u of
       Members ms t \<Rightarrow> UB
     | Scalar lo hi \<Rightarrow>
         (case hi of Ptr s \<Rightarrow> Val (Scalar lo Freed) | Raw h \<Rightarrow> if h = zero8 then Val u else UB | Freed \<Rightarrow> UB))"

text \<open>The string a string value stands for, as every reader takes it.\<close>

definition str_view :: "gqlUnion \<Rightarrow> string option mem" where
  "str_view u =
    mem_bind (str_alloced u) (\<lambda>al. if al then str_ptr u else mem_bind (str_a u) (\<lambda>s. Val (Some s)))"

definition string_destroy :: "gqlUnion \<Rightarrow> gqlUnion mem" where
  "string_destroy u = mem_bind (str_alloced u) (\<lambda>al. if al then str_free u else Val u)"

definition gql_string_get :: "gqlValue \<Rightarrow> string option mem" where
  "gql_string_get v =
    (if vtype v \<in> {gql_string_type, gql_token_type, gql_var_type, gql_id_type} \<or> gkind (vtype v) = GQL_ENUM
     then str_view (vunion v) else Val None)"

section \<open>The set functions\<close>

definition gql_int_set :: "gqlValue \<Rightarrow> 32 word \<Rightarrow> gqlValue mem" where
  "gql_int_set v i = mem_bind (union_put (le_bytes 4 i) (vunion v)) (\<lambda>u. Val (GqlValue gql_int_type u))"

definition gql_i64_set :: "gqlValue \<Rightarrow> 64 word \<Rightarrow> gqlValue mem" where
  "gql_i64_set v i = mem_bind (union_put (le_bytes 8 i) (vunion v)) (\<lambda>u. Val (GqlValue gql_i64_type u))"

definition gql_bool_set :: "gqlValue \<Rightarrow> bool \<Rightarrow> gqlValue mem" where
  "gql_bool_set v b =
    mem_bind (union_put [if b then CHR 0x01 else NUL] (vunion v)) (\<lambda>u. Val (GqlValue gql_bool_type u))"

definition gql_float_set :: "gqlValue \<Rightarrow> 64 word \<Rightarrow> gqlValue mem" where
  "gql_float_set v f = mem_bind (union_put (le_bytes 8 f) (vunion v)) (\<lambda>u. Val (GqlValue gql_float_type u))"

definition gql_time_set :: "gqlValue \<Rightarrow> 64 word \<Rightarrow> gqlValue mem" where
  "gql_time_set v t = mem_bind (union_put (le_bytes 8 t) (vunion v)) (\<lambda>u. Val (GqlValue gql_time_type u))"

definition gql_uuid_set :: "gqlValue \<Rightarrow> 64 word \<Rightarrow> 64 word \<Rightarrow> gqlValue" where
  "gql_uuid_set v hi lo = GqlValue gql_uuid_type (Scalar (le_bytes 8 hi) (Raw (le_bytes 8 lo)))"

text \<open>\<open>strndup\<close>: at most \<open>len\<close> bytes of the C string, \<open>None\<close> where memory is refused.\<close>

definition c_strndup :: "allocator \<Rightarrow> string \<Rightarrow> nat \<Rightarrow> string option" where
  "c_strndup mal str len = (if mal (strlen (take len str) + 1) = None then None else Some (cstr (take len str)))"

text \<open>\<open>string_set\<close> does not write the NUL behind a short string.\<close>

definition string_set :: "allocator \<Rightarrow> agoo_err \<Rightarrow> gqlValue \<Rightarrow> string option \<Rightarrow> int \<Rightarrow>
    (agoo_err_code \<times> gqlValue \<times> agoo_err) mem" where
  "string_set mal err v str len =
    (case str of
       None \<Rightarrow>
         mem_bind (str_set_alloced True (vunion v)) (\<lambda>u.
         mem_bind (str_set_ptr None u) (\<lambda>u.
           Val (AGOO_ERR_OK, GqlValue (vtype v) u, err)))
     | Some str \<Rightarrow>
         let n = arg_len str len
         in if n < 15 then
              mem_bind (str_put (strncpy_str str n) (vunion v)) (\<lambda>u.
              mem_bind (str_set_alloced False u) (\<lambda>u.
                Val (AGOO_ERR_OK, GqlValue (vtype v) u, err)))
            else
              mem_bind (str_set_alloced True (vunion v)) (\<lambda>u.
              mem_bind (str_set_ptr (c_strndup mal str n) u) (\<lambda>u.
              if c_strndup mal str n = None then
                mem_bind (agoo_err_memory err ''strndup()'' ''gqlvalue.c'' 835) (\<lambda>(code, err).
                  Val (code, GqlValue (vtype v) u, err))
              else Val (AGOO_ERR_OK, GqlValue (vtype v) u, err))))"

definition gql_string_set :: "allocator \<Rightarrow> agoo_err \<Rightarrow> gqlValue \<Rightarrow> string option \<Rightarrow> int \<Rightarrow>
    (agoo_err_code \<times> gqlValue \<times> agoo_err) mem" where
  "gql_string_set mal err v = string_set mal err (GqlValue gql_string_type (vunion v))"

definition gql_token_set :: "allocator \<Rightarrow> agoo_err \<Rightarrow> gqlValue \<Rightarrow> string option \<Rightarrow> int \<Rightarrow>
    (agoo_err_code \<times> gqlValue \<times> agoo_err) mem" where
  "gql_token_set mal err v = string_set mal err (GqlValue gql_token_type (vunion v))"

definition gql_id_set :: "allocator \<Rightarrow> agoo_err \<Rightarrow> gqlValue \<Rightarrow> string option \<Rightarrow> int \<Rightarrow>
    (agoo_err_code \<times> gqlValue \<times> agoo_err) mem" where
  "gql_id_set mal err v = string_set mal err (GqlValue gql_id_type (vunion v))"

section \<open>Times and UUIDs as text\<close>

text \<open>What \<open>%0wd\<close> and \<open>%0wlx\<close> print.\<close>

definition zero_pad :: "nat \<Rightarrow> string \<Rightarrow> string" where
  "zero_pad w s = replicate (w - length s) CHR ''0'' @ s"

definition fmt_0d :: "nat \<Rightarrow> int \<Rightarrow> string" where
  "fmt_0d w i = (if i < 0 then CHR ''-'' # zero_pad (w - 1) (dec_str (nat (- i))) else zero_pad w (dec_str (nat i)))"

fun hex_str :: "nat \<Rightarrow> string" where
  "hex_str n = (if n < 16 then [hex_chars ! n] else hex_str (n div 16) @ [hex_chars ! (n mod 16)])"

declare hex_str.simps [simp del]

definition fmt_0x :: "nat \<Rightarrow> nat \<Rightarrow> string" where
  "fmt_0x w n = zero_pad w (hex_str n)"

text \<open>\<open>timegm\<close>, with months outside the year carried into it.\<close>

record tm =
  tm_year :: int
  tm_mon :: int
  tm_mday :: int
  tm_hour :: int
  tm_min :: int
  tm_sec :: int

definition timegm :: "tm \<Rightarrow> int" where
  "timegm t = civil_secs
     \<lparr>at_sec = tm_sec t, at_min = tm_min t, at_hour = tm_hour t, at_day = tm_mday t,
      at_mon = tm_mon t mod 12 + 1, at_year = tm_year t + 1900 + tm_mon t div 12\<rparr>"

text \<open>Positions in the string are offsets; the result has the value and the position behind it.\<close>

fun read_num :: "string \<Rightarrow> nat \<Rightarrow> nat \<Rightarrow> nat \<Rightarrow> (nat \<times> nat) option" where
  "read_num str s 0 v = Some (v, s)"
| "read_num str s (Suc len) v =
     (if is_digit (cat str s) then read_num str (s + 1) len (v * 10 + digit_val (cat str s)) else None)"

definition read_zone :: "string \<Rightarrow> nat \<Rightarrow> (int \<times> nat) option" where
  "read_zone str s =
    (case read_num str s 2 0 of
       None \<Rightarrow> None
     | Some (hr, s) \<Rightarrow>
         if cat str s \<noteq> CHR '':'' then None
         else (case read_num str (s + 1) 2 0 of
                 None \<Rightarrow> None
               | Some (mi, s) \<Rightarrow> Some (int hr * 60 + int mi, s)))"

text \<open>Multiplication of an \<open>int64_t\<close>: overflow is undefined.\<close>

definition to_nsecs :: "int \<Rightarrow> 64 word mem" where
  "to_nsecs secs =
    (if - (2 ^ 63) \<le> secs * 1000000000 \<and> secs * 1000000000 < 2 ^ 63 then Val (of_int (secs * 1000000000)) else UB)"

definition time_bad :: "agoo_err \<Rightarrow> (64 word \<times> agoo_err) mem" where
  "time_bad err = mem_bind (agoo_err_set err AGOO_ERR_PARSE ''Invalid time format.'') (\<lambda>(code, err). Val (0, err))"

text \<open>The zone behind a sign at the end of a time; only two of the three copies look at the length.\<close>

definition time_zone ::
  "agoo_err \<Rightarrow> string \<Rightarrow> nat \<Rightarrow> nat \<Rightarrow> bool \<Rightarrow> bool \<Rightarrow> tm \<Rightarrow> 64 word \<Rightarrow> (64 word \<times> agoo_err) mem" where
  "time_zone err str end s chk neg t nsecs =
    (if chk \<and> int end - int s < 5 then time_bad err
     else case read_zone str s of
            None \<Rightarrow> time_bad err
          | Some (v, s) \<Rightarrow>
              let v = (if neg then - v else v)
              in if s = end then mem_bind (to_nsecs (timegm t - v)) (\<lambda>x. Val (x + nsecs, err))
                 else time_bad err)"

text \<open>The loop over the digits of the fraction; \<open>None\<close> where the string ends in it.\<close>

fun time_frac :: "string \<Rightarrow> nat \<Rightarrow> nat \<Rightarrow> nat \<Rightarrow> 64 word \<Rightarrow> (nat \<times> nat \<times> 64 word) option" where
  "time_frac str end s 0 nsecs = Some (0, s, nsecs)"
| "time_frac str end s (Suc i) nsecs =
     (if end \<le> s then None
      else if is_digit (cat str s) then time_frac str end (s + 1) i (nsecs * 10 + of_nat (digit_val (cat str s)))
      else Some (Suc i, s, nsecs))"

text \<open>What follows the seconds: \<open>s\<close> is behind the character \<open>c\<close> that ends them.\<close>

definition time_tail :: "agoo_err \<Rightarrow> string \<Rightarrow> nat \<Rightarrow> nat \<Rightarrow> char \<Rightarrow> tm \<Rightarrow> (64 word \<times> agoo_err) mem" where
  "time_tail err str end s c t =
    (if c = CHR ''Z'' then
       (if s = end then mem_bind (to_nsecs (timegm t)) (\<lambda>x. Val (x, err)) else time_bad err)
     else if c = CHR ''-'' \<or> c = CHR ''+'' then time_zone err str end s True (c = CHR ''-'') t 0
     else if c \<noteq> CHR ''.'' then time_bad err
     else
       case time_frac str end s 9 0 of
         None \<Rightarrow> time_bad err
       | Some (i, s, nsecs) \<Rightarrow>
           let nsecs = nsecs * 10 ^ i;
               c = cat str s;
               s = s + 1
           in if c = CHR ''-'' \<or> c = CHR ''+'' then time_zone err str end s True (c = CHR ''-'') t nsecs
              else if s \<noteq> end then time_bad err
              else mem_bind (to_nsecs (timegm t)) (\<lambda>secs.
                     Val (if 0 \<le> sint secs then secs + nsecs else secs - nsecs, err)))"

definition time_of_day :: "agoo_err \<Rightarrow> string \<Rightarrow> nat \<Rightarrow> nat \<Rightarrow> tm \<Rightarrow> (64 word \<times> agoo_err) mem" where
  "time_of_day err str end s t =
    (if int end - int s < 9 then time_bad err
     else case read_num str s 2 0 of
       None \<Rightarrow> Val (0, err)
     | Some (h, s) \<Rightarrow>
         if cat str s \<noteq> CHR '':'' then time_bad err
         else case read_num str (s + 1) 2 0 of
           None \<Rightarrow> time_bad err
         | Some (m, s) \<Rightarrow>
             if cat str s \<noteq> CHR '':'' then time_bad err
             else case read_num str (s + 1) 2 0 of
               None \<Rightarrow> time_bad err
             | Some (sec, s) \<Rightarrow>
                 time_tail err str end (s + 1) (cat str s)
                   (t\<lparr>tm_hour := int h, tm_min := int m, tm_sec := int sec\<rparr>))"

definition time_parse :: "agoo_err \<Rightarrow> string \<Rightarrow> int \<Rightarrow> (64 word \<times> agoo_err) mem" where
  "time_parse err str len =
    (let end = (if 0 > len then strlen str else nat len);
         neg = (cat str 0 = CHR ''-'');
         s = (if neg then 1 else 0)
     in if end < 10 \<or> 36 < end then time_bad err
        else case read_num str s 4 0 of
          None \<Rightarrow> time_bad err
        | Some (y, s) \<Rightarrow>
            if cat str s \<noteq> CHR ''-'' then time_bad err
            else case read_num str (s + 1) 2 0 of
              None \<Rightarrow> time_bad err
            | Some (mon, s) \<Rightarrow>
                if cat str s \<noteq> CHR ''-'' then time_bad err
                else case read_num str (s + 1) 2 0 of
                  None \<Rightarrow> time_bad err
                | Some (d, s) \<Rightarrow>
                    let t = \<lparr>tm_year = (if neg then - int y else int y) - 1900, tm_mon = int mon - 1,
                             tm_mday = int d, tm_hour = 0, tm_min = 0, tm_sec = 0\<rparr>;
                        c = cat str s
                    in if end = s then mem_bind (to_nsecs (timegm t)) (\<lambda>x. Val (x, err))
                       else if c = CHR ''Z'' then
                         (if s + 1 = end then mem_bind (to_nsecs (timegm t)) (\<lambda>x. Val (x, err)) else time_bad err)
                       else if c = CHR ''-'' \<or> c = CHR ''+'' then
                         time_zone err str end (s + 1) False (c = CHR ''-'') t 0
                       else if c = CHR ''T'' then time_of_day err str end (s + 1) t
                       else time_bad err)"

definition time_str :: "64 word \<Rightarrow> string" where
  "time_str tt =
    (let t = c_div (sint tt) 1000000000;
         nsecs = \<bar>sint tt - t * 1000000000\<bar>;
         a = agoo_sectime t
     in fmt_0d 4 (at_year a) @ ''-'' @ fmt_0d 2 (at_mon a) @ ''-'' @ fmt_0d 2 (at_day a) @ ''T'' @
        fmt_0d 2 (at_hour a) @ '':'' @ fmt_0d 2 (at_min a) @ '':'' @ fmt_0d 2 (at_sec a) @ ''.'' @
        fmt_0d 9 nsecs @ ''Z'')"

text \<open>UUIDs: \<open>None\<close> where \<open>hexVal\<close> is negative.\<close>

definition uuid_hexVal :: "char \<Rightarrow> nat option" where
  "uuid_hexVal c =
    (if is_digit c then Some (of_char c - 48)
     else if 97 \<le> (of_char c :: nat) \<and> (of_char c :: nat) \<le> 102 then Some (of_char c - 97 + 10)
     else if 65 \<le> (of_char c :: nat) \<and> (of_char c :: nat) \<le> 70 then Some (of_char c - 65 + 10)
     else None)"

fun read_hexs :: "string \<Rightarrow> nat \<Rightarrow> nat \<Rightarrow> 64 word \<Rightarrow> 64 word option" where
  "read_hexs str s 0 x = Some x"
| "read_hexs str s (Suc i) x =
     (case uuid_hexVal (cat str s) of None \<Rightarrow> None | Some n \<Rightarrow> read_hexs str (s + 1) i (push_bit 4 x + of_nat n))"

definition parse_uuid :: "agoo_err \<Rightarrow> string \<Rightarrow> int \<Rightarrow> (agoo_err_code \<times> (64 word \<times> 64 word) option \<times> agoo_err) mem" where
  "parse_uuid err str len =
    (let bad = mem_bind (agoo_err_set err AGOO_ERR_PARSE ''not UUID format'') (\<lambda>(code, err). Val (code, None, err))
     in if arg_len str len \<noteq> 36 \<or> cat str 8 \<noteq> CHR ''-'' \<or> cat str 13 \<noteq> CHR ''-'' \<or> cat str 18 \<noteq> CHR ''-'' \<or>
           cat str 23 \<noteq> CHR ''-'' then bad
        else case Option.bind (Option.bind (read_hexs str 0 8 0) (read_hexs str 9 4)) (read_hexs str 14 4) of
          None \<Rightarrow> bad
        | Some hi \<Rightarrow>
            (case Option.bind (read_hexs str 19 4 0) (read_hexs str 24 12) of
               None \<Rightarrow> bad
             | Some lo \<Rightarrow> Val (AGOO_ERR_OK, Some (hi, lo), err)))"

definition uuid_str :: "64 word \<Rightarrow> 64 word \<Rightarrow> string" where
  "uuid_str hi lo =
    fmt_0x 8 (unat (drop_bit 32 hi)) @ ''-'' @ fmt_0x 4 (unat (drop_bit 16 hi AND 0xFFFF)) @ ''-'' @
    fmt_0x 4 (unat (hi AND 0xFFFF)) @ ''-'' @ fmt_0x 4 (unat (drop_bit 48 lo)) @ ''-'' @
    fmt_0x 12 (unat (lo AND 0xFFFFFFFFFFFF))"

definition gql_time_str_set :: "agoo_err \<Rightarrow> gqlValue \<Rightarrow> string \<Rightarrow> int \<Rightarrow> (agoo_err_code \<times> gqlValue \<times> agoo_err) mem" where
  "gql_time_str_set err v str len =
    mem_bind (time_parse err str (int (arg_len str len))) (\<lambda>(t, err).
    mem_bind (gql_time_set v t) (\<lambda>v. Val (ecode err, v, err)))"

definition gql_uuid_str_set :: "agoo_err \<Rightarrow> gqlValue \<Rightarrow> string \<Rightarrow> int \<Rightarrow> (agoo_err_code \<times> gqlValue \<times> agoo_err) mem" where
  "gql_uuid_str_set err v str len =
    mem_bind (parse_uuid err str len) (\<lambda>(code, r, err).
    case r of
      None \<Rightarrow> Val (ecode err, v, err)
    | Some (hi, lo) \<Rightarrow> Val (AGOO_ERR_OK, gql_uuid_set v hi lo, err))"

section \<open>Creation\<close>

text \<open>\<open>None\<close> is NULL; \<open>sizeof(struct _gqlValue)\<close> is 24.\<close>

definition value_create :: "allocator \<Rightarrow> gqlType \<Rightarrow> gqlValue option" where
  "value_create mal type =
    (if mal 24 = None then None else Some (GqlValue type (Scalar zero8 (Raw zero8))))"

definition value_with :: "allocator \<Rightarrow> gqlType \<Rightarrow> (gqlUnion \<Rightarrow> gqlUnion mem) \<Rightarrow> gqlValue option mem" where
  "value_with mal type f =
    (case value_create mal type of
       None \<Rightarrow> Val None
     | Some v \<Rightarrow> mem_bind (f (vunion v)) (\<lambda>u. Val (Some (GqlValue type u))))"

definition gql_int_create :: "allocator \<Rightarrow> 32 word \<Rightarrow> gqlValue option mem" where
  "gql_int_create mal i = value_with mal gql_int_type (union_put (le_bytes 4 i))"

definition gql_i64_create :: "allocator \<Rightarrow> 64 word \<Rightarrow> gqlValue option mem" where
  "gql_i64_create mal i = value_with mal gql_i64_type (union_put (le_bytes 8 i))"

definition gql_bool_create :: "allocator \<Rightarrow> bool \<Rightarrow> gqlValue option mem" where
  "gql_bool_create mal b = value_with mal gql_bool_type (union_put [if b then CHR 0x01 else NUL])"

definition gql_float_create :: "allocator \<Rightarrow> 64 word \<Rightarrow> gqlValue option mem" where
  "gql_float_create mal f = value_with mal gql_float_type (union_put (le_bytes 8 f))"

definition gql_time_create :: "allocator \<Rightarrow> 64 word \<Rightarrow> gqlValue option mem" where
  "gql_time_create mal t = value_with mal gql_time_type (union_put (le_bytes 8 t))"

definition gql_uuid_create :: "allocator \<Rightarrow> 64 word \<Rightarrow> 64 word \<Rightarrow> gqlValue option mem" where
  "gql_uuid_create mal hi lo = value_with mal gql_uuid_type (\<lambda>u. Val (Scalar (le_bytes 8 hi) (Raw (le_bytes 8 lo))))"

definition gql_null_create :: "allocator \<Rightarrow> gqlValue option mem" where
  "gql_null_create mal = value_with mal gql_null_type Val"

definition gql_list_create :: "allocator \<Rightarrow> gqlType option \<Rightarrow> gqlValue option mem" where
  "gql_list_create mal item_type = value_with mal list_type (\<lambda>u. Val (Members [] item_type))"

definition gql_object_create :: "allocator \<Rightarrow> gqlValue option mem" where
  "gql_object_create mal = value_with mal object_type (\<lambda>u. Val (Members [] None))"

text \<open>The body that the creation of strings, tokens, IDs and variables share.\<close>

definition str_create :: "allocator \<Rightarrow> agoo_err \<Rightarrow> gqlType \<Rightarrow> string \<Rightarrow> int \<Rightarrow> int \<Rightarrow> (gqlValue option \<times> agoo_err) mem" where
  "str_create mal err type str len line =
    (let n = arg_len str len
     in case value_create mal type of
          None \<Rightarrow> Val (None, err)
        | Some v \<Rightarrow>
            if 15 \<le> n then
              (case c_strndup mal str n of
                 None \<Rightarrow> mem_bind (agoo_err_memory err ''strdup()'' ''gqlvalue.c'' line) (\<lambda>(code, err). Val (None, err))
               | Some p \<Rightarrow>
                   mem_bind (str_set_alloced True (vunion v)) (\<lambda>u.
                   mem_bind (str_set_ptr (Some p) u) (\<lambda>u.
                     Val (Some (GqlValue type u), err))))
            else
              mem_bind (str_set_alloced False (vunion v)) (\<lambda>u.
              mem_bind (str_put (strncpy_str str n @ [NUL]) u) (\<lambda>u.
                Val (Some (GqlValue type u), err))))"

definition gql_string_create :: "allocator \<Rightarrow> agoo_err \<Rightarrow> string \<Rightarrow> int \<Rightarrow> (gqlValue option \<times> agoo_err) mem" where
  "gql_string_create mal err str len = str_create mal err gql_string_type str len 1050"

definition gql_token_create ::
  "allocator \<Rightarrow> agoo_err \<Rightarrow> string \<Rightarrow> int \<Rightarrow> gqlType option \<Rightarrow> (gqlValue option \<times> agoo_err) mem" where
  "gql_token_create mal err str len type =
    str_create mal err
      (case type of None \<Rightarrow> gql_token_type | Some t \<Rightarrow> if gkind t \<noteq> GQL_ENUM then gql_token_type else t) str len 1076"

definition gql_id_create :: "allocator \<Rightarrow> agoo_err \<Rightarrow> string \<Rightarrow> int \<Rightarrow> (gqlValue option \<times> agoo_err) mem" where
  "gql_id_create mal err str len = str_create mal err gql_id_type str len 1099"

definition gql_var_create :: "allocator \<Rightarrow> agoo_err \<Rightarrow> string \<Rightarrow> int \<Rightarrow> (gqlValue option \<times> agoo_err) mem" where
  "gql_var_create mal err str len = str_create mal err gql_var_type str len 1122"

definition gql_time_str_create :: "allocator \<Rightarrow> agoo_err \<Rightarrow> string \<Rightarrow> int \<Rightarrow> (gqlValue option \<times> agoo_err) mem" where
  "gql_time_str_create mal err str len =
    (case value_create mal gql_time_type of
       None \<Rightarrow> Val (None, err)
     | Some v \<Rightarrow>
         mem_bind (time_parse err str (int (arg_len str len))) (\<lambda>(t, err).
         mem_bind (union_put (le_bytes 8 t) (vunion v)) (\<lambda>u.
           Val (Some (GqlValue gql_time_type u), err))))"

definition gql_uuid_str_create :: "allocator \<Rightarrow> agoo_err \<Rightarrow> string \<Rightarrow> int \<Rightarrow> (gqlValue option \<times> agoo_err) mem" where
  "gql_uuid_str_create mal err str len =
    mem_bind (parse_uuid err str len) (\<lambda>(code, r, err).
    case r of
      None \<Rightarrow> Val (None, err)
    | Some (hi, lo) \<Rightarrow> mem_bind (gql_uuid_create mal hi lo) (\<lambda>v. Val (v, err)))"

section \<open>Lists and objects\<close>

text \<open>A link is its key and its value; where the key cannot be copied the link is lost.\<close>

definition gql_link_create ::
  "allocator \<Rightarrow> agoo_err \<Rightarrow> string option \<Rightarrow> gqlValue \<Rightarrow> ((string option \<times> gqlValue) option \<times> agoo_err) mem" where
  "gql_link_create mal err key item =
    (if mal 24 = None then
       mem_bind (agoo_err_memory err ''GraphQL List Link'' ''gqlvalue.c'' 921) (\<lambda>(code, err). Val (None, err))
     else case key of
       None \<Rightarrow> Val (Some (None, item), err)
     | Some k \<Rightarrow>
         (case c_strndup mal k (length k) of
            None \<Rightarrow> mem_bind (agoo_err_memory err ''strdup()'' ''gqlvalue.c'' 927) (\<lambda>(code, err). Val (None, err))
          | Some k \<Rightarrow> Val (Some (Some k, item), err)))"

definition members :: "gqlValue \<Rightarrow> (string option \<times> gqlValue) list mem" where
  "members v = (case vunion v of Members ms t \<Rightarrow> Val ms | Scalar lo hi \<Rightarrow> UB)"

definition set_members :: "gqlValue \<Rightarrow> (string option \<times> gqlValue) list \<Rightarrow> gqlValue mem" where
  "set_members v ms = (case vunion v of Members _ t \<Rightarrow> Val (GqlValue (vtype v) (Members ms t)) | Scalar lo hi \<Rightarrow> UB)"

text \<open>The result is \<open>AGOO_ERR_OK\<close> also where there is no link and the item is not added.\<close>

definition link_append :: "allocator \<Rightarrow> agoo_err \<Rightarrow> gqlValue \<Rightarrow> string option \<Rightarrow> gqlValue \<Rightarrow>
    (agoo_err_code \<times> gqlValue \<times> agoo_err) mem" where
  "link_append mal err v key item =
    mem_bind (gql_link_create mal err key item) (\<lambda>(link, err).
    case link of
      None \<Rightarrow> Val (AGOO_ERR_OK, v, err)
    | Some l \<Rightarrow>
        mem_bind (members v) (\<lambda>ms.
        mem_bind (set_members v (ms @ [l])) (\<lambda>v. Val (AGOO_ERR_OK, v, err))))"

definition gql_list_append :: "allocator \<Rightarrow> agoo_err \<Rightarrow> gqlValue \<Rightarrow> gqlValue \<Rightarrow> (agoo_err_code \<times> gqlValue \<times> agoo_err) mem" where
  "gql_list_append mal err v item = link_append mal err v None item"

definition gql_list_prepend :: "allocator \<Rightarrow> agoo_err \<Rightarrow> gqlValue \<Rightarrow> gqlValue \<Rightarrow> (agoo_err_code \<times> gqlValue \<times> agoo_err) mem" where
  "gql_list_prepend mal err v item =
    mem_bind (gql_link_create mal err None item) (\<lambda>(link, err).
    case link of
      None \<Rightarrow> Val (AGOO_ERR_OK, v, err)
    | Some l \<Rightarrow>
        mem_bind (members v) (\<lambda>ms.
        mem_bind (set_members v (l # ms)) (\<lambda>v. Val (AGOO_ERR_OK, v, err))))"

definition gql_object_set ::
  "allocator \<Rightarrow> agoo_err \<Rightarrow> gqlValue \<Rightarrow> string \<Rightarrow> gqlValue \<Rightarrow> (agoo_err_code \<times> gqlValue \<times> agoo_err) mem" where
  "gql_object_set mal err v key item = link_append mal err v (Some key) item"

text \<open>The comparison with a NULL key is undefined.\<close>

fun members_get :: "(string option \<times> gqlValue) list \<Rightarrow> string \<Rightarrow> gqlValue option mem" where
  "members_get [] key = Val None"
| "members_get ((k, v) # ms) key =
     (case k of None \<Rightarrow> UB | Some k \<Rightarrow> if k = cstr key then Val (Some v) else members_get ms key)"

definition gql_object_get :: "gqlValue option \<Rightarrow> string \<Rightarrow> gqlValue option mem" where
  "gql_object_get obj key =
    (case obj of
       None \<Rightarrow> Val None
     | Some v \<Rightarrow> if vtype v = object_type then mem_bind (members v) (\<lambda>ms. members_get ms key) else Val None)"

section \<open>Destruction\<close>

text \<open>
  Only what \<open>free\<close> is given matters: the strings of string values and enum values, the links of
  lists and objects with their values. A value of another kind than scalar and enum is kept.
\<close>

fun gql_value_destroy :: "gqlValue \<Rightarrow> unit mem"
  and links_destroy :: "(string option \<times> gqlValue) list \<Rightarrow> unit mem" where
  "gql_value_destroy (GqlValue type u) =
    (if gkind type = GQL_SCALAR then
       (if \<not> gprinters type then Val ()
        else if gscalar type \<in> {GQL_SCALAR_STRING, GQL_SCALAR_TOKEN, GQL_SCALAR_ID, GQL_SCALAR_VAR} then
          mem_bind (string_destroy u) (\<lambda>u. Val ())
        else if gscalar type \<in> {GQL_SCALAR_LIST, GQL_SCALAR_OBJECT} then
          (case u of Members ms t \<Rightarrow> links_destroy ms | Scalar lo hi \<Rightarrow> UB)
        else Val ())
     else if gkind type = GQL_ENUM then mem_bind (string_destroy u) (\<lambda>u. Val ())
     else Val ())"
| "links_destroy [] = Val ()"
| "links_destroy ((k, v) # ms) = mem_bind (gql_value_destroy v) (\<lambda>_. links_destroy ms)"

section \<open>Well-typed values\<close>

text \<open>
  The union holds what the scalar kind of the type says: a number in the first bytes; a C
  string in \<open>a\<close> or a pointer; members, with keys exactly in objects.
\<close>

definition scalar_ok :: "gqlUnion \<Rightarrow> bool" where
  "scalar_ok u \<longleftrightarrow> (case u of Scalar lo hi \<Rightarrow> length lo = 8 \<and> (case hi of Raw h \<Rightarrow> length h \<le> 8 | _ \<Rightarrow> True) | Members ms t \<Rightarrow> False)"

definition stringy :: "gqlType \<Rightarrow> bool" where
  "stringy t \<longleftrightarrow> gkind t = GQL_ENUM \<or> t \<in> {gql_string_type, gql_token_type, gql_id_type, gql_var_type}"

definition numeric :: "gqlType \<Rightarrow> bool" where
  "numeric t \<longleftrightarrow> t \<in> {gql_null_type, gql_int_type, gql_i64_type, gql_bool_type, gql_float_type, gql_time_type}"

definition is_uuid :: "gqlUnion \<Rightarrow> bool" where
  "is_uuid u \<longleftrightarrow> (case u of Scalar lo (Raw h) \<Rightarrow> length lo = 8 \<and> length h = 8 | _ \<Rightarrow> False)"

fun well_typed :: "gqlValue \<Rightarrow> bool" where
  "well_typed (GqlValue t u) =
    (if stringy t then scalar_ok u \<and> str_view u \<noteq> UB
     else if numeric t then scalar_ok u
     else if t = gql_uuid_type then is_uuid u
     else if t = list_type then
       (case u of Members ms _ \<Rightarrow> \<forall>(k, v) \<in> set ms. k = None \<and> well_typed v | Scalar lo hi \<Rightarrow> False)
     else if t = object_type then
       (case u of Members ms _ \<Rightarrow> \<forall>(k, v) \<in> set ms. k \<noteq> None \<and> well_typed v | Scalar lo hi \<Rightarrow> False)
     else False)"

section \<open>What the create functions give\<close>

text \<open>An allocator that never refuses.\<close>

definition malloc_all :: "allocator \<Rightarrow> bool" where
  "malloc_all mal \<longleftrightarrow> malloc_ok mal \<and> (\<forall>n. mal n \<noteq> None)"

lemma malloc_allD: "malloc_all mal \<Longrightarrow> malloc_ok mal" "malloc_all mal \<Longrightarrow> mal n \<noteq> None"
  "malloc_all mal \<Longrightarrow> \<exists>b. mal n = Some b"
  by (simp_all add: malloc_all_def)

lemma malloc_all_mal0: "malloc_all mal0"
  using mal0_ok by (simp add: malloc_all_def mal0_def)

lemma value_with_all: "malloc_all mal \<Longrightarrow>
  value_with mal type f = mem_bind (f (Scalar zero8 (Raw zero8))) (\<lambda>u. Val (Some (GqlValue type u)))"
  by (auto simp: value_with_def value_create_def malloc_allD(2))

lemma length_zero8 [simp]: "length zero8 = 8"
  by (simp add: zero8_def)

definition number_union :: "string \<Rightarrow> gqlUnion" where
  "number_union s = Scalar (s @ drop (length s) zero8) (Raw zero8)"

lemma union_put_zero: "length s \<le> 8 \<Longrightarrow> union_put s (Scalar zero8 (Raw zero8)) = Val (number_union s)"
  by (simp add: union_put_def blk_write_ok number_union_def)

lemma union_get_number: "union_get (length s) (number_union s) = Val (le_word s)"
  by (simp add: union_get_def number_union_def blk_read_ok)

lemma create_numbers:
  assumes "malloc_all mal"
  shows "gql_int_create mal i = Val (Some (GqlValue gql_int_type (number_union (le_bytes 4 i))))"
    "gql_i64_create mal l = Val (Some (GqlValue gql_i64_type (number_union (le_bytes 8 l))))"
    "gql_float_create mal l = Val (Some (GqlValue gql_float_type (number_union (le_bytes 8 l))))"
    "gql_time_create mal l = Val (Some (GqlValue gql_time_type (number_union (le_bytes 8 l))))"
    "gql_bool_create mal b = Val (Some (GqlValue gql_bool_type (number_union [if b then CHR 0x01 else NUL])))"
    "gql_null_create mal = Val (Some (GqlValue gql_null_type (Scalar zero8 (Raw zero8))))"
    "gql_list_create mal t = Val (Some (GqlValue list_type (Members [] t)))"
    "gql_object_create mal = Val (Some (GqlValue object_type (Members [] None)))"
  by (simp_all add: gql_int_create_def gql_i64_create_def gql_float_create_def gql_time_create_def gql_bool_create_def
      gql_null_create_def gql_list_create_def gql_object_create_def value_with_all [OF assms] union_put_zero)

text \<open>A string value, whatever its length, is viewed as the C string it was created from.\<close>

definition inline_union :: "string \<Rightarrow> gqlUnion" where
  "inline_union w = (let a = NUL # w @ replicate (15 - length w) NUL in Scalar (take 8 a) (Raw (drop 8 a)))"

lemma zero8_simps: "take (Suc 0) zero8 = [NUL]" "drop (Suc n) zero8 = replicate (7 - n) NUL" "drop n zero8 = replicate (8 - n) NUL"
  by (simp_all add: zero8_def)

lemma str_put_zero: "length w \<le> 15 \<Longrightarrow> str_put w (Scalar zero8 (Raw zero8)) = Val (inline_union w)"
proof (cases "length w \<le> 7")
  case True
  then show ?thesis by (simp add: str_put_def inline_union_def Let_def blk_write_ok zero8_simps zero8_def [symmetric])
next
  case False
  assume "length w \<le> 15"
  with False show ?thesis
    by (simp add: str_put_def inline_union_def Let_def blk_write_ok zero8_simps min_def)
qed

lemma cstr_append_NUL: "cstr (cstr s @ NUL # r) = cstr s"
  unfolding cstr_def by (simp add: takeWhile_append)

lemma inline_union_ok: "length w \<le> 15 \<Longrightarrow> scalar_ok (inline_union w)"
proof -
  assume l: "length w \<le> 15"
  define a where "a = NUL # w @ replicate (15 - length w) NUL"
  have "length a = 16" using l by (simp add: a_def)
  then show ?thesis by (simp add: scalar_ok_def inline_union_def a_def [symmetric])
qed

lemma cstr_strncpy: "cstr (strncpy_str s n @ NUL # r) = cstr (take n s)"
proof (cases "n - strlen (take n s)")
  case 0
  then show ?thesis by (simp add: strncpy_str_def cstr_append_NUL)
next
  case (Suc k)
  then show ?thesis by (simp add: strncpy_str_def cstr_append_NUL)
qed

lemma inline_union_view:
  assumes "length w \<le> 15" "NUL \<in> set w"
  shows "str_view (inline_union w) = Val (Some (cstr w))"
proof -
  have al: "str_alloced (inline_union w) = Val False"
    by (simp add: str_alloced_def inline_union_def Let_def union_get_def blk_read_ok byte_of_def NUL_def)
  have c: "cstr (w @ replicate n NUL) = cstr w" for n
    using assms(2) unfolding cstr_def by (auto simp: takeWhile_append)
  have a: "drop (Suc 0) (take 8 (NUL # x)) @ drop 8 (NUL # x) = x" for x :: string
    by simp
  have "NUL \<in> set (w @ replicate (15 - length w) NUL)" using assms(2) by simp
  then have "str_a (inline_union w) = Val (cstr (w @ replicate (15 - length w) NUL))"
    unfolding str_a_def inline_union_def Let_def gqlUnion.case gql_hi.case One_nat_def a by (simp only: if_True)
  then show ?thesis using al c by (simp add: str_view_def)
qed

lemma length_strncpy: "n \<le> length s \<Longrightarrow> length (strncpy_str s n) = n"
  using strlen_le [of "take n s"] by (simp add: strncpy_str_def strlen_def)

lemma str_create_ok:
  assumes "malloc_all mal"
  shows "\<exists>u. str_create mal err type s len line = Val (Some (GqlValue type u), err) \<and> scalar_ok u \<and>
      str_view u = Val (Some (cstr (take (arg_len s len) s)))"
proof (cases "15 \<le> arg_len s len")
  case True
  have "str_create mal err type s len line
      = Val (Some (GqlValue type (Scalar (CHR 0x01 # replicate 7 NUL) (Ptr (cstr (take (arg_len s len) s))))), err)"
    using True by (simp add: str_create_def value_create_def malloc_allD(2) [OF assms] c_strndup_def
        str_set_alloced_def union_put_def blk_write_ok str_set_ptr_def zero8_simps Let_def)
  then show ?thesis
    by (simp add: scalar_ok_def str_view_def str_alloced_def union_get_def blk_read_ok byte_of_def str_ptr_def)
next
  case False
  let ?w = "strncpy_str s (arg_len s len) @ [NUL]"
  have l: "length ?w \<le> 15" using False strlen_le [of "take (arg_len s len) s"]
    by (simp add: strncpy_str_def strlen_def)
  have z: "str_set_alloced False (Scalar zero8 (Raw zero8)) = Val (Scalar zero8 (Raw zero8))"
    by (simp add: str_set_alloced_def union_put_def blk_write_ok zero8_simps) (simp add: zero8_def replicate_numeral)
  have "str_create mal err type s len line = Val (Some (GqlValue type (inline_union ?w)), err)"
    using False l by (simp add: str_create_def value_create_def malloc_allD(2) [OF assms] z str_put_zero Let_def)
  moreover have "scalar_ok (inline_union ?w)" using l by (rule inline_union_ok)
  moreover have "str_view (inline_union ?w) = Val (Some (cstr (take (arg_len s len) s)))"
    using inline_union_view [OF l] cstr_strncpy [of s "arg_len s len" "[]"] by simp
  ultimately show ?thesis by blast
qed

end
