(* ===== verification/Gqltext.thy ===== *)
theory Gqltext
  imports Gqlvalue
begin

text \<open>
  The printers of \<open>ext/agoo/gqlvalue.c\<close>: values as JSON and as SDL, with the indentation taken
  from a static array of 257 bytes.
\<close>

section \<open>Scalars\<close>

text \<open>
  The printf forms of doubles, and the arithmetic of them that the code uses. \<open>d_decimal i num
  div x neg\<close> is the double nearest to the rounded long double \<open>i * div + num\<close> times \<open>10 ^ x\<close>.
\<close>

record double_ops =
  d_fmt_g :: "64 word \<Rightarrow> string"
  d_of_int :: "int \<Rightarrow> 64 word"
  d_to_int :: "64 word \<Rightarrow> int option"
  d_less :: "64 word \<Rightarrow> 64 word \<Rightarrow> bool"
  d_eq :: "64 word \<Rightarrow> 64 word \<Rightarrow> bool"
  d_add :: "64 word \<Rightarrow> 64 word \<Rightarrow> 64 word"
  d_mul :: "64 word \<Rightarrow> 64 word \<Rightarrow> 64 word"
  d_div :: "64 word \<Rightarrow> 64 word \<Rightarrow> 64 word"
  d_neg :: "64 word \<Rightarrow> 64 word"
  d_pow10 :: "int \<Rightarrow> 64 word"
  d_strtod :: "string \<Rightarrow> 64 word \<times> nat"
  d_decimal :: "int \<Rightarrow> int \<Rightarrow> int \<Rightarrow> int \<Rightarrow> bool \<Rightarrow> 64 word"

text \<open>An error record and arithmetic of doubles for the examples, which have no doubles.\<close>

definition no_err :: agoo_err where
  "no_err = \<lparr>ecode = AGOO_ERR_OK, emsg = replicate 256 NUL\<rparr>"

definition no_doubles :: double_ops where
  "no_doubles = \<lparr>d_fmt_g = (\<lambda>f. ''0''), d_of_int = (\<lambda>i. 0), d_to_int = (\<lambda>f. None), d_less = (\<lambda>a b. False),
     d_eq = (\<lambda>a b. a = b), d_add = (\<lambda>a b. 0), d_mul = (\<lambda>a b. 0), d_div = (\<lambda>a b. 0), d_neg = (\<lambda>a. a),
     d_pow10 = (\<lambda>i. 0), d_strtod = (\<lambda>s. (0, 0)), d_decimal = (\<lambda>i n d x s. 0)\<rparr>"

type_synonym text_writer = "agoo_text option \<Rightarrow> agoo_text option mem"

definition append_str :: "allocator \<Rightarrow> string \<Rightarrow> text_writer" where
  "append_str mal s t = agoo_text_append mal t s (int (length s))"

definition null_to_text :: "allocator \<Rightarrow> text_writer" where
  "null_to_text mal = append_str mal ''null''"

definition int_to_text :: "allocator \<Rightarrow> gqlUnion \<Rightarrow> text_writer" where
  "int_to_text mal u t = mem_bind (union_get 4 u) (\<lambda>i :: 32 word. append_str mal (int_str (sint i)) t)"

definition i64_to_text :: "allocator \<Rightarrow> gqlUnion \<Rightarrow> text_writer" where
  "i64_to_text mal u t = mem_bind (union_get 8 u) (\<lambda>i :: 64 word. append_str mal (int_str (sint i)) t)"

text \<open>The quoted string; the string itself is escaped up to its NUL.\<close>

definition string_to_text :: "allocator \<Rightarrow> gqlUnion \<Rightarrow> text_writer" where
  "string_to_text mal u t =
    mem_bind (str_view u) (\<lambda>p.
    case p of
      None \<Rightarrow> append_str mal ''null'' t
    | Some s \<Rightarrow>
        mem_bind (agoo_text_append mal t [CHR 0x22] 1) (\<lambda>t.
        mem_bind (agoo_text_append_json mal t s (-1)) (\<lambda>t.
        agoo_text_append mal t [CHR 0x22] 1)))"

definition token_to_text :: "allocator \<Rightarrow> gqlUnion \<Rightarrow> text_writer" where
  "token_to_text mal u t =
    mem_bind (str_view u) (\<lambda>p.
    case p of None \<Rightarrow> append_str mal ''null'' t | Some s \<Rightarrow> agoo_text_append_json mal t s (-1))"

definition var_to_text :: "allocator \<Rightarrow> gqlUnion \<Rightarrow> text_writer" where
  "var_to_text mal u t =
    mem_bind (str_view u) (\<lambda>p.
    case p of
      None \<Rightarrow> append_str mal ''null'' t
    | Some s \<Rightarrow>
        mem_bind (agoo_text_append_char mal t CHR ''%'') (\<lambda>t.
        agoo_text_append_json mal t s (-1)))"

definition bool_to_text :: "allocator \<Rightarrow> gqlUnion \<Rightarrow> text_writer" where
  "bool_to_text mal u t =
    mem_bind (union_get 1 u) (\<lambda>b :: byte. append_str mal (if b \<noteq> 0 then ''true'' else ''false'') t)"

text \<open>\<open>snprintf\<close> cuts the text to the 32 bytes of \<open>num\<close> but returns the whole length.\<close>

definition float_to_text :: "double_ops \<Rightarrow> allocator \<Rightarrow> gqlUnion \<Rightarrow> text_writer" where
  "float_to_text fl mal u t =
    mem_bind (union_get 8 u) (\<lambda>f.
    let s = d_fmt_g fl f
    in agoo_text_append mal t (take 31 s @ [NUL] @ replicate (31 - length s) NUL) (int (length s)))"

definition time_to_text :: "allocator \<Rightarrow> gqlUnion \<Rightarrow> text_writer" where
  "time_to_text mal u t =
    mem_bind (union_get 8 u) (\<lambda>tt. append_str mal ([CHR 0x22] @ time_str tt @ [CHR 0x22]) t)"

definition union_uuid :: "gqlUnion \<Rightarrow> (64 word \<times> 64 word) mem" where
  "union_uuid u =
    (case u of Scalar lo (Raw h) \<Rightarrow>
       mem_bind (blk_read lo 8) (\<lambda>a. mem_bind (blk_read h 8) (\<lambda>b. Val (le_word a, le_word b)))
     | _ \<Rightarrow> UB)"

definition uuid_to_text :: "allocator \<Rightarrow> gqlUnion \<Rightarrow> text_writer" where
  "uuid_to_text mal u t =
    mem_bind (union_uuid u) (\<lambda>(hi, lo). append_str mal ([CHR 0x22] @ uuid_str hi lo @ [CHR 0x22]) t)"

section \<open>Lists and objects\<close>

definition spaces :: string where
  "spaces = CHR 0x0A # replicate 255 CHR '' '' @ [NUL]"

text \<open>The two lengths taken from \<open>spaces\<close>: behind the last member, and before a member.\<close>

definition indents :: "int \<Rightarrow> int \<Rightarrow> int \<times> int" where
  "indents indent depth =
    (let i = indent * depth;
         i2 = i + indent;
         i = (if 0 < indent then i + 1 else i);
         i2 = (if 0 < indent then i2 + 1 else i2)
     in if 257 \<le> i then (257 - 1 - indent, 257 - 1) else (i, i2))"

definition indent_before :: "allocator \<Rightarrow> int \<Rightarrow> text_writer" where
  "indent_before mal i2 t = (if 0 < i2 then agoo_text_append mal t spaces i2 else Val t)"

definition indent_after :: "allocator \<Rightarrow> int \<Rightarrow> int \<Rightarrow> text_writer" where
  "indent_after mal indent i t = (if 0 < indent then agoo_text_append mal t spaces i else Val t)"

text \<open>
  \<open>gql_value_json\<close> dispatches on the type; the list and object printers walk over the links.
  The key of an object is copied as it is, a NULL key is not a string.
\<close>

fun gql_value_json :: "double_ops \<Rightarrow> allocator \<Rightarrow> int \<Rightarrow> int \<Rightarrow> gqlValue \<Rightarrow> text_writer"
  and list_links_json :: "double_ops \<Rightarrow> allocator \<Rightarrow> int \<Rightarrow> int \<Rightarrow> int \<Rightarrow> (string option \<times> gqlValue) list \<Rightarrow> text_writer"
  and object_links_json :: "double_ops \<Rightarrow> allocator \<Rightarrow> int \<Rightarrow> int \<Rightarrow> int \<Rightarrow> (string option \<times> gqlValue) list \<Rightarrow> text_writer" where
  "gql_value_json fl mal indent depth (GqlValue type u) t =
    (if gkind type \<noteq> GQL_SCALAR then
       (if gkind type = GQL_ENUM then string_to_text mal u t else append_str mal ''null'' t)
     else if \<not> gprinters type then append_str mal ''null'' t
     else
       (case gscalar type of
          GQL_SCALAR_NULL \<Rightarrow> null_to_text mal t
        | GQL_SCALAR_INT \<Rightarrow> int_to_text mal u t
        | GQL_SCALAR_I64 \<Rightarrow> i64_to_text mal u t
        | GQL_SCALAR_STRING \<Rightarrow> string_to_text mal u t
        | GQL_SCALAR_TOKEN \<Rightarrow> string_to_text mal u t
        | GQL_SCALAR_ID \<Rightarrow> string_to_text mal u t
        | GQL_SCALAR_VAR \<Rightarrow> var_to_text mal u t
        | GQL_SCALAR_BOOL \<Rightarrow> bool_to_text mal u t
        | GQL_SCALAR_FLOAT \<Rightarrow> float_to_text fl mal u t
        | GQL_SCALAR_TIME \<Rightarrow> time_to_text mal u t
        | GQL_SCALAR_UUID \<Rightarrow> uuid_to_text mal u t
        | GQL_SCALAR_LIST \<Rightarrow>
            (case u of
               Scalar lo hi \<Rightarrow> UB
             | Members ms mt \<Rightarrow>
                 case indents indent depth of (i, i2) \<Rightarrow>
                 mem_bind (agoo_text_append mal t ''['' 1) (\<lambda>t.
                 mem_bind (list_links_json fl mal indent (depth + 1) i2 ms t) (\<lambda>t.
                 mem_bind (indent_after mal indent i t) (\<lambda>t.
                 agoo_text_append mal t '']'' 1))))
        | GQL_SCALAR_OBJECT \<Rightarrow>
            (case u of
               Scalar lo hi \<Rightarrow> UB
             | Members ms mt \<Rightarrow>
                 case indents indent depth of (i, i2) \<Rightarrow>
                 mem_bind (agoo_text_append mal t ''{'' 1) (\<lambda>t.
                 mem_bind (object_links_json fl mal indent (depth + 1) i2 ms t) (\<lambda>t.
                 mem_bind (indent_after mal indent i t) (\<lambda>t.
                 agoo_text_append mal t ''}'' 1))))
        | GQL_SCALAR_UNDEF \<Rightarrow> UB))"
| "list_links_json fl mal indent d2 i2 [] t = Val t"
| "list_links_json fl mal indent d2 i2 ((k, v) # ms) t =
    mem_bind (indent_before mal i2 t) (\<lambda>t.
    mem_bind (gql_value_json fl mal indent d2 v t) (\<lambda>t.
    mem_bind (if ms \<noteq> [] then agoo_text_append mal t '','' 1 else Val t) (\<lambda>t.
    list_links_json fl mal indent d2 i2 ms t)))"
| "object_links_json fl mal indent d2 i2 [] t = Val t"
| "object_links_json fl mal indent d2 i2 ((k, v) # ms) t =
    mem_bind (indent_before mal i2 t) (\<lambda>t.
    mem_bind (agoo_text_append mal t [CHR 0x22] 1) (\<lambda>t.
    mem_bind (case k of None \<Rightarrow> UB | Some k \<Rightarrow> agoo_text_append mal t k (-1)) (\<lambda>t.
    mem_bind (agoo_text_append mal t [CHR 0x22, CHR '':''] 2) (\<lambda>t.
    mem_bind (gql_value_json fl mal indent d2 v t) (\<lambda>t.
    mem_bind (if ms \<noteq> [] then agoo_text_append mal t '','' 1 else Val t) (\<lambda>t.
    object_links_json fl mal indent d2 i2 ms t))))))"

text \<open>
  SDL. The members of lists and objects are printed through the pointer \<open>type->to_sdl\<close> without
  the tests of \<open>gql_value_sdl\<close>: for a type that is no scalar the pointer is another member of
  the union, for a scalar of the schema it is NULL.
\<close>

fun to_sdl :: "double_ops \<Rightarrow> allocator \<Rightarrow> int \<Rightarrow> int \<Rightarrow> gqlValue \<Rightarrow> text_writer"
  and list_links_sdl :: "double_ops \<Rightarrow> allocator \<Rightarrow> int \<Rightarrow> int \<Rightarrow> int \<Rightarrow> (string option \<times> gqlValue) list \<Rightarrow> text_writer"
  and object_links_sdl :: "double_ops \<Rightarrow> allocator \<Rightarrow> int \<Rightarrow> int \<Rightarrow> int \<Rightarrow> (string option \<times> gqlValue) list \<Rightarrow> text_writer" where
  "to_sdl fl mal indent depth (GqlValue type u) t =
    (if gkind type \<noteq> GQL_SCALAR \<or> \<not> gprinters type then UB
     else
       (case gscalar type of
          GQL_SCALAR_NULL \<Rightarrow> null_to_text mal t
        | GQL_SCALAR_INT \<Rightarrow> int_to_text mal u t
        | GQL_SCALAR_I64 \<Rightarrow> i64_to_text mal u t
        | GQL_SCALAR_STRING \<Rightarrow> string_to_text mal u t
        | GQL_SCALAR_TOKEN \<Rightarrow> token_to_text mal u t
        | GQL_SCALAR_ID \<Rightarrow> string_to_text mal u t
        | GQL_SCALAR_VAR \<Rightarrow> var_to_text mal u t
        | GQL_SCALAR_BOOL \<Rightarrow> bool_to_text mal u t
        | GQL_SCALAR_FLOAT \<Rightarrow> float_to_text fl mal u t
        | GQL_SCALAR_TIME \<Rightarrow> time_to_text mal u t
        | GQL_SCALAR_UUID \<Rightarrow> uuid_to_text mal u t
        | GQL_SCALAR_LIST \<Rightarrow>
            (case u of
               Scalar lo hi \<Rightarrow> UB
             | Members ms mt \<Rightarrow>
                 case indents indent depth of (i, i2) \<Rightarrow>
                 mem_bind (agoo_text_append mal t ''['' 1) (\<lambda>t.
                 mem_bind (list_links_sdl fl mal indent (depth + 1) i2 ms t) (\<lambda>t.
                 mem_bind (indent_after mal indent i t) (\<lambda>t.
                 agoo_text_append mal t '']'' 1))))
        | GQL_SCALAR_OBJECT \<Rightarrow>
            (case u of
               Scalar lo hi \<Rightarrow> UB
             | Members ms mt \<Rightarrow>
                 case indents indent depth of (i, i2) \<Rightarrow>
                 mem_bind (agoo_text_append mal t ''{'' 1) (\<lambda>t.
                 mem_bind (object_links_sdl fl mal indent (depth + 1) i2 ms t) (\<lambda>t.
                 mem_bind (indent_after mal indent i t) (\<lambda>t.
                 agoo_text_append mal t ''}'' 1))))
        | GQL_SCALAR_UNDEF \<Rightarrow> UB))"
| "list_links_sdl fl mal indent d2 i2 [] t = Val t"
| "list_links_sdl fl mal indent d2 i2 ((k, v) # ms) t =
    mem_bind (indent_before mal i2 t) (\<lambda>t.
    mem_bind (to_sdl fl mal indent d2 v t) (\<lambda>t.
    mem_bind (if ms \<noteq> [] then agoo_text_append mal t '','' 1 else Val t) (\<lambda>t.
    list_links_sdl fl mal indent d2 i2 ms t)))"
| "object_links_sdl fl mal indent d2 i2 [] t = Val t"
| "object_links_sdl fl mal indent d2 i2 ((k, v) # ms) t =
    mem_bind (indent_before mal i2 t) (\<lambda>t.
    mem_bind (case k of None \<Rightarrow> UB | Some k \<Rightarrow> agoo_text_append mal t k (-1)) (\<lambda>t.
    mem_bind (if 0 < indent then agoo_text_append mal t '': '' 2 else agoo_text_append mal t '':'' 1) (\<lambda>t.
    mem_bind (to_sdl fl mal indent d2 v t) (\<lambda>t.
    mem_bind (if ms \<noteq> [] then agoo_text_append mal t '','' 1 else Val t) (\<lambda>t.
    object_links_sdl fl mal indent d2 i2 ms t)))))"

definition gql_value_sdl :: "double_ops \<Rightarrow> allocator \<Rightarrow> int \<Rightarrow> int \<Rightarrow> gqlValue \<Rightarrow> text_writer" where
  "gql_value_sdl fl mal indent depth v t =
    (if gkind (vtype v) \<noteq> GQL_SCALAR then
       (if gkind (vtype v) = GQL_ENUM then token_to_text mal (vunion v) t else append_str mal ''null'' t)
     else if \<not> gprinters (vtype v) then append_str mal ''null'' t
     else to_sdl fl mal indent depth v t)"

section \<open>What the printers write\<close>

text \<open>
  A writer appends \<open>s\<close>: it passes NULL on, and gives NULL, where memory is refused, or a
  well-formed terminated text with \<open>s\<close> behind the old contents.
\<close>

definition writes :: "allocator \<Rightarrow> text_writer \<Rightarrow> string \<Rightarrow> bool" where
  "writes mal w s \<longleftrightarrow>
     w None = Val None \<and>
     (\<forall>t. text_ok t \<longrightarrow> terminated t \<longrightarrow>
        (\<exists>n. mal n = None) \<and> w (Some t) = Val None \<or>
        (\<exists>t'. w (Some t) = Val (Some t') \<and> text_ok t' \<and> terminated t' \<and> content t' = content t @ s))"

lemma appended_cases:
  "appended mal t s r \<Longrightarrow>
   (\<exists>n. mal n = None) \<and> r = Val None \<or> (\<exists>t'. r = Val (Some t') \<and> text_ok t' \<and> terminated t' \<and> content t' = content t @ s)"
  by (auto simp: appended_def refused_def split: if_splits)

lemma writesI:
  assumes "w None = Val None"
    and "\<And>t. text_ok t \<Longrightarrow> terminated t \<Longrightarrow> appended mal t s (w (Some t))"
  shows "writes mal w s"
  unfolding writes_def using assms(1) appended_cases [OF assms(2)] by blast

lemma writes_nop [intro]: "writes mal Val []"
  by (simp add: writes_def)

lemma writes_bind:
  assumes "writes mal w a" "writes mal x b"
  shows "writes mal (\<lambda>t. mem_bind (w t) x) (a @ b)"
  unfolding writes_def
proof (intro conjI allI impI)
  show "mem_bind (w None) x = Val None" using assms by (simp add: writes_def)
  fix t assume t: "text_ok t" "terminated t"
  then consider "w (Some t) = Val None" "\<exists>n. mal n = None"
    | t' where "w (Some t) = Val (Some t')" "text_ok t'" "terminated t'" "content t' = content t @ a"
    using assms(1) unfolding writes_def by blast
  then show "(\<exists>n. mal n = None) \<and> mem_bind (w (Some t)) x = Val None \<or>
      (\<exists>t'. mem_bind (w (Some t)) x = Val (Some t') \<and> text_ok t' \<and> terminated t' \<and> content t' = content t @ a @ b)"
  proof cases
    case 1
    then show ?thesis using assms(2) by (simp add: writes_def)
  next
    case (2 t')
    then have "(\<exists>n. mal n = None) \<and> x (Some t') = Val None \<or>
        (\<exists>t''. x (Some t') = Val (Some t'') \<and> text_ok t'' \<and> terminated t'' \<and> content t'' = content t' @ b)"
      using assms(2) unfolding writes_def by blast
    then show ?thesis using 2 by auto
  qed
qed

lemma writes_append:
  assumes "malloc_ok mal" "arg_len s len \<le> length s" "a = take (arg_len s len) s"
  shows "writes mal (\<lambda>t. agoo_text_append mal t s len) a"
proof (rule writesI)
  show "agoo_text_append mal None s len = Val None" by (simp add: agoo_text_append_def)
  show "appended mal t a (agoo_text_append mal (Some t) s len)" if "text_ok t" for t
    unfolding assms(3) using assms(1) that assms(2) by (rule text_append_ok_len)
qed

lemma writes_all:
  assumes "malloc_ok mal" "s \<noteq> []"
  shows "writes mal (append_str mal s) s"
  unfolding append_str_def by (rule writes_append) (use assms in \<open>simp_all add: arg_len_def\<close>)

lemma writes_json:
  assumes "malloc_ok mal"
  shows "writes mal (\<lambda>t. agoo_text_append_json mal t s (-1)) (concat (map json_esc (cstr s)))"
proof (rule writesI)
  show "agoo_text_append_json mal None s (-1) = Val None" by (simp add: agoo_text_append_json_def)
  have "arg_len s (-1) = strlen s" by (simp add: arg_len_def)
  then show "appended mal t (concat (map json_esc (cstr s))) (agoo_text_append_json mal (Some t) s (-1))" if "text_ok t" for t
    using text_append_json_len [OF assms that, of s "-1"] by (simp add: take_strlen strlen_le)
qed

lemma writes_cstr: "malloc_ok mal \<Longrightarrow> writes mal (\<lambda>t. agoo_text_append mal t s (-1)) (cstr s)"
  by (rule writes_append) (simp_all add: arg_len_def strlen_le take_strlen)

section \<open>JSON\<close>

text \<open>JSON data, the JSON a value stands for, and a reference printer.\<close>

datatype json = JNull | JBool bool | JNum int | JStr string | JList "json list" | JObj "(string \<times> json) list"

fun val_of :: "'a mem \<Rightarrow> 'a option" where
  "val_of UB = None"
| "val_of (Val x) = Some x"

definition json_str_of :: "gqlUnion \<Rightarrow> json option" where
  "json_str_of u = map_option (\<lambda>p. case p of None \<Rightarrow> JNull | Some s \<Rightarrow> JStr (cstr s)) (val_of (str_view u))"

fun json_of :: "gqlValue \<Rightarrow> json option"
  and json_list :: "(string option \<times> gqlValue) list \<Rightarrow> json list option"
  and json_obj :: "(string option \<times> gqlValue) list \<Rightarrow> (string \<times> json) list option" where
  "json_of (GqlValue type u) =
    (if gkind type = GQL_ENUM then json_str_of u
     else if gkind type \<noteq> GQL_SCALAR \<or> \<not> gprinters type then Some JNull
     else
       (case gscalar type of
          GQL_SCALAR_NULL \<Rightarrow> Some JNull
        | GQL_SCALAR_INT \<Rightarrow> map_option (\<lambda>i :: 32 word. JNum (sint i)) (val_of (union_get 4 u))
        | GQL_SCALAR_I64 \<Rightarrow> map_option (\<lambda>i :: 64 word. JNum (sint i)) (val_of (union_get 8 u))
        | GQL_SCALAR_STRING \<Rightarrow> json_str_of u
        | GQL_SCALAR_TOKEN \<Rightarrow> json_str_of u
        | GQL_SCALAR_ID \<Rightarrow> json_str_of u
        | GQL_SCALAR_BOOL \<Rightarrow> map_option (\<lambda>b :: byte. JBool (b \<noteq> 0)) (val_of (union_get 1 u))
        | GQL_SCALAR_TIME \<Rightarrow> map_option (\<lambda>t. JStr (time_str t)) (val_of (union_get 8 u))
        | GQL_SCALAR_UUID \<Rightarrow> map_option (\<lambda>(hi, lo). JStr (uuid_str hi lo)) (val_of (union_uuid u))
        | GQL_SCALAR_LIST \<Rightarrow> (case u of Members ms mt \<Rightarrow> map_option JList (json_list ms) | Scalar lo hi \<Rightarrow> None)
        | GQL_SCALAR_OBJECT \<Rightarrow> (case u of Members ms mt \<Rightarrow> map_option JObj (json_obj ms) | Scalar lo hi \<Rightarrow> None)
        | _ \<Rightarrow> None))"
| "json_list [] = Some []"
| "json_list ((k, v) # ms) =
    (case json_of v of None \<Rightarrow> None | Some j \<Rightarrow> map_option (\<lambda>js. j # js) (json_list ms))"
| "json_obj [] = Some []"
| "json_obj ((k, v) # ms) =
    (case k of
       None \<Rightarrow> None
     | Some k \<Rightarrow> (case json_of v of None \<Rightarrow> None | Some j \<Rightarrow> map_option (\<lambda>js. (cstr k, j) # js) (json_obj ms)))"

definition indentation :: "int \<Rightarrow> nat \<Rightarrow> string" where
  "indentation indent depth =
    (if 0 < indent then CHR 0x0A # replicate (nat indent * depth) CHR '' '' else [])"

fun json_print :: "int \<Rightarrow> nat \<Rightarrow> json \<Rightarrow> string"
  and json_prints :: "int \<Rightarrow> nat \<Rightarrow> json list \<Rightarrow> string"
  and json_prints_obj :: "int \<Rightarrow> nat \<Rightarrow> (string \<times> json) list \<Rightarrow> string" where
  "json_print n d JNull = ''null''"
| "json_print n d (JBool b) = (if b then ''true'' else ''false'')"
| "json_print n d (JNum i) = int_str i"
| "json_print n d (JStr s) = [CHR 0x22] @ concat (map json_esc s) @ [CHR 0x22]"
| "json_print n d (JList js) = ''['' @ json_prints n (Suc d) js @ indentation n d @ '']''"
| "json_print n d (JObj ms) = ''{'' @ json_prints_obj n (Suc d) ms @ indentation n d @ ''}''"
| "json_prints n d [] = []"
| "json_prints n d (j # js) =
    indentation n d @ json_print n d j @ (if js \<noteq> [] then '','' else []) @ json_prints n d js"
| "json_prints_obj n d [] = []"
| "json_prints_obj n d ((k, j) # ms) =
    indentation n d @ [CHR 0x22] @ k @ [CHR 0x22, CHR '':''] @ json_print n d j @ (if ms \<noteq> [] then '','' else []) @
    json_prints_obj n d ms"

fun json_height :: "json \<Rightarrow> nat" and json_heights :: "json list \<Rightarrow> nat"
  and json_heights_obj :: "(string \<times> json) list \<Rightarrow> nat" where
  "json_height (JList js) = Suc (json_heights js)"
| "json_height (JObj ms) = Suc (json_heights_obj ms)"
| "json_height _ = 0"
| "json_heights [] = 0"
| "json_heights (j # js) = max (json_height j) (json_heights js)"
| "json_heights_obj [] = 0"
| "json_heights_obj ((k, j) # ms) = max (json_height j) (json_heights_obj ms)"

text \<open>The indentation of a value of this height stays inside \<open>spaces\<close>.\<close>

definition indent_fits :: "int \<Rightarrow> nat \<Rightarrow> nat \<Rightarrow> bool" where
  "indent_fits n d h \<longleftrightarrow> nat n * (d + h) < 256"

lemma indents_fit:
  "indent_fits n d (Suc h) \<Longrightarrow>
   indents n (int d) = (if 0 < n then n * int d + 1 else n * int d, if 0 < n then n * int d + n + 1 else n * int d + n)"
proof -
  assume f: "indent_fits n d (Suc h)"
  have "\<not> 257 \<le> (if 0 < n then n * int d + 1 else n * int d)"
  proof (cases "0 < n")
    case True
    have "nat n * d \<le> nat n * (d + Suc h)" by (rule mult_le_mono2) simp
    then have "nat n * d < 256" using f unfolding indent_fits_def by linarith
    then have "int (nat n * d) < int 256" by (simp only: of_nat_less_iff)
    then show ?thesis using True by simp
  next
    case False
    then have "n * int d \<le> 0" by (simp add: mult_nonpos_nonneg)
    then show ?thesis using False by simp
  qed
  then show ?thesis by (simp add: indents_def Let_def)
qed

lemma take_spaces: "m < 256 \<Longrightarrow> take (Suc m) spaces = CHR 0x0A # replicate m CHR '' ''"
  by (simp add: spaces_def)

lemma length_spaces: "length spaces = 257"
  by (simp add: spaces_def)

lemma writes_spaces:
  assumes "malloc_ok mal" "m < 256"
  shows "writes mal (\<lambda>t. agoo_text_append mal t spaces (1 + int m)) (CHR 0x0A # replicate m CHR '' '')"
  by (rule writes_append)
     (use assms in \<open>simp_all add: arg_len_def nat_add_distrib take_spaces length_spaces\<close>)

lemma indentation_step:
  assumes "malloc_ok mal" "indent_fits n d (Suc h)" "indents n (int d) = (i, i2)"
  shows "writes mal (indent_before mal i2) (indentation n (Suc d))" "writes mal (indent_after mal n i) (indentation n d)"
proof -
  have i: "i = (if 0 < n then n * int d + 1 else n * int d)" "i2 = (if 0 < n then n * int d + n + 1 else n * int d + n)"
    using assms(3) indents_fit [OF assms(2)] by simp_all
  show "writes mal (indent_before mal i2) (indentation n (Suc d))"
  proof (cases "0 < n")
    case True
    have "nat n * Suc d \<le> nat n * (d + Suc h)" by (rule mult_le_mono2) simp
    then have l: "nat n * Suc d < 256" using assms(2) unfolding indent_fits_def by linarith
    have "i2 = 1 + int (nat n * Suc d)" using True i(2) by (simp add: algebra_simps)
    then show ?thesis using writes_spaces [OF assms(1) l] True
      by (simp add: indent_before_def [abs_def] indentation_def add_pos_nonneg del: mult_Suc_right of_nat_mult)
  next
    case False
    then have "n * int d \<le> 0" by (simp add: mult_nonpos_nonneg)
    then show ?thesis using False i(2) writes_nop by (simp add: indent_before_def [abs_def] indentation_def)
  qed
  show "writes mal (indent_after mal n i) (indentation n d)"
  proof (cases "0 < n")
    case True
    have "nat n * d \<le> nat n * (d + Suc h)" by (rule mult_le_mono2) simp
    then have l: "nat n * d < 256" using assms(2) unfolding indent_fits_def by linarith
    have "i = 1 + int (nat n * d)" using True i(1) by simp
    then show ?thesis using writes_spaces [OF assms(1) l] True
      by (simp add: indent_after_def [abs_def] indentation_def del: of_nat_mult)
  next
    case False
    then show ?thesis using writes_nop by (simp add: indent_after_def [abs_def] indentation_def)
  qed
qed

lemma int_str_nonempty [simp]: "int_str i \<noteq> []"
  using dec_str_digits by (simp add: int_str_def)

lemma val_of_Some [simp]: "val_of m = Some x \<longleftrightarrow> m = Val x"
  by (cases m) simp_all

lemma writes_string:
  assumes "malloc_ok mal" "json_str_of u = Some j"
  shows "writes mal (string_to_text mal u) (json_print n d j)"
proof -
  obtain p where p: "str_view u = Val p" "j = (case p of None \<Rightarrow> JNull | Some s \<Rightarrow> JStr (cstr s))"
    using assms(2) by (auto simp: json_str_of_def)
  show ?thesis
  proof (cases p)
    case None
    then show ?thesis using p writes_all [OF assms(1), of "''null''"] by (simp add: string_to_text_def [abs_def])
  next
    case (Some s)
    have q: "writes mal (\<lambda>t. agoo_text_append mal t [CHR 0x22] 1) [CHR 0x22]"
      by (rule writes_append) (simp_all add: assms(1) arg_len_def)
    show ?thesis using writes_bind [OF q writes_bind [OF writes_json [OF assms(1), of s] q]] p Some
      by (simp add: string_to_text_def [abs_def])
  qed
qed

text \<open>Times and UUIDs have nothing to escape.\<close>

definition plain :: "char \<Rightarrow> bool" where
  "plain c \<longleftrightarrow> is_digit c \<or> c \<in> set ''abcdef-:.TZ''"

lemma json_esc_plain: "list_all plain s \<Longrightarrow> concat (map json_esc s) = s"
proof (induction s)
  case (Cons c s)
  have "json_esc c = [c]"
    using Cons.prems by (auto simp: plain_def is_digit_def json_esc_def json_class_eq Let_def)
  with Cons show ?case by simp
qed simp

lemma plain_chars [simp]:
  "plain CHR ''-''" "plain CHR '':''" "plain CHR ''.''" "plain CHR ''T''" "plain CHR ''Z''" "plain CHR ''0''"
  by (simp_all add: plain_def is_digit_def)

lemma plain_pad: "list_all plain s \<Longrightarrow> list_all plain (zero_pad w s)"
  by (auto simp: zero_pad_def list_all_iff)

lemma plain_dec: "list_all plain (dec_str n)"
  using dec_str_digits [of n] by (auto simp: plain_def list_all_iff)

lemma plain_fmt_0d: "list_all plain (fmt_0d w i)"
  by (simp add: fmt_0d_def plain_pad plain_dec)

lemma plain_hex_char: "n < 16 \<Longrightarrow> plain (hex_chars ! n)"
proof -
  have "list_all plain hex_chars" by (simp add: hex_chars_def plain_def is_digit_def)
  moreover assume "n < 16"
  moreover have "length hex_chars = 16" by (simp add: hex_chars_def)
  ultimately show ?thesis by (metis list_all_length)
qed

lemma plain_hex: "list_all plain (hex_str n)"
proof (induction n rule: hex_str.induct)
  case (1 n)
  then show ?case
    using plain_hex_char [of n] plain_hex_char [of "n mod 16"] hex_str.simps [of n] by (cases "n < 16") auto
qed

lemma plain_time: "list_all plain (time_str t)"
  by (simp add: time_str_def Let_def plain_fmt_0d)

lemma plain_uuid: "list_all plain (uuid_str hi lo)"
  by (simp add: uuid_str_def fmt_0x_def plain_pad plain_hex)

lemma indent_fits_Suc: "indent_fits n d (Suc h) = indent_fits n (Suc d) h"
  by (simp add: indent_fits_def)

lemma indent_fits_mono: "indent_fits n d h \<Longrightarrow> h' \<le> h \<Longrightarrow> indent_fits n d h'"
  unfolding indent_fits_def by (meson add_le_cancel_left le_less_trans mult_le_mono2)

lemma writes_lit: "malloc_ok mal \<Longrightarrow> 0 < length s \<Longrightarrow> n = int (length s) \<Longrightarrow> writes mal (\<lambda>t. agoo_text_append mal t s n) s"
  by (rule writes_append) (simp_all add: arg_len_def)

lemma writes_value:
  assumes "malloc_ok mal"
  shows "json_of v = Some j \<Longrightarrow> indent_fits n d (json_height j) \<Longrightarrow>
      writes mal (gql_value_json fl mal n (int d) v) (json_print n d j)"
    and "json_list ms = Some js \<Longrightarrow> indent_fits n (Suc d) (json_heights js) \<Longrightarrow>
      writes mal (indent_before mal i2) (indentation n (Suc d)) \<Longrightarrow>
      writes mal (list_links_json fl mal n (int d + 1) i2 ms) (json_prints n (Suc d) js)"
    and "json_obj ms = Some kjs \<Longrightarrow> indent_fits n (Suc d) (json_heights_obj kjs) \<Longrightarrow>
      writes mal (indent_before mal i2) (indentation n (Suc d)) \<Longrightarrow>
      writes mal (object_links_json fl mal n (int d + 1) i2 ms) (json_prints_obj n (Suc d) kjs)"
proof (induction v and ms and ms arbitrary: d j and d js i2 and d kjs i2 rule: json_of_json_list_json_obj.induct)
  case (1 type u)
  note W = writes_all [OF assms] writes_string [OF assms]
  show ?case
  proof (cases "gkind type = GQL_SCALAR \<and> gprinters type \<and> gscalar type \<in> {GQL_SCALAR_LIST, GQL_SCALAR_OBJECT}")
    case False
    show ?thesis
    proof (cases "gkind type = GQL_SCALAR \<and> gprinters type")
      case t: True
      with False 1(3) W show ?thesis
        by (cases "gscalar type")
           (auto simp: null_to_text_def int_to_text_def [abs_def] i64_to_text_def [abs_def] bool_to_text_def [abs_def]
            time_to_text_def [abs_def] uuid_to_text_def [abs_def] json_esc_plain [OF plain_time] json_esc_plain [OF plain_uuid])
    next
      case f: False
      with 1(3) W show ?thesis by (cases "gkind type = GQL_ENUM"; cases "gkind type = GQL_SCALAR") auto
    qed
  next
    case True
    obtain a b where ab: "indents n (int d) = (a, b)" by fastforce
    note L = writes_lit [OF assms]
    from True consider (lst) "gscalar type = GQL_SCALAR_LIST" | (obj) "gscalar type = GQL_SCALAR_OBJECT" by blast
    then show ?thesis
    proof cases
      case lst
      obtain ms mt js where u: "u = Members ms mt" "json_list ms = Some js" "j = JList js"
        using 1(3) True lst by (auto split: gqlUnion.splits)
      have f: "indent_fits n d (Suc (json_heights js))" using 1(4) u by simp
      note ind = indentation_step [OF assms f ab]
      have "writes mal (list_links_json fl mal n (int d + 1) b ms) (json_prints n (Suc d) js)"
        by (rule 1(1)) (use True lst u f ind(1) in \<open>simp_all add: indent_fits_Suc\<close>)
      from writes_bind [OF L [of "''[''" 1] writes_bind [OF this writes_bind [OF ind(2) L [of "'']''" 1]]]]
      show ?thesis using True lst u ab by simp
    next
      case obj
      obtain ms mt js where u: "u = Members ms mt" "json_obj ms = Some js" "j = JObj js"
        using 1(3) True obj by (auto split: gqlUnion.splits)
      have f: "indent_fits n d (Suc (json_heights_obj js))" using 1(4) u by simp
      note ind = indentation_step [OF assms f ab]
      have "writes mal (object_links_json fl mal n (int d + 1) b ms) (json_prints_obj n (Suc d) js)"
        by (rule 1(2)) (use True obj u f ind(1) in \<open>simp_all add: indent_fits_Suc\<close>)
      from writes_bind [OF L [of "''{''" 1] writes_bind [OF this writes_bind [OF ind(2) L [of "''}''" 1]]]]
      show ?thesis using True obj u ab by simp
    qed
  qed
next
  case 2
  then show ?case using writes_nop by simp
next
  case (3 k v ms)
  then obtain j js' where j: "json_of v = Some j" "json_list ms = Some js'" "js = j # js'"
    by (auto split: option.splits)
  have "indent_fits n (Suc d) (json_height j)" "indent_fits n (Suc d) (json_heights js')"
    using 3(4) j(3) by (auto elim: indent_fits_mono)
  then have w: "writes mal (gql_value_json fl mal n (int d + 1) v) (json_print n (Suc d) j)"
      "writes mal (list_links_json fl mal n (int d + 1) i2 ms) (json_prints n (Suc d) js')"
    using 3(1) [of j "Suc d"] 3(2) [of j js' d i2] 3(5) j by (simp_all add: add.commute)
  have c: "writes mal (\<lambda>t. if ms \<noteq> [] then agoo_text_append mal t '','' 1 else Val t) (if js' \<noteq> [] then '','' else [])"
    using writes_lit [OF assms, of "'',''" 1] writes_nop j(2) by (cases ms) (auto split: option.splits prod.splits)
  show ?case using writes_bind [OF 3(5) writes_bind [OF w(1) writes_bind [OF c w(2)]]] j(3) by simp
next
  case 4
  then show ?case using writes_nop by simp
next
  case (5 k v ms)
  then obtain k' j js' where j: "k = Some k'" "json_of v = Some j" "json_obj ms = Some js'" "kjs = (cstr k', j) # js'"
    by (auto split: option.splits)
  have "indent_fits n (Suc d) (json_height j)" "indent_fits n (Suc d) (json_heights_obj js')"
    using 5(4) j(4) by (auto elim: indent_fits_mono)
  then have w: "writes mal (gql_value_json fl mal n (int d + 1) v) (json_print n (Suc d) j)"
      "writes mal (object_links_json fl mal n (int d + 1) i2 ms) (json_prints_obj n (Suc d) js')"
    using 5(1) [of k' j "Suc d"] 5(2) [of k' j js' d i2] 5(5) j by (simp_all add: add.commute)
  have c: "writes mal (\<lambda>t. if ms \<noteq> [] then agoo_text_append mal t '','' 1 else Val t) (if js' \<noteq> [] then '','' else [])"
    using writes_lit [OF assms, of "'',''" 1] writes_nop j(3) by (cases ms) (auto split: option.splits prod.splits)
  note L = writes_lit [OF assms]
  show ?case
    using writes_bind [OF 5(5) writes_bind [OF L [of "[CHR 0x22]" 1] writes_bind [OF writes_cstr [OF assms, of k']
            writes_bind [OF L [of "[CHR 0x22, CHR '':'']" 2] writes_bind [OF w(1) writes_bind [OF c w(2)]]]]]] j(1,4)
    by simp
qed

end
