(* ===== verification/Doc.thy ===== *)
theory Doc
  imports Gqltext
begin

text \<open>
  The scanner of \<open>ext/agoo/doc.c\<close> that the JSON, SDL and query parsers share: the document with
  its position, white space, tokens, strings, numbers and the values of SDL.

  The block \<open>dblk\<close> holds the bytes that may be read, from the start of the document on: its text,
  the terminating NUL and whatever else belongs to the same object. A read behind it is \<open>UB\<close>.
\<close>

section \<open>Documents\<close>

record agoo_doc =
  dblk :: string
  dcur :: nat
  dend :: nat

definition char_map :: string where
  "char_map =
     ''.........ww..w..................'' @
     ''wpq.....pp..w.p.ttttttttttp..p..'' @
     ''pttttttttttttttttttttttttttp.p.t'' @
     ''.ttttttttttttttttttttttttttppp..'' @
     ''................................'' @
     ''................................'' @
     ''................................'' @
     ''................................''"

definition json_map :: string where
  "json_map =
     ''.........ww..w..................'' @
     ''wpq.....pp..c.p.ttttttttttp..p..'' @
     ''pttttttttttttttttttttttttttp.p.t'' @
     ''.ttttttttttttttttttttttttttppp..'' @
     ''................................'' @
     ''................................'' @
     ''................................'' @
     ''................................''"

definition value_map :: string where
  "value_map =
     ''.........ww..w..................'' @
     ''wpq.....pp..ctt.ttttttttttt..p..'' @
     ''pttttttttttttttttttttttttttp.p.t'' @
     ''.ttttttttttttttttttttttttttppp..'' @
     ''................................'' @
     ''................................'' @
     ''................................'' @
     ''................................''"

text \<open>\<open>doc->cur[k]\<close>, and \<open>doc->cur += k\<close>.\<close>

definition peek :: "agoo_doc \<Rightarrow> nat \<Rightarrow> char mem" where
  "peek d k = (if dcur d + k < length (dblk d) then Val (dblk d ! (dcur d + k)) else UB)"

definition adv :: "nat \<Rightarrow> agoo_doc \<Rightarrow> agoo_doc" where
  "adv k d = d\<lparr>dcur := dcur d + k\<rparr>"

text \<open>The loops that move over characters: to the first that fails the test, and up to the end.\<close>

definition skip_while :: "(char \<Rightarrow> bool) \<Rightarrow> agoo_doc \<Rightarrow> agoo_doc mem" where
  "skip_while P d =
    (let n = length (takeWhile P (drop (dcur d) (dblk d)))
     in if dcur d + n < length (dblk d) then Val (adv n d) else UB)"

definition scan_to :: "(char \<Rightarrow> bool) \<Rightarrow> agoo_doc \<Rightarrow> agoo_doc mem" where
  "scan_to P d =
    (let n = length (takeWhile P (take (dend d - dcur d) (drop (dcur d) (dblk d))))
     in if dcur d + n < dend d \<and> length (dblk d) \<le> dcur d + n then UB else Val (adv n d))"

text \<open>A length that is not positive stands for \<open>strlen\<close>; a byte order mark is skipped.\<close>

definition agoo_doc_init :: "string \<Rightarrow> int \<Rightarrow> agoo_doc mem" where
  "agoo_doc_init str len =
    (let d = \<lparr>dblk = str, dcur = 0, dend = arg_len str len\<rparr>
     in mem_bind (peek d 0) (\<lambda>a.
        if a \<noteq> CHR 0xEF then Val d
        else mem_bind (peek d 1) (\<lambda>b.
        if b \<noteq> CHR 0xBB then Val d
        else mem_bind (peek d 2) (\<lambda>c.
        if c \<noteq> CHR 0xBF then Val d else Val (adv 3 d)))))"

definition agoo_doc_skip_jwhite :: "agoo_doc \<Rightarrow> agoo_doc mem" where
  "agoo_doc_skip_jwhite = skip_while (\<lambda>c. json_map ! of_char c = CHR ''w'')"

text \<open>The loop of the comment only ends at a line end.\<close>

definition agoo_doc_skip_comment :: "agoo_doc \<Rightarrow> agoo_doc mem" where
  "agoo_doc_skip_comment = skip_while (\<lambda>c. c \<noteq> CHR 0x0D \<and> c \<noteq> CHR 0x0A)"

lemma skip_while_Val:
  "skip_while P d = Val d' \<longleftrightarrow>
   (\<exists>n. d' = adv n d \<and> n = length (takeWhile P (drop (dcur d) (dblk d))) \<and> dcur d + n < length (dblk d))"
  by (auto simp: skip_while_def Let_def)

lemma adv_simps [simp]:
  "dblk (adv k d) = dblk d" "dend (adv k d) = dend d" "dcur (adv k d) = dcur d + k" "adv 0 d = d"
  "adv j (adv k d) = adv (k + j) d"
  by (simp_all add: adv_def add.assoc)

lemma peek_Val: "peek d k = Val c \<longleftrightarrow> dcur d + k < length (dblk d) \<and> c = dblk d ! (dcur d + k)"
  by (auto simp: peek_def)

lemma comment_progress:
  assumes "skip_while P d = Val d1" "peek d1 0 = Val c" "c = CHR ''#''" "agoo_doc_skip_comment d1 = Val d2"
  shows "length (dblk d2) - dcur d2 < length (dblk d) - dcur d"
proof -
  obtain n where n: "d1 = adv n d" "dcur d + n < length (dblk d)"
    using assms(1) by (auto simp: skip_while_Val)
  have "hd (drop (dcur d1) (dblk d1)) = CHR ''#''" "drop (dcur d1) (dblk d1) \<noteq> []"
    using assms(2,3) by (auto simp: peek_Val hd_drop_conv_nth)
  then obtain r where r: "drop (dcur d1) (dblk d1) = CHR ''#'' # r" by (cases "drop (dcur d1) (dblk d1)") auto
  obtain m where "d2 = adv m d1" "m = length (takeWhile (\<lambda>c. c \<noteq> CHR 0x0D \<and> c \<noteq> CHR 0x0A) (drop (dcur d1) (dblk d1)))"
    using assms(4) by (auto simp: agoo_doc_skip_comment_def skip_while_Val)
  then show ?thesis using n r by auto
qed

function agoo_doc_skip_white :: "agoo_doc \<Rightarrow> agoo_doc mem" where
  "agoo_doc_skip_white d =
    mem_bind (skip_while (\<lambda>c. char_map ! of_char c = CHR ''w'') d) (\<lambda>d.
    mem_bind (peek d 0) (\<lambda>c.
    if c = CHR ''#'' then mem_bind (agoo_doc_skip_comment d) (\<lambda>d. agoo_doc_skip_white d) else Val d))"
  by pat_completeness auto
termination
  by (relation "measure (\<lambda>d. length (dblk d) - dcur d)") (auto intro: comment_progress)

declare agoo_doc_skip_white.simps [simp del]

lemma skip_white_stops:
  "agoo_doc_skip_white d = Val d' \<Longrightarrow> peek d' 0 \<noteq> UB \<and> peek d' 0 \<noteq> Val CHR ''#''"
proof (induction d rule: agoo_doc_skip_white.induct)
  case (1 d)
  from 1(2) obtain d1 c where d1: "skip_while (\<lambda>c. char_map ! of_char c = CHR ''w'') d = Val d1" "peek d1 0 = Val c"
    "(if c = CHR ''#'' then mem_bind (agoo_doc_skip_comment d1) agoo_doc_skip_white else Val d1) = Val d'"
    by (subst (asm) agoo_doc_skip_white.simps) (auto simp: mem_bind_eq_Val)
  show ?case
  proof (cases "c = CHR ''#''")
    case True
    then obtain d2 where "agoo_doc_skip_comment d1 = Val d2" "agoo_doc_skip_white d2 = Val d'"
      using d1(3) by (auto simp: mem_bind_eq_Val)
    then show ?thesis using 1(1) d1 True by blast
  qed (use d1 in auto)
qed

text \<open>The comment test behind \<open>agoo_doc_skip_white\<close> is never true, as \<open>skip_white_stops\<close> shows.\<close>

definition agoo_doc_next_token :: "agoo_doc \<Rightarrow> agoo_doc mem" where
  "agoo_doc_next_token d = agoo_doc_skip_white d"

text \<open>The first component tells whether the character was found; else the position is kept.\<close>

definition agoo_doc_skip_to :: "agoo_doc \<Rightarrow> char \<Rightarrow> (bool \<times> agoo_doc) mem" where
  "agoo_doc_skip_to d c =
    mem_bind (scan_to (\<lambda>x. x \<noteq> c) d) (\<lambda>d'. Val (if dcur d' < dend d' then (True, d') else (False, d)))"

definition token_char :: "char \<Rightarrow> bool" where
  "token_char c \<longleftrightarrow> char_map ! of_char c = CHR ''t''"

definition agoo_doc_read_token :: "agoo_doc \<Rightarrow> agoo_doc mem" where
  "agoo_doc_read_token d =
    mem_bind (peek d 0) (\<lambda>c.
    if token_char c \<and> (57 :: nat) < of_char c then skip_while token_char (adv 1 d) else Val d)"

definition agoo_doc_read_value_token :: "agoo_doc \<Rightarrow> agoo_doc mem" where
  "agoo_doc_read_value_token = skip_while (\<lambda>c. value_map ! of_char c = CHR ''t'')"

section \<open>Errors\<close>

text \<open>Line and column of the position, and the error message that ends with them.\<close>

fun agoo_doc_location :: "string \<Rightarrow> nat \<Rightarrow> int \<Rightarrow> int \<Rightarrow> (int \<times> int) mem" where
  "agoo_doc_location s 0 line col = Val (line, col)"
| "agoo_doc_location [] (Suc n) line col = UB"
| "agoo_doc_location (x # xs) (Suc n) line col =
     (if x = CHR 0x0A then agoo_doc_location xs n (line + 1) 1
      else if x = CHR 0x0D then
        (case xs of
           [] \<Rightarrow> UB
         | y # ys \<Rightarrow> if y = CHR 0x0A then agoo_doc_location ys (n - 1) (line + 1) 1
                     else agoo_doc_location xs n (line + 1) 1)
      else agoo_doc_location xs n line (col + 1))"

definition agoo_doc_err :: "agoo_doc \<Rightarrow> agoo_err \<Rightarrow> string \<Rightarrow> (agoo_err_code \<times> agoo_err) mem" where
  "agoo_doc_err d err msg =
    mem_bind (agoo_doc_location (dblk d) (dcur d) 1 1) (\<lambda>(line, col).
    agoo_err_set err AGOO_ERR_PARSE (take 247 msg @ '' at '' @ int_str line @ '':'' @ int_str col))"

text \<open>The ways the parsers return: NULL with an error set, and a value.\<close>

type_synonym parsed = "gqlValue option \<times> agoo_doc \<times> agoo_err"

definition doc_fail :: "agoo_doc \<Rightarrow> agoo_err \<Rightarrow> string \<Rightarrow> parsed mem" where
  "doc_fail d err msg = mem_bind (agoo_doc_err d err msg) (\<lambda>(code, err). Val (None, d, err))"

section \<open>Strings\<close>

text \<open>A string of the language: \<open>doc->cur\<close> is left behind its closing quotes.\<close>

fun close_triple :: "nat \<Rightarrow> nat \<Rightarrow> string \<Rightarrow> nat mem" where
  "close_triple e cur s =
    (if e \<le> cur then Val cur
     else
       (case s of
          [] \<Rightarrow> UB
        | x # xs \<Rightarrow>
            if x \<noteq> CHR 0x22 then close_triple e (cur + 1) xs
            else case xs of
              [] \<Rightarrow> UB
            | y # ys \<Rightarrow>
                if y \<noteq> CHR 0x22 then close_triple e (cur + 1) xs
                else case ys of
                  [] \<Rightarrow> UB
                | z # zs \<Rightarrow> if z = CHR 0x22 then Val (cur + 3) else close_triple e (cur + 1) xs))"

fun close_quote :: "nat \<Rightarrow> nat \<Rightarrow> char \<Rightarrow> string \<Rightarrow> nat mem" where
  "close_quote e cur prev s =
    (if e \<le> cur then Val cur
     else
       (case s of
          [] \<Rightarrow> UB
        | x # xs \<Rightarrow> if x = CHR 0x22 \<and> prev \<noteq> CHR 0x5C then Val (cur + 1) else close_quote e (cur + 1) x xs))"

declare close_triple.simps [simp del] close_quote.simps [simp del]

definition string_end :: "agoo_doc \<Rightarrow> agoo_err \<Rightarrow> (agoo_err_code \<times> agoo_doc \<times> agoo_err) mem" where
  "string_end d err =
    (if dend d \<le> dcur d then mem_bind (agoo_doc_err d err ''String not terminated'') (\<lambda>(code, err). Val (code, d, err))
     else Val (AGOO_ERR_OK, d, err))"

definition agoo_doc_read_string :: "agoo_err \<Rightarrow> agoo_doc \<Rightarrow> (agoo_err_code \<times> agoo_doc \<times> agoo_err) mem" where
  "agoo_doc_read_string err d =
    (let d = adv 1 d
     in mem_bind (peek d 0) (\<lambda>c.
        if c = CHR 0x22 then
          (let d = adv 1 d
           in mem_bind (peek d 0) (\<lambda>c.
              if c \<noteq> CHR 0x22 then Val (AGOO_ERR_OK, d, err)
              else
                let d = adv 1 d
                in mem_bind (close_triple (dend d) (dcur d) (drop (dcur d) (dblk d))) (\<lambda>cur.
                   string_end (d\<lparr>dcur := cur\<rparr>) err)))
        else
          mem_bind (close_quote (dend d) (dcur d) (dblk d ! (dcur d - 1)) (drop (dcur d) (dblk d))) (\<lambda>cur.
          string_end (d\<lparr>dcur := cur\<rparr>) err)))"

definition agoo_doc_read_quote :: "agoo_err \<Rightarrow> agoo_doc \<Rightarrow> (agoo_err_code \<times> agoo_doc \<times> agoo_err) mem" where
  "agoo_doc_read_quote err d =
    (let d = adv 1 d
     in mem_bind (peek d 0) (\<lambda>c.
        if c = CHR 0x27 then Val (AGOO_ERR_OK, adv 1 d, err)
        else mem_bind (scan_to (\<lambda>x. x \<noteq> CHR 0x27) d) (\<lambda>d.
             string_end (if dcur d < dend d then adv 1 d else d) err)))"

section \<open>Numbers\<close>

text \<open>Signed arithmetic of 64 bits: overflow is undefined.\<close>

definition i64 :: "int \<Rightarrow> int mem" where
  "i64 x = (if - (2 ^ 63) \<le> x \<and> x < 2 ^ 63 then Val x else UB)"

definition INT64_MAX :: int where "INT64_MAX = 9223372036854775807"
definition INT32_MAX :: int where "INT32_MAX = 2147483647"

text \<open>
  A loop over digits: \<open>step\<close> takes the state and the digit to the next state, and \<open>None\<close> ends the
  loop with an error, with the position behind the digit. The loop reads the character behind
  every digit; \<open>e\<close> is where it must stop.
\<close>

fun scan_digits :: "('s \<Rightarrow> nat \<Rightarrow> 's option mem) \<Rightarrow> nat \<Rightarrow> nat \<Rightarrow> string \<Rightarrow> 's \<Rightarrow> (nat \<times> 's option) mem" where
  "scan_digits step e cur [] st = UB"
| "scan_digits step e cur (c # s) st =
     (if cur < e \<and> is_digit c then
        mem_bind (step st (digit_val c)) (\<lambda>r.
        case r of None \<Rightarrow> Val (cur, None) | Some st \<Rightarrow> scan_digits step e (cur + 1) s st)
      else Val (cur, Some st))"

definition digits :: "('s \<Rightarrow> nat \<Rightarrow> 's option mem) \<Rightarrow> nat \<Rightarrow> agoo_doc \<Rightarrow> 's \<Rightarrow> (agoo_doc \<times> 's option) mem" where
  "digits step e d st =
    mem_bind (scan_digits step e (dcur d) (drop (dcur d) (dblk d)) st) (\<lambda>(cur, r). Val (d\<lparr>dcur := cur\<rparr>, r))"

text \<open>A sign in front of a number: whether it is negative, and the document behind it.\<close>

definition read_sign :: "agoo_doc \<Rightarrow> (bool \<times> agoo_doc) mem" where
  "read_sign d =
    mem_bind (peek d 0) (\<lambda>c.
    Val (if c = CHR ''-'' then (True, adv 1 d) else if c = CHR ''+'' then (False, adv 1 d) else (False, d)))"

definition DEC_MAX :: int where "DEC_MAX = 16"
definition EXP_MAX :: int where "EXP_MAX = 100000"

text \<open>The states of the loops are \<open>(i, dec_cnt)\<close>, \<open>(num, dv, di, dec_cnt)\<close> and \<open>exp\<close>.\<close>

definition number_step :: "int \<times> int \<Rightarrow> nat \<Rightarrow> (int \<times> int) option mem" where
  "number_step st dg =
    (case st of (i, dec_cnt) \<Rightarrow>
     let dec_cnt = (if 0 < i then dec_cnt + 1 else dec_cnt)
     in mem_bind (i64 (i * 10 + int dg)) (\<lambda>i.
        Val (if INT64_MAX \<le> i then None else Some (i, dec_cnt))))"

definition fraction_step :: "int \<Rightarrow> int \<times> int \<times> int \<times> int \<Rightarrow> nat \<Rightarrow> (int \<times> int \<times> int \<times> int) option mem" where
  "fraction_step i st dg =
    (case st of (num, dv, di, dec_cnt) \<Rightarrow>
     let dec_cnt = (if 0 < num \<or> 0 < i then dec_cnt + 1 else dec_cnt)
     in mem_bind (i64 (num * 10 + int dg)) (\<lambda>num.
        mem_bind (i64 (dv * 10)) (\<lambda>dv.
        Val (if INT64_MAX \<le> dv \<or> DEC_MAX < dec_cnt then None else Some (num, dv, di + 1, dec_cnt)))))"

definition exponent_step :: "int \<Rightarrow> nat \<Rightarrow> int option mem" where
  "exponent_step exp dg =
    mem_bind (i64 (exp * 10 + int dg)) (\<lambda>exp. Val (if EXP_MAX \<le> exp then None else Some exp))"

text \<open>The end of a number: a float where there is an exponent or a fraction that is not zero.\<close>

definition number_value ::
  "double_ops \<Rightarrow> allocator \<Rightarrow> bool \<Rightarrow> int \<Rightarrow> int \<Rightarrow> int \<Rightarrow> int \<Rightarrow> int option \<Rightarrow> gqlValue option mem" where
  "number_value fl mal neg i num dv di exp =
    (if exp \<noteq> None \<or> 0 < num then
       gql_float_create mal (d_decimal fl i num dv ((case exp of None \<Rightarrow> 0 | Some x \<Rightarrow> x) - di) neg)
     else if INT32_MAX < i then gql_i64_create mal (of_int (if neg then - i else i))
     else gql_int_create mal (of_int (if neg then - i else i)))"

definition exponent_part :: "agoo_doc \<Rightarrow> agoo_err \<Rightarrow> (agoo_doc \<times> int option option \<times> agoo_err) mem" where
  "exponent_part d err =
    mem_bind (peek d 0) (\<lambda>c.
    if c = CHR ''e'' \<or> c = CHR ''E'' then
      mem_bind (read_sign (adv 1 d)) (\<lambda>(eneg, d).
      mem_bind (digits exponent_step (length (dblk d)) d 0) (\<lambda>(d, r).
      case r of
        None \<Rightarrow> mem_bind (agoo_doc_err d err ''number has too many digits'') (\<lambda>(code, err). Val (d, None, err))
      | Some x \<Rightarrow> Val (d, Some (Some (if eneg then - x else x)), err)))
    else Val (d, Some None, err))"

definition read_number :: "double_ops \<Rightarrow> allocator \<Rightarrow> agoo_err \<Rightarrow> agoo_doc \<Rightarrow> parsed mem" where
  "read_number fl mal err d =
    mem_bind (read_sign d) (\<lambda>(neg, d).
    mem_bind (digits number_step (length (dblk d)) d (0, 0)) (\<lambda>(d, r).
    case r of
      None \<Rightarrow> doc_fail d err ''number is too large''
    | Some (i, dec_cnt) \<Rightarrow>
        mem_bind (peek d 0) (\<lambda>c.
        if c \<noteq> CHR ''.'' then mem_bind (number_value fl mal neg i 0 1 0 None) (\<lambda>v. Val (v, d, err))
        else
          mem_bind (digits (fraction_step i) (length (dblk d)) (adv 1 d) (0, 1, 0, dec_cnt)) (\<lambda>(d, r).
          case r of
            None \<Rightarrow> doc_fail d err ''number has too many digits''
          | Some (num, dv, di, dec_cnt) \<Rightarrow>
              mem_bind (exponent_part d err) (\<lambda>(d, x, err).
              case x of
                None \<Rightarrow> Val (None, d, err)
              | Some exp \<Rightarrow> mem_bind (number_value fl mal neg i num dv di exp) (\<lambda>v. Val (v, d, err)))))))"

section \<open>Values\<close>

text \<open>
  Recursion and loops over input take fuel; \<open>None\<close> is a run that has used it up, \<open>Some UB\<close> and
  \<open>Some (Val x)\<close> are runs that end.
\<close>

type_synonym 'a run = "'a mem option"

definition run_bind :: "'a run \<Rightarrow> ('a \<Rightarrow> 'b run) \<Rightarrow> 'b run" where
  "run_bind r f = (case r of None \<Rightarrow> None | Some m \<Rightarrow> (case m of UB \<Rightarrow> Some UB | Val x \<Rightarrow> f x))"

lemma run_bind_simps [simp]:
  "run_bind None f = None" "run_bind (Some UB) f = Some UB" "run_bind (Some (Val x)) f = f x"
  by (simp_all add: run_bind_def)

lemma run_bind_eq_None: "run_bind r f = None \<longleftrightarrow> r = None \<or> (\<exists>x. r = Some (Val x) \<and> f x = None)"
  by (cases r; cases "the r") auto

lemma run_bind_eq_Val: "run_bind r f = Some (Val y) \<longleftrightarrow> (\<exists>x. r = Some (Val x) \<and> f x = Some (Val y))"
  by (cases r; cases "the r") auto

lemma run_bind_cong [fundef_cong]:
  "r = r' \<Longrightarrow> (\<And>x. r' = Some (Val x) \<Longrightarrow> f x = f' x) \<Longrightarrow> run_bind r f = run_bind r' f'"
  by (cases r'; cases "the r'") auto

text \<open>The bytes from a position on, as the argument \<open>start\<close> of the create functions.\<close>

definition str_at :: "nat \<Rightarrow> agoo_doc \<Rightarrow> string" where
  "str_at start d = drop start (dblk d)"

text \<open>A word: \<open>null\<close>, \<open>true\<close> and \<open>false\<close>, or a token; the first letter selects what is compared.\<close>

definition read_word ::
  "allocator \<Rightarrow> gqlType option \<Rightarrow> agoo_err \<Rightarrow> agoo_doc \<Rightarrow> char \<Rightarrow> parsed mem" where
  "read_word mal type err d c =
    mem_bind (agoo_doc_read_token d) (\<lambda>d'.
    let n = dcur d' - dcur d; w = take n (str_at (dcur d) d)
    in if c = CHR ''n'' \<and> w = ''null'' then mem_bind (gql_null_create mal) (\<lambda>v. Val (v, d', err))
       else if c = CHR ''t'' \<and> w = ''true'' then mem_bind (gql_bool_create mal True) (\<lambda>v. Val (v, d', err))
       else if c = CHR ''f'' \<and> w = ''false'' then mem_bind (gql_bool_create mal False) (\<lambda>v. Val (v, d', err))
       else mem_bind (gql_token_create mal err (str_at (dcur d) d) (int n) type) (\<lambda>(v, err). Val (v, d', err)))"

definition read_var :: "allocator \<Rightarrow> agoo_err \<Rightarrow> agoo_doc \<Rightarrow> parsed mem" where
  "read_var mal err d =
    (let d = adv 1 d
     in mem_bind (agoo_doc_read_token d) (\<lambda>d'.
        mem_bind (gql_var_create mal err (str_at (dcur d) d) (int (dcur d') - int (dcur d))) (\<lambda>(v, err).
        Val (v, d', err))))"

definition read_str :: "allocator \<Rightarrow> agoo_err \<Rightarrow> agoo_doc \<Rightarrow> parsed mem" where
  "read_str mal err d =
    (let start = dcur d + 1
     in mem_bind (agoo_doc_read_string err d) (\<lambda>(code, d, err).
        if code \<noteq> AGOO_ERR_OK then Val (None, d, err)
        else
          let triple = (dblk d ! start = CHR 0x22);
              e = (if triple then int (dcur d) - 3 else int (dcur d) - 1);
              start = (if triple then start + 2 else start)
          in mem_bind (gql_string_create mal err (str_at start d) (e - int start)) (\<lambda>(v, err). Val (v, d, err))))"

definition read_scalar ::
  "double_ops \<Rightarrow> allocator \<Rightarrow> gqlType option \<Rightarrow> agoo_err \<Rightarrow> agoo_doc \<Rightarrow> char \<Rightarrow> parsed mem" where
  "read_scalar fl mal type err d c =
    (if c = CHR ''$'' then read_var mal err d
     else if c = CHR 0x22 then read_str mal err d
     else if c = CHR ''-'' \<or> c = CHR ''+'' \<or> is_digit c then read_number fl mal err d
     else read_word mal type err d c)"

text \<open>The name of a member and the colon; \<open>None\<close> where an error was reported.\<close>

definition read_key :: "agoo_err \<Rightarrow> agoo_doc \<Rightarrow> (string option \<times> agoo_doc \<times> agoo_err) mem" where
  "read_key err d =
    (let bad = (\<lambda>d msg. mem_bind (agoo_doc_err d err msg) (\<lambda>(code, err). Val (None, d, err)))
     in mem_bind (agoo_doc_read_token d) (\<lambda>d'.
        let n = dcur d' - dcur d
        in if n = 0 then bad d' ''Expected a member name.''
           else if 256 \<le> n then bad d' ''Member name too long.''
           else
             let key = cstr (take n (str_at (dcur d) d))
             in mem_bind (agoo_doc_read_token d') (\<lambda>d'.
                mem_bind (peek d' 0) (\<lambda>c.
                if c \<noteq> CHR '':'' then bad d' (''Expected a '' @ [CHR 0x27, CHR '':'', CHR 0x27] @ '' after member name.'')
                else Val (Some key, adv 1 d', err)))))"

text \<open>
  What is read with one unit of fuel: a value, or the rest of a list or an object. The bodies
  take the reader with less fuel as an argument.
\<close>

datatype doc_job = Value | ListRest gqlValue | ObjectRest gqlValue

type_synonym doc_reader = "doc_job \<Rightarrow> gqlType option \<Rightarrow> agoo_err \<Rightarrow> agoo_doc \<Rightarrow> parsed run"

definition read_value_body ::
  "double_ops \<Rightarrow> allocator \<Rightarrow> doc_reader \<Rightarrow> gqlType option \<Rightarrow> agoo_err \<Rightarrow> agoo_doc \<Rightarrow> parsed run" where
  "read_value_body fl mal rd type err d =
    run_bind (Some (agoo_doc_skip_white d)) (\<lambda>d.
    run_bind (Some (peek d 0)) (\<lambda>c.
    if c = CHR ''['' then
      (if type \<noteq> None \<and> gkind (the type) \<noteq> GQL_LIST then Some (doc_fail d err ''Not a list type'')
       else
         let type = Option.bind type gbase
         in run_bind (Some (gql_list_create mal type)) (\<lambda>v.
            case v of None \<Rightarrow> Some (Val (None, d, err)) | Some v \<Rightarrow> rd (ListRest v) type err (adv 1 d)))
    else if c = CHR ''{'' then
      run_bind (Some (gql_object_create mal)) (\<lambda>v.
      case v of None \<Rightarrow> Some (Val (None, d, err)) | Some v \<Rightarrow> rd (ObjectRest v) type err (adv 1 d))
    else Some (read_scalar fl mal type err d c)))"

definition read_list_body ::
  "allocator \<Rightarrow> doc_reader \<Rightarrow> gqlType option \<Rightarrow> gqlValue \<Rightarrow> agoo_err \<Rightarrow> agoo_doc \<Rightarrow> parsed run" where
  "read_list_body mal rd type v err d =
    (if \<not> dcur d < dend d then Some (Val (Some v, d, err))
     else
       run_bind (Some (agoo_doc_skip_white d)) (\<lambda>d.
       run_bind (Some (peek d 0)) (\<lambda>c.
       if c = CHR '']'' then Some (Val (Some v, adv 1 d, err))
       else
         run_bind (rd Value type err d) (\<lambda>(m, d, err).
         case m of
           None \<Rightarrow> Some (Val (None, d, err))
         | Some m \<Rightarrow>
             run_bind (Some (gql_list_append mal err v m)) (\<lambda>(code, v, err).
             if code \<noteq> AGOO_ERR_OK then Some (Val (None, d, err)) else rd (ListRest v) type err d)))))"

definition read_object_body ::
  "allocator \<Rightarrow> doc_reader \<Rightarrow> gqlType option \<Rightarrow> gqlValue \<Rightarrow> agoo_err \<Rightarrow> agoo_doc \<Rightarrow> parsed run" where
  "read_object_body mal rd type v err d =
    (if \<not> dcur d < dend d then Some (Val (Some v, d, err))
     else
       run_bind (Some (agoo_doc_skip_white d)) (\<lambda>d.
       run_bind (Some (peek d 0)) (\<lambda>c.
       if c = CHR ''}'' then Some (Val (Some v, adv 1 d, err))
       else
         run_bind (Some (read_key err d)) (\<lambda>(key, d, err).
         case key of
           None \<Rightarrow> Some (Val (None, d, err))
         | Some key \<Rightarrow>
             run_bind (rd Value type err d) (\<lambda>(m, d, err).
             case m of
               None \<Rightarrow> Some (Val (None, d, err))
             | Some m \<Rightarrow>
                 run_bind (Some (gql_object_set mal err v key m)) (\<lambda>(code, v, err).
                 if code \<noteq> AGOO_ERR_OK then Some (Val (None, d, err)) else rd (ObjectRest v) type err d))))))"

primrec read_run :: "double_ops \<Rightarrow> allocator \<Rightarrow> nat \<Rightarrow> doc_reader" where
  "read_run fl mal 0 = (\<lambda>job type err d. None)"
| "read_run fl mal (Suc n) =
    (\<lambda>job type err d.
       case job of
         Value \<Rightarrow> read_value_body fl mal (read_run fl mal n) type err d
       | ListRest v \<Rightarrow> read_list_body mal (read_run fl mal n) type v err d
       | ObjectRest v \<Rightarrow> read_object_body mal (read_run fl mal n) type v err d)"

definition agoo_doc_read_value ::
  "double_ops \<Rightarrow> allocator \<Rightarrow> nat \<Rightarrow> gqlType option \<Rightarrow> agoo_err \<Rightarrow> agoo_doc \<Rightarrow> parsed run" where
  "agoo_doc_read_value fl mal fuel type err d = read_run fl mal fuel Value type err d"

end
