(* ===== verification/Gqljson.thy ===== *)
theory Gqljson
  imports Doc
begin

text \<open>
  The JSON parser of \<open>ext/agoo/gqljson.c\<close>: numbers kept as integers, doubles or, where they are
  too big, strings; strings with their escapes; arrays, objects and the parse function.
\<close>

section \<open>Numbers\<close>

definition BIGGISH :: int where "BIGGISH = 922337203685477580"
definition DIV_MAX :: int where "DIV_MAX = 100000000000000000"
definition JSON_DEC_MAX :: int where "JSON_DEC_MAX = 14"
definition JSON_EXP_MAX :: int where "JSON_EXP_MAX = 1023"

record num_state =
  n_zero_cnt :: int
  n_dec_cnt :: int
  n_big :: bool
  n_i :: int
  n_num :: int
  n_div :: int
  n_exp :: int

definition zero_count :: "int \<Rightarrow> nat \<Rightarrow> int" where
  "zero_count z dg = (if dg = 0 then z + 1 else 0)"

definition int_digit :: "num_state \<Rightarrow> nat \<Rightarrow> num_state option mem" where
  "int_digit s dg =
    (let s = s\<lparr>n_dec_cnt := n_dec_cnt s + 1\<rparr>
     in if n_big s then Val (Some s)
        else
          let s = s\<lparr>n_zero_cnt := zero_count (n_zero_cnt s) dg\<rparr>
          in mem_bind
               (if BIGGISH \<le> n_i s then
                  mem_bind (i64 (n_i s * 10)) (\<lambda>x. mem_bind (i64 (INT64_MAX - x)) (\<lambda>x. Val (x < int dg)))
                else Val False) (\<lambda>big.
             if big then Val (Some (s\<lparr>n_big := True\<rparr>))
             else mem_bind (i64 (n_i s * 10 + int dg)) (\<lambda>i. Val (Some (s\<lparr>n_i := i\<rparr>)))))"

definition frac_digit :: "num_state \<Rightarrow> nat \<Rightarrow> num_state option mem" where
  "frac_digit s dg =
    (let s = s\<lparr>n_zero_cnt := zero_count (n_zero_cnt s) dg, n_dec_cnt := n_dec_cnt s + 1\<rparr>
     in if BIGGISH < n_num s \<and> (INT64_MAX - int dg) div 10 \<le> n_num s \<or> DIV_MAX \<le> n_div s \<or>
           JSON_DEC_MAX < n_dec_cnt s - n_zero_cnt s
        then Val (Some (s\<lparr>n_big := True\<rparr>))
        else mem_bind (i64 (n_num s * 10 + int dg)) (\<lambda>num. Val (Some (s\<lparr>n_num := num, n_div := n_div s * 10\<rparr>))))"

definition exp_digit :: "num_state \<Rightarrow> nat \<Rightarrow> num_state option mem" where
  "exp_digit s dg =
    mem_bind (i64 (n_exp s * 10 + int dg)) (\<lambda>x.
    Val (Some (s\<lparr>n_exp := x, n_big := n_big s \<or> JSON_EXP_MAX \<le> x\<rparr>)))"

text \<open>The value of a number from the state behind its last digit.\<close>

definition num_value ::
  "double_ops \<Rightarrow> allocator \<Rightarrow> agoo_err \<Rightarrow> string \<Rightarrow> nat \<Rightarrow> bool \<Rightarrow> num_state \<Rightarrow> (gqlValue option \<times> agoo_err) mem" where
  "num_value fl mal err start len neg s =
    (if n_big s then gql_string_create mal err start (int len)
     else if n_div s = 1 \<and> n_exp s = 0 then
       (let si = (if neg then - n_i s else n_i s)
        in mem_bind (if INT32_MAX < n_i s then gql_i64_create mal (of_int si) else gql_int_create mal (of_int si))
             (\<lambda>v. Val (v, err)))
     else
       let x = d_add fl (d_of_int fl (n_i s)) (d_div fl (d_of_int fl (n_num s)) (d_of_int fl (n_div s)));
           x = (if neg then d_neg fl x else x);
           x = (if n_exp s \<noteq> 0 then d_mul fl x (d_pow10 fl (n_exp s)) else x)
       in mem_bind (gql_float_create mal x) (\<lambda>v. Val (v, err)))"

definition json_digits :: "(num_state \<Rightarrow> nat \<Rightarrow> num_state option mem) \<Rightarrow> agoo_doc \<Rightarrow> num_state \<Rightarrow> (agoo_doc \<times> num_state) mem" where
  "json_digits step d s =
    mem_bind (digits step (dend d) d s) (\<lambda>(d, r). Val (d, case r of None \<Rightarrow> s | Some s \<Rightarrow> s))"

definition parse_num :: "double_ops \<Rightarrow> allocator \<Rightarrow> agoo_err \<Rightarrow> agoo_doc \<Rightarrow> parsed mem" where
  "parse_num fl mal err d0 =
    mem_bind (read_sign d0) (\<lambda>(neg, d).
    mem_bind (json_digits int_digit d
      \<lparr>n_zero_cnt = 0, n_dec_cnt = 0, n_big = False, n_i = 0, n_num = 0, n_div = 1, n_exp = 0\<rparr>) (\<lambda>(d, s).
    mem_bind (peek d 0) (\<lambda>c.
    mem_bind (if c = CHR ''.'' then json_digits frac_digit (adv 1 d) s else Val (d, s)) (\<lambda>(d, s).
    mem_bind (peek d 0) (\<lambda>c.
    mem_bind
      (if c = CHR ''e'' \<or> c = CHR ''E'' then
         mem_bind (read_sign (adv 1 d)) (\<lambda>(eneg, d).
         mem_bind (json_digits exp_digit d s) (\<lambda>(d, s).
         Val (d, if eneg then s\<lparr>n_exp := - n_exp s\<rparr> else s)))
       else Val (d, s)) (\<lambda>(d, s).
    mem_bind (num_value fl mal err (str_at (dcur d0) d) (dcur d - dcur d0) neg s) (\<lambda>(v, err).
    Val (v, d, err))))))))"

section \<open>Strings\<close>

text \<open>Four hexadecimal digits; the result is 0 where an error was reported.\<close>

fun hex_digits :: "nat \<Rightarrow> 32 word \<Rightarrow> agoo_err \<Rightarrow> agoo_doc \<Rightarrow> (32 word \<times> agoo_doc \<times> agoo_err) mem" where
  "hex_digits 0 hex err d = Val (hex, d, err)"
| "hex_digits (Suc n) hex err d =
    mem_bind (peek d 0) (\<lambda>c.
    case uuid_hexVal c of
      None \<Rightarrow> mem_bind (agoo_doc_err d err ''invalid unicode character'') (\<lambda>(code, err). Val (0, d, err))
    | Some h \<Rightarrow> hex_digits n (push_bit 4 hex + of_nat h) err (adv 1 d))"

definition read_hex :: "agoo_err \<Rightarrow> agoo_doc \<Rightarrow> (32 word \<times> agoo_doc \<times> agoo_err) mem" where
  "read_hex err d =
    (if dend d < dcur d + 4 then
       mem_bind (agoo_doc_err d err ''invalid escaped character'') (\<lambda>(code, err). Val (0, d, err))
     else hex_digits 4 0 err d)"

text \<open>The bytes of a code point; \<open>None\<close> where it has more than 31 bits.\<close>

definition utf8 :: "32 word \<Rightarrow> string option" where
  "utf8 code =
    (let top = (\<lambda>tag n. chr_of (ucast (tag OR drop_bit n code)));
         low = (\<lambda>n. chr_of (ucast (0x80 OR (drop_bit n code AND 0x3F))))
     in if code \<le> 0x7F then Some [chr_of (ucast code)]
        else if code \<le> 0x7FF then Some [top 0xC0 6, low 0]
        else if code \<le> 0xFFFF then Some [top 0xE0 12, low 6, low 0]
        else if code \<le> 0x1FFFFF then Some [top 0xF0 18, low 12, low 6, low 0]
        else if code \<le> 0x3FFFFFF then Some [top 0xF8 24, low 18, low 12, low 6, low 0]
        else if code \<le> 0x7FFFFFFF then Some [top 0xFC 30, low 24, low 18, low 12, low 6, low 0]
        else None)"

fun append_chars :: "allocator \<Rightarrow> string \<Rightarrow> text_writer" where
  "append_chars mal [] t = Val t"
| "append_chars mal (c # cs) t = mem_bind (agoo_text_append_char mal t c) (append_chars mal cs)"

definition unicode_to_chars ::
  "allocator \<Rightarrow> agoo_err \<Rightarrow> agoo_text option \<Rightarrow> 32 word \<Rightarrow> agoo_doc \<Rightarrow> (agoo_text option \<times> agoo_err) mem" where
  "unicode_to_chars mal err t code d =
    mem_bind
      (case utf8 code of
         None \<Rightarrow> mem_bind (agoo_doc_err d err ''invalid unicode character'') (\<lambda>(code, err). Val (t, err))
       | Some cs \<Rightarrow> mem_bind (append_chars mal cs t) (\<lambda>t. Val (t, err))) (\<lambda>(t, err).
    if t = None then mem_bind (agoo_err_memory err ''text'' ''gqljson.c'' 195) (\<lambda>(code, err). Val (t, err))
    else Val (t, err))"

definition simple_escape :: "char \<Rightarrow> char option" where
  "simple_escape c =
    (if c = CHR ''n'' then Some CHR 0x0A
     else if c = CHR ''r'' then Some CHR 0x0D
     else if c = CHR ''t'' then Some CHR 0x09
     else if c = CHR ''f'' then Some CHR 0x0C
     else if c = CHR ''b'' then Some CHR 0x08
     else if c \<in> {CHR 0x22, CHR ''/'', CHR 0x5C} then Some c
     else None)"

text \<open>
  The escape \<open>\u\<close>, from behind the \<open>u\<close>: the code point, of two escapes where the first is a
  surrogate; \<open>None\<close> where the string is given up.
\<close>

definition read_unicode :: "agoo_err \<Rightarrow> agoo_doc \<Rightarrow> (32 word option \<times> agoo_doc \<times> agoo_err) mem" where
  "read_unicode err d =
    mem_bind (read_hex err d) (\<lambda>(code, d, err).
    if code = 0 \<and> ecode err \<noteq> AGOO_ERR_OK then Val (None, d, err)
    else if 0xD800 \<le> code \<and> code \<le> 0xDFFF then
      mem_bind (peek d 0) (\<lambda>a.
      mem_bind (if a = CHR 0x5C then peek d 1 else Val NUL) (\<lambda>b.
      if a \<noteq> CHR 0x5C \<or> b \<noteq> CHR ''u'' then
        mem_bind (agoo_doc_err d err ''invalid unicode character'') (\<lambda>(code, err). Val (None, d, err))
      else
        mem_bind (read_hex err (adv 2 d)) (\<lambda>(c2, d, err).
        if c2 = 0 \<and> ecode err \<noteq> AGOO_ERR_OK then Val (None, d, err)
        else
          let c1 = (code - 0xD800) AND 0x3FF;
              c2 = (c2 - 0xDC00) AND 0x3FF
          in Val (Some ((push_bit 10 c1 OR c2) + 0x10000), d, err))))
    else Val (Some code, d, err))"

text \<open>
  One escape, from behind the backslash. The first component of the result tells whether the
  string goes on, with \<open>doc->cur\<close> at the next character; else the parser returns NULL. The label
  \<open>DONE\<close> and the last error release the text, which must not be NULL there.
\<close>

definition read_escape :: "allocator \<Rightarrow> agoo_err \<Rightarrow> agoo_doc \<Rightarrow> agoo_text option \<Rightarrow>
    (bool \<times> agoo_text option \<times> agoo_doc \<times> agoo_err) mem" where
  "read_escape mal err d t =
    (let done = (\<lambda>t d err. if t = None then UB else Val (False, t, d, err))
     in mem_bind (peek d 0) (\<lambda>x.
        if x = CHR ''u'' then
          mem_bind (read_unicode err (adv 1 d)) (\<lambda>(code, d, err).
          case code of
            None \<Rightarrow> done t d err
          | Some code \<Rightarrow>
              mem_bind (unicode_to_chars mal err t code d) (\<lambda>(t, err).
              if ecode err \<noteq> AGOO_ERR_OK then done t d err else Val (True, t, d, err)))
        else
          case simple_escape x of
            Some y \<Rightarrow> mem_bind (agoo_text_append_char mal t y) (\<lambda>t. Val (True, t, adv 1 d, err))
          | None \<Rightarrow> mem_bind (agoo_doc_err d err ''invalid escaped character'') (\<lambda>(code, err). done t d err)))"

definition read_plain :: "allocator \<Rightarrow> agoo_err \<Rightarrow> agoo_doc \<Rightarrow> agoo_text option \<Rightarrow>
    (bool \<times> agoo_text option \<times> agoo_doc \<times> agoo_err) mem" where
  "read_plain mal err d t =
    mem_bind (agoo_text_append mal t (str_at (dcur d) d) 1) (\<lambda>t.
    if t = None then
      mem_bind (agoo_err_memory err ''text'' ''gqljson.c'' 255) (\<lambda>(code, err). Val (False, t, d, err))
    else Val (True, t, adv 1 d, err))"

definition escaped_round :: "allocator \<Rightarrow> char \<Rightarrow> agoo_err \<Rightarrow> agoo_doc \<Rightarrow> agoo_text option \<Rightarrow>
    (bool \<times> agoo_text option \<times> agoo_doc \<times> agoo_err) mem" where
  "escaped_round mal c err d t = (if c = CHR 0x5C then read_escape mal err (adv 1 d) t else read_plain mal err d t)"

text \<open>The loop over an escaped string, with fuel for its rounds.\<close>

fun escaped_loop :: "allocator \<Rightarrow> nat \<Rightarrow> agoo_err \<Rightarrow> agoo_doc \<Rightarrow> agoo_text option \<Rightarrow>
    (bool \<times> agoo_text option \<times> agoo_doc \<times> agoo_err) run" where
  "escaped_loop mal 0 err d t = None"
| "escaped_loop mal (Suc n) err d t =
    (if \<not> dcur d < dend d then Some (Val (True, t, d, err))
     else
       run_bind (Some (peek d 0)) (\<lambda>c.
       if c = CHR 0x22 then Some (Val (True, t, d, err))
       else
         run_bind (Some (escaped_round mal c err d t)) (\<lambda>(go, t, d, err). if go then escaped_loop mal n err d t else Some (Val (False, t, d, err)))))"

declare escaped_loop.simps(2) [simp del]

definition parse_escaped :: "allocator \<Rightarrow> agoo_err \<Rightarrow> agoo_doc \<Rightarrow> parsed run" where
  "parse_escaped mal err d =
    run_bind (Some (agoo_text_allocate mal 4096)) (\<lambda>t.
    if t = None then Some (Val (None, d, err))
    else
      run_bind (escaped_loop mal (Suc (length (dblk d))) err d t) (\<lambda>(go, t, d, err).
      case t of
        None \<Rightarrow> if go then Some UB else Some (Val (None, d, err))
      | Some t \<Rightarrow>
          if \<not> go then Some (Val (None, d, err))
          else run_bind (Some (gql_string_create mal err (tbuf t) (int (tlen t)))) (\<lambda>(v, err).
               Some (Val (v, adv 1 d, err)))))"

definition parse_string :: "allocator \<Rightarrow> agoo_err \<Rightarrow> agoo_doc \<Rightarrow> parsed run" where
  "parse_string mal err d =
    run_bind (Some (peek d 0)) (\<lambda>c.
    if c \<noteq> CHR 0x22 then Some (doc_fail d err ''invalid string'')
    else
      let d = adv 1 d
      in run_bind (Some (scan_to (\<lambda>c. c \<noteq> CHR 0x22 \<and> c \<noteq> CHR 0x5C) d)) (\<lambda>d'.
         run_bind (Some (if dcur d' < dend d' then peek d' 0 else Val NUL)) (\<lambda>c.
         if c = CHR 0x5C then parse_escaped mal err d
         else run_bind (Some (gql_string_create mal err (str_at (dcur d) d) (int (dcur d') - int (dcur d)))) (\<lambda>(v, err).
              Some (Val (v, adv 1 d', err))))))"

section \<open>Arrays, objects, values\<close>

datatype json_job = JValue | JArrayRest gqlValue | JObjectRest gqlValue

type_synonym json_reader = "json_job \<Rightarrow> agoo_err \<Rightarrow> agoo_doc \<Rightarrow> parsed run"

definition return_parse_err :: "agoo_err \<Rightarrow> agoo_doc \<Rightarrow> string \<Rightarrow> gqlValue \<Rightarrow> parsed mem" where
  "return_parse_err err d msg v =
    mem_bind (agoo_doc_err d err msg) (\<lambda>(code, err).
    mem_bind (gql_value_destroy v) (\<lambda>_. Val (None, d, err)))"

text \<open>The key of a member and the colon behind it; an error message instead of the key.\<close>

definition parse_key :: "agoo_doc \<Rightarrow> ((string, string) sum \<times> agoo_doc) mem" where
  "parse_key d =
    mem_bind (agoo_doc_skip_jwhite d) (\<lambda>d.
    mem_bind (peek d 0) (\<lambda>c.
    if c \<noteq> CHR 0x22 then Val (Inl ''expected an object key as a string'', d)
    else
      let d = adv 1 d
      in mem_bind (scan_to (\<lambda>c. c \<noteq> CHR 0x22) d) (\<lambda>d'.
         let n = dcur d' - dcur d
         in if 256 \<le> n then Val (Inl ''object key too long'', d')
            else
              mem_bind (agoo_doc_skip_jwhite (adv 1 d')) (\<lambda>d'.
              mem_bind (peek d' 0) (\<lambda>c.
              if c \<noteq> CHR '':'' then Val (Inl ''expected a colon'', d')
              else Val (Inr (take n (str_at (dcur d) d)), adv 1 d'))))))"

definition object_rest :: "allocator \<Rightarrow> json_reader \<Rightarrow> gqlValue \<Rightarrow> agoo_err \<Rightarrow> agoo_doc \<Rightarrow> parsed run" where
  "object_rest mal rd v err d =
    (if \<not> dcur d < dend d then Some (Val (Some v, d, err))
     else
       run_bind (Some (parse_key d)) (\<lambda>(r, d).
       case r of
         Inl msg \<Rightarrow> Some (return_parse_err err d msg v)
       | Inr key \<Rightarrow>
           run_bind (Some (agoo_doc_skip_jwhite d)) (\<lambda>d.
           run_bind (rd JValue err d) (\<lambda>(m, d, err).
           case m of
             None \<Rightarrow> run_bind (Some (gql_value_destroy v)) (\<lambda>_. Some (Val (None, d, err)))
           | Some m \<Rightarrow>
               run_bind (Some (gql_object_set mal err v key m)) (\<lambda>(code, v, err).
               if code \<noteq> AGOO_ERR_OK then run_bind (Some (gql_value_destroy v)) (\<lambda>_. Some (Val (None, d, err)))
               else
                 run_bind (Some (agoo_doc_skip_jwhite d)) (\<lambda>d.
                 run_bind (Some (peek d 0)) (\<lambda>c.
                 if c = CHR ''}'' then Some (Val (Some v, d, err))
                 else if c \<noteq> CHR '','' then Some (return_parse_err err d ''expected a comma'' v)
                 else rd (JObjectRest v) err (adv 1 d))))))))"

definition array_rest :: "allocator \<Rightarrow> json_reader \<Rightarrow> gqlValue \<Rightarrow> agoo_err \<Rightarrow> agoo_doc \<Rightarrow> parsed run" where
  "array_rest mal rd v err d =
    (if \<not> dcur d < dend d then Some (Val (Some v, d, err))
     else
       run_bind (rd JValue err d) (\<lambda>(m, d, err).
       case m of
         None \<Rightarrow> run_bind (Some (gql_value_destroy v)) (\<lambda>_. Some (Val (None, d, err)))
       | Some m \<Rightarrow>
           run_bind (Some (gql_list_append mal err v m)) (\<lambda>(code, v, err).
           if code \<noteq> AGOO_ERR_OK then run_bind (Some (gql_value_destroy v)) (\<lambda>_. Some (Val (None, d, err)))
           else
             run_bind (Some (agoo_doc_skip_jwhite d)) (\<lambda>d.
             run_bind (Some (peek d 0)) (\<lambda>c.
             if c = CHR '']'' then Some (Val (Some v, d, err))
             else if c \<noteq> CHR '','' then Some (return_parse_err err d ''expected a comma'' v)
             else rd (JArrayRest v) err (adv 1 d))))))"

text \<open>Behind the loop over the members: the closing bracket \<open>c\<close>.\<close>

definition parse_close :: "char \<Rightarrow> string \<Rightarrow> gqlValue \<Rightarrow> agoo_err \<Rightarrow> agoo_doc \<Rightarrow> parsed run" where
  "parse_close close msg v err d =
    run_bind (Some (peek d 0)) (\<lambda>c.
    if c \<noteq> close then Some (return_parse_err err d msg v) else Some (Val (Some v, adv 1 d, err)))"

definition parse_object :: "allocator \<Rightarrow> json_reader \<Rightarrow> agoo_err \<Rightarrow> agoo_doc \<Rightarrow> parsed run" where
  "parse_object mal rd err d =
    run_bind (Some (gql_object_create mal)) (\<lambda>v.
    case v of
      None \<Rightarrow> Some (Val (None, d, err))
    | Some v \<Rightarrow>
        run_bind (Some (agoo_doc_skip_jwhite (adv 1 d))) (\<lambda>d.
        run_bind (Some (peek d 0)) (\<lambda>c.
        run_bind (if c \<noteq> CHR ''}'' then rd (JObjectRest v) err d else Some (Val (Some v, d, err))) (\<lambda>(r, d, err).
        case r of
          None \<Rightarrow> Some (Val (None, d, err))
        | Some v \<Rightarrow> parse_close CHR ''}'' ''object not terminated'' v err d))))"

definition parse_array :: "allocator \<Rightarrow> json_reader \<Rightarrow> agoo_err \<Rightarrow> agoo_doc \<Rightarrow> parsed run" where
  "parse_array mal rd err d =
    run_bind (Some (gql_list_create mal None)) (\<lambda>v.
    case v of
      None \<Rightarrow> Some (Val (None, d, err))
    | Some v \<Rightarrow>
        run_bind (Some (agoo_doc_skip_jwhite (adv 1 d))) (\<lambda>d.
        run_bind (Some (peek d 0)) (\<lambda>c.
        run_bind (if c \<noteq> CHR '']'' then rd (JArrayRest v) err d else Some (Val (Some v, d, err))) (\<lambda>(r, d, err).
        case r of
          None \<Rightarrow> Some (Val (None, d, err))
        | Some v \<Rightarrow> parse_close CHR '']'' ''array not terminated'' v err d))))"

text \<open>One of the words \<open>true\<close>, \<open>false\<close> and \<open>null\<close>; the length is tested before the letters are read.\<close>

definition parse_word :: "string \<Rightarrow> gqlValue option mem \<Rightarrow> agoo_err \<Rightarrow> agoo_doc \<Rightarrow> parsed mem" where
  "parse_word w v err d =
    (if dend d < dcur d + length w then doc_fail d err ''invalid token''
     else if length (dblk d) < dcur d + length w then UB
     else if take (length w) (str_at (dcur d) d) = w then mem_bind v (\<lambda>v. Val (v, adv (length w) d, err))
     else doc_fail d err ''invalid token'')"

definition parse_value :: "double_ops \<Rightarrow> allocator \<Rightarrow> json_reader \<Rightarrow> agoo_err \<Rightarrow> agoo_doc \<Rightarrow> parsed run" where
  "parse_value fl mal rd err d =
    run_bind (Some (agoo_doc_skip_jwhite d)) (\<lambda>d.
    run_bind (Some (peek d 0)) (\<lambda>c.
    if c = CHR ''{'' then parse_object mal rd err d
    else if c = CHR ''['' then parse_array mal rd err d
    else if c = CHR 0x22 then parse_string mal err d
    else if c = CHR ''+'' \<or> c = CHR ''-'' \<or> is_digit c then Some (parse_num fl mal err d)
    else if c = CHR ''t'' then Some (parse_word ''true'' (gql_bool_create mal True) err d)
    else if c = CHR ''f'' then Some (parse_word ''false'' (gql_bool_create mal False) err d)
    else if c = CHR ''n'' then Some (parse_word ''null'' (gql_null_create mal) err d)
    else if c = NUL then Some (doc_fail d err ''embedded null character'')
    else Some (doc_fail d err ''invalid token character'')))"

primrec json_run :: "double_ops \<Rightarrow> allocator \<Rightarrow> nat \<Rightarrow> json_reader" where
  "json_run fl mal 0 = (\<lambda>job err d. None)"
| "json_run fl mal (Suc n) =
    (\<lambda>job err d.
       case job of
         JValue \<Rightarrow> parse_value fl mal (json_run fl mal n) err d
       | JArrayRest v \<Rightarrow> array_rest mal (json_run fl mal n) v err d
       | JObjectRest v \<Rightarrow> object_rest mal (json_run fl mal n) v err d)"

definition gql_json_parse :: "double_ops \<Rightarrow> allocator \<Rightarrow> nat \<Rightarrow> agoo_err \<Rightarrow> string \<Rightarrow> nat \<Rightarrow> parsed run" where
  "gql_json_parse fl mal fuel err json len =
    run_bind (Some (agoo_doc_init json (int len))) (\<lambda>d. json_run fl mal fuel JValue err d)"

end
