(* ===== verification/JsonTotal.thy ===== *)
theory JsonTotal
  imports Gqljson
begin

text \<open>
  The JSON parser moves forward, more fuel does not change what it gives, and fuel of twice the
  length of the document is enough: it returns, or makes an undefined access, on every input.
\<close>

section \<open>More fuel\<close>

definition run_le :: "'a run \<Rightarrow> 'a run \<Rightarrow> bool" where
  "run_le r r' \<longleftrightarrow> r = None \<or> r = r'"

lemma run_le_refl: "run_le r r"
  by (simp add: run_le_def)

lemma run_le_bind:
  "run_le r r' \<Longrightarrow> (\<And>x. run_le (f x) (f' x)) \<Longrightarrow> run_le (run_bind r f) (run_bind r' f')"
  unfolding run_le_def run_bind_def by (auto split: option.splits mem.splits)

lemma run_le_if: "(b \<Longrightarrow> run_le x x') \<Longrightarrow> (\<not> b \<Longrightarrow> run_le y y') \<Longrightarrow> run_le (if b then x else y) (if b then x' else y')"
  by simp

lemma run_le_option:
  "run_le x x' \<Longrightarrow> (\<And>a. run_le (y a) (y' a)) \<Longrightarrow>
   run_le (case m of None \<Rightarrow> x | Some a \<Rightarrow> y a) (case m of None \<Rightarrow> x' | Some a \<Rightarrow> y' a)"
  by (cases m) simp_all

lemma run_le_sum:
  "(\<And>a. run_le (x a) (x' a)) \<Longrightarrow> (\<And>a. run_le (y a) (y' a)) \<Longrightarrow>
   run_le (case m of Inl a \<Rightarrow> x a | Inr a \<Rightarrow> y a) (case m of Inl a \<Rightarrow> x' a | Inr a \<Rightarrow> y' a)"
  by (cases m) simp_all

lemma run_le_prod: "(\<And>a b. run_le (f a b) (f' a b)) \<Longrightarrow> run_le (case m of (a, b) \<Rightarrow> f a b) (case m of (a, b) \<Rightarrow> f' a b)"
  by (cases m) simp_all

lemmas run_le_rules = run_le_bind run_le_if run_le_option run_le_sum run_le_prod run_le_refl

definition reader_le :: "json_reader \<Rightarrow> json_reader \<Rightarrow> bool" where
  "reader_le rd rd' \<longleftrightarrow> (\<forall>job err d. run_le (rd job err d) (rd' job err d))"

lemma body_le:
  assumes "reader_le rd rd'"
  shows "run_le (array_rest mal rd v err d) (array_rest mal rd' v err d)"
    "run_le (object_rest mal rd v err d) (object_rest mal rd' v err d)"
    "run_le (parse_array mal rd err d) (parse_array mal rd' err d)"
    "run_le (parse_object mal rd err d) (parse_object mal rd' err d)"
proof -
  have r: "run_le (rd job err d) (rd' job err d)" for job err d using assms by (simp add: reader_le_def)
  show "run_le (array_rest mal rd v err d) (array_rest mal rd' v err d)"
    "run_le (object_rest mal rd v err d) (object_rest mal rd' v err d)"
    "run_le (parse_array mal rd err d) (parse_array mal rd' err d)"
    "run_le (parse_object mal rd err d) (parse_object mal rd' err d)"
    unfolding array_rest_def object_rest_def parse_array_def parse_object_def
    by (intro run_le_rules r)+
qed

lemma value_le: "reader_le rd rd' \<Longrightarrow> run_le (parse_value fl mal rd err d) (parse_value fl mal rd' err d)"
  unfolding parse_value_def by (intro run_le_rules body_le)

lemma step_le:
  "reader_le rd rd' \<Longrightarrow>
   reader_le (\<lambda>job err d. case job of JValue \<Rightarrow> parse_value fl mal rd err d | JArrayRest v \<Rightarrow> array_rest mal rd v err d
       | JObjectRest v \<Rightarrow> object_rest mal rd v err d)
     (\<lambda>job err d. case job of JValue \<Rightarrow> parse_value fl mal rd' err d | JArrayRest v \<Rightarrow> array_rest mal rd' v err d
       | JObjectRest v \<Rightarrow> object_rest mal rd' v err d)"
  unfolding reader_le_def [of "\<lambda>job err d. case job of JValue \<Rightarrow> parse_value fl mal rd err d | JArrayRest v \<Rightarrow> array_rest mal rd v err d
       | JObjectRest v \<Rightarrow> object_rest mal rd v err d"]
  by (intro allI) (auto intro: body_le value_le split: json_job.split)

lemma json_run_Suc: "reader_le (json_run fl mal n) (json_run fl mal (Suc n))"
proof (induction n)
  case 0
  show ?case by (simp add: reader_le_def run_le_def)
next
  case (Suc n)
  from step_le [OF this] show ?case by (simp only: json_run.simps)
qed

lemma json_run_le: "m \<le> n \<Longrightarrow> reader_le (json_run fl mal m) (json_run fl mal n)"
proof (induction n rule: nat_induct_at_least)
  case base
  show ?case by (simp add: reader_le_def run_le_refl)
next
  case (Suc n)
  then show ?case using json_run_Suc [of fl mal n] unfolding reader_le_def run_le_def by metis
qed

lemma json_run_more: "m \<le> n \<Longrightarrow> json_run fl mal m job err d = Some x \<Longrightarrow> json_run fl mal n job err d = Some x"
  using json_run_le [of m n fl mal] unfolding reader_le_def run_le_def by (metis option.distinct(1))

section \<open>Runs that end\<close>

lemma run_bind_ends: "r \<noteq> None \<Longrightarrow> (\<And>x. r = Some (Val x) \<Longrightarrow> f x \<noteq> None) \<Longrightarrow> run_bind r f \<noteq> None"
  by (cases r; cases "the r") auto

lemma if_ends: "(b \<Longrightarrow> x \<noteq> None) \<Longrightarrow> (\<not> b \<Longrightarrow> y \<noteq> None) \<Longrightarrow> (if b then x else y) \<noteq> None"
  by simp

lemma option_ends:
  "(m = None \<Longrightarrow> x \<noteq> None) \<Longrightarrow> (\<And>a. m = Some a \<Longrightarrow> y a \<noteq> None) \<Longrightarrow> (case m of None \<Rightarrow> x | Some a \<Rightarrow> y a) \<noteq> None"
  by (cases m) simp_all

lemma sum_ends:
  "(\<And>a. m = Inl a \<Longrightarrow> x a \<noteq> None) \<Longrightarrow> (\<And>a. m = Inr a \<Longrightarrow> y a \<noteq> None) \<Longrightarrow>
   (case m of Inl a \<Rightarrow> x a | Inr a \<Rightarrow> y a) \<noteq> None"
  by (cases m) simp_all

lemma prod_ends: "(\<And>a b. m = (a, b) \<Longrightarrow> f a b \<noteq> None) \<Longrightarrow> (case m of (a, b) \<Rightarrow> f a b) \<noteq> None"
  by (cases m) simp

lemmas ends_rules = run_bind_ends if_ends option_ends sum_ends prod_ends option.simps(3)

text \<open>What holds where a run ends with a value; the rules go along its structure.\<close>

definition run_post :: "('a \<Rightarrow> bool) \<Rightarrow> 'a run \<Rightarrow> bool" where
  "run_post Q r \<longleftrightarrow> (\<forall>x. r = Some (Val x) \<longrightarrow> Q x)"

lemma run_postD: "run_post Q r \<Longrightarrow> r = Some (Val x) \<Longrightarrow> Q x"
  by (simp add: run_post_def)

lemma post_bind: "(\<And>x. r = Some (Val x) \<Longrightarrow> run_post Q (f x)) \<Longrightarrow> run_post Q (run_bind r f)"
  by (auto simp: run_post_def run_bind_eq_Val)

lemma post_if: "(b \<Longrightarrow> run_post Q x) \<Longrightarrow> (\<not> b \<Longrightarrow> run_post Q y) \<Longrightarrow> run_post Q (if b then x else y)"
  by simp

lemma post_option:
  "(m = None \<Longrightarrow> run_post Q x) \<Longrightarrow> (\<And>a. m = Some a \<Longrightarrow> run_post Q (y a)) \<Longrightarrow>
   run_post Q (case m of None \<Rightarrow> x | Some a \<Rightarrow> y a)"
  by (cases m) simp_all

lemma post_sum:
  "(\<And>a. m = Inl a \<Longrightarrow> run_post Q (x a)) \<Longrightarrow> (\<And>a. m = Inr a \<Longrightarrow> run_post Q (y a)) \<Longrightarrow>
   run_post Q (case m of Inl a \<Rightarrow> x a | Inr a \<Rightarrow> y a)"
  by (cases m) simp_all

lemma post_prod: "(\<And>a b. m = (a, b) \<Longrightarrow> run_post Q (f a b)) \<Longrightarrow> run_post Q (case m of (a, b) \<Rightarrow> f a b)"
  by (cases m) simp

lemma post_Some: "(\<And>x. m = Val x \<Longrightarrow> Q x) \<Longrightarrow> run_post Q (Some m)"
  by (simp add: run_post_def)

lemmas post_rules = post_bind post_if post_option post_sum post_prod

section \<open>Progress\<close>

text \<open>The same document, at least \<open>k\<close> bytes further on.\<close>

definition later :: "nat \<Rightarrow> agoo_doc \<Rightarrow> agoo_doc \<Rightarrow> bool" where
  "later k d d' \<longleftrightarrow> dblk d' = dblk d \<and> dend d' = dend d \<and> dcur d + k \<le> dcur d'"

lemma later_refl: "later 0 d d"
  by (simp add: later_def)

lemma later_adv: "later k d d' \<Longrightarrow> later (k + j) d (adv j d')" "later k d d' \<Longrightarrow> later k d (adv j d')"
  by (simp_all add: later_def)

lemma later_trans: "later j d d' \<Longrightarrow> later k d' d'' \<Longrightarrow> later (j + k) d d''"
  by (simp add: later_def)

lemma later_0_trans: "later 0 d d' \<Longrightarrow> later 0 d' d'' \<Longrightarrow> later 0 d d''"
  by (simp add: later_def)

lemma skip_while_later: "skip_while P d = Val d' \<Longrightarrow> later 0 d d'"
  by (auto simp: skip_while_Val later_def)

lemma jwhite_later: "agoo_doc_skip_jwhite d = Val d' \<Longrightarrow> later 0 d d'"
  unfolding agoo_doc_skip_jwhite_def by (rule skip_while_later)

lemma scan_to_later: "scan_to P d = Val d' \<Longrightarrow> later 0 d d'"
  by (auto simp: scan_to_def Let_def later_def split: if_splits)

lemma scan_digits_later: "scan_digits step e cur s st = Val (cur', r) \<Longrightarrow> cur \<le> cur'"
proof (induction s arbitrary: cur st)
  case (Cons c s)
  then show ?case by (fastforce simp: mem_bind_eq_Val split: if_splits option.splits)
qed simp

lemma json_digits_later: "json_digits step d s = Val (d', s') \<Longrightarrow> later 0 d d'"
  unfolding json_digits_def digits_def
  by (auto simp: mem_bind_eq_Val later_def dest: scan_digits_later)

lemma read_sign_later: "read_sign d = Val (n, d') \<Longrightarrow> later 0 d d'"
  by (auto simp: read_sign_def mem_bind_eq_Val later_def split: if_splits)

lemmas later_dests = jwhite_later scan_to_later json_digits_later read_sign_later

lemma doc_fail_Val: "doc_fail d err msg = Val (v, d', err') \<Longrightarrow> v = None \<and> d' = d"
  by (auto simp: doc_fail_def mem_bind_eq_Val)

lemma parse_num_later:
  assumes "parse_num fl mal err d = Val (v, d', err')"
  shows "later 0 d d'"
proof -
  obtain n d1 d2 s c d3 s3 c3 d4 s4 where p: "read_sign d = Val (n, d1)"
    "json_digits int_digit d1
       \<lparr>n_zero_cnt = 0, n_dec_cnt = 0, n_big = False, n_i = 0, n_num = 0, n_div = 1, n_exp = 0\<rparr> = Val (d2, s)"
    "(if c = CHR ''.'' then json_digits frac_digit (adv 1 d2) s else Val (d2, s)) = Val (d3, s3)"
    "(if c3 = CHR ''e'' \<or> c3 = CHR ''E'' then
        mem_bind (read_sign (adv 1 d3)) (\<lambda>(eneg, d).
        mem_bind (json_digits exp_digit d s3) (\<lambda>(d, s). Val (d, if eneg then s\<lparr>n_exp := - n_exp s\<rparr> else s)))
      else Val (d3, s3)) = Val (d4, s4)"
    "d' = d4"
    using assms unfolding parse_num_def by (clarsimp simp only: mem_bind_eq_Val prod.case split_paired_Ex mem.inject prod.inject)
  have "later 0 d2 d3" using p(3) by (auto simp: later_def split: if_splits dest!: json_digits_later)
  moreover have "later 0 d3 d4" using p(4)
    by (auto simp: later_def mem_bind_eq_Val split: if_splits dest!: json_digits_later read_sign_later)
  ultimately show ?thesis using p(1,2,5) by (auto simp: later_def dest!: json_digits_later read_sign_later)
qed

lemma hex_digits_later: "hex_digits n hex err d = Val (h, d', err') \<Longrightarrow> later 0 d d'"
proof (induction n arbitrary: hex err d)
  case (Suc n)
  then show ?case by (fastforce simp: mem_bind_eq_Val later_def split: option.splits)
qed (simp add: later_def)

lemma read_hex_later: "read_hex err d = Val (h, d', err') \<Longrightarrow> later 0 d d'"
  by (auto simp: read_hex_def mem_bind_eq_Val later_def split: if_splits dest!: hex_digits_later)

lemma read_unicode_later: "read_unicode err d = Val (c, d', err') \<Longrightarrow> later 0 d d'"
  by (auto simp: read_unicode_def mem_bind_eq_Val later_def Let_def split: if_splits dest!: read_hex_later)

lemma read_escape_later: "read_escape mal err d t = Val (go, t', d', err') \<Longrightarrow> later 0 d d'"
  unfolding read_escape_def Let_def
  by (auto simp: mem_bind_eq_Val later_def split: if_splits option.splits dest!: read_unicode_later)

lemma read_plain_later: "read_plain mal err d t = Val (go, t', d', err') \<Longrightarrow> later (if go then 1 else 0) d d'"
  unfolding read_plain_def by (auto simp: mem_bind_eq_Val later_def split: if_splits)

lemma escaped_round_later:
  assumes "escaped_round mal c err d t = Val (go, t', d', err')"
  shows "later (if go then 1 else 0) d d'"
proof (cases "c = CHR 0x5C")
  case True
  then show ?thesis using assms [unfolded escaped_round_def] read_escape_later [of mal err "adv 1 d" t go t' d' err'] by (simp add: later_def)
next
  case False
  then show ?thesis using assms [unfolded escaped_round_def] read_plain_later [of mal err d t go t' d' err'] by simp
qed

lemma escaped_loop_later:
  "escaped_loop mal n err d t = Some (Val (go, t', d', err')) \<Longrightarrow> later 0 d d'"
proof (induction n arbitrary: err d t)
  case (Suc n)
  from Suc.prems consider "d' = d"
    | c g t1 d1 err1 where
      "escaped_round mal c err d t = Val (g, t1, d1, err1)"
      "if g then escaped_loop mal n err1 d1 t1 = Some (Val (go, t', d', err')) else d' = d1"
    by (subst (asm) escaped_loop.simps(2)) (auto simp: run_bind_eq_Val split: if_splits)
  then show ?case
  proof cases
    case 1
    then show ?thesis by (simp add: later_refl)
  next
    case 2
    then show ?thesis using escaped_round_later [OF 2(1)] Suc.IH [of err1 d1 t1]
      by (cases g) (auto simp: later_def)
  qed
qed simp

text \<open>Every round of the loop moves on, inside the block.\<close>

lemma escaped_loop_ends: "length (dblk d) - dcur d < n \<Longrightarrow> escaped_loop mal n err d t \<noteq> None"
proof (induction n arbitrary: err d t)
  case (Suc n)
  show ?case
  proof
    assume n: "escaped_loop mal (Suc n) err d t = None"
    then obtain c go t' d' err' where c: "peek d 0 = Val c"
      "escaped_round mal c err d t = Val (go, t', d', err')"
      "go" "escaped_loop mal n err' d' t' = None"
      by (subst (asm) escaped_loop.simps(2)) (auto simp: run_bind_eq_None split: if_splits)
    have "later 1 d d'" using escaped_round_later [OF c(2)] c(3) by simp
    moreover have "dcur d < length (dblk d)" using c(1) by (simp add: peek_Val)
    ultimately have "length (dblk d') - dcur d' < n" using Suc.prems by (auto simp: later_def)
    then show False using Suc.IH c(4) by blast
  qed
qed simp

lemma parse_escaped_later: "parse_escaped mal err d = Some (Val (v, d', err')) \<Longrightarrow> later 0 d d'"
  unfolding parse_escaped_def
  by (auto simp: run_bind_eq_Val later_refl later_def split: if_splits option.splits dest!: escaped_loop_later)

lemma parse_string_later: "parse_string mal err d = Some (Val (v, d', err')) \<Longrightarrow> later 0 d d'"
  unfolding parse_string_def Let_def
  by (auto simp: run_bind_eq_Val later_def split: if_splits dest!: doc_fail_Val scan_to_later parse_escaped_later)

lemma parse_escaped_ends: "parse_escaped mal err d \<noteq> None"
proof -
  have e: "escaped_loop mal (Suc (length (dblk d))) err d t \<noteq> None" for t
    by (rule escaped_loop_ends) simp
  show ?thesis unfolding parse_escaped_def by (intro ends_rules e)
qed

lemma parse_string_ends: "parse_string mal err d \<noteq> None"
  unfolding parse_string_def Let_def by (intro ends_rules parse_escaped_ends)

lemma return_parse_err_Val: "return_parse_err err d msg v = Val (r, d', err') \<Longrightarrow> r = None \<and> d' = d"
  by (auto simp: return_parse_err_def mem_bind_eq_Val)

lemma parse_key_later: "parse_key d = Val (r, d') \<Longrightarrow> later 0 d d'" "parse_key d = Val (Inr k, d') \<Longrightarrow> later 1 d d'"
  unfolding parse_key_def Let_def
  by (auto simp: mem_bind_eq_Val later_def split: if_splits dest!: later_dests)

lemma parse_word_later: "parse_word w m err d = Val (v, d', err') \<Longrightarrow> later 0 d d'"
  unfolding parse_word_def by (auto simp: mem_bind_eq_Val later_def split: if_splits dest!: doc_fail_Val)

lemma parse_close_later: "parse_close c msg v err d = Some (Val (r, d', err')) \<Longrightarrow> later 0 d d'"
  unfolding parse_close_def
  by (auto simp: run_bind_eq_Val later_def split: if_splits dest!: return_parse_err_Val)

definition ends_later :: "agoo_doc \<Rightarrow> 'a \<times> agoo_doc \<times> agoo_err \<Rightarrow> bool" where
  "ends_later d = (\<lambda>(v, d', err). later 0 d d')"

lemma ends_later_simp [simp]: "ends_later d (v, d', err) = later 0 d d'"
  by (simp add: ends_later_def)

lemma ends_later_trans: "later 0 d d' \<Longrightarrow> run_post (ends_later d') r \<Longrightarrow> run_post (ends_later d) r"
  by (auto simp: run_post_def ends_later_def intro: later_0_trans)

definition reader_later :: "json_reader \<Rightarrow> bool" where
  "reader_later rd \<longleftrightarrow> (\<forall>job err d. run_post (ends_later d) (rd job err d))"

lemma reader_laterD: "reader_later rd \<Longrightarrow> rd job err d = Some (Val (v, d', err')) \<Longrightarrow> later 0 d d'"
  unfolding reader_later_def run_post_def by (metis ends_later_simp)

lemma later_reader: "reader_later rd \<Longrightarrow> later 0 d d' \<Longrightarrow> run_post (ends_later d) (rd job err d')"
  unfolding reader_later_def by (blast intro: ends_later_trans)

lemma post_ret: "later 0 d d' \<Longrightarrow> run_post (ends_later d) (Some (Val (v, d', err)))"
  by (rule post_Some) auto

lemma post_return_err: "later 0 d d' \<Longrightarrow> run_post (ends_later d) (Some (return_parse_err err d' msg v))"
  by (rule post_Some) (auto dest: return_parse_err_Val)

lemma array_rest_later:
  assumes "reader_later rd"
  shows "run_post (ends_later d) (array_rest mal rd v err d)"
  unfolding array_rest_def
  by (intro post_rules post_ret post_return_err later_reader [OF assms])
     (auto simp: later_def dest!: jwhite_later reader_laterD [OF assms])

lemma object_rest_later:
  assumes "reader_later rd"
  shows "run_post (ends_later d) (object_rest mal rd v err d)"
  unfolding object_rest_def
  by (intro post_rules post_ret post_return_err later_reader [OF assms])
     (auto simp: later_def dest!: jwhite_later reader_laterD [OF assms] parse_key_later(1))

lemma post_close: "later 0 d d' \<Longrightarrow> run_post (ends_later d) (parse_close c msg v err d')"
  unfolding parse_close_def
  by (intro post_rules post_ret post_return_err) (auto simp: later_def)

lemma container_later:
  assumes "reader_later rd"
  shows "run_post (ends_later d) (parse_array mal rd err d)" "run_post (ends_later d) (parse_object mal rd err d)"
  unfolding parse_array_def parse_object_def
  by (intro post_rules post_ret post_close;
      auto simp: later_def split: if_splits dest!: jwhite_later reader_laterD [OF assms])+

lemma value_later:
  assumes "reader_later rd"
  shows "run_post (ends_later d) (parse_value fl mal rd err d)"
proof -
  have fl: "run_post (ends_later d) (Some (doc_fail d1 err msg))" if "later 0 d d1" for d1 msg
    by (rule post_Some) (use that in \<open>auto dest: doc_fail_Val\<close>)
  have wd: "run_post (ends_later d) (Some (parse_word w m err d1))" if "later 0 d d1" for d1 w m
    by (rule post_Some) (use parse_word_later [of w m err d1] later_0_trans [OF that] in \<open>fastforce simp: ends_later_def\<close>)
  have nm: "run_post (ends_later d) (Some (parse_num fl mal err d1))" if "later 0 d d1" for d1
    by (rule post_Some) (use parse_num_later [of fl mal err d1] later_0_trans [OF that] in \<open>fastforce simp: ends_later_def\<close>)
  have st: "run_post (ends_later d) (parse_string mal err d1)" if "later 0 d d1" for d1
    using parse_string_later [of mal err d1] later_0_trans [OF that] by (fastforce simp: run_post_def ends_later_def)
  note ct = ends_later_trans [OF _ container_later(1) [OF assms]] ends_later_trans [OF _ container_later(2) [OF assms]]
  show ?thesis
    unfolding parse_value_def by (intro post_rules fl wd nm st ct) (auto dest: jwhite_later)
qed

lemma json_run_later: "reader_later (json_run fl mal n)"
proof (induction n)
  case 0
  show ?case by (simp add: reader_later_def run_post_def)
next
  case (Suc n)
  then have "run_post (ends_later d) (json_run fl mal (Suc n) job err d)" for job err d
    by (cases job) (simp_all add: array_rest_later object_rest_later value_later)
  then show ?case unfolding reader_later_def by blast
qed

section \<open>Enough fuel\<close>

definition need :: "json_job \<Rightarrow> agoo_doc \<Rightarrow> nat" where
  "need job d = 2 * (length (dblk d) - dcur d) + (case job of JValue \<Rightarrow> 0 | _ \<Rightarrow> 1)"

lemma need_value: "later 1 d d' \<Longrightarrow> dcur d < length (dblk d) \<Longrightarrow> job \<noteq> JValue \<Longrightarrow> need job d' < need JValue d"
  by (cases job) (auto simp: need_def later_def)

lemma need_rest: "later 0 d d' \<Longrightarrow> job \<noteq> JValue \<Longrightarrow> need JValue d' < need job d"
  by (cases job) (auto simp: need_def later_def)

lemma need_next: "later 1 d d' \<Longrightarrow> dcur d < length (dblk d) \<Longrightarrow> job \<noteq> JValue \<Longrightarrow> job' \<noteq> JValue \<Longrightarrow> need job' d' < need job d"
  by (cases job; cases job') (auto simp: need_def later_def)

theorem json_run_ends: "need job d < n \<Longrightarrow> json_run fl mal n job err d \<noteq> None"
proof (induction n arbitrary: job err d)
  case (Suc n)
  let ?rd = "json_run fl mal n"
  note later = json_run_later [of fl mal n]
  have ends: "?rd job' err' d' \<noteq> None" if "need job' d' < need job d" for job' err' d'
    by (rule Suc.IH) (use that Suc.prems in simp)
  have close: "parse_close c msg v err' d' \<noteq> None" for c msg v err' d'
    unfolding parse_close_def by (intro ends_rules)
  show ?case
  proof (cases job)
    case JValue
    have rest: "?rd j err d2 \<noteq> None" if "agoo_doc_skip_jwhite d = Val d1" "peek d1 0 = Val c"
      "agoo_doc_skip_jwhite (adv 1 d1) = Val d2" "j \<noteq> JValue" for j d1 c d2
      by (rule ends) (use that JValue in \<open>auto intro!: need_value simp: later_def peek_Val dest!: jwhite_later\<close>)
    show ?thesis
      unfolding json_run.simps JValue json_job.case parse_value_def parse_array_def parse_object_def
      by (intro ends_rules close parse_string_ends rest) auto
  next
    case (JArrayRest v)
    have val: "?rd JValue err d \<noteq> None"
      by (rule ends) (simp add: JArrayRest need_rest later_refl)
    have rest: "?rd (JArrayRest v') err' (adv 1 d2) \<noteq> None"
      if "?rd JValue err d = Some (Val (m, d1, err1))" "agoo_doc_skip_jwhite d1 = Val d2" "peek d2 0 = Val c" for v' err' m d1 err1 d2 c
      by (rule ends) (use that reader_laterD [OF later that(1)] jwhite_later [OF that(2)] in
          \<open>auto intro!: need_next simp: JArrayRest later_def peek_Val\<close>)
    show ?thesis
      unfolding json_run.simps JArrayRest json_job.case array_rest_def
      by (intro ends_rules val rest) auto
  next
    case (JObjectRest v)
    have val: "?rd JValue err d2 \<noteq> None" if "parse_key d = Val (r, d1)" "agoo_doc_skip_jwhite d1 = Val d2" for r d1 d2
      by (rule ends) (use that in \<open>auto intro!: need_rest simp: JObjectRest later_def dest!: jwhite_later parse_key_later(1)\<close>)
    have rest: "?rd (JObjectRest v') err' (adv 1 d4) \<noteq> None"
      if "parse_key d = Val (r, d1)" "agoo_doc_skip_jwhite d1 = Val d2"
        "?rd JValue err d2 = Some (Val (m, d3, err3))" "agoo_doc_skip_jwhite d3 = Val d4" "peek d4 0 = Val c"
      for v' err' r d1 d2 m d3 err3 d4 c
      by (rule ends) (use that(5) parse_key_later(1) [OF that(1)] jwhite_later [OF that(2)] reader_laterD [OF later that(3)]
          jwhite_later [OF that(4)] in \<open>auto intro!: need_next simp: JObjectRest later_def peek_Val\<close>)
    show ?thesis
      unfolding json_run.simps JObjectRest json_job.case object_rest_def
      by (intro ends_rules val rest) auto
  qed
qed simp

end
