(* ===== verification/JsonRound.thy ===== *)
theory JsonRound
  imports JsonTotal
begin

text \<open>
  The JSON parser reads back what the printer writes: values, strings with every escape, lists
  and objects, with any indentation, as the same JSON data.
\<close>

section \<open>Documents by what is ahead\<close>

text \<open>The block is the document and its NUL, and \<open>s\<close> is what lies ahead of the position.\<close>

definition doc_at :: "agoo_doc \<Rightarrow> string \<Rightarrow> bool" where
  "doc_at d s \<longleftrightarrow> dend d + 1 = length (dblk d) \<and> dcur d \<le> length (dblk d) \<and> drop (dcur d) (dblk d) = s"

lemma at_adv: "doc_at d (a @ s) \<Longrightarrow> doc_at (adv (length a) d) s"
proof -
  assume a: "doc_at d (a @ s)"
  then have "drop (length a) (drop (dcur d) (dblk d)) = s" by (simp add: doc_at_def)
  moreover have "length (drop (dcur d) (dblk d)) = length a + length s" using a by (simp add: doc_at_def)
  ultimately show ?thesis using a by (auto simp: doc_at_def add.commute)
qed

lemma at_adv1: "doc_at d (c # s) \<Longrightarrow> doc_at (adv 1 d) s"
  using at_adv [of d "[c]" s] by simp

lemma at_peek: "doc_at d (a @ c # s) \<Longrightarrow> peek d (length a) = Val c"
proof -
  assume a: "doc_at d (a @ c # s)"
  then have "length (drop (dcur d) (dblk d)) = Suc (length a + length s)" by (simp add: doc_at_def)
  moreover have "dblk d ! (dcur d + length a) = drop (dcur d) (dblk d) ! length a" using a
    by (intro nth_drop [symmetric]) (simp add: doc_at_def)
  moreover have "drop (dcur d) (dblk d) ! length a = c" using a by (simp add: doc_at_def)
  ultimately show ?thesis by (auto simp: peek_def)
qed

lemma at_peek0: "doc_at d (c # s) \<Longrightarrow> peek d 0 = Val c"
  using at_peek [of d "[]" c s] by simp

lemma at_length: "doc_at d s \<Longrightarrow> length (dblk d) = dcur d + length s \<and> dend d + 1 = dcur d + length s"
  by (auto simp: doc_at_def)

lemma at_more: "doc_at d (c # s) \<Longrightarrow> (dcur d < dend d) = (s \<noteq> [])"
  using at_length [of d "c # s"] by auto

lemma takeWhile_stop: "list_all P w \<Longrightarrow> \<not> P c \<Longrightarrow> takeWhile P (w @ c # s) = w"
  by (induction w) simp_all

lemma at_skip:
  assumes "doc_at d (w @ c # s)" "list_all P w" "\<not> P c"
  shows "skip_while P d = Val (adv (length w) d)"
  using assms at_length [OF assms(1)] takeWhile_stop [OF assms(2,3)]
  by (simp add: skip_while_def doc_at_def Let_def)

lemma at_scan:
  assumes "doc_at d (w @ c # s)" "s \<noteq> []" "list_all P w" "\<not> P c"
  shows "scan_to P d = Val (adv (length w) d)"
proof -
  have l: "dend d - dcur d = length w + length s" using at_length [OF assms(1)] assms(2) by simp
  have "take (length w + length s) (w @ c # s) = w @ c # butlast s"
    using assms(2) by (cases s rule: rev_cases) simp_all
  then have "takeWhile P (take (dend d - dcur d) (drop (dcur d) (dblk d))) = w"
    using assms takeWhile_stop [OF assms(3,4)] by (simp add: l doc_at_def)
  then show ?thesis using at_length [OF assms(1)] assms(2) by (simp add: scan_to_def Let_def)
qed

section \<open>White space\<close>

definition jwhite :: "char \<Rightarrow> bool" where
  "jwhite c \<longleftrightarrow> (of_char c :: nat) \<in> {9, 10, 13, 32}"

lemma json_map_tab: "map (\<lambda>c. c = CHR ''w'') json_map = map (\<lambda>n. n \<in> {9, 10, 13, 32 :: nat}) [0..<256]"
  by (simp add: json_map_def upt_256 upt_rec_numeral)

lemma json_map_length: "length json_map = 256"
  by (simp add: json_map_def)

lemma json_map_white: "(json_map ! of_char c = CHR ''w'') = jwhite c"
proof -
  have "map (\<lambda>c. c = CHR ''w'') json_map ! of_char c = jwhite c"
    unfolding jwhite_def by (rule table_lookup [OF json_map_tab])
  then show ?thesis using nat_of_char_less_256 [of c] by (simp add: json_map_length)
qed

lemma at_jwhite:
  assumes "doc_at d (w @ c # s)" "list_all jwhite w" "\<not> jwhite c"
  shows "agoo_doc_skip_jwhite d = Val (adv (length w) d)"
  unfolding agoo_doc_skip_jwhite_def json_map_white using assms by (rule at_skip)

lemma at_jwhite0: "doc_at d (c # s) \<Longrightarrow> \<not> jwhite c \<Longrightarrow> agoo_doc_skip_jwhite d = Val d"
  using at_jwhite [of d "[]" c s] by simp

lemma indentation_white: "list_all jwhite (indentation n k)"
  by (auto simp: indentation_def jwhite_def list_all_iff)

section \<open>Numbers\<close>

lemma foldl_digits_ge: "a \<le> foldl (\<lambda>a c. a * 10 + digit_val c) a ds"
proof (induction ds arbitrary: a)
  case (Cons c ds)
  have "a \<le> a * 10 + digit_val c" by simp
  also have "\<dots> \<le> foldl (\<lambda>a c. a * 10 + digit_val c) (a * 10 + digit_val c) ds" by (rule Cons.IH)
  finally show ?case by simp
qed simp

lemma scan_int:
  assumes "list_all is_digit ds" "\<not> is_digit c" "cur + length ds \<le> e"
    "foldl (\<lambda>a c. a * 10 + digit_val c) a ds < 2 ^ 63" "n_i st = int a" "\<not> n_big st"
  shows "\<exists>z k. scan_digits int_digit e cur (ds @ c # r) st =
    Val (cur + length ds, Some (st\<lparr>n_zero_cnt := z, n_dec_cnt := k,
           n_i := int (foldl (\<lambda>a c. a * 10 + digit_val c) a ds)\<rparr>))"
  using assms
proof (induction ds arbitrary: cur a st)
  case Nil
  show ?case
    by (rule exI [of _ "n_zero_cnt st"], rule exI [of _ "n_dec_cnt st"]) (use Nil in simp)
next
  case (Cons x ds)
  let ?a = "a * 10 + digit_val x"
  have b: "?a < 2 ^ 63" using foldl_digits_ge [of ?a ds] Cons.prems(4) by simp
  then have "int ?a < int (2 ^ 63)" by (simp only: of_nat_less_iff)
  then have b': "int a * 10 + int (digit_val x) < 2 ^ 63" by simp
  have i: "i64 (int a * 10 + int (digit_val x)) = Val (int a * 10 + int (digit_val x))"
    "i64 (int a * 10) = Val (int a * 10)" "i64 (INT64_MAX - int a * 10) = Val (INT64_MAX - int a * 10)"
    using b' by (simp_all add: i64_def INT64_MAX_def)
  define st' where "st' = st\<lparr>n_dec_cnt := n_dec_cnt st + 1, n_zero_cnt := zero_count (n_zero_cnt st) (digit_val x), n_i := int ?a\<rparr>"
  have nb: "\<not> INT64_MAX - int a * 10 < int (digit_val x)" using b' by (simp add: INT64_MAX_def)
  have s: "int_digit st (digit_val x) = Val (Some st')"
    using Cons.prems(5,6) by (simp add: int_digit_def i nb st'_def Let_def)
  obtain z k where zk: "scan_digits int_digit e (cur + 1) (ds @ c # r) st' =
      Val (cur + 1 + length ds, Some (st'\<lparr>n_zero_cnt := z, n_dec_cnt := k,
             n_i := int (foldl (\<lambda>a c. a * 10 + digit_val c) ?a ds)\<rparr>))"
    using Cons.IH [of "cur + 1" ?a st'] Cons.prems by (auto simp: st'_def)
  have "scan_digits int_digit e cur ((x # ds) @ c # r) st = scan_digits int_digit e (cur + 1) (ds @ c # r) st'"
    using Cons.prems s by simp
  also note zk
  finally show ?case by (intro exI [of _ z] exI [of _ k]) (simp add: st'_def)
qed

lemma get_le: "8 * n = LENGTH('a) \<Longrightarrow> union_get n (number_union (le_bytes n w)) = Val (w :: 'a::len word)"
  using union_get_number [of "le_bytes n w", where 'a = 'a] le_bytes_inv [of n w] by simp

definition json_stop :: "char \<Rightarrow> bool" where
  "json_stop c \<longleftrightarrow> \<not> is_digit c \<and> c \<notin> {CHR ''.'', CHR ''e'', CHR ''E''}"

lemma parse_num_int:
  assumes "malloc_all mal" "doc_at d (int_str i @ c # r)" "json_stop c" "\<bar>i\<bar> < 2 ^ 63"
  shows "\<exists>v d'. parse_num fl mal err d = Val (Some v, d', err) \<and> doc_at d' (c # r) \<and> json_of v = Some (JNum i)"
proof -
  define k where "k = nat \<bar>i\<bar>"
  define d1 where "d1 = (if i < 0 then adv 1 d else d)"
  obtain x xs where x: "dec_str k = x # xs" "is_digit x" using dec_str_digits [of k] by (cases "dec_str k") auto
  have s: "read_sign d = Val (i < 0, d1)"
  proof (cases "i < 0")
    case True
    then have "doc_at d (CHR ''-'' # dec_str k @ c # r)" using assms(2) by (simp add: int_str_def k_def)
    then show ?thesis using True by (simp add: read_sign_def at_peek0 d1_def)
  next
    case False
    then have "doc_at d (x # xs @ c # r)" using assms(2) x(1) by (simp add: int_str_def k_def)
    moreover have "x \<noteq> CHR ''-''" "x \<noteq> CHR ''+''" using x(2) by (auto simp: is_digit_def)
    ultimately show ?thesis using False by (simp add: read_sign_def at_peek0 d1_def)
  qed
  have d1: "doc_at d1 (dec_str k @ c # r)"
    using assms(2) at_adv1 [of d "CHR ''-''" "dec_str k @ c # r"] by (auto simp: d1_def int_str_def k_def)
  define d2 where "d2 = adv (length (dec_str k)) d1"
  have d2: "doc_at d2 (c # r)" unfolding d2_def by (rule at_adv [OF d1])
  have kb: "k < 2 ^ 63" using assms(4) by (simp add: k_def)
  have l: "dcur d1 + length (dec_str k) \<le> dend d1" using at_length [OF d1] by simp
  define st :: num_state where
    "st = \<lparr>n_zero_cnt = 0, n_dec_cnt = 0, n_big = False, n_i = 0, n_num = 0, n_div = 1, n_exp = 0\<rparr>"
  have "list_all is_digit (dec_str k)" using dec_str_digits by (simp add: list_all_iff)
  then obtain z m where g: "scan_digits int_digit (dend d1) (dcur d1) (dec_str k @ c # r) st =
      Val (dcur d1 + length (dec_str k), Some (st\<lparr>n_zero_cnt := z, n_dec_cnt := m, n_i := int k\<rparr>))"
    using scan_int [of "dec_str k" c "dcur d1" "dend d1" 0 st r] assms(3) l kb by (auto simp: st_def json_stop_def dec_str_val)
  have "drop (dcur d1) (dblk d1) = dec_str k @ c # r" using d1 by (simp add: doc_at_def)
  then have j: "json_digits int_digit d1 st = Val (d2, st\<lparr>n_zero_cnt := z, n_dec_cnt := m, n_i := int k\<rparr>)"
    using g by (simp add: json_digits_def digits_def d2_def adv_def)
  have ck: "c \<noteq> CHR ''.''" "c \<noteq> CHR ''e''" "c \<noteq> CHR ''E''" using assms(3) by (simp_all add: json_stop_def)
  have ik: "i < 0 \<Longrightarrow> int k = - i" "\<not> i < 0 \<Longrightarrow> int k = i" by (simp_all add: k_def)
  obtain v where v: "(if INT32_MAX < int k then gql_i64_create mal (of_int i) else gql_int_create mal (of_int i)) = Val (Some v)"
    "json_of v = Some (JNum i)"
  proof (cases "INT32_MAX < int k")
    case True
    have "sint (of_int i :: 64 word) = i"
      using assms(4) by (auto simp: signed_of_int signed_take_bit_int_eq_self_iff abs_less_iff)
    then show ?thesis
      using that [of "GqlValue gql_i64_type (number_union (le_bytes 8 (of_int i :: 64 word)))"] True
        create_numbers(2) [OF assms(1), of "of_int i"] get_le [of 8 "of_int i :: 64 word"]
      by (simp add: gql_i64_type_def)
  next
    case False
    then have "\<bar>i\<bar> < 2 ^ 31" by (simp add: INT32_MAX_def k_def)
    then have "sint (of_int i :: 32 word) = i" by (auto simp: signed_of_int signed_take_bit_int_eq_self_iff abs_less_iff)
    then show ?thesis
      using that [of "GqlValue gql_int_type (number_union (le_bytes 4 (of_int i :: 32 word)))"] False
        create_numbers(1) [OF assms(1), of "of_int i"] get_le [of 4 "of_int i :: 32 word"]
      by (simp add: gql_int_type_def)
  qed
  have nv: "num_value fl mal err w n (i < 0) (st\<lparr>n_zero_cnt := z, n_dec_cnt := m, n_i := int k\<rparr>) = Val (Some v, err)" for w n
    using v(1) by (cases "i < 0") (simp_all add: num_value_def st_def ik)
  have "parse_num fl mal err d = Val (Some v, d2, err)"
    unfolding parse_num_def by (simp add: s st_def [symmetric] j at_peek0 [OF d2] ck nv)
  then show ?thesis using d2 v(2) by blast
qed

section \<open>Words\<close>

lemma parse_word_at:
  assumes "doc_at d (w @ c # r)"
  shows "parse_word w m err d = mem_bind m (\<lambda>v. Val (v, adv (length w) d, err))"
proof -
  have "drop (dcur d) (dblk d) = w @ c # r" using assms by (simp add: doc_at_def)
  then show ?thesis using at_length [OF assms] by (simp add: parse_word_def str_at_def)
qed

lemma number_bool: "union_get (Suc 0) (number_union [c]) = Val (byte_of c)"
  using union_get_number [of "[c]", where 'a = 8] by simp

section \<open>Strings\<close>

lemma appended_all:
  assumes "malloc_all mal" "appended mal t s r"
  shows "\<exists>t'. r = Val (Some t') \<and> text_ok t' \<and> content t' = content t @ s"
  using assms by (auto simp: appended_def refused_def malloc_allD(2) split: if_splits)

lemma hex_val: "k < 16 \<Longrightarrow> uuid_hexVal (hex_chars ! k) = Some k"
proof -
  assume "k < 16"
  then have "k = 0 \<or> k = 1 \<or> k = 2 \<or> k = 3 \<or> k = 4 \<or> k = 5 \<or> k = 6 \<or> k = 7 \<or> k = 8 \<or> k = 9 \<or> k = 10 \<or> k = 11 \<or>
      k = 12 \<or> k = 13 \<or> k = 14 \<or> k = 15" by presburger
  then show ?thesis by (elim disjE) (simp_all add: hex_chars_def uuid_hexVal_def is_digit_def)
qed

text \<open>One character of a string as the printer writes it.\<close>

lemma unicode_control:
  assumes "malloc_all mal" "doc_at d (''00'' @ dump_hex c @ x # r)" "(of_char c :: nat) < 32" "text_ok t" "ecode err = AGOO_ERR_OK"
  shows "\<exists>t'. read_unicode err d = Val (Some (of_nat (of_char c)), adv 4 d, err) \<and>
    unicode_to_chars mal err (Some t) (of_nat (of_char c)) (adv 4 d) = Val (Some t', err) \<and>
    text_ok t' \<and> content t' = content t @ [c]"
proof -
  define n :: nat where "n = of_char c"
  define a where "a = n div 16 mod 16"
  define b where "b = n mod 16"
  have n: "n = 16 * a + b" using assms(3) by (simp add: n_def [symmetric] a_def b_def)
  have s: "doc_at d (CHR ''0'' # CHR ''0'' # hex_chars ! a # hex_chars ! b # x # r)"
    using assms(2) by (simp add: dump_hex_def a_def b_def n_def)
  note s1 = at_adv1 [OF s] note s2 = at_adv1 [OF s1] note s3 = at_adv1 [OF s2]
  have h: "uuid_hexVal CHR ''0'' = Some 0" by (simp add: uuid_hexVal_def is_digit_def)
  have hab: "uuid_hexVal (hex_chars ! a) = Some a" "uuid_hexVal (hex_chars ! b) = Some b"
    by (simp_all add: hex_val a_def b_def)
  have "push_bit 4 (of_nat a) + of_nat b = (of_nat n :: 32 word)"
    by (simp add: n push_bit_eq_mult mult.commute)
  then have rh: "read_hex err d = Val (of_nat n, adv 4 d, err)"
    using at_length [OF s] at_peek0 [OF s] at_peek0 [OF s1] at_peek0 [OF s2] at_peek0 [OF s3]
    by (simp add: read_hex_def eval_nat_numeral h hab push_bit_of_0)
  have u: "unat (of_nat n :: 32 word) = n" using assms(3) by (intro unat_small) (simp add: n_def)
  have le: "(of_nat n :: 32 word) \<le> 0x7F" "\<not> (0xD800 :: 32 word) \<le> of_nat n"
    using assms(3) u by (simp_all add: word_le_nat_alt n_def)
  have ru: "read_unicode err d = Val (Some (of_nat n), adv 4 d, err)"
    using assms(5) le(2) by (simp add: read_unicode_def rh)
  have "unat (ucast (of_nat n :: 32 word) :: byte) = n"
    using assms(3) u by (simp add: unsigned_ucast_eq take_bit_nat_eq_self n_def)
  then have "utf8 (of_nat n) = Some [c]" using le(1) by (simp add: utf8_def Let_def chr_of_def n_def)
  then show ?thesis
    using appended_all [OF assms(1) text_append_char_ok [OF malloc_allD(1) [OF assms(1)] assms(4), of c]] ru
    by (auto simp: unicode_to_chars_def n_def)
qed

lemma json_esc_classes:
  "json_class c = CHR ''1'' \<Longrightarrow> json_esc c = [c] \<and> c \<noteq> CHR 0x22 \<and> c \<noteq> CHR 0x5C"
  "json_class c = CHR ''2'' \<Longrightarrow> \<exists>y. json_esc c = [CHR 0x5C, y] \<and> y \<noteq> CHR ''u'' \<and> simple_escape y = Some c"
  "json_class c = CHR ''6'' \<Longrightarrow> json_esc c = [CHR 0x5C, CHR ''u'', CHR ''0'', CHR ''0''] @ dump_hex c \<and> (of_char c :: nat) < 32"
proof -
  show "json_class c = CHR ''1'' \<Longrightarrow> json_esc c = [c] \<and> c \<noteq> CHR 0x22 \<and> c \<noteq> CHR 0x5C"
    by (auto simp: json_esc_def json_class_eq Let_def split: if_splits)
  show "json_class c = CHR ''6'' \<Longrightarrow> json_esc c = [CHR 0x5C, CHR ''u'', CHR ''0'', CHR ''0''] @ dump_hex c \<and> (of_char c :: nat) < 32"
    by (auto simp: json_esc_def json_class_eq Let_def split: if_splits)
  assume two: "json_class c = CHR ''2''"
  then have "(of_char c :: nat) \<in> {8, 9, 10, 12, 13, 34, 92}"
    by (auto simp: json_class_eq Let_def split: if_splits)
  then have "(of_char c :: nat) \<in> of_char ` {CHR 0x08, CHR 0x09, CHR 0x0A, CHR 0x0C, CHR 0x0D, CHR 0x22, CHR 0x5C}" by simp
  then have "c \<in> {CHR 0x08, CHR 0x09, CHR 0x0A, CHR 0x0C, CHR 0x0D, CHR 0x22, CHR 0x5C}"
    unfolding image_iff of_char_eq_iff by blast
  then show "\<exists>y. json_esc c = [CHR 0x5C, y] \<and> y \<noteq> CHR ''u'' \<and> simple_escape y = Some c"
    using two by (auto simp: json_esc_def simple_escape_def)
qed

lemma escaped_char:
  assumes "malloc_all mal" "doc_at d (json_esc c @ x # r)" "text_ok t" "ecode err = AGOO_ERR_OK"
  shows "\<exists>y t'. peek d 0 = Val y \<and> y \<noteq> CHR 0x22 \<and>
    escaped_round mal y err d (Some t) = Val (True, Some t', adv (length (json_esc c)) d, err) \<and>
    text_ok t' \<and> content t' = content t @ [c]"
proof -
  note ok = malloc_allD(1) [OF assms(1)]
  consider "json_class c = CHR ''1''" | "json_class c = CHR ''2''" | "json_class c = CHR ''6''"
    using json_class_cases [of c] by blast
  then show ?thesis
  proof cases
    case 1
    note e = json_esc_classes(1) [OF 1]
    have d: "doc_at d (c # x # r)" using assms(2) e by simp
    then have "take 1 (str_at (dcur d) d) = [c]" "1 \<le> length (str_at (dcur d) d)"
      by (simp_all add: str_at_def doc_at_def)
    then have "appended mal t [c] (agoo_text_append mal (Some t) (str_at (dcur d) d) 1)"
      using text_append_ok_len [OF ok assms(3), of "str_at (dcur d) d" 1] by (simp add: arg_len_def)
    from appended_all [OF assms(1) this] show ?thesis
      using e at_peek0 [OF d] by (auto simp: escaped_round_def read_plain_def)
  next
    case 2
    obtain y where y: "json_esc c = [CHR 0x5C, y]" "y \<noteq> CHR ''u''" "simple_escape y = Some c"
      using json_esc_classes(2) [OF 2] by blast
    have d: "doc_at d (CHR 0x5C # y # x # r)" using assms(2) y by simp
    show ?thesis
      using appended_all [OF assms(1) text_append_char_ok [OF ok assms(3), of c]] y at_peek0 [OF d] at_peek0 [OF at_adv1 [OF d]]
      by (auto simp: escaped_round_def read_escape_def Let_def numeral_2_eq_2)
  next
    case 3
    note e = json_esc_classes(3) [OF 3]
    have d: "doc_at d (CHR 0x5C # CHR ''u'' # ''00'' @ dump_hex c @ x # r)" using assms(2) e by simp
    note d1 = at_adv1 [OF d] note d2 = at_adv1 [OF d1]
    obtain t' where t': "read_unicode err (adv 1 (adv 1 d)) = Val (Some (of_nat (of_char c)), adv 4 (adv 1 (adv 1 d)), err)"
      "unicode_to_chars mal err (Some t) (of_nat (of_char c)) (adv 4 (adv 1 (adv 1 d))) = Val (Some t', err)"
      "text_ok t'" "content t' = content t @ [c]"
      using unicode_control [OF assms(1) d2 conjunct2 [OF e] assms(3,4)] by blast
    have "length (json_esc c) = 6" using e by (simp add: dump_hex_def)
    then show ?thesis
      using t' at_peek0 [OF d] at_peek0 [OF d1] assms(4)
      by (auto simp: escaped_round_def read_escape_def Let_def numeral_2_eq_2)
  qed
qed

lemma escaped_loop_at:
  assumes "malloc_all mal" "ecode err = AGOO_ERR_OK" "r \<noteq> []"
  shows "doc_at d (concat (map json_esc s) @ CHR 0x22 # r) \<Longrightarrow> text_ok t \<Longrightarrow> length s < n \<Longrightarrow>
    \<exists>t'. escaped_loop mal n err d (Some t) = Some (Val (True, Some t', adv (length (concat (map json_esc s))) d, err)) \<and>
      text_ok t' \<and> content t' = content t @ s"
proof (induction s arbitrary: d t n)
  case Nil
  then obtain m where "n = Suc m" by (cases n) auto
  then show ?case using Nil at_peek0 [of d "CHR 0x22" r] by (auto simp: escaped_loop.simps(2))
next
  case (Cons c s)
  obtain m where m: "n = Suc m" "length s < m" using Cons.prems(3) by (cases n) auto
  obtain x r' where x: "concat (map json_esc s) @ CHR 0x22 # r = x # r'" by (cases "concat (map json_esc s) @ CHR 0x22 # r") auto
  have d: "doc_at d (json_esc c @ x # r')" using Cons.prems(1) by (simp add: x)
  obtain y t1 where y: "peek d 0 = Val y" "y \<noteq> CHR 0x22"
    "escaped_round mal y err d (Some t) = Val (True, Some t1, adv (length (json_esc c)) d, err)"
    "text_ok t1" "content t1 = content t @ [c]"
    using escaped_char [OF assms(1) d Cons.prems(2) assms(2)] by blast
  have "doc_at (adv (length (json_esc c)) d) (concat (map json_esc s) @ CHR 0x22 # r)"
    using at_adv [OF d] by (simp add: x)
  from Cons.IH [OF this y(4) m(2)] obtain t' where t':
    "escaped_loop mal m err (adv (length (json_esc c)) d) (Some t1)
       = Some (Val (True, Some t', adv (length (concat (map json_esc s))) (adv (length (json_esc c)) d), err))"
    "text_ok t'" "content t' = content t1 @ s" by blast
  have "dcur d < dend d" using at_length [OF Cons.prems(1)] assms(3) by (cases r) auto
  then show ?case using t' y m(1) by (auto simp: escaped_loop.simps(2) add.commute)
qed

lemma string_create_at:
  assumes "malloc_all mal" "NUL \<notin> set s" "s \<noteq> []" "take (length s) b = s"
  shows "\<exists>v. gql_string_create mal err b (int (length s)) = Val (Some v, err) \<and> json_of v = Some (JStr s)"
proof -
  have "arg_len b (int (length s)) = length s" using assms(3) by (simp add: arg_len_def)
  then obtain u where "gql_string_create mal err b (int (length s)) = Val (Some (GqlValue gql_string_type u), err)"
    "str_view u = Val (Some s)"
    using str_create_ok [OF assms(1), of err gql_string_type b "int (length s)" 1050] assms
    by (auto simp: gql_string_create_def)
  then show ?thesis using assms(2) by (simp add: gql_string_type_def json_str_of_def)
qed

lemma esc_clean:
  "CHR 0x5C \<notin> set (concat (map json_esc s)) \<Longrightarrow> concat (map json_esc s) = s \<and> CHR 0x22 \<notin> set s"
proof (induction s)
  case (Cons c s)
  then have n: "CHR 0x5C \<notin> set (json_esc c)" by simp
  then have "json_class c = CHR ''1''" using json_class_cases [of c] json_esc_classes(2,3) [of c] by auto
  with Cons json_esc_classes(1) [of c] show ?case by auto
qed simp

lemma esc_split:
  "CHR 0x5C \<in> set (concat (map json_esc s)) \<Longrightarrow>
   \<exists>a b. concat (map json_esc s) = a @ CHR 0x5C # b \<and> list_all (\<lambda>c. c \<noteq> CHR 0x22 \<and> c \<noteq> CHR 0x5C) a"
proof (induction s)
  case (Cons c s)
  consider "json_class c = CHR ''1''" | y where "json_esc c = CHR 0x5C # y"
    using json_class_cases [of c] json_esc_classes(2,3) [of c] by auto
  then show ?case
  proof cases
    case 1
    note e = json_esc_classes(1) [OF 1]
    with Cons obtain a b where "concat (map json_esc s) = a @ CHR 0x5C # b" "list_all (\<lambda>c. c \<noteq> CHR 0x22 \<and> c \<noteq> CHR 0x5C) a" by auto
    then have "concat (map json_esc (c # s)) = (c # a) @ CHR 0x5C # b" "list_all (\<lambda>c. c \<noteq> CHR 0x22 \<and> c \<noteq> CHR 0x5C) (c # a)"
      using e by simp_all
    then show ?thesis by blast
  next
    case (2 y)
    then have "concat (map json_esc (c # s)) = [] @ CHR 0x5C # y @ concat (map json_esc s)" by simp
    then show ?thesis by (intro exI [of _ "[]"] exI [of _ "y @ concat (map json_esc s)"]) simp
  qed
qed simp

lemma allocate_all:
  assumes "malloc_all mal"
  shows "\<exists>t. agoo_text_allocate mal n = Val (Some t) \<and> text_ok t \<and> content t = []"
proof -
  have "mal k = None \<Longrightarrow> False" for k using malloc_allD(2) [OF assms] by blast
  then have "agoo_text_allocate mal n \<noteq> Val None"
    by (auto simp: agoo_text_allocate_def Let_def mem_bind_eq_Val split: option.splits)
  then show ?thesis using text_allocate_ok [OF malloc_allD(1) [OF assms]] by blast
qed

lemma parse_string_at:
  assumes "malloc_all mal" "doc_at d (CHR 0x22 # concat (map json_esc s) @ CHR 0x22 # c # r)"
    "s \<noteq> []" "NUL \<notin> set s" "ecode err = AGOO_ERR_OK"
  shows "\<exists>v d'. parse_string mal err d = Some (Val (Some v, d', err)) \<and> doc_at d' (c # r) \<and> json_of v = Some (JStr s)"
proof -
  let ?E = "concat (map json_esc s)"
  note d1 = at_adv1 [OF assms(2)]
  have d3: "doc_at (adv (Suc (length ?E)) (adv 1 d)) (c # r)"
    using at_adv [of "adv 1 d" "?E @ [CHR 0x22]" "c # r"] d1 by simp
  show ?thesis
  proof (cases "CHR 0x5C \<in> set ?E")
    case False
    note e = esc_clean [OF False]
    have w: "list_all (\<lambda>c. c \<noteq> CHR 0x22 \<and> c \<noteq> CHR 0x5C) s" using e False by (auto simp: list_all_iff)
    have d1': "doc_at (adv 1 d) (s @ CHR 0x22 # c # r)" using d1 e by simp
    have sc: "scan_to (\<lambda>c. c \<noteq> CHR 0x22 \<and> c \<noteq> CHR 0x5C) (adv 1 d) = Val (adv (length s) (adv 1 d))"
      by (rule at_scan [OF d1' _ w]) simp_all
    have m: "dcur (adv (length s) (adv 1 d)) < dend (adv (length s) (adv 1 d))"
      using at_more [OF at_adv [OF d1']] by simp
    have "take (length s) (str_at (dcur (adv 1 d)) (adv 1 d)) = s"
      using d1' by (simp add: str_at_def doc_at_def)
    then obtain v where v: "gql_string_create mal err (str_at (dcur (adv 1 d)) (adv 1 d)) (int (length s)) = Val (Some v, err)"
      "json_of v = Some (JStr s)" using string_create_at [OF assms(1,4,3)] by blast
    have "parse_string mal err d = Some (Val (Some v, adv 1 (adv (length s) (adv 1 d)), err))"
      using at_peek0 [OF assms(2)] sc m v(1) at_peek0 [OF at_adv [OF d1']]
      by (simp add: parse_string_def Let_def)
    then show ?thesis using d3 v(2) e by auto
  next
    case True
    obtain a b where ab: "?E = a @ CHR 0x5C # b" "list_all (\<lambda>c. c \<noteq> CHR 0x22 \<and> c \<noteq> CHR 0x5C) a"
      using esc_split [OF True] by blast
    have d1': "doc_at (adv 1 d) (a @ CHR 0x5C # b @ CHR 0x22 # c # r)" using d1 ab by simp
    have sc: "scan_to (\<lambda>c. c \<noteq> CHR 0x22 \<and> c \<noteq> CHR 0x5C) (adv 1 d) = Val (adv (length a) (adv 1 d))"
      by (rule at_scan [OF d1' _ ab(2)]) simp_all
    have m: "dcur (adv (length a) (adv 1 d)) < dend (adv (length a) (adv 1 d))"
      using at_more [OF at_adv [OF d1']] by simp
    have ps: "parse_string mal err d = parse_escaped mal err (adv 1 d)"
      using at_peek0 [OF assms(2)] sc m at_peek0 [OF at_adv [OF d1']] by (simp add: parse_string_def Let_def)
    obtain t where t: "agoo_text_allocate mal 4096 = Val (Some t)" "text_ok t" "content t = []"
      using allocate_all [OF assms(1), of 4096] by blast
    have len: "length s < Suc (length (dblk (adv 1 d)))"
      using at_length [OF d1] json_esc_grows [of s] by simp
    obtain t' where t': "escaped_loop mal (Suc (length (dblk (adv 1 d)))) err (adv 1 d) (Some t)
        = Some (Val (True, Some t', adv (length ?E) (adv 1 d), err))" "text_ok t'" "content t' = s"
      using escaped_loop_at [OF assms(1,5) _ d1 t(2) len] t(3) by auto
    have "take (length s) (tbuf t') = s" "tlen t' = length s"
      using t'(2,3) length_content [OF t'(2)] by (auto simp: content_def)
    then obtain v where v: "gql_string_create mal err (tbuf t') (int (tlen t')) = Val (Some v, err)" "json_of v = Some (JStr s)"
      using string_create_at [OF assms(1,4,3)] by metis
    have "parse_string mal err d = Some (Val (Some v, adv 1 (adv (length ?E) (adv 1 d)), err))"
      unfolding ps parse_escaped_def using t(1) t'(1) v(1) by simp
    then show ?thesis using d3 v(2) by auto
  qed
qed

section \<open>Values\<close>

text \<open>
  What the printer and the parser agree on: numbers of 64 bits but the least, strings that are
  not empty, keys without a quote and of at most 255 bytes.
\<close>

fun json_ok :: "json \<Rightarrow> bool" where
  "json_ok JNull = True"
| "json_ok (JBool b) = True"
| "json_ok (JNum i) = (\<bar>i\<bar> < 2 ^ 63)"
| "json_ok (JStr s) = (s \<noteq> [] \<and> NUL \<notin> set s)"
| "json_ok (JList js) = list_all json_ok js"
| "json_ok (JObj ms) = list_all (\<lambda>(k, j). NUL \<notin> set k \<and> CHR 0x22 \<notin> set k \<and> length k < 256 \<and> json_ok j) ms"

definition reads_back :: "double_ops \<Rightarrow> allocator \<Rightarrow> json \<Rightarrow> string \<Rightarrow> bool" where
  "reads_back fl mal j s \<longleftrightarrow>
    (\<forall>d w c r err. doc_at d (w @ s @ c # r) \<longrightarrow> list_all jwhite w \<longrightarrow> json_stop c \<longrightarrow> ecode err = AGOO_ERR_OK \<longrightarrow>
       (\<exists>m v d'. json_run fl mal m JValue err d = Some (Val (Some v, d', err)) \<and> doc_at d' (c # r) \<and> json_of v = Some j))"

lemma reads_backI:
  assumes "\<And>d c r err. doc_at d (x # s @ c # r) \<Longrightarrow> json_stop c \<Longrightarrow> ecode err = AGOO_ERR_OK \<Longrightarrow>
      \<exists>m v d'. parse_value fl mal (json_run fl mal m) err d = Some (Val (Some v, d', err)) \<and> doc_at d' (c # r) \<and> json_of v = Some j"
    "\<not> jwhite x"
  shows "reads_back fl mal j (x # s)"
  unfolding reads_back_def
proof (intro allI impI)
  fix d w c r and err :: agoo_err
  assume d: "doc_at d (w @ (x # s) @ c # r)" "list_all jwhite w" and c: "json_stop c" "ecode err = AGOO_ERR_OK"
  have sk: "agoo_doc_skip_jwhite d = Val (adv (length w) d)" using at_jwhite [of d w x "s @ c # r"] d assms(2) by simp
  have d1: "doc_at (adv (length w) d) (x # s @ c # r)" using at_adv [of d w] d by simp
  have "agoo_doc_skip_jwhite (adv (length w) d) = Val (adv (length w) d)" by (rule at_jwhite0 [OF d1 assms(2)])
  then have "parse_value fl mal rd err d = parse_value fl mal rd err (adv (length w) d)" for rd
    using sk by (simp add: parse_value_def)
  with assms(1) [OF d1 c] obtain m v d' where
    "json_run fl mal (Suc m) JValue err d = Some (Val (Some v, d', err))" "doc_at d' (c # r)" "json_of v = Some j" by auto
  then show "\<exists>m v d'. json_run fl mal m JValue err d = Some (Val (Some v, d', err)) \<and> doc_at d' (c # r) \<and> json_of v = Some j"
    by blast
qed

lemma reads_scalar:
  assumes "malloc_all mal"
  shows "reads_back fl mal JNull ''null''"
    "reads_back fl mal (JBool b) (if b then ''true'' else ''false'')"
    "\<bar>i\<bar> < 2 ^ 63 \<Longrightarrow> reads_back fl mal (JNum i) (int_str i)"
    "s \<noteq> [] \<Longrightarrow> NUL \<notin> set s \<Longrightarrow> reads_back fl mal (JStr s) ([CHR 0x22] @ concat (map json_esc s) @ [CHR 0x22])"
proof -
  have word: "reads_back fl mal j (x # xs)"
    if "x \<in> set ''tfn''" "m = Val (Some v)" "json_of v = Some j" "\<not> jwhite x"
      "\<And>rd err d. peek d 0 = Val x \<Longrightarrow> agoo_doc_skip_jwhite d = Val d \<Longrightarrow>
         parse_value fl mal rd err d = Some (parse_word (x # xs) m err d)" for x xs m v j
  proof (rule reads_backI [OF _ that(4)])
    fix d c r and err :: agoo_err
    assume d: "doc_at d (x # xs @ c # r)"
    then have d': "doc_at d ((x # xs) @ c # r)" by simp
    have "parse_value fl mal rd err d = Some (Val (Some v, adv (length (x # xs)) d, err))" for rd
      using that(5) [OF at_peek0 [OF d] at_jwhite0 [OF d that(4)]] parse_word_at [OF d'] that(2) by simp
    then show "\<exists>m v d'. parse_value fl mal (json_run fl mal m) err d = Some (Val (Some v, d', err)) \<and> doc_at d' (c # r) \<and> json_of v = Some j"
      using at_adv [OF d'] that(3) by blast
  qed
  show "reads_back fl mal JNull ''null''"
    by (rule word [OF _ create_numbers(6) [OF assms]])
       (simp_all add: gql_null_type_def jwhite_def parse_value_def is_digit_def)
  show "reads_back fl mal (JBool b) (if b then ''true'' else ''false'')"
    using word [OF _ create_numbers(5) [OF assms, of True], of "CHR ''t''" "JBool True" "''rue''"]
      word [OF _ create_numbers(5) [OF assms, of False], of "CHR ''f''" "JBool False" "''alse''"]
    by (cases b) (simp_all add: gql_bool_type_def jwhite_def parse_value_def is_digit_def number_bool byte_of_def NUL_def)
  show "reads_back fl mal (JNum i) (int_str i)" if i: "\<bar>i\<bar> < 2 ^ 63"
  proof -
    obtain x xs where x: "int_str i = x # xs" "x = CHR ''-'' \<or> is_digit x"
      using dec_str_digits [of "nat \<bar>i\<bar>"] by (cases "int_str i") (auto simp: int_str_def split: if_splits)
    have nw: "\<not> jwhite x" using x(2) by (auto simp: jwhite_def is_digit_def)
    show ?thesis unfolding x(1)
    proof (rule reads_backI [OF _ nw])
      fix d c r and err :: agoo_err
      assume d: "doc_at d (x # xs @ c # r)" and c: "json_stop c"
      then have d': "doc_at d (int_str i @ c # r)" using x by simp
      have "x \<notin> {CHR ''{'', CHR ''['', CHR 0x22}" using x(2) by (auto simp: is_digit_def)
      then have "parse_value fl mal rd err d = Some (parse_num fl mal err d)" for rd
        using x(2) at_peek0 [OF d] at_jwhite0 [OF d nw] by (auto simp: parse_value_def)
      then show "\<exists>m v d'. parse_value fl mal (json_run fl mal m) err d = Some (Val (Some v, d', err)) \<and> doc_at d' (c # r) \<and> json_of v = Some (JNum i)"
        using parse_num_int [OF assms d' c i, of fl err] by simp
    qed
  qed
  show "reads_back fl mal (JStr s) ([CHR 0x22] @ concat (map json_esc s) @ [CHR 0x22])" if s: "s \<noteq> []" "NUL \<notin> set s"
    unfolding append_Cons append_Nil
  proof (rule reads_backI)
    fix d c r and err :: agoo_err
    assume d: "doc_at d (CHR 0x22 # (concat (map json_esc s) @ [CHR 0x22]) @ c # r)" and err: "ecode err = AGOO_ERR_OK"
    then have d': "doc_at d (CHR 0x22 # concat (map json_esc s) @ CHR 0x22 # c # r)" by simp
    have "parse_value fl mal rd err d = parse_string mal err d" for rd
      using at_peek0 [OF d] at_jwhite0 [OF d] by (simp add: parse_value_def jwhite_def)
    then show "\<exists>m v d'. parse_value fl mal (json_run fl mal m) err d = Some (Val (Some v, d', err)) \<and> doc_at d' (c # r) \<and> json_of v = Some (JStr s)"
      using parse_string_at [OF assms d' s err] by simp
  qed (simp add: jwhite_def)
qed

section \<open>Lists and objects\<close>

lemma list_append_all:
  "malloc_all mal \<Longrightarrow> gql_list_append mal err (GqlValue type (Members ms t)) v =
     Val (AGOO_ERR_OK, GqlValue type (Members (ms @ [(None, v)]) t), err)"
  by (simp add: gql_list_append_def link_append_def gql_link_create_def malloc_allD(2) members_def set_members_def)

lemma object_set_all:
  "malloc_all mal \<Longrightarrow> NUL \<notin> set k \<Longrightarrow> gql_object_set mal err (GqlValue type (Members ms t)) k v =
     Val (AGOO_ERR_OK, GqlValue type (Members (ms @ [(Some k, v)]) t), err)"
  by (simp add: gql_object_set_def link_append_def gql_link_create_def malloc_allD(2) members_def set_members_def c_strndup_def)

lemma json_list_Cons: "json_of v = Some j \<Longrightarrow> json_list ms = Some js \<Longrightarrow> json_list ((None, v) # ms) = Some (j # js)"
  by simp

lemma json_obj_Cons:
  "json_of v = Some j \<Longrightarrow> json_obj ms = Some js \<Longrightarrow> NUL \<notin> set k \<Longrightarrow> json_obj ((Some k, v) # ms) = Some ((k, j) # js)"
  by simp

text \<open>What follows a member: nothing, or a comma and the next members.\<close>

definition tail_of :: "('a list \<Rightarrow> string) \<Rightarrow> 'a list \<Rightarrow> string" where
  "tail_of f xs = (if xs \<noteq> [] then CHR '','' # f xs else [])"

lemma json_prints_Cons: "json_prints n k (j # js) = indentation n k @ json_print n k j @ tail_of (json_prints n k) js"
  by (cases js) (simp_all add: tail_of_def)

lemma json_prints_obj_Cons:
  "json_prints_obj n k ((x, j) # ms) =
   indentation n k @ CHR 0x22 # x @ [CHR 0x22, CHR '':''] @ json_print n k j @ tail_of (json_prints_obj n k) ms"
  by (cases ms) (simp_all add: tail_of_def)

lemma close_next:
  assumes "list_all jwhite u" "json_stop x"
  obtains c q where "tail_of f xs @ u @ x # r = c # q" "json_stop c"
proof (cases "xs = []")
  case False
  then show ?thesis using that by (simp add: tail_of_def json_stop_def is_digit_def)
next
  case True
  show ?thesis
  proof (cases u)
    case (Cons c q)
    then have "json_stop c" using assms(1) by (auto simp: json_stop_def jwhite_def is_digit_def)
    then show ?thesis using that True Cons by (simp add: tail_of_def)
  qed (use that True assms(2) in \<open>simp add: tail_of_def\<close>)
qed

lemma array_rest_at:
  assumes "malloc_all mal" "r \<noteq> []" "list_all jwhite u" "ecode err = AGOO_ERR_OK"
  shows "\<forall>j' \<in> set (j # js). reads_back fl mal j' (json_print n k j') \<Longrightarrow> list_all jwhite w \<Longrightarrow>
    doc_at d (w @ json_print n k j @ tail_of (json_prints n k) js @ u @ CHR '']'' # r) \<Longrightarrow>
    \<exists>m ms' d'. json_run fl mal m (JArrayRest (GqlValue list_type (Members ms t))) err d =
        Some (Val (Some (GqlValue list_type (Members (ms @ ms') t)), d', err)) \<and>
      doc_at d' (CHR '']'' # r) \<and> json_list ms' = Some (j # js)"
proof (induction js arbitrary: j w d ms)
  case Nil
  have d: "doc_at d (w @ json_print n k j @ u @ CHR '']'' # r)" using Nil.prems(3) by (simp add: tail_of_def)
  obtain c q where cq: "u @ CHR '']'' # r = c # q" "json_stop c"
    using close_next [OF assms(3), of "CHR '']''" "json_prints n k" "[]" r]
    by (auto simp: json_stop_def is_digit_def tail_of_def)
  obtain m v d1 where v: "json_run fl mal m JValue err d = Some (Val (Some v, d1, err))" "doc_at d1 (c # q)" "json_of v = Some j"
    using Nil.prems(1,2) d cq assms(4) unfolding reads_back_def by (metis list.set_intros(1))
  have d1: "doc_at d1 (u @ CHR '']'' # r)" using v(2) cq(1) by simp
  have sk: "agoo_doc_skip_jwhite d1 = Val (adv (length u) d1)"
    by (rule at_jwhite [OF d1 assms(3)]) (simp add: jwhite_def)
  note d2 = at_adv [OF d1]
  have lt: "dcur d < dend d" using at_length [OF d] assms(2) by (cases r) auto
  have "json_run fl mal (Suc m) (JArrayRest (GqlValue list_type (Members ms t))) err d =
      Some (Val (Some (GqlValue list_type (Members (ms @ [(None, v)]) t)), adv (length u) d1, err))"
    using lt v(1) sk at_peek0 [OF d2] by (simp add: array_rest_def list_append_all [OF assms(1)])
  then show ?case using d2 v(3) by (intro exI conjI) (assumption, simp_all)
next
  case (Cons j2 js)
  let ?tl = "indentation n k @ json_print n k j2 @ tail_of (json_prints n k) js @ u @ CHR '']'' # r"
  have d: "doc_at d (w @ json_print n k j @ CHR '','' # ?tl)"
    using Cons.prems(3) by (simp add: tail_of_def [of _ "j2 # js"] json_prints_Cons del: json_prints.simps)
  have st: "json_stop CHR '',''" by (simp add: json_stop_def is_digit_def)
  obtain m v d1 where v: "json_run fl mal m JValue err d = Some (Val (Some v, d1, err))" "doc_at d1 (CHR '','' # ?tl)" "json_of v = Some j"
    using Cons.prems(1,2) d st assms(4) unfolding reads_back_def by (metis list.set_intros(1))
  have sk: "agoo_doc_skip_jwhite d1 = Val d1" by (rule at_jwhite0 [OF v(2)]) (simp add: jwhite_def)
  have hyp: "\<forall>j' \<in> set (j2 # js). reads_back fl mal j' (json_print n k j')" using Cons.prems(1) by simp
  obtain m2 ms' d' where r: "json_run fl mal m2 (JArrayRest (GqlValue list_type (Members (ms @ [(None, v)]) t))) err (adv 1 d1) =
        Some (Val (Some (GqlValue list_type (Members ((ms @ [(None, v)]) @ ms') t)), d', err))"
      "doc_at d' (CHR '']'' # r)" "json_list ms' = Some (j2 # js)"
    using Cons.IH [OF hyp indentation_white at_adv1 [OF v(2)], of "ms @ [(None, v)]"] by blast
  have lt: "dcur d < dend d" using at_length [OF d] assms(2) by (cases r) auto
  let ?M = "max m m2"
  have "json_run fl mal ?M JValue err d = Some (Val (Some v, d1, err))"
    "json_run fl mal ?M (JArrayRest (GqlValue list_type (Members (ms @ [(None, v)]) t))) err (adv 1 d1) =
        Some (Val (Some (GqlValue list_type (Members (ms @ (None, v) # ms') t)), d', err))"
    using json_run_more [OF _ v(1), of ?M] json_run_more [OF _ r(1), of ?M] by simp_all
  then have "json_run fl mal (Suc ?M) (JArrayRest (GqlValue list_type (Members ms t))) err d =
      Some (Val (Some (GqlValue list_type (Members (ms @ (None, v) # ms') t)), d', err))"
    using lt sk at_peek0 [OF v(2)] by (simp add: array_rest_def list_append_all [OF assms(1)])
  then show ?case using r(2) json_list_Cons [OF v(3) r(3)] by blast
qed

lemma parse_key_at:
  assumes "list_all jwhite w" "NUL \<notin> set k" "CHR 0x22 \<notin> set k" "length k < 256" "x # q = s" "\<not> jwhite x"
    "doc_at d (w @ CHR 0x22 # k @ [CHR 0x22, CHR '':''] @ s)"
  shows "\<exists>d'. parse_key d = Val (Inr k, d') \<and> agoo_doc_skip_jwhite d' = Val d' \<and> doc_at d' s"
proof -
  have d0: "doc_at d (w @ CHR 0x22 # k @ CHR 0x22 # CHR '':'' # s)" using assms(7) by simp
  have sk: "agoo_doc_skip_jwhite d = Val (adv (length w) d)"
    by (rule at_jwhite [OF d0 assms(1)]) (simp add: jwhite_def)
  note d1 = at_adv [OF d0]
  note d2 = at_adv1 [OF d1]
  let ?d2 = "adv 1 (adv (length w) d)"
  have sc: "scan_to (\<lambda>c. c \<noteq> CHR 0x22) ?d2 = Val (adv (length k) ?d2)"
    by (rule at_scan [OF d2]) (use assms(3) in \<open>auto simp: list_all_iff\<close>)
  note d3 = at_adv1 [OF at_adv [OF d2]]
  let ?d3 = "adv 1 (adv (length k) ?d2)"
  have sk3: "agoo_doc_skip_jwhite ?d3 = Val ?d3" by (rule at_jwhite0 [OF d3]) (simp add: jwhite_def)
  note d4 = at_adv1 [OF d3]
  have t: "take (length k) (str_at (dcur ?d2) ?d2) = k" using d2 by (simp add: str_at_def doc_at_def)
  have p3: "peek ?d3 0 = Val CHR '':''" by (rule at_peek0 [OF d3])
  have "parse_key d = Val (Inr k, adv 1 ?d3)"
    unfolding parse_key_def
    using sk at_peek0 [OF d1] sc sk3 p3 t assms(4) by (simp add: Let_def)
  moreover have "agoo_doc_skip_jwhite (adv 1 ?d3) = Val (adv 1 ?d3)"
    using at_jwhite0 [of "adv 1 ?d3" x q] d4 assms(5,6) by simp
  ultimately show ?thesis using d4 by blast
qed

lemma json_print_start: "\<exists>x s. json_print n k j = x # s \<and> \<not> jwhite x \<and> x \<noteq> CHR '']'' \<and> x \<noteq> CHR 0xEF"
proof (cases j)
  case (JNum i)
  obtain x xs where "int_str i = x # xs" "x = CHR ''-'' \<or> is_digit x"
    using dec_str_digits [of "nat \<bar>i\<bar>"] by (cases "int_str i") (auto simp: int_str_def split: if_splits)
  then show ?thesis using JNum by (auto simp: jwhite_def is_digit_def)
qed (auto simp: jwhite_def)

definition key_ok :: "string \<Rightarrow> bool" where
  "key_ok k \<longleftrightarrow> NUL \<notin> set k \<and> CHR 0x22 \<notin> set k \<and> length k < 256"

text \<open>A member, from its key to its value, and the step of the loop over it.\<close>

lemma member_at:
  assumes "malloc_all mal" "ecode err = AGOO_ERR_OK" "reads_back fl mal j (json_print n k j)" "key_ok x" "list_all jwhite w"
    "json_stop c" "doc_at d (w @ CHR 0x22 # x @ [CHR 0x22, CHR '':''] @ json_print n k j @ c # q)"
  shows "\<exists>m v d1 d2. parse_key d = Val (Inr x, d1) \<and> agoo_doc_skip_jwhite d1 = Val d1 \<and>
    json_run fl mal m JValue err d1 = Some (Val (Some v, d2, err)) \<and> doc_at d2 (c # q) \<and> json_of v = Some j \<and> dcur d < dend d"
proof -
  obtain y s where y: "json_print n k j = y # s" "\<not> jwhite y" using json_print_start by blast
  obtain d1 where d1: "parse_key d = Val (Inr x, d1)" "agoo_doc_skip_jwhite d1 = Val d1" "doc_at d1 (json_print n k j @ c # q)"
    using parse_key_at [of w x y "s @ c # q" "json_print n k j @ c # q" d] assms(4,5,7) y by (auto simp: key_ok_def)
  obtain m v d2 where "json_run fl mal m JValue err d1 = Some (Val (Some v, d2, err))" "doc_at d2 (c # q)" "json_of v = Some j"
    using assms(3) [unfolded reads_back_def, rule_format, of d1 "[]" c q err] d1(3) assms(2,6) by auto
  moreover have "dcur d < dend d" using at_length [OF assms(7)] by auto
  ultimately show ?thesis using d1 by blast
qed

lemma object_rest_at:
  assumes "malloc_all mal" "r \<noteq> []" "list_all jwhite u" "ecode err = AGOO_ERR_OK"
  shows "\<forall>(x', j') \<in> set ((x, j) # kjs). key_ok x' \<and> reads_back fl mal j' (json_print n k j') \<Longrightarrow> list_all jwhite w \<Longrightarrow>
    doc_at d (w @ CHR 0x22 # x @ [CHR 0x22, CHR '':''] @ json_print n k j @ tail_of (json_prints_obj n k) kjs @ u @ CHR ''}'' # r) \<Longrightarrow>
    \<exists>m ms' d'. json_run fl mal m (JObjectRest (GqlValue object_type (Members ms t))) err d =
        Some (Val (Some (GqlValue object_type (Members (ms @ ms') t)), d', err)) \<and>
      doc_at d' (CHR ''}'' # r) \<and> json_obj ms' = Some ((x, j) # kjs)"
proof (induction kjs arbitrary: x j w d ms)
  case Nil
  obtain c q where cq: "u @ CHR ''}'' # r = c # q" "json_stop c"
    using close_next [OF assms(3), of "CHR ''}''" "json_prints_obj n k" "[]" r]
    by (auto simp: json_stop_def is_digit_def tail_of_def)
  have d: "doc_at d (w @ CHR 0x22 # x @ [CHR 0x22, CHR '':''] @ json_print n k j @ c # q)"
    using Nil.prems(3) cq by (simp add: tail_of_def)
  have hyp: "reads_back fl mal j (json_print n k j)" "key_ok x" using Nil.prems(1) by simp_all
  obtain m v d1 d2 where v: "parse_key d = Val (Inr x, d1)" "agoo_doc_skip_jwhite d1 = Val d1"
    "json_run fl mal m JValue err d1 = Some (Val (Some v, d2, err))" "doc_at d2 (c # q)" "json_of v = Some j" "dcur d < dend d"
    using member_at [OF assms(1,4) hyp(1,2) Nil.prems(2) cq(2) d] by blast
  have d2: "doc_at d2 (u @ CHR ''}'' # r)" using v(4) cq(1) by simp
  have sk: "agoo_doc_skip_jwhite d2 = Val (adv (length u) d2)"
    by (rule at_jwhite [OF d2 assms(3)]) (simp add: jwhite_def)
  note d3 = at_adv [OF d2]
  have x: "NUL \<notin> set x" using Nil.prems(1) by (simp add: key_ok_def)
  have "json_run fl mal (Suc m) (JObjectRest (GqlValue object_type (Members ms t))) err d =
      Some (Val (Some (GqlValue object_type (Members (ms @ [(Some x, v)]) t)), adv (length u) d2, err))"
    using v sk at_peek0 [OF d3] by (simp add: object_rest_def object_set_all [OF assms(1) x])
  then show ?case using d3 v(5) x by (intro exI conjI) (assumption, simp_all)
next
  case (Cons kj kjs)
  obtain x2 j2 where kj: "kj = (x2, j2)" by (cases kj)
  let ?tl = "indentation n k @ CHR 0x22 # x2 @ [CHR 0x22, CHR '':''] @ json_print n k j2 @ tail_of (json_prints_obj n k) kjs @ u @ CHR ''}'' # r"
  have d: "doc_at d (w @ CHR 0x22 # x @ [CHR 0x22, CHR '':''] @ json_print n k j @ CHR '','' # ?tl)"
    using Cons.prems(3) kj by (simp add: tail_of_def [of _ "(x2, j2) # kjs"] json_prints_obj_Cons del: json_prints_obj.simps)
  have st: "json_stop CHR '',''" by (simp add: json_stop_def is_digit_def)
  have hyp: "reads_back fl mal j (json_print n k j)" "key_ok x"
    "\<forall>(x', j') \<in> set ((x2, j2) # kjs). key_ok x' \<and> reads_back fl mal j' (json_print n k j')"
    using Cons.prems(1) kj by auto
  obtain m v d1 d2 where v: "parse_key d = Val (Inr x, d1)" "agoo_doc_skip_jwhite d1 = Val d1"
    "json_run fl mal m JValue err d1 = Some (Val (Some v, d2, err))" "doc_at d2 (CHR '','' # ?tl)" "json_of v = Some j" "dcur d < dend d"
    using member_at [OF assms(1,4) hyp(1,2) Cons.prems(2) st d] by blast
  have sk: "agoo_doc_skip_jwhite d2 = Val d2" by (rule at_jwhite0 [OF v(4)]) (simp add: jwhite_def)
  have x: "NUL \<notin> set x" using Cons.prems(1) by (simp add: key_ok_def)
  obtain m2 ms' d' where r: "json_run fl mal m2 (JObjectRest (GqlValue object_type (Members (ms @ [(Some x, v)]) t))) err (adv 1 d2) =
        Some (Val (Some (GqlValue object_type (Members ((ms @ [(Some x, v)]) @ ms') t)), d', err))"
      "doc_at d' (CHR ''}'' # r)" "json_obj ms' = Some ((x2, j2) # kjs)"
    using Cons.IH [OF hyp(3) indentation_white at_adv1 [OF v(4)], of "ms @ [(Some x, v)]"] by blast
  let ?M = "max m m2"
  have "json_run fl mal ?M JValue err d1 = Some (Val (Some v, d2, err))"
    "json_run fl mal ?M (JObjectRest (GqlValue object_type (Members (ms @ [(Some x, v)]) t))) err (adv 1 d2) =
        Some (Val (Some (GqlValue object_type (Members (ms @ (Some x, v) # ms') t)), d', err))"
    using json_run_more [OF _ v(3), of ?M] json_run_more [OF _ r(1), of ?M] by simp_all
  then have "json_run fl mal (Suc ?M) (JObjectRest (GqlValue object_type (Members ms t))) err d =
      Some (Val (Some (GqlValue object_type (Members (ms @ (Some x, v) # ms') t)), d', err))"
    using v(1,2,6) sk at_peek0 [OF v(4)] by (simp add: object_rest_def object_set_all [OF assms(1) x])
  then show ?case using r(2) json_obj_Cons [OF v(5) r(3) x] kj by blast
qed

lemma reads_list:
  assumes "malloc_all mal" "\<forall>j \<in> set js. \<forall>k. reads_back fl mal j (json_print n k j)"
  shows "reads_back fl mal (JList js) (json_print n k (JList js))"
proof -
  have "reads_back fl mal (JList js) (CHR ''['' # json_prints n (Suc k) js @ indentation n k @ [CHR '']''])"
  proof (rule reads_backI)
    fix d c r and err :: agoo_err
    assume d: "doc_at d (CHR ''['' # (json_prints n (Suc k) js @ indentation n k @ [CHR '']'']) @ c # r)"
      and err: "ecode err = AGOO_ERR_OK"
    then have d0: "doc_at d (CHR ''['' # json_prints n (Suc k) js @ indentation n k @ CHR '']'' # c # r)" by simp
    have pv: "parse_value fl mal rd err d = parse_array mal rd err d" for rd
      using at_peek0 [OF d0] at_jwhite0 [OF d0] by (simp add: parse_value_def jwhite_def)
    note d1 = at_adv1 [OF d0]
    show "\<exists>m v d'. parse_value fl mal (json_run fl mal m) err d = Some (Val (Some v, d', err)) \<and> doc_at d' (c # r) \<and> json_of v = Some (JList js)"
    proof (cases js)
      case Nil
      then have d1': "doc_at (adv 1 d) (indentation n k @ CHR '']'' # c # r)" using d1 by simp
      have sk: "agoo_doc_skip_jwhite (adv 1 d) = Val (adv (length (indentation n k)) (adv 1 d))"
        by (rule at_jwhite [OF d1' indentation_white]) (simp add: jwhite_def)
      note d2 = at_adv [OF d1']
      have "parse_value fl mal (json_run fl mal 0) err d =
          Some (Val (Some (GqlValue list_type (Members [] None)), adv 1 (adv (length (indentation n k)) (adv 1 d)), err))"
        using sk at_peek0 [OF d2] by (simp add: pv parse_array_def create_numbers [OF assms(1)] parse_close_def)
      then show ?thesis using at_adv1 [OF d2] Nil by (intro exI conjI) (assumption, assumption, simp add: list_type_def)
    next
      case (Cons j js')
      obtain x s where x: "json_print n (Suc k) j = x # s" "\<not> jwhite x" "x \<noteq> CHR '']''" using json_print_start by blast
      let ?tl = "tail_of (json_prints n (Suc k)) js' @ indentation n k @ CHR '']'' # c # r"
      have d1': "doc_at (adv 1 d) (indentation n (Suc k) @ json_print n (Suc k) j @ ?tl)"
        using d1 Cons by (simp add: json_prints_Cons del: json_prints.simps)
      then have d1x: "doc_at (adv 1 d) (indentation n (Suc k) @ x # s @ ?tl)" using x(1) by simp
      have sk: "agoo_doc_skip_jwhite (adv 1 d) = Val (adv (length (indentation n (Suc k))) (adv 1 d))"
        by (rule at_jwhite [OF d1x indentation_white x(2)])
      let ?d2 = "adv (length (indentation n (Suc k))) (adv 1 d)"
      have d2: "doc_at ?d2 ([] @ json_print n (Suc k) j @ ?tl)" using at_adv [OF d1'] by simp
      have p2: "peek ?d2 0 = Val x" using at_peek0 [OF at_adv [OF d1x]] .
      have hyp: "\<forall>j' \<in> set (j # js'). reads_back fl mal j' (json_print n (Suc k) j')" using assms(2) Cons by simp
      obtain m ms d3 where m: "json_run fl mal m (JArrayRest (GqlValue list_type (Members [] None))) err ?d2 =
            Some (Val (Some (GqlValue list_type (Members ms None)), d3, err))"
          "doc_at d3 (CHR '']'' # c # r)" "json_list ms = Some (j # js')"
        using array_rest_at [OF assms(1) _ indentation_white err hyp _ d2, of "[]" None] by auto
      have "parse_value fl mal (json_run fl mal m) err d = Some (Val (Some (GqlValue list_type (Members ms None)), adv 1 d3, err))"
        using sk p2 x(3) m(1) at_peek0 [OF m(2)] by (simp add: pv parse_array_def create_numbers [OF assms(1)] parse_close_def)
      then show ?thesis using at_adv1 [OF m(2)] m(3) Cons by (intro exI conjI) (assumption, assumption, simp add: list_type_def)
    qed
  qed (simp add: jwhite_def)
  then show ?thesis by simp
qed

lemma reads_object:
  assumes "malloc_all mal" "\<forall>(x, j) \<in> set kjs. key_ok x \<and> (\<forall>k. reads_back fl mal j (json_print n k j))"
  shows "reads_back fl mal (JObj kjs) (json_print n k (JObj kjs))"
proof -
  have "reads_back fl mal (JObj kjs) (CHR ''{'' # json_prints_obj n (Suc k) kjs @ indentation n k @ [CHR ''}''])"
  proof (rule reads_backI)
    fix d c r and err :: agoo_err
    assume d: "doc_at d (CHR ''{'' # (json_prints_obj n (Suc k) kjs @ indentation n k @ [CHR ''}'']) @ c # r)"
      and err: "ecode err = AGOO_ERR_OK"
    then have d0: "doc_at d (CHR ''{'' # json_prints_obj n (Suc k) kjs @ indentation n k @ CHR ''}'' # c # r)" by simp
    have pv: "parse_value fl mal rd err d = parse_object mal rd err d" for rd
      using at_peek0 [OF d0] at_jwhite0 [OF d0] by (simp add: parse_value_def jwhite_def)
    note d1 = at_adv1 [OF d0]
    show "\<exists>m v d'. parse_value fl mal (json_run fl mal m) err d = Some (Val (Some v, d', err)) \<and> doc_at d' (c # r) \<and> json_of v = Some (JObj kjs)"
    proof (cases kjs)
      case Nil
      then have d1': "doc_at (adv 1 d) (indentation n k @ CHR ''}'' # c # r)" using d1 by simp
      have sk: "agoo_doc_skip_jwhite (adv 1 d) = Val (adv (length (indentation n k)) (adv 1 d))"
        by (rule at_jwhite [OF d1' indentation_white]) (simp add: jwhite_def)
      note d2 = at_adv [OF d1']
      have "parse_value fl mal (json_run fl mal 0) err d =
          Some (Val (Some (GqlValue object_type (Members [] None)), adv 1 (adv (length (indentation n k)) (adv 1 d)), err))"
        using sk at_peek0 [OF d2] by (simp add: pv parse_object_def create_numbers [OF assms(1)] parse_close_def)
      then show ?thesis using at_adv1 [OF d2] Nil by (intro exI conjI) (assumption, assumption, simp add: object_type_def)
    next
      case (Cons kj kjs')
      obtain x j where kj: "kj = (x, j)" by (cases kj)
      let ?tl = "x @ [CHR 0x22, CHR '':''] @ json_print n (Suc k) j @ tail_of (json_prints_obj n (Suc k)) kjs' @ indentation n k @ CHR ''}'' # c # r"
      have d1': "doc_at (adv 1 d) (indentation n (Suc k) @ CHR 0x22 # ?tl)"
        using d1 Cons kj by (simp add: json_prints_obj_Cons del: json_prints_obj.simps)
      have sk: "agoo_doc_skip_jwhite (adv 1 d) = Val (adv (length (indentation n (Suc k))) (adv 1 d))"
        by (rule at_jwhite [OF d1' indentation_white]) (simp add: jwhite_def)
      let ?d2 = "adv (length (indentation n (Suc k))) (adv 1 d)"
      have d2: "doc_at ?d2 ([] @ CHR 0x22 # ?tl)" using at_adv [OF d1'] by simp
      have p2: "peek ?d2 0 = Val CHR 0x22" using at_peek0 [OF at_adv [OF d1']] .
      have hyp: "\<forall>(x', j') \<in> set ((x, j) # kjs'). key_ok x' \<and> reads_back fl mal j' (json_print n (Suc k) j')"
        using assms(2) Cons kj by auto
      obtain m ms d3 where m: "json_run fl mal m (JObjectRest (GqlValue object_type (Members [] None))) err ?d2 =
            Some (Val (Some (GqlValue object_type (Members ms None)), d3, err))"
          "doc_at d3 (CHR ''}'' # c # r)" "json_obj ms = Some ((x, j) # kjs')"
        using object_rest_at [OF assms(1) _ indentation_white err hyp _ d2, of "[]" None] by auto
      have "parse_value fl mal (json_run fl mal m) err d = Some (Val (Some (GqlValue object_type (Members ms None)), adv 1 d3, err))"
        using sk p2 m(1) at_peek0 [OF m(2)] by (simp add: pv parse_object_def create_numbers [OF assms(1)] parse_close_def)
      then show ?thesis using at_adv1 [OF m(2)] m(3) Cons kj by (intro exI conjI) (assumption, assumption, simp add: object_type_def)
    qed
  qed (simp add: jwhite_def)
  then show ?thesis by simp
qed

lemma reads_json: "malloc_all mal \<Longrightarrow> json_ok j \<Longrightarrow> reads_back fl mal j (json_print n k j)"
proof (induction j arbitrary: k)
  case (JList js)
  then show ?case by (intro reads_list) (auto simp: list_all_iff)
next
  case (JObj kjs)
  then show ?case by (intro reads_object) (fastforce simp: list_all_iff key_ok_def)+
qed (simp_all add: reads_scalar [simplified])

section \<open>The properties\<close>

text \<open>A run of the parser that ends does so with every fuel above the bound, and alike.\<close>

lemma json_run_enough:
  assumes "need job d < n" "json_run fl mal m job err d = Some r"
  shows "json_run fl mal n job err d = Some r"
proof -
  obtain r' where r': "json_run fl mal n job err d = Some r'" using json_run_ends [OF assms(1), of fl mal err] by blast
  have "json_run fl mal (max m n) job err d = Some r" "json_run fl mal (max m n) job err d = Some r'"
    using json_run_more [OF _ assms(2), of "max m n"] json_run_more [OF _ r', of "max m n"] by simp_all
  with r' show ?thesis by simp
qed

lemma doc_init_at:
  assumes "s = x # q" "x \<noteq> CHR 0xEF"
  shows "agoo_doc_init (s @ [NUL]) (int (length s)) = Val \<lparr>dblk = s @ [NUL], dcur = 0, dend = length s\<rparr>"
    "doc_at \<lparr>dblk = s @ [NUL], dcur = 0, dend = length s\<rparr> (s @ [NUL])"
  using assms by (simp_all add: agoo_doc_init_def Let_def peek_def arg_len_def doc_at_def)

text \<open>
  C2. What the JSON printer writes for a value is read back by the JSON parser as a value with
  the same data: null, booleans, integers, strings with all their escapes (times, UUIDs, tokens
  and IDs are strings in JSON), lists and objects, with any indentation that fits. The parser
  stops at the end of the text, and any fuel above twice the length of the block is enough. The
  exceptions the code has are in the hypothesis \<open>json_ok\<close>: empty strings, the least integer, and
  keys with a quote or more than 255 bytes.
\<close>

theorem json_round_trip:
  assumes "malloc_all mal" "json_of v = Some j" "json_ok j" "indent_fits n 0 (json_height j)"
    "text_ok t" "terminated t" "content t = []" "ecode err = AGOO_ERR_OK"
  shows "\<exists>t' v' d'. gql_value_json fl mal n 0 v (Some t) = Val (Some t') \<and> content t' = json_print n 0 j \<and>
    json_of v' = Some j \<and> dcur d' = tlen t' \<and>
    (\<forall>fuel. 2 * (tlen t' + 1) < fuel \<longrightarrow>
       gql_json_parse fl mal fuel err (take (tlen t' + 1) (tbuf t')) (tlen t') = Some (Val (Some v', d', err)))"
proof -
  have "writes mal (gql_value_json fl mal n (int 0) v) (json_print n 0 j)"
    by (rule writes_value(1) [OF malloc_allD(1) [OF assms(1)] assms(2,4)])
  then have "(\<exists>n. mal n = None) \<and> gql_value_json fl mal n 0 v (Some t) = Val None \<or>
      (\<exists>t'. gql_value_json fl mal n 0 v (Some t) = Val (Some t') \<and> text_ok t' \<and> terminated t' \<and> content t' = content t @ json_print n 0 j)"
    using assms(5,6) unfolding writes_def by simp
  then obtain t' where t': "gql_value_json fl mal n 0 v (Some t) = Val (Some t')" "text_ok t'" "terminated t'"
    "content t' = json_print n 0 j" using malloc_allD(2) [OF assms(1)] assms(7) by auto
  let ?s = "json_print n 0 j"
  have blk: "take (tlen t' + 1) (tbuf t') = ?s @ [NUL]"
    using t'(3) by (simp add: take_Suc_conv_app_nth terminated_def t'(4) [symmetric] content_def)
  have len: "tlen t' = length ?s" using length_content [OF t'(2)] t'(4) by simp
  obtain x q where x: "?s = x # q" "x \<noteq> CHR 0xEF" using json_print_start by blast
  let ?d = "\<lparr>dblk = ?s @ [NUL], dcur = 0, dend = length ?s\<rparr>"
  note init = doc_init_at [OF x]
  have at: "doc_at ?d ([] @ ?s @ NUL # [])" using init(2) by simp
  have "json_stop NUL" by (simp add: json_stop_def is_digit_def NUL_def)
  then obtain m v' d' where r: "json_run fl mal m JValue err ?d = Some (Val (Some v', d', err))" "doc_at d' [NUL]" "json_of v' = Some j"
    using reads_json [OF assms(1,3), of fl n 0] at assms(8) unfolding reads_back_def by (metis list.pred_inject(1))
  have "gql_json_parse fl mal fuel err (take (tlen t' + 1) (tbuf t')) (tlen t') = Some (Val (Some v', d', err))"
    if "2 * (tlen t' + 1) < fuel" for fuel
  proof -
    have "need JValue ?d < fuel" using that len by (simp add: need_def)
    from json_run_enough [OF this r(1)] show ?thesis
      unfolding gql_json_parse_def blk unfolding len init(1) by simp
  qed
  moreover have "dcur d' = tlen t'"
    using at_length [OF r(2)] reader_laterD [OF json_run_later r(1)] len by (simp add: later_def)
  ultimately show ?thesis using t'(1,4) r(3) by blast
qed

text \<open>An empty text, for concrete runs.\<close>

definition empty_text :: agoo_text where
  "empty_text = \<lparr>tlen = 0, talen = 8, tref = 1, tbin = False, tbuf = replicate 9 NUL\<rparr>"

lemma empty_text_ok: "text_ok empty_text" "terminated empty_text" "content empty_text = []"
  by (simp_all add: empty_text_def text_ok_def terminated_def content_def)

definition sample_value :: gqlValue where
  "sample_value = GqlValue object_type
     (Members [(Some ''n'', GqlValue gql_int_type (number_union (le_bytes 4 (- 7 :: 32 word)))),
               (Some ''s'', GqlValue gql_string_type (inline_union [CHR ''a'', CHR 0x0A, CHR 0x22, CHR 0x01, NUL])),
               (Some ''l'', GqlValue list_type (Members [(None, GqlValue gql_null_type (Scalar zero8 (Raw zero8)))] None))] None)"

lemma sample_json:
  "json_of sample_value = Some (JObj [(''n'', JNum (- 7)), (''s'', JStr [CHR ''a'', CHR 0x0A, CHR 0x22, CHR 0x01]), (''l'', JList [JNull])])"
proof -
  have n: "union_get 4 (number_union (le_bytes 4 (- 7 :: 32 word))) = Val (- 7 :: 32 word)" by (rule get_le) simp
  have s: "str_view (inline_union [CHR ''a'', CHR 0x0A, CHR 0x22, CHR 0x01, NUL]) = Val (Some [CHR ''a'', CHR 0x0A, CHR 0x22, CHR 0x01])"
    by (subst inline_union_view) (simp_all add: cstr_def NUL_def)
  show ?thesis by (simp add: sample_value_def gql_types n json_str_of_def s) (simp add: cstr_def NUL_def)
qed

lemma json_round_trip_witness:
  "\<exists>t' v' d'. gql_value_json no_doubles mal0 2 0 sample_value (Some empty_text) = Val (Some t') \<and>
     json_of v' = json_of sample_value \<and>
     gql_json_parse no_doubles mal0 (2 * tlen t' + 3) no_err (take (tlen t' + 1) (tbuf t')) (tlen t') = Some (Val (Some v', d', no_err))"
proof -
  have ok: "json_ok (JObj [(''n'', JNum (- 7)), (''s'', JStr [CHR ''a'', CHR 0x0A, CHR 0x22, CHR 0x01]), (''l'', JList [JNull])])"
    by (simp add: NUL_def)
  have f: "indent_fits 2 0 (json_height (JObj [(''n'', JNum (- 7)), (''s'', JStr [CHR ''a'', CHR 0x0A, CHR 0x22, CHR 0x01]), (''l'', JList [JNull])]))"
    by (simp add: indent_fits_def)
  show ?thesis
    using json_round_trip [OF malloc_all_mal0 sample_json ok f empty_text_ok, of no_err no_doubles] sample_json
    by (fastforce simp: no_err_def)
qed

text \<open>
  C12. The JSON parser always returns: for any document, whether or not it is well formed and
  whatever lies behind it, every fuel above twice the length of the readable block gives one
  and the same outcome.
\<close>

theorem json_parse_returns:
  "\<exists>r. \<forall>fuel. 2 * length json < fuel \<longrightarrow> gql_json_parse fl mal fuel err json len = Some r"
proof (cases "agoo_doc_init json (int len)")
  case UB
  then show ?thesis by (auto simp: gql_json_parse_def)
next
  case (Val d)
  then have "dblk d = json" by (auto simp: agoo_doc_init_def Let_def mem_bind_eq_Val split: if_splits)
  then have n: "need JValue d \<le> 2 * length json" by (simp add: need_def)
  obtain r where r: "json_run fl mal (Suc (2 * length json)) JValue err d = Some r"
    using json_run_ends [of JValue d "Suc (2 * length json)" fl mal err] n by auto
  have "json_run fl mal fuel JValue err d = Some r" if "2 * length json < fuel" for fuel
    using json_run_more [OF _ r, of fuel] that by simp
  then show ?thesis using Val by (auto simp: gql_json_parse_def)
qed

lemma json_parse_returns_witness:
  "\<exists>r. gql_json_parse no_doubles mal0 9 no_err [CHR ''['', CHR ''1'', CHR 0x22, NUL] 3 = Some r"
  using json_parse_returns [of "[CHR ''['', CHR ''1'', CHR 0x22, NUL]" no_doubles mal0 no_err 3] by auto

end
