(* ===== verification/JsonBugs.thy ===== *)
theory JsonBugs
  imports JsonRound
begin

text \<open>
  Where the values, their printers and their parsers leave the right path: empty strings,
  strings that do not end, wide indentation, and lists of SDL that never end.
\<close>

section \<open>JSON strings\<close>

lemma parse_quote:
  assumes "doc_at d (CHR 0x22 # s)"
  shows "parse_value fl mal rd err d = parse_string mal err d"
  using at_peek0 [OF assms] at_jwhite0 [OF assms] by (simp add: parse_value_def jwhite_def)

lemma cstr_take_strlen: "cstr (take (strlen s) s) = cstr s"
  by (simp add: take_strlen)

text \<open>
  An empty string in JSON is read as the rest of the document: its length 0 stands for
  \<open>strlen\<close>. What follows the opening quote up to the end of the document becomes the value.
\<close>

theorem json_empty_string:
  assumes "malloc_all mal" "NUL \<notin> set rest"
  shows "\<exists>v d. gql_json_parse fl mal (Suc n) err (CHR 0x22 # CHR 0x22 # rest @ [NUL]) (length rest + 2) = Some (Val (Some v, d, err)) \<and>
    json_of v = Some (JStr (CHR 0x22 # rest)) \<and> dcur d = 2"
proof -
  let ?s = "CHR 0x22 # CHR 0x22 # rest"
  define d where "d = \<lparr>dblk = ?s @ [NUL], dcur = 0, dend = length ?s\<rparr>"
  have init: "agoo_doc_init (?s @ [NUL]) (int (length ?s)) = Val d" and d: "doc_at d (CHR 0x22 # CHR 0x22 # rest @ [NUL])"
    using doc_init_at [of ?s "CHR 0x22" "CHR 0x22 # rest"] by (simp_all add: d_def)
  note d1 = at_adv1 [OF d]
  have sc: "scan_to (\<lambda>c. c \<noteq> CHR 0x22 \<and> c \<noteq> CHR 0x5C) (adv 1 d) = Val (adv 1 d)"
    using at_scan [of "adv 1 d" "[]" "CHR 0x22" "rest @ [NUL]" "\<lambda>c. c \<noteq> CHR 0x22 \<and> c \<noteq> CHR 0x5C"] d1 by simp
  have m: "dcur (adv 1 d) < dend (adv 1 d)" using at_more [OF d1] by simp
  let ?r = "CHR 0x22 # rest @ [NUL]"
  have at: "str_at (dcur (adv 1 d)) (adv 1 d) = ?r" using d1 by (simp add: str_at_def doc_at_def)
  have "list_all (\<lambda>c. c \<noteq> NUL) rest" using assms(2) by (auto simp: list_all_iff)
  moreover have "CHR 0x22 \<noteq> NUL" by (simp add: NUL_def)
  ultimately have c: "cstr ?r = CHR 0x22 # rest"
    using takeWhile_stop [of "\<lambda>c. c \<noteq> NUL" rest NUL "[]"] by (simp add: cstr_def)
  obtain u where u: "gql_string_create mal err ?r 0 = Val (Some (GqlValue gql_string_type u), err)" "str_view u = Val (Some (CHR 0x22 # rest))"
    using str_create_ok [OF assms(1), of err gql_string_type ?r 0 1050]
    by (auto simp: gql_string_create_def arg_len_def cstr_take_strlen c)
  have "parse_string mal err d = Some (Val (Some (GqlValue gql_string_type u), adv 1 (adv 1 d), err))"
    using at_peek0 [OF d] sc m at_peek0 [OF d1] at u(1) by (simp add: parse_string_def Let_def)
  moreover have "json_of (GqlValue gql_string_type u) = Some (JStr (CHR 0x22 # rest))"
    using u(2) assms(2) by (simp add: gql_string_type_def json_str_of_def NUL_def)
  moreover have "gql_json_parse fl mal (Suc n) err (?s @ [NUL]) (length ?s) = parse_string mal err d"
    unfolding gql_json_parse_def init using parse_quote [OF d] by simp
  ultimately show ?thesis by (auto simp: d_def)
qed

lemma json_empty_string_witness:
  "\<exists>v d. gql_json_parse no_doubles mal0 1 no_err [CHR 0x22, CHR 0x22, CHR '','', CHR ''1'', NUL] 4 = Some (Val (Some v, d, no_err)) \<and>
     json_of v = Some (JStr [CHR 0x22, CHR '','', CHR ''1''])"
  using json_empty_string [OF malloc_all_mal0, of "'',1''" no_doubles 0 no_err] by (fastforce simp: NUL_def eval_nat_numeral)

lemma at_scan_end:
  assumes "doc_at d (w @ [c])" "list_all P w"
  shows "scan_to P d = Val (adv (length w) d)"
proof -
  have l: "dend d - dcur d = length w" using at_length [OF assms(1)] by simp
  have "takeWhile P (take (dend d - dcur d) (drop (dcur d) (dblk d))) = w"
    using assms by (simp add: l doc_at_def list_all_iff)
  then show ?thesis using at_length [OF assms(1)] by (simp add: scan_to_def Let_def)
qed

text \<open>
  A string that does not end makes the parser read behind the document: its position moves
  over the terminating NUL, and the search for the next comma begins outside the block.
\<close>

theorem json_unterminated:
  assumes "malloc_all mal" "list_all (\<lambda>c. c \<noteq> CHR 0x22 \<and> c \<noteq> CHR 0x5C) s"
  shows "gql_json_parse fl mal (n + 3) err (CHR ''['' # CHR 0x22 # s @ [NUL]) (length s + 2) = Some UB"
proof -
  let ?s = "CHR ''['' # CHR 0x22 # s"
  define d where "d = \<lparr>dblk = ?s @ [NUL], dcur = 0, dend = length ?s\<rparr>"
  have init: "agoo_doc_init (?s @ [NUL]) (int (length ?s)) = Val d" and d: "doc_at d (CHR ''['' # CHR 0x22 # s @ [NUL])"
    using doc_init_at [of ?s "CHR ''[''" "CHR 0x22 # s"] by (simp_all add: d_def)
  note d1 = at_adv1 [OF d] note d2 = at_adv1 [OF d1]
  let ?d3 = "adv (length s) (adv 1 (adv 1 d))"
  have sc: "scan_to (\<lambda>c. c \<noteq> CHR 0x22 \<and> c \<noteq> CHR 0x5C) (adv 1 (adv 1 d)) = Val ?d3"
    by (rule at_scan_end [OF d2 assms(2)])
  have m: "\<not> dcur ?d3 < dend ?d3" using at_length [OF d2] by simp
  let ?r = "str_at (dcur (adv 1 (adv 1 d))) (adv 1 (adv 1 d))"
  obtain u where u: "gql_string_create mal err ?r (int (length s)) = Val (Some (GqlValue gql_string_type u), err)"
    using str_create_ok [OF assms(1), of err gql_string_type ?r "int (length s)" 1050] by (auto simp: gql_string_create_def)
  have "parse_string mal err (adv 1 d) = Some (Val (Some (GqlValue gql_string_type u), adv 1 ?d3, err))"
    using at_peek0 [OF d1] sc m u by (simp add: parse_string_def Let_def) (simp add: NUL_def)
  then have v: "json_run fl mal (Suc n) JValue err (adv 1 d) = Some (Val (Some (GqlValue gql_string_type u), adv 1 ?d3, err))"
    using parse_quote [OF d1] by simp
  have sk3: "agoo_doc_skip_jwhite (adv 1 ?d3) = UB"
    using at_length [OF d2] by (simp add: agoo_doc_skip_jwhite_def skip_while_def)
  have sk: "agoo_doc_skip_jwhite d = Val d" "agoo_doc_skip_jwhite (adv 1 d) = Val (adv 1 d)"
    by (rule at_jwhite0 [OF d], simp add: jwhite_def) (rule at_jwhite0 [OF d1], simp add: jwhite_def)
  have lt: "dcur (adv 1 d) < dend (adv 1 d)" using at_length [OF d1] by simp
  have "json_run fl mal (Suc (Suc n)) (JArrayRest (GqlValue list_type (Members [] None))) err (adv 1 d) = Some UB"
    unfolding json_run.simps(2) [of _ _ "Suc n"] json_job.case array_rest_def v using lt sk3 by (simp add: list_append_all [OF assms(1)])
  then have "json_run fl mal (Suc (Suc (Suc n))) JValue err d = Some UB"
    unfolding json_run.simps(2) [of _ _ "Suc (Suc n)"] json_job.case
    using sk at_peek0 [OF d] at_peek0 [OF d1] by (simp add: parse_value_def parse_array_def create_numbers [OF assms(1)])
  then show ?thesis using init by (simp add: gql_json_parse_def numeral_3_eq_3)
qed

lemma json_unterminated_witness:
  "gql_json_parse no_doubles mal0 9 no_err [CHR ''['', CHR 0x22, CHR ''a'', NUL] 3 = Some UB"
  using json_unterminated [OF malloc_all_mal0, of "''a''" no_doubles 6 no_err] by (simp add: eval_nat_numeral NUL_def)

section \<open>Indentation\<close>

text \<open>
  C31. The indentation of a list or an object is copied from a static array of 257 bytes. With an
  indentation of 257 or more, which a request chooses with its parameter \<open>indent\<close>, the copy in
  front of the first member reads behind that array.
\<close>

theorem json_indent_overread:
  assumes "malloc_all mal" "text_ok t" "257 \<le> n" "ty \<in> {list_type, object_type}" "ms \<noteq> []"
  shows "gql_value_json fl mal n 0 (GqlValue ty (Members ms mt)) (Some t) = UB"
proof -
  obtain k v ms' where ms: "ms = (k, v) # ms'" using assms(5) by (cases ms) auto
  have ind: "indents n 0 = (1, n + 1)" using assms(3) by (simp add: indents_def)
  have over: "indent_before mal (n + 1) (Some t1) = UB" for t1
  proof -
    have "arg_len spaces (n + 1) = nat (n + 1)" using assms(3) by (simp add: arg_len_def)
    moreover have "\<not> nat (n + 1) \<le> length spaces" using assms(3) by (simp add: length_spaces)
    moreover have "text_grow mal t1 m \<noteq> None" for m
      using malloc_allD(2) [OF assms(1)] by (simp add: text_grow_None refused_def)
    ultimately show ?thesis using assms(3)
      by (auto simp: indent_before_def agoo_text_append_def Let_def blk_read_def split: option.splits)
  qed
  have open_: "\<exists>t1. agoo_text_append mal (Some t) [c] 1 = Val (Some t1)" for c
    using appended_all [OF assms(1) text_append_ok_len [OF malloc_allD(1) [OF assms(1)] assms(2), of "[c]" 1]] by (auto simp: arg_len_def)
  from open_ [of "CHR ''[''"] open_ [of "CHR ''{''"] show ?thesis
    using assms(4) ms over ind by (auto simp: list_type_def object_type_def)
qed

lemma json_indent_overread_witness:
  "gql_value_json no_doubles mal0 1000 0 sample_value (Some empty_text) = UB"
  unfolding sample_value_def by (rule json_indent_overread) (simp_all add: malloc_all_mal0 empty_text_ok)

section \<open>Lists of SDL\<close>

text \<open>A character that starts no value and is no token: reading a value there does not move.\<close>

definition stuck :: "char \<Rightarrow> bool" where
  "stuck c \<longleftrightarrow> char_map ! of_char c \<noteq> CHR ''w'' \<and> \<not> token_char c \<and> \<not> is_digit c \<and>
     c \<notin> {CHR ''#'', CHR '']'', CHR ''['', CHR ''{'', CHR 0x22, CHR ''$'', CHR ''-'', CHR ''+''}"

lemma at_skip_white:
  assumes "doc_at d (c # s)" "char_map ! of_char c \<noteq> CHR ''w''" "c \<noteq> CHR ''#''"
  shows "agoo_doc_skip_white d = Val d"
  using at_skip [of d "[]" c s "\<lambda>c. char_map ! of_char c = CHR ''w''"] assms at_peek0 [OF assms(1)]
  by (subst agoo_doc_skip_white.simps) simp

lemma read_stuck:
  assumes "malloc_all mal" "doc_at d (c # s)" "stuck c"
  shows "\<exists>v. read_value_body fl mal rd type err d = Some (Val (Some v, d, err))"
proof -
  have c: "char_map ! of_char c \<noteq> CHR ''w''" "c \<noteq> CHR ''#''" "\<not> token_char c" "\<not> is_digit c"
    "c \<notin> {CHR ''['', CHR ''{'', CHR 0x22, CHR ''$'', CHR ''-'', CHR ''+''}"
    using assms(3) by (simp_all add: stuck_def)
  have tok: "agoo_doc_read_token d = Val d" using at_peek0 [OF assms(2)] c(3) by (simp add: agoo_doc_read_token_def)
  let ?t = "case type of None \<Rightarrow> gql_token_type | Some t \<Rightarrow> if gkind t \<noteq> GQL_ENUM then gql_token_type else t"
  obtain u where "gql_token_create mal err (str_at (dcur d) d) 0 type = Val (Some (GqlValue ?t u), err)"
    using str_create_ok [OF assms(1), of err ?t "str_at (dcur d) d" 0 1076] unfolding gql_token_create_def by blast
  then have "read_word mal type err d c = Val (Some (GqlValue ?t u), d, err)"
    by (simp add: read_word_def tok)
  then show ?thesis
    using at_skip_white [OF assms(2) c(1,2)] at_peek0 [OF assms(2)] c(4,5)
    by (simp add: read_value_body_def read_scalar_def)
qed

lemma list_stuck:
  assumes "malloc_all mal" "doc_at d (c # s)" "s \<noteq> []" "stuck c"
  shows "read_run fl mal n (ListRest (GqlValue ty (Members ms mt))) type err d = None"
proof (induction n arbitrary: ms)
  case (Suc n)
  have c: "char_map ! of_char c \<noteq> CHR ''w''" "c \<noteq> CHR ''#''" "c \<noteq> CHR '']''" using assms(4) by (simp_all add: stuck_def)
  have lt: "dcur d < dend d" using at_more [OF assms(2)] assms(3) by simp
  have "read_run fl mal n Value type err d = None \<or> (\<exists>v. read_run fl mal n Value type err d = Some (Val (Some v, d, err)))"
    using read_stuck [OF assms(1,2,4)] by (cases n) simp_all
  then show ?case
    using at_skip_white [OF assms(2) c(1,2)] at_peek0 [OF assms(2)] c(3) lt Suc.IH
    by (auto simp: read_list_body_def list_append_all [OF assms(1)])
qed simp



end
