(* ===== verification/Convert.thy ===== *)
theory Convert
  imports Gqltext
begin

text \<open>
  The conversions between GraphQL scalars of \<open>ext/agoo/gqlvalue.c\<close>, which change a value in
  place, and its copies. \<open>errno\<close> is the value that \<open>errno\<close> has behind \<open>strtol\<close>: \<open>strtol\<close> does
  not clear it.
\<close>

section \<open>Conversions\<close>

type_synonym converted = "(agoo_err_code \<times> gqlValue \<times> agoo_err) mem"

text \<open>Each conversion returns \<open>err->code\<close>, whether it is its own or an earlier error.\<close>

definition converted :: "agoo_err \<Rightarrow> gqlValue \<Rightarrow> converted" where
  "converted err v = Val (ecode err, v, err)"

definition coerce_err :: "agoo_err \<Rightarrow> agoo_err_code \<Rightarrow> string \<Rightarrow> gqlValue \<Rightarrow> converted" where
  "coerce_err err code text v = mem_bind (agoo_err_set err code text) (\<lambda>(_, err). converted err v)"

definition ERANGE :: agoo_err_code where
  "ERANGE = AGOO_ERR_SYSTEM 34"

text \<open>The C string that \<open>gql_string_get\<close> gives and that is read at once: NULL must not be read.\<close>

definition string_arg :: "gqlValue \<Rightarrow> string mem" where
  "string_arg v = mem_bind (gql_string_get v) (\<lambda>s. case s of None \<Rightarrow> UB | Some s \<Rightarrow> Val (cstr s))"

text \<open>\<open>if (value->str.alloced) AGOO_FREE(value->str.ptr)\<close>.\<close>

definition free_string :: "gqlValue \<Rightarrow> gqlValue mem" where
  "free_string v = mem_bind (string_destroy (vunion v)) (\<lambda>u. Val (GqlValue (vtype v) u))"

definition no_coercion :: "agoo_err \<Rightarrow> gqlValue \<Rightarrow> string \<Rightarrow> converted" where
  "no_coercion err v what =
    coerce_err err AGOO_ERR_PARSE (''Can not coerce a '' @ gname (vtype v) @ '' into a '' @ what @ '' value.'') v"

definition convert_to_bool :: "double_ops \<Rightarrow> agoo_err \<Rightarrow> gqlValue \<Rightarrow> converted" where
  "convert_to_bool fl err v =
    (case gscalar (vtype v) of
       GQL_SCALAR_INT \<Rightarrow>
         mem_bind (union_get 4 (vunion v)) (\<lambda>i :: 32 word.
         mem_bind (gql_bool_set v (i \<noteq> 0)) (converted err))
     | GQL_SCALAR_I64 \<Rightarrow>
         mem_bind (union_get 8 (vunion v)) (\<lambda>i :: 64 word.
         mem_bind (gql_bool_set v (i \<noteq> 0)) (converted err))
     | GQL_SCALAR_FLOAT \<Rightarrow>
         mem_bind (union_get 8 (vunion v)) (\<lambda>f.
         mem_bind (gql_bool_set v (\<not> d_eq fl (d_of_int fl 0) f)) (converted err))
     | k \<Rightarrow>
         if k \<in> {GQL_SCALAR_STRING, GQL_SCALAR_TOKEN} then
           mem_bind (string_arg v) (\<lambda>s.
           let v = GqlValue gql_bool_type (vunion v)
           in mem_bind
                (if map lower_c s = ''true'' then mem_bind (gql_bool_set v True) (\<lambda>v. Val (v, err))
                 else if map lower_c s = ''false'' then mem_bind (gql_bool_set v False) (\<lambda>v. Val (v, err))
                 else mem_bind (agoo_err_set err AGOO_ERR_PARSE
                        (''Can not coerce a String of '' @ [CHR 0x27] @ s @ [CHR 0x27] @ '' into a Boolean value.''))
                        (\<lambda>(_, err). Val (v, err)))
                (\<lambda>(v, err). mem_bind (free_string v) (converted err)))
         else no_coercion err v ''Boolean'')"

text \<open>The cast of a double to \<open>int32_t\<close>: undefined outside the range and for NaN.\<close>

definition to_i32 :: "double_ops \<Rightarrow> 64 word \<Rightarrow> int mem" where
  "to_i32 fl f =
    (case d_to_int fl f of None \<Rightarrow> UB | Some i \<Rightarrow> if - (2 ^ 31) \<le> i \<and> i < 2 ^ 31 then Val i else UB)"

definition to_i64 :: "double_ops \<Rightarrow> 64 word \<Rightarrow> int mem" where
  "to_i64 fl f =
    (case d_to_int fl f of None \<Rightarrow> UB | Some i \<Rightarrow> if - (2 ^ 63) \<le> i \<and> i < 2 ^ 63 then Val i else UB)"

definition quoted :: "string \<Rightarrow> string \<Rightarrow> string" where
  "quoted s what = ''Can not coerce a '' @ [CHR 0x27] @ s @ [CHR 0x27] @ '' into '' @ what @ '' value.''"

definition out_of_range :: "string \<Rightarrow> string" where
  "out_of_range s = ''Can not coerce a '' @ s @ '' into an Int value. Out of range.''"

definition precision_loss :: "string \<Rightarrow> string \<Rightarrow> string" where
  "precision_loss s what = ''Can not coerce a '' @ s @ '' into an '' @ what @ '' value. Loss of precision.''"

definition convert_to_int :: "double_ops \<Rightarrow> int \<Rightarrow> agoo_err \<Rightarrow> gqlValue \<Rightarrow> converted" where
  "convert_to_int fl errno err v =
    (case gscalar (vtype v) of
       GQL_SCALAR_I64 \<Rightarrow>
         mem_bind (union_get 8 (vunion v)) (\<lambda>x :: 64 word.
         let i = sint x
         in if i < - (2 ^ 31) \<or> 2 ^ 31 - 1 < i then coerce_err err ERANGE (out_of_range (int_str i)) v
            else mem_bind (gql_int_set v (of_int i)) (converted err))
     | GQL_SCALAR_FLOAT \<Rightarrow>
         mem_bind (union_get 8 (vunion v)) (\<lambda>f.
         if d_less fl f (d_of_int fl (- (2 ^ 31))) \<or> d_less fl (d_of_int fl (2 ^ 31 - 1)) f then
           coerce_err err ERANGE (out_of_range (d_fmt_g fl f)) v
         else mem_bind (to_i32 fl f) (\<lambda>i.
           if \<not> d_eq fl (d_of_int fl i) f then coerce_err err ERANGE (precision_loss (d_fmt_g fl f) ''Int'') v
           else mem_bind (gql_int_set v (of_int i)) (converted err)))
     | GQL_SCALAR_STRING \<Rightarrow>
         mem_bind (string_arg v) (\<lambda>s.
         let (i, n) = c_strtol s
         in if cat s n \<noteq> NUL \<or> (i = 0 \<and> errno \<noteq> 0) then coerce_err err ERANGE (quoted s ''an Int'') v
            else if i < - (2 ^ 31) \<or> 2 ^ 31 - 1 < i then coerce_err err ERANGE (out_of_range (int_str i)) v
            else mem_bind (gql_int_set v (of_int i)) (\<lambda>v. mem_bind (free_string v) (converted err)))
     | _ \<Rightarrow> coerce_err err AGOO_ERR_PARSE (''Can not coerce a '' @ gname (vtype v) @ '' into an Int value.'') v)"

definition convert_to_i64 :: "double_ops \<Rightarrow> int \<Rightarrow> agoo_err \<Rightarrow> gqlValue \<Rightarrow> converted" where
  "convert_to_i64 fl errno err v =
    (case gscalar (vtype v) of
       GQL_SCALAR_INT \<Rightarrow>
         mem_bind (union_get 4 (vunion v)) (\<lambda>i :: 32 word.
         mem_bind (gql_i64_set v (of_int (sint i))) (converted err))
     | GQL_SCALAR_FLOAT \<Rightarrow>
         mem_bind (union_get 8 (vunion v)) (\<lambda>f.
         mem_bind (to_i64 fl f) (\<lambda>i.
           if \<not> d_eq fl (d_of_int fl i) f then coerce_err err ERANGE (precision_loss (d_fmt_g fl f) ''I64'') v
           else mem_bind (gql_i64_set v (of_int i)) (converted err)))
     | GQL_SCALAR_STRING \<Rightarrow>
         mem_bind (string_arg v) (\<lambda>s.
         let (i, n) = c_strtol s
         in if cat s n \<noteq> NUL \<or> (i = 0 \<and> errno \<noteq> 0) then coerce_err err ERANGE (quoted s ''an I64'') v
            else mem_bind (gql_i64_set v (of_int i)) (\<lambda>v. mem_bind (free_string v) (converted err)))
     | GQL_SCALAR_TIME \<Rightarrow>
         mem_bind (union_get 8 (vunion v)) (\<lambda>t.
         mem_bind (gql_i64_set v t) (converted err))
     | _ \<Rightarrow> coerce_err err AGOO_ERR_PARSE (''Can not coerce a '' @ gname (vtype v) @ '' into an I64 value.'') v)"

definition convert_to_float :: "double_ops \<Rightarrow> agoo_err \<Rightarrow> gqlValue \<Rightarrow> converted" where
  "convert_to_float fl err v =
    (case gscalar (vtype v) of
       GQL_SCALAR_INT \<Rightarrow>
         mem_bind (union_get 4 (vunion v)) (\<lambda>i :: 32 word.
         mem_bind (gql_float_set v (d_of_int fl (sint i))) (converted err))
     | GQL_SCALAR_I64 \<Rightarrow>
         mem_bind (union_get 8 (vunion v)) (\<lambda>i :: 64 word.
         mem_bind (gql_float_set v (d_of_int fl (sint i))) (converted err))
     | GQL_SCALAR_STRING \<Rightarrow>
         mem_bind (string_arg v) (\<lambda>s.
         let (d, n) = d_strtod fl s
         in if cat s n \<noteq> NUL then coerce_err err ERANGE (quoted s ''a Float'') v
            else mem_bind (gql_float_set v d) (\<lambda>v. mem_bind (free_string v) (converted err)))
     | GQL_SCALAR_TIME \<Rightarrow>
         mem_bind (union_get 8 (vunion v)) (\<lambda>t :: 64 word.
         mem_bind (gql_float_set v (d_div fl (d_of_int fl (sint t)) (d_of_int fl 1000000000))) (converted err))
     | _ \<Rightarrow> no_coercion err v ''Float'')"

text \<open>The text is in a local buffer; the code that \<open>gql_string_set\<close> returns is not looked at.\<close>

definition set_text :: "allocator \<Rightarrow> agoo_err \<Rightarrow> gqlValue \<Rightarrow> string \<Rightarrow> converted" where
  "set_text mal err v s =
    mem_bind (gql_string_set mal err v (Some s) (int (length s))) (\<lambda>(_, v, err). converted err v)"

definition convert_to_string :: "double_ops \<Rightarrow> allocator \<Rightarrow> agoo_err \<Rightarrow> gqlValue \<Rightarrow> converted" where
  "convert_to_string fl mal err v =
    (case gscalar (vtype v) of
       GQL_SCALAR_BOOL \<Rightarrow>
         mem_bind (union_get 1 (vunion v)) (\<lambda>b :: byte. set_text mal err v (if b \<noteq> 0 then ''true'' else ''false''))
     | GQL_SCALAR_INT \<Rightarrow> mem_bind (union_get 4 (vunion v)) (\<lambda>i :: 32 word. set_text mal err v (int_str (sint i)))
     | GQL_SCALAR_I64 \<Rightarrow> mem_bind (union_get 8 (vunion v)) (\<lambda>i :: 64 word. set_text mal err v (int_str (sint i)))
     | GQL_SCALAR_FLOAT \<Rightarrow> mem_bind (union_get 8 (vunion v)) (\<lambda>f. set_text mal err v (d_fmt_g fl f))
     | GQL_SCALAR_TOKEN \<Rightarrow> converted err (GqlValue gql_string_type (vunion v))
     | GQL_SCALAR_ID \<Rightarrow> converted err (GqlValue gql_string_type (vunion v))
     | GQL_SCALAR_TIME \<Rightarrow> mem_bind (union_get 8 (vunion v)) (\<lambda>t. set_text mal err v (time_str t))
     | GQL_SCALAR_UUID \<Rightarrow> mem_bind (union_uuid (vunion v)) (\<lambda>(hi, lo). set_text mal err v (uuid_str hi lo))
     | _ \<Rightarrow> no_coercion err v ''String'')"

definition convert_to_token :: "agoo_err \<Rightarrow> gqlValue \<Rightarrow> converted" where
  "convert_to_token err v =
    (if gscalar (vtype v) \<in> {GQL_SCALAR_STRING, GQL_SCALAR_ID} then converted err (GqlValue gql_token_type (vunion v))
     else no_coercion err v ''token'')"

definition convert_to_id :: "agoo_err \<Rightarrow> gqlValue \<Rightarrow> converted" where
  "convert_to_id err v =
    (if gscalar (vtype v) \<in> {GQL_SCALAR_STRING, GQL_SCALAR_TOKEN} then converted err (GqlValue gql_id_type (vunion v))
     else no_coercion err v ''ID'')"

definition convert_to_time :: "agoo_err \<Rightarrow> gqlValue \<Rightarrow> converted" where
  "convert_to_time err v =
    (case gscalar (vtype v) of
       GQL_SCALAR_I64 \<Rightarrow> mem_bind (union_get 8 (vunion v)) (\<lambda>t. mem_bind (gql_time_set v t) (converted err))
     | GQL_SCALAR_STRING \<Rightarrow>
         mem_bind (string_arg v) (\<lambda>s.
         mem_bind (time_parse err s (-1)) (\<lambda>(t, err).
         if ecode err = AGOO_ERR_OK then
           mem_bind (free_string v) (\<lambda>v. mem_bind (gql_time_set v t) (converted err))
         else converted err v))
     | _ \<Rightarrow> no_coercion err v ''Time'')"

text \<open>The string that is freed is the one that was read before the UUID was stored over its pointer.\<close>

definition convert_to_uuid :: "agoo_err \<Rightarrow> gqlValue \<Rightarrow> converted" where
  "convert_to_uuid err v =
    (case gscalar (vtype v) of
       GQL_SCALAR_STRING \<Rightarrow>
         mem_bind (string_arg v) (\<lambda>s.
         mem_bind (gql_uuid_str_set err v s 0) (\<lambda>(code, v', err).
         if code = AGOO_ERR_OK then mem_bind (free_string v) (\<lambda>_. converted err v') else converted err v'))
     | _ \<Rightarrow> no_coercion err v ''UUID'')"

definition convert_to :: "double_ops \<Rightarrow> allocator \<Rightarrow> int \<Rightarrow> agoo_err \<Rightarrow> gqlValue \<Rightarrow> gqlScalarKind \<Rightarrow> converted" where
  "convert_to fl mal errno err v k =
    (case k of
       GQL_SCALAR_BOOL \<Rightarrow> convert_to_bool fl err v
     | GQL_SCALAR_INT \<Rightarrow> convert_to_int fl errno err v
     | GQL_SCALAR_I64 \<Rightarrow> convert_to_i64 fl errno err v
     | GQL_SCALAR_FLOAT \<Rightarrow> convert_to_float fl err v
     | GQL_SCALAR_STRING \<Rightarrow> convert_to_string fl mal err v
     | GQL_SCALAR_TOKEN \<Rightarrow> convert_to_token err v
     | GQL_SCALAR_ID \<Rightarrow> convert_to_id err v
     | GQL_SCALAR_TIME \<Rightarrow> convert_to_time err v
     | GQL_SCALAR_UUID \<Rightarrow> convert_to_uuid err v
     | _ \<Rightarrow> Val (AGOO_ERR_OK, v, err))"

definition gql_value_convert :: "double_ops \<Rightarrow> allocator \<Rightarrow> int \<Rightarrow> agoo_err \<Rightarrow> gqlValue \<Rightarrow> gqlType \<Rightarrow> converted" where
  "gql_value_convert fl mal errno err v type =
    (case (if gkind type = GQL_NON_NULL then gbase type else Some type) of
       None \<Rightarrow> UB
     | Some t \<Rightarrow> if t \<noteq> vtype v then convert_to fl mal errno err v (gscalar t) else Val (AGOO_ERR_OK, v, err))"

section \<open>Copies\<close>

text \<open>
  The flag of an allocated string is not copied. What the switch does not name is left zero,
  which for a list or an object is no member.
\<close>

definition gql_value_dup :: "allocator \<Rightarrow> agoo_err \<Rightarrow> gqlValue \<Rightarrow> (gqlValue option \<times> agoo_err) mem" where
  "gql_value_dup mal err v =
    (case value_create mal (vtype v) of
       None \<Rightarrow> mem_bind (agoo_err_memory err ''GraphQL Value'' ''gqlvalue.c'' 1616) (\<lambda>(_, err). Val (None, err))
     | Some dup \<Rightarrow>
         let number = (\<lambda>n. mem_bind (case vunion v of Scalar lo hi \<Rightarrow> blk_read lo n | Members ms t \<Rightarrow> UB) (\<lambda>s.
               mem_bind (union_put s (vunion dup)) (\<lambda>u. Val (Some (GqlValue (vtype v) u), err))))
         in case gscalar (vtype v) of
              GQL_SCALAR_BOOL \<Rightarrow> number 1
            | GQL_SCALAR_INT \<Rightarrow> number 4
            | GQL_SCALAR_I64 \<Rightarrow> number 8
            | GQL_SCALAR_FLOAT \<Rightarrow> number 8
            | GQL_SCALAR_TIME \<Rightarrow> number 8
            | GQL_SCALAR_UUID \<Rightarrow>
                mem_bind (union_uuid (vunion v)) (\<lambda>(hi, lo). Val (Some (gql_uuid_set dup hi lo), err))
            | k \<Rightarrow>
                if k \<in> {GQL_SCALAR_STRING, GQL_SCALAR_TOKEN, GQL_SCALAR_ID} then
                  mem_bind (str_alloced (vunion v)) (\<lambda>al.
                  if al then
                    mem_bind (str_ptr (vunion v)) (\<lambda>p.
                    case p of
                      None \<Rightarrow> UB
                    | Some s \<Rightarrow>
                        if mal (strlen s + 1) = None then
                          mem_bind (agoo_err_memory err ''strdup()'' ''gqlvalue.c'' 1637) (\<lambda>(_, err). Val (None, err))
                        else mem_bind (str_set_ptr (Some (cstr s)) (vunion dup)) (\<lambda>u.
                          Val (Some (GqlValue (vtype v) u), err)))
                  else
                    (case vunion v of
                       Members ms t \<Rightarrow> UB
                     | Scalar lo hi \<Rightarrow> Val (Some (GqlValue (vtype v) (Scalar (NUL # drop 1 lo) hi)), err)))
                else if k \<in> {GQL_SCALAR_LIST, GQL_SCALAR_OBJECT} then
                  Val (Some (GqlValue (vtype v) (Members [] None)), err)
                else Val (Some dup, err))"

section \<open>What the conversions do\<close>

text \<open>A string that is created from fewer than 15 characters is kept in the union.\<close>

lemma string_created:
  assumes "malloc_all mal" "NUL \<notin> set s" "s \<noteq> []" "length s < 15"
  shows "gql_string_create mal err s (int (length s)) = Val (Some (GqlValue gql_string_type (inline_union (s @ [NUL]))), err)"
    "str_view (inline_union (s @ [NUL])) = Val (Some s)"
proof -
  have n: "arg_len s (int (length s)) = length s" using assms(3) by (simp add: arg_len_def)
  have c: "strncpy_str s (length s) = s" using assms(2) by (simp add: strncpy_str_def strlen_def)
  have z: "str_set_alloced False (Scalar zero8 (Raw zero8)) = Val (Scalar zero8 (Raw zero8))"
    by (simp add: str_set_alloced_def union_put_def blk_write_ok zero8_simps) (simp add: zero8_def replicate_numeral)
  have p: "str_put (s @ [NUL]) (Scalar zero8 (Raw zero8)) = Val (inline_union (s @ [NUL]))"
    using assms(4) by (intro str_put_zero) simp
  show "gql_string_create mal err s (int (length s)) = Val (Some (GqlValue gql_string_type (inline_union (s @ [NUL]))), err)"
    using assms(4) by (simp add: gql_string_create_def str_create_def n c value_create_def malloc_allD(2) [OF assms(1)] z p)
  show "str_view (inline_union (s @ [NUL])) = Val (Some s)"
    using inline_union_view [of "s @ [NUL]"] assms(2,4) cstr_append_NUL [of s "[]"] by simp
qed

lemma low_byte: "str_alloced (Scalar (le_bytes (Suc n) w @ r) hi) = Val (ucast w \<noteq> (0 :: byte))" for w :: "'a::len word"
  by (simp add: str_alloced_def union_get_def blk_read_ok)

lemma ucast_of_int_0: "ucast (of_int i :: 'a::len word) = (0 :: byte) \<longleftrightarrow> i mod 256 = 0" if "8 \<le> LENGTH('a)"
proof -
  have "ucast (of_int i :: 'a word) = (of_int (take_bit LENGTH('a) i) :: byte)"
    by transfer simp
  moreover have "take_bit LENGTH(8) (take_bit LENGTH('a) i) = take_bit 8 i" using that by (simp add: min_absorb2)
  moreover have "(of_int k :: byte) = 0 \<longleftrightarrow> take_bit LENGTH(8) k = 0" for k
    by (simp add: word_of_int_eq_0_iff take_bit_eq_mod dvd_eq_mod_eq_0)
  ultimately show ?thesis by (simp add: take_bit_eq_mod)
qed

text \<open>
  C33. A number that is given as a string of 8 to 14 characters crashes the conversion: the flag of
  the string is read again when the number is already stored over it, and the characters behind
  the first seven are freed as a pointer.
\<close>

theorem convert_wild_free:
  assumes "malloc_all mal" "NUL \<notin> set s" "8 \<le> length s" "length s < 15"
    "c_strtol s = (i, length s)" "i mod 256 \<noteq> 0" "- (2 ^ 31) \<le> i" "i < 2 ^ 31" "t \<in> {gql_int_type, gql_i64_type}"
  shows "\<exists>v. gql_string_create mal err s (int (length s)) = Val (Some v, err) \<and>
    gql_string_get v = Val (Some s) \<and> gql_value_convert fl mal errno err v t = UB"
proof -
  let ?u = "inline_union (s @ [NUL])"
  let ?v = "GqlValue gql_string_type ?u"
  have ne: "s \<noteq> []" using assms(3) by auto
  note c = string_created(1) [OF assms(1,2) ne assms(4), of err] string_created(2) [OF assms(1,2) ne assms(4)]
  have g: "gql_string_get ?v = Val (Some s)" using c(2) by (simp add: gql_string_get_def)
  have arg: "string_arg ?v = Val s" using g assms(2) by (simp add: string_arg_def)
  have i0: "i \<noteq> 0" using assms(6) by auto
  obtain lo hi where u: "?u = Scalar lo (Raw hi)" "length lo = 8" "hi \<noteq> zero8"
  proof -
    have "drop 7 s \<noteq> []" using assms(3) by simp
    then obtain x xs where x: "drop 7 s = x # xs" by (cases "drop 7 s") auto
    then have "x \<in> set s" by (metis in_set_dropD list.set_intros(1))
    then have "x \<noteq> NUL" using assms(2) by auto
    moreover have "hd (drop 7 s @ NUL # replicate (14 - length s) NUL) = x" by (simp add: x)
    moreover have "hd zero8 = NUL" by (simp add: zero8_def)
    ultimately have "drop 7 s @ NUL # replicate (14 - length s) NUL \<noteq> zero8" by metis
    then show thesis using that assms(3,4) by (simp add: inline_union_def Let_def min_def)
  qed
  have free: "str_free (Scalar r (Raw hi)) = UB" for r using u(3) by (simp add: str_free_def)
  have stop: "cat s (length s) = NUL" by (simp add: cat_def)
  have "free_string (GqlValue ty (Scalar (le_bytes 4 (of_int i :: 32 word) @ drop 4 lo) (Raw hi))) = UB" for ty
    using low_byte [of 3 "of_int i :: 32 word"] ucast_of_int_0 [where 'a = 32, of i] assms(6) free
    by (simp add: free_string_def string_destroy_def)
  moreover have "free_string (GqlValue ty (Scalar (le_bytes 8 (of_int i :: 64 word)) (Raw hi))) = UB" for ty
    using low_byte [of 7 "of_int i :: 64 word" "[]"] ucast_of_int_0 [where 'a = 64, of i] assms(6) free
    by (simp add: free_string_def string_destroy_def)
  ultimately have "gql_value_convert fl mal errno err ?v t = UB"
    using assms(5,7,8,9) arg i0 u stop
    by (auto simp: gql_value_convert_def convert_to_def convert_to_int_def convert_to_i64_def gql_int_set_def gql_i64_set_def
        union_put_def blk_write_ok gql_int_type_def gql_i64_type_def gql_string_type_def)
  then show ?thesis using c(1) g by blast
qed

lemma convert_wild_free_witness:
  "\<exists>v. gql_string_create mal0 no_err ''16777217'' 8 = Val (Some v, no_err) \<and>
    gql_string_get v = Val (Some ''16777217'') \<and> gql_value_convert no_doubles mal0 0 no_err v gql_int_type = UB"
proof -
  have "c_strtol ''16777217'' = (16777217, 8)" 
    by (simp add: c_strtol_def scan_num_def c_isspace_def is_digit_def dec_val_def digit_val_def Let_def)
  moreover have "NUL \<notin> set ''16777217''" by (simp add: NUL_def)
  ultimately show ?thesis
    using convert_wild_free [OF malloc_all_mal0, of "''16777217''" 16777217 gql_int_type] by simp
qed

text \<open>The text of a number over the number it is made from.\<close>

lemma dec_str_long: "10 \<le> n \<Longrightarrow> 2 \<le> length (dec_str n)" "100 \<le> n \<Longrightarrow> 3 \<le> length (dec_str n)"
proof -
  have s: "length (dec_str n) = Suc (length (dec_str (n div 10)))" if "10 \<le> n" for n
    using that by (subst dec_str.simps) simp
  have "1 \<le> length (dec_str n)" for n using dec_str_digits [of n] by (cases "dec_str n") auto
  then show two: "2 \<le> length (dec_str n)" if "10 \<le> n" for n using s [OF that] by simp
  show "3 \<le> length (dec_str n)" if "100 \<le> n" using s [of n] two [of "n div 10"] that by simp
qed

lemma small_bytes: "unat w < 256 \<Longrightarrow> le_bytes 4 w = [chr_of (ucast w), NUL, NUL, NUL]" for w :: "32 word"
proof -
  assume "unat w < 256"
  then have "unat (drop_bit 8 w) = 0" by (subst unat_drop_bit_eq) (simp add: drop_bit_eq_div)
  then have "drop_bit 8 w = 0" by (simp only: unsigned_eq_0_iff)
  moreover have "chr_of 0 = NUL" by (simp add: chr_of_def NUL_def char_of_def)
  moreover have "4 = Suc (Suc (Suc (Suc 0)))" by simp
  ultimately show ?thesis by (simp only: le_bytes.simps) simp
qed

lemma negative_bytes:
  "\<forall>i \<in> set [-9, -8, -7, -6, -5, -4, -3, -2, -1].
     cstr (drop (Suc (length (int_str i))) (le_bytes 4 (of_int i :: 32 word) @ replicate 4 NUL)) = [CHR 0xFF]"
  by code_simp

lemma int_bytes_behind:
  fixes w :: "32 word"
  defines "s \<equiv> int_str (sint w)"
  shows "cstr (drop (Suc (length s)) (le_bytes 4 w @ replicate 4 NUL)) = (if - 10 < sint w \<and> sint w < 0 then [CHR 0xFF] else [])"
proof -
  have nuls: "cstr (replicate n NUL) = []" "cstr (NUL # r) = []" for n r by (cases n; simp add: cstr_def)+
  consider "- 10 < sint w" "sint w < 0" | "0 \<le> sint w" "sint w < 100" | "sint w \<le> - 10 \<or> 100 \<le> sint w" by linarith
  then show ?thesis
  proof cases
    case 1
    then have "sint w \<in> set [-9, -8, -7, -6, -5, -4, -3, -2, -1]" by auto
    from bspec [OF negative_bytes this] show ?thesis using 1 by (simp add: s_def)
  next
    case 2
    then have "unat w < 256" 
    using uint_sint [of w] by (simp add: take_bit_eq_mod flip: nat_uint_eq)
    moreover have "1 \<le> length s" using dec_str_digits [of "nat (sint w)"] 2 by (cases s) (auto simp: s_def int_str_def)
    ultimately show ?thesis using 2 by (cases "length s") (auto simp: small_bytes nuls drop_Cons' simp flip: NUL_def)
  next
    case 3
    have "3 \<le> length s"
    proof (cases "sint w < 0")
      case True
      then show ?thesis using 3 dec_str_long(1) [of "nat (- sint w)"] by (simp add: s_def int_str_def)
    next
      case False
      then show ?thesis using 3 dec_str_long(2) [of "nat (sint w)"] by (simp add: s_def int_str_def)
    qed
    then show ?thesis using 3 by (auto simp: nuls)
  qed
qed

lemma cstr_nuls: "cstr (x @ replicate n NUL) = cstr x"
  by (induction x) (auto simp: cstr_def)

lemma int_str_chars: "NUL \<notin> set (int_str i)" "0 < length (int_str i)"
  using dec_str_digits [of "nat i"] dec_str_digits [of "nat (- i)"]
  by (auto simp: int_str_def is_digit_def NUL_def)

lemma int_str_short: "- (2 ^ 31) \<le> i \<Longrightarrow> i < 2 ^ 31 \<Longrightarrow> length (int_str i) \<le> 11"
proof -
  assume "- (2 ^ 31) \<le> i" "i < 2 ^ 31"
  then have "nat i < 10 ^ 10" "nat (- i) < 10 ^ 10" by simp_all
  then have "length (dec_str (nat i)) \<le> 10" "length (dec_str (nat (- i))) \<le> 10" by (simp_all add: dec_str_length)
  then show ?thesis by (simp add: int_str_def)
qed

text \<open>
  An Int becomes the String of its digits, except that the digits of -9 to -1 are followed by a
  byte of the number they replace: the string is copied over the number without its NUL.
\<close>

theorem convert_int_text:
  assumes "malloc_all mal"
  shows "\<exists>v v'. gql_int_create mal w = Val (Some v) \<and>
    gql_value_convert fl mal errno err v gql_string_type = Val (ecode err, v', err) \<and>
    gql_string_get v' = Val (Some (int_str (sint w) @ (if - 10 < sint w \<and> sint w < 0 then [CHR 0xFF] else [])))"
proof -
  define s where "s = int_str (sint w)"
  let ?v = "GqlValue gql_int_type (number_union (le_bytes 4 w))"
  have u: "number_union (le_bytes 4 w) = Scalar (le_bytes 4 w @ replicate 4 NUL) (Raw zero8)"
    by (simp add: number_union_def zero8_def numeral_eq_Suc)
  have nul: "NUL \<notin> set s" using int_str_chars by (simp add: s_def)
  have len: "0 < length s" "length s < 15"
    using int_str_chars(2) [of "sint w"] int_str_short [of "sint w"] sint_range_size [of w] by (simp_all add: s_def word_size)
  have n: "arg_len s (int (length s)) = length s" using len by (simp add: arg_len_def)
  have c: "strncpy_str s (length s) = s" using nul by (simp add: strncpy_str_def strlen_def)
  define lo where "lo = le_bytes 4 w @ replicate 4 NUL"
  have lo: "length lo = 8" by (simp add: lo_def)
  define r where "r = drop (Suc (length s)) lo @ drop (length s - 7) zero8"
  define lo' where "lo' = NUL # take 7 s @ drop (Suc (length s)) lo"
  define hi' where "hi' = drop 7 s @ drop (length s - 7) zero8"
  have get4: "union_get 4 (Scalar lo (Raw zero8)) = Val w"
    using union_get_number [of "le_bytes 4 w", where 'a = 32] le_bytes_inv [of 4 w] by (simp add: u lo_def)
  have set: "string_set mal err (GqlValue gql_string_type (Scalar lo (Raw zero8))) (Some s) (int (length s))
      = Val (AGOO_ERR_OK, GqlValue gql_string_type (Scalar lo' (Raw hi')), err)"
    using len lo by (cases "length s \<le> 7") (auto simp: string_set_def n c str_put_def blk_write_ok str_set_alloced_def
        union_put_def lo'_def hi'_def min_def)
  have a: "drop 1 lo' @ hi' = s @ r"
    using lo by (cases "length s \<le> 7") (simp_all add: lo'_def hi'_def r_def)
  have "NUL \<in> set (drop 1 lo' @ hi')" unfolding a using len by (auto simp: r_def zero8_def)
  moreover have "cstr (s @ r) = s @ cstr r" using nul by (auto simp: cstr_def takeWhile_append)
  ultimately have "str_a (Scalar lo' (Raw hi')) = Val (s @ cstr r)"
    unfolding str_a_def Let_def gqlUnion.case gql_hi.case a by (simp only: if_True)
  then have get: "str_view (Scalar lo' (Raw hi')) = Val (Some (s @ cstr r))"
    by (simp add: str_view_def str_alloced_def union_get_def blk_read_ok lo'_def byte_of_def NUL_def)
  have r: "cstr r = (if - 10 < sint w \<and> sint w < 0 then [CHR 0xFF] else [])"
    unfolding r_def zero8_def drop_replicate cstr_nuls lo_def s_def by (rule int_bytes_behind)
  have "gql_value_convert fl mal errno err ?v gql_string_type = Val (ecode err, GqlValue gql_string_type (Scalar lo' (Raw hi')), err)"
    using get4 set
    by (simp add: gql_value_convert_def convert_to_def convert_to_string_def gql_int_type_def gql_string_type_def
        set_text_def gql_string_set_def converted_def u flip: s_def lo_def)
  then show ?thesis using create_numbers(1) [OF assms, of w] get r
    by (auto simp: gql_string_get_def s_def)
qed

lemma convert_int_text_witness:
  "\<exists>v v'. gql_int_create mal0 (- 5) = Val (Some v) \<and>
    gql_value_convert no_doubles mal0 0 no_err v gql_string_type = Val (AGOO_ERR_OK, v', no_err) \<and>
    gql_string_get v' = Val (Some [CHR ''-'', CHR ''5'', CHR 0xFF])"
proof -
  have "int_str (- 5) = ''-5''" by code_simp
  then show ?thesis
    using convert_int_text [OF malloc_all_mal0, of "- 5" no_doubles 0 no_err] by (simp add: no_err_def)
qed

text \<open>
  A copy of a string has its text only where that is shorter than 15 characters; the copy of a
  longer one is the empty string, as its flag is not copied with the pointer.
\<close>

theorem dup_string:
  assumes "malloc_all mal" "NUL \<notin> set s" "s \<noteq> []"
  shows "\<exists>v v'. gql_string_create mal err s (int (length s)) = Val (Some v, err) \<and> gql_string_get v = Val (Some s) \<and>
    gql_value_dup mal err v = Val (Some v', err) \<and> gql_string_get v' = Val (Some (if length s < 15 then s else []))"
proof (cases "length s < 15")
  case True
  let ?u = "inline_union (s @ [NUL])"
  note c = string_created(1) [OF assms True, of err] string_created(2) [OF assms True]
  obtain lo hi where u: "?u = Scalar (NUL # lo) hi" by (auto simp: inline_union_def Let_def)
  then have "gql_value_dup mal err (GqlValue gql_string_type ?u) = Val (Some (GqlValue gql_string_type ?u), err)"
    by (simp add: gql_value_dup_def value_create_def malloc_allD(2) [OF assms(1)] gql_string_type_def str_alloced_def
        union_get_def blk_read_ok byte_of_def NUL_def)
  then show ?thesis using c True by (auto simp: gql_string_get_def)
next
  case False
  let ?u = "Scalar (CHR 0x01 # replicate 7 NUL) (Ptr s)"
  have n: "arg_len s (int (length s)) = length s" using assms(3) by (simp add: arg_len_def)
  have c: "cstr s = s" "strlen s = length s" using assms(2) by (simp_all add: strlen_def)
  have v: "gql_string_create mal err s (int (length s)) = Val (Some (GqlValue gql_string_type ?u), err)"
    using False by (simp add: gql_string_create_def str_create_def n c value_create_def malloc_allD(2) [OF assms(1)] c_strndup_def
        str_set_alloced_def union_put_def blk_write_ok str_set_ptr_def zero8_simps Let_def)
  have al: "str_alloced ?u = Val True" "str_ptr ?u = Val (Some s)"
    by (simp_all add: str_alloced_def union_get_def blk_read_ok byte_of_def str_ptr_def)
  then have "gql_value_dup mal err (GqlValue gql_string_type ?u) = Val (Some (GqlValue gql_string_type (Scalar zero8 (Ptr s))), err)"
    by (simp add: gql_value_dup_def value_create_def malloc_allD(2) [OF assms(1)] gql_string_type_def c str_set_ptr_def)
  moreover have "str_view (Scalar zero8 (Ptr s)) = Val (Some [])"
    by (simp add: str_view_def str_alloced_def union_get_def blk_read_ok str_a_def zero8_def byte_of_def NUL_def cstr_def)
  ultimately show ?thesis using v al False by (simp add: gql_string_get_def str_view_def)
qed

lemma dup_string_witness:
  "\<exists>v v'. gql_string_create mal0 no_err ''a long enough text'' 18 = Val (Some v, no_err) \<and>
    gql_value_dup mal0 no_err v = Val (Some v', no_err) \<and> gql_string_get v' = Val (Some [])"
  using dup_string [OF malloc_all_mal0, of "''a long enough text''" no_err] by (auto simp: NUL_def)

end
