(* ===== verification/GqlTyped.thy ===== *)
theory GqlTyped
  imports JsonTotal
begin

text \<open>
  Well-typed values: every value the JSON parser makes is one, for any allocator, and a
  well-typed value can be destroyed and printed without an access outside its blocks.
\<close>

section \<open>Types\<close>

lemmas gql_core_types = gql_null_type_def gql_int_type_def gql_i64_type_def gql_string_type_def gql_token_type_def
  gql_id_type_def gql_var_type_def gql_bool_type_def gql_float_type_def gql_time_type_def gql_uuid_type_def
  list_type_def object_type_def

lemma core_kinds [simp]:
  "stringy gql_string_type" "stringy gql_token_type" "stringy gql_id_type" "stringy gql_var_type"
  "numeric gql_null_type" "numeric gql_int_type" "numeric gql_i64_type" "numeric gql_bool_type" "numeric gql_float_type"
  "numeric gql_time_type" "\<not> stringy list_type" "\<not> stringy object_type" "\<not> numeric list_type" "\<not> numeric object_type"
  "\<not> stringy gql_null_type" "\<not> stringy gql_int_type" "\<not> stringy gql_i64_type" "\<not> stringy gql_bool_type"
  "\<not> stringy gql_float_type" "\<not> stringy gql_time_type" "list_type \<noteq> gql_uuid_type" "object_type \<noteq> gql_uuid_type"
  "object_type \<noteq> list_type" "list_type \<noteq> object_type"
  by (simp_all add: stringy_def numeric_def gql_core_types)

lemma container_fields [simp]:
  "gkind list_type = GQL_SCALAR" "gprinters list_type" "gscalar list_type = GQL_SCALAR_LIST"
  "gkind object_type = GQL_SCALAR" "gprinters object_type" "gscalar object_type = GQL_SCALAR_OBJECT"
  by (simp_all add: gql_core_types)

lemma typed_list:
  "well_typed (GqlValue list_type u) \<longleftrightarrow> (\<exists>ms t. u = Members ms t \<and> (\<forall>(k, v) \<in> set ms. k = None \<and> well_typed v))"
  by (cases u) auto

lemma typed_object:
  "well_typed (GqlValue object_type u) \<longleftrightarrow> (\<exists>ms t. u = Members ms t \<and> (\<forall>(k, v) \<in> set ms. k \<noteq> None \<and> well_typed v))"
  by (cases u) auto

declare well_typed.simps [simp del]

text \<open>What a value that is neither a list nor an object is.\<close>

lemma typed_number: "numeric t \<Longrightarrow> \<not> stringy t \<Longrightarrow> well_typed (GqlValue t u) \<longleftrightarrow> scalar_ok u"
  by (simp add: well_typed.simps)

lemma typed_string: "stringy t \<Longrightarrow> well_typed (GqlValue t u) \<longleftrightarrow> scalar_ok u \<and> str_view u \<noteq> UB"
  by (simp add: well_typed.simps)

lemma typed_uuid: "well_typed (GqlValue gql_uuid_type u) \<longleftrightarrow> is_uuid u"
proof -
  have "\<not> stringy gql_uuid_type" "\<not> numeric gql_uuid_type" by (simp_all add: stringy_def numeric_def gql_core_types)
  then show ?thesis by (simp add: well_typed.simps)
qed

section \<open>Destruction and printing\<close>

lemma string_destroy_typed: "scalar_ok u \<Longrightarrow> str_view u \<noteq> UB \<Longrightarrow> \<exists>u'. string_destroy u = Val u'"
  by (cases u; cases "str_alloced u")
     (auto simp: string_destroy_def str_view_def str_ptr_def str_free_def scalar_ok_def split: gql_hi.splits if_splits)

lemma destroy_typed:
  "well_typed v \<Longrightarrow> gql_value_destroy v = Val ()"
  "(\<forall>(k, v) \<in> set ms. well_typed v) \<Longrightarrow> links_destroy ms = Val ()"
proof (induction v and ms rule: gql_value_destroy_links_destroy.induct)
  case (1 type u)
  consider "stringy type" | "\<not> stringy type" "numeric type" | "\<not> stringy type" "type = gql_uuid_type" | "type = list_type" | "type = object_type"
    using 1(2) by (auto simp: well_typed.simps split: if_splits)
  then show ?case
  proof cases
    case 1
    then show ?thesis using \<open>well_typed _\<close> string_destroy_typed [of u]
      by (auto simp: typed_string stringy_def gql_core_types)
  next
    case 4
    then obtain ms t where "u = Members ms t" "\<forall>(k, v) \<in> set ms. k = None \<and> well_typed v"
      using \<open>well_typed _\<close> by (auto simp: typed_list)
    then show ?thesis using 4 1(1) by fastforce
  next
    case 5
    then obtain ms t where "u = Members ms t" "\<forall>(k, v) \<in> set ms. k \<noteq> None \<and> well_typed v"
      using \<open>well_typed _\<close> by (auto simp: typed_object)
    then show ?thesis using 5 1(1) by fastforce
  qed (auto simp: numeric_def gql_core_types)
qed auto

text \<open>Without an indentation the printers stay inside \<open>spaces\<close>, and \<open>%g\<close> fits into its buffer.\<close>

definition fmt_fits :: "double_ops \<Rightarrow> bool" where
  "fmt_fits fl \<longleftrightarrow> (\<forall>f. length (d_fmt_g fl f) \<le> 31)"

definition writes_some :: "allocator \<Rightarrow> text_writer \<Rightarrow> bool" where
  "writes_some mal w \<longleftrightarrow> (\<exists>s. writes mal w s)"

lemma some_bind: "writes_some mal w \<Longrightarrow> writes_some mal x \<Longrightarrow> writes_some mal (\<lambda>t. mem_bind (w t) x)"
  unfolding writes_some_def using writes_bind by blast

lemma some_append: "malloc_ok mal \<Longrightarrow> arg_len s len \<le> length s \<Longrightarrow> writes_some mal (\<lambda>t. agoo_text_append mal t s len)"
  unfolding writes_some_def using writes_append by blast

lemma some_all: "malloc_ok mal \<Longrightarrow> writes_some mal (append_str mal s)"
  unfolding append_str_def by (rule some_append) (simp_all add: arg_len_def strlen_le strlen_def cstr_def)

lemma some_json: "malloc_ok mal \<Longrightarrow> writes_some mal (\<lambda>t. agoo_text_append_json mal t s (-1))"
  unfolding writes_some_def using writes_json by blast

lemma some_Val: "writes_some mal Val"
  unfolding writes_some_def by blast

lemmas some_rules = some_bind some_append some_all some_json some_Val

lemma some_number:
  fixes f :: "'a::len word \<Rightarrow> text_writer"
  assumes "malloc_ok mal" "scalar_ok u" "n \<le> 8" "\<And>x. writes_some mal (f x)"
  shows "writes_some mal (\<lambda>t. mem_bind (union_get n u) (\<lambda>x. f x t))"
proof -
  obtain x :: "'a word" where "union_get n u = Val x" using assms(2,3)
    by (cases u) (auto simp: scalar_ok_def union_get_def blk_read_ok)
  then show ?thesis using assms(4) by simp
qed

lemma some_char: "malloc_ok mal \<Longrightarrow> writes_some mal (\<lambda>t. agoo_text_append_char mal t c)"
proof -
  assume m: "malloc_ok mal"
  have "writes mal (\<lambda>t. agoo_text_append_char mal t c) [c]"
    by (rule writesI) (simp_all add: agoo_text_append_char_def [of mal None] text_append_char_ok [OF m])
  then show ?thesis unfolding writes_some_def by blast
qed

lemma some_string:
  assumes "malloc_ok mal" "str_view u \<noteq> UB"
  shows "writes_some mal (string_to_text mal u)" "writes_some mal (var_to_text mal u)"
proof -
  obtain p where p: "str_view u = Val p" using assms(2) by (cases "str_view u") auto
  have "string_to_text mal u = (case p of None \<Rightarrow> append_str mal ''null'' | Some s \<Rightarrow>
      (\<lambda>t. mem_bind (agoo_text_append mal t [CHR 0x22] 1) (\<lambda>t.
           mem_bind (agoo_text_append_json mal t s (-1)) (\<lambda>t. agoo_text_append mal t [CHR 0x22] 1))))"
    "var_to_text mal u = (case p of None \<Rightarrow> append_str mal ''null'' | Some s \<Rightarrow>
      (\<lambda>t. mem_bind (agoo_text_append_char mal t CHR ''%'') (\<lambda>t. agoo_text_append_json mal t s (-1))))"
    by (intro ext; simp add: string_to_text_def var_to_text_def p split: option.split)+
  moreover have "arg_len [CHR 0x22] 1 \<le> length [CHR 0x22]" by (simp add: arg_len_def)
  ultimately show "writes_some mal (string_to_text mal u)" "writes_some mal (var_to_text mal u)"
    using assms(1) by (cases p; simp; intro some_rules some_char; simp)+
qed

lemma some_scalar:
  assumes "malloc_ok mal" "scalar_ok u" "fmt_fits fl"
  shows "writes_some mal (int_to_text mal u)" "writes_some mal (i64_to_text mal u)" "writes_some mal (bool_to_text mal u)"
    "writes_some mal (float_to_text fl mal u)" "writes_some mal (time_to_text mal u)"
proof -
  have f1: "length (d_fmt_g fl x) \<le> 31" for x using assms(3) by (simp add: fmt_fits_def)
  have f2: "length (d_fmt_g fl x) \<le> 32" for x by (rule le_trans [OF f1]) simp
  show "writes_some mal (float_to_text fl mal u)" unfolding float_to_text_def [abs_def] Let_def
    by (intro some_number some_append assms(1,2)) (use f1 f2 in \<open>auto simp: arg_len_def intro: order_trans [OF strlen_le]\<close>)
  show "writes_some mal (int_to_text mal u)" "writes_some mal (i64_to_text mal u)" "writes_some mal (bool_to_text mal u)"
    "writes_some mal (time_to_text mal u)"
    unfolding int_to_text_def [abs_def] i64_to_text_def [abs_def] bool_to_text_def [abs_def] time_to_text_def [abs_def]
    by (intro some_number some_all assms(1,2); simp)+
qed

lemma some_uuid: "malloc_ok mal \<Longrightarrow> is_uuid u \<Longrightarrow> writes_some mal (uuid_to_text mal u)"
proof -
  assume "malloc_ok mal" "is_uuid u"
  then obtain hi lo where "union_uuid u = Val (hi, lo)"
    by (auto simp: is_uuid_def union_uuid_def blk_read_ok split: gqlUnion.splits gql_hi.splits)
  then show ?thesis using some_all [OF \<open>malloc_ok mal\<close>] by (simp add: uuid_to_text_def [abs_def])
qed

lemma indents_down: "n \<le> 0 \<Longrightarrow> indents n (int d) = (i, i2) \<Longrightarrow> i2 \<le> 0"
proof -
  assume "n \<le> 0" "indents n (int d) = (i, i2)"
  moreover have "n * int d \<le> 0" using \<open>n \<le> 0\<close> by (simp add: mult_nonpos_nonneg)
  ultimately show "i2 \<le> 0" by (auto simp: indents_def Let_def split: if_splits)
qed

lemma some_indent_after: "n \<le> 0 \<Longrightarrow> writes_some mal (indent_after mal n i)"
  by (simp add: indent_after_def [abs_def] some_Val)

lemma some_indent_before: "i2 \<le> 0 \<Longrightarrow> writes_some mal (indent_before mal i2)"
  by (simp add: indent_before_def [abs_def] some_Val)

lemma json_typed:
  assumes "malloc_ok mal" "fmt_fits fl" "n \<le> 0"
  shows "well_typed v \<Longrightarrow> writes_some mal (gql_value_json fl mal n (int d) v)"
    "(\<forall>(k, v) \<in> set ms. well_typed v) \<Longrightarrow> i2 \<le> 0 \<Longrightarrow>
       writes_some mal (list_links_json fl mal n (int d) i2 ms) \<and>
       ((\<forall>(k, v) \<in> set ms. k \<noteq> None) \<longrightarrow> writes_some mal (object_links_json fl mal n (int d) i2 ms))"
proof (induction v and ms arbitrary: d and d i2 rule: gql_value_destroy_links_destroy.induct)
  case (1 type u)
  consider "stringy type" | "\<not> stringy type" "numeric type" | "\<not> stringy type" "type = gql_uuid_type" | "type = list_type" | "type = object_type"
    using 1(2) by (auto simp: well_typed.simps split: if_splits)
  then show ?case
  proof cases
    case 1
    then have "str_view u \<noteq> UB" using \<open>well_typed _\<close> by (simp add: typed_string)
    note some_string [OF assms(1) this]
    then show ?thesis using 1 by (auto simp: stringy_def gql_core_types gql_value_json.simps [abs_def])
  next
    case 2
    then have "scalar_ok u" using \<open>well_typed _\<close> by (simp add: typed_number)
    note some_scalar [OF assms(1) this assms(2)]
    then show ?thesis using 2 some_all [OF assms(1)] by (auto simp: numeric_def gql_core_types gql_value_json.simps [abs_def] null_to_text_def)
  next
    case 3
    then have "is_uuid u" using \<open>well_typed _\<close> by (simp add: typed_uuid)
    then show ?thesis using 3 some_uuid [OF assms(1)] by (simp add: gql_uuid_type_def gql_value_json.simps [abs_def])
  next
    case 4
    then obtain ms t where u: "u = Members ms t" "\<forall>(k, v) \<in> set ms. well_typed v"
      using \<open>well_typed _\<close> by (fastforce simp: typed_list)
    obtain i i2 where i: "indents n (int d) = (i, i2)" by (cases "indents n (int d)")
    have "i2 \<le> 0" by (rule indents_down [OF assms(3) i])
    moreover have "writes_some mal (list_links_json fl mal n (int e) j ms)" if "j \<le> 0" for e j
      using 1(1) [of ms t] u 4 that by simp
    ultimately have "writes_some mal (list_links_json fl mal n (int d + 1) i2 ms)" by (metis of_nat_Suc add.commute)
    then show ?thesis using 4
      by (simp add: u(1) i gql_value_json.simps [abs_def] del: One_nat_def)
         (intro some_rules some_indent_after assms(1,3); simp add: arg_len_def)
  next
    case 5
    then obtain ms t where u: "u = Members ms t" "\<forall>(k, v) \<in> set ms. well_typed v" "\<forall>(k, v) \<in> set ms. k \<noteq> None"
      using \<open>well_typed _\<close> by (fastforce simp: typed_object)
    obtain i i2 where i: "indents n (int d) = (i, i2)" by (cases "indents n (int d)")
    have "i2 \<le> 0" by (rule indents_down [OF assms(3) i])
    moreover have "writes_some mal (object_links_json fl mal n (int e) j ms)" if "j \<le> 0" for e j
      using 1(1) [of ms t] u 5 that by simp
    ultimately have "writes_some mal (object_links_json fl mal n (int d + 1) i2 ms)" by (metis of_nat_Suc add.commute)
    then show ?thesis using 5
      by (simp add: u(1) i gql_value_json.simps [abs_def] del: One_nat_def)
         (intro some_rules some_indent_after assms(1,3); simp add: arg_len_def)
  qed
next
  case (2)
  then show ?case by (simp add: some_Val list_links_json.simps(1) [abs_def] object_links_json.simps(1) [abs_def])
next
  case (3 k v ms)
  have v: "writes_some mal (gql_value_json fl mal n (int d) v)" using 3 by simp
  have c: "writes_some mal (\<lambda>t. if ms \<noteq> [] then agoo_text_append mal t '','' 1 else Val t)"
    by (cases "ms = []") (simp_all add: some_Val some_append assms(1) arg_len_def)
  have k: "writes_some mal (\<lambda>t. agoo_text_append mal t x (- 1))" for x
    using writes_cstr [OF assms(1), of x] unfolding writes_some_def by blast
  have r: "writes_some mal (list_links_json fl mal n (int d) i2 ms)"
    "(\<forall>(k, v) \<in> set ms. k \<noteq> None) \<longrightarrow> writes_some mal (object_links_json fl mal n (int d) i2 ms)"
    using 3(2) [of "()" i2 d] destroy_typed(1) [of v] 3(3,4) by simp_all
  show ?case
  proof (intro conjI impI)
    show "writes_some mal (list_links_json fl mal n (int d) i2 ((k, v) # ms))"
      unfolding list_links_json.simps [abs_def]
      by (intro some_bind v c some_indent_before) (use r(1) 3(4) in auto)
    assume keys: "\<forall>(k, v) \<in> set ((k, v) # ms). k \<noteq> None"
    then obtain x where x: "k = Some x" by (cases k) auto
    show "writes_some mal (object_links_json fl mal n (int d) i2 ((k, v) # ms))"
      unfolding object_links_json.simps [abs_def] x option.case
      by (intro some_bind v c k some_append some_indent_before) (use r(2) 3(4) keys assms(1) in \<open>auto simp: arg_len_def\<close>)
  qed
qed

section \<open>What the parser makes\<close>

text \<open>The create functions and the two that add members, for any allocator.\<close>

lemma value_with_typed:
  "value_with mal t f = Val (Some v) \<Longrightarrow> (\<And>u. f (Scalar zero8 (Raw zero8)) = Val u \<Longrightarrow> well_typed (GqlValue t u)) \<Longrightarrow> well_typed v"
  by (auto simp: value_with_def value_create_def mem_bind_eq_Val split: if_splits)

lemma number_typed: "union_put s (Scalar zero8 (Raw zero8)) = Val u \<Longrightarrow> scalar_ok u"
  by (auto simp: union_put_def blk_write_def mem_bind_eq_Val scalar_ok_def split: if_splits)

lemma create_typed:
  "gql_int_create mal i = Val (Some v) \<Longrightarrow> well_typed v" "gql_i64_create mal l = Val (Some v) \<Longrightarrow> well_typed v"
  "gql_float_create mal l = Val (Some v) \<Longrightarrow> well_typed v" "gql_bool_create mal b = Val (Some v) \<Longrightarrow> well_typed v"
  "gql_null_create mal = Val (Some v) \<Longrightarrow> well_typed v"
  "gql_list_create mal t = Val (Some v) \<Longrightarrow> well_typed v" "gql_object_create mal = Val (Some v) \<Longrightarrow> well_typed v"
  unfolding gql_int_create_def gql_i64_create_def gql_float_create_def gql_bool_create_def gql_null_create_def
    gql_list_create_def gql_object_create_def
  by (erule value_with_typed; auto simp: typed_number typed_list typed_object dest: number_typed; simp add: scalar_ok_def)+

lemma create_type:
  "gql_list_create mal t = Val (Some v) \<Longrightarrow> vtype v = list_type" "gql_object_create mal = Val (Some v) \<Longrightarrow> vtype v = object_type"
  by (auto simp: gql_list_create_def gql_object_create_def value_with_def value_create_def split: if_splits)

lemma created:
  "gql_list_create mal t = Val (Some v) \<Longrightarrow> well_typed v \<and> vtype v = list_type"
  "gql_object_create mal = Val (Some v) \<Longrightarrow> well_typed v \<and> vtype v = object_type"
  using create_typed(6,7) create_type by blast+

lemma string_typed:
  assumes "gql_string_create mal err s len = Val (Some v, err')"
  shows "well_typed v"
proof (cases "15 \<le> arg_len s len")
  case True
  then have "v = GqlValue gql_string_type (Scalar (CHR 0x01 # replicate 7 NUL) (Ptr (cstr (take (arg_len s len) s))))"
    using assms by (auto simp: gql_string_create_def str_create_def value_create_def c_strndup_def mem_bind_eq_Val
        str_set_alloced_def union_put_def blk_write_ok str_set_ptr_def zero8_simps Let_def split: if_splits)
  then show ?thesis
    by (simp add: typed_string scalar_ok_def str_view_def str_alloced_def union_get_def blk_read_ok byte_of_def str_ptr_def)
next
  case False
  let ?w = "strncpy_str s (arg_len s len) @ [NUL]"
  have l: "length ?w \<le> 15" using False strlen_le [of "take (arg_len s len) s"]
    by (simp add: strncpy_str_def strlen_def)
  have z: "str_set_alloced False (Scalar zero8 (Raw zero8)) = Val (Scalar zero8 (Raw zero8))"
    by (simp add: str_set_alloced_def union_put_def blk_write_ok zero8_simps) (simp add: zero8_def replicate_numeral)
  have "v = GqlValue gql_string_type (inline_union ?w)"
    using assms False l by (auto simp: gql_string_create_def str_create_def value_create_def z str_put_zero Let_def split: if_splits)
  then show ?thesis using inline_union_ok [OF l] inline_union_view [OF l] by (simp add: typed_string)
qed

lemma append_typed:
  "gql_list_append mal err v m = Val (code, v', err') \<Longrightarrow> well_typed v \<Longrightarrow> vtype v = list_type \<Longrightarrow> well_typed m \<Longrightarrow>
   well_typed v' \<and> vtype v' = list_type"
  "gql_object_set mal err v key m = Val (code, v', err') \<Longrightarrow> well_typed v \<Longrightarrow> vtype v = object_type \<Longrightarrow> well_typed m \<Longrightarrow>
   well_typed v' \<and> vtype v' = object_type"
  by (cases v; auto simp: gql_list_append_def gql_object_set_def link_append_def gql_link_create_def members_def set_members_def
      mem_bind_eq_Val typed_list typed_object split: option.splits if_splits)+

text \<open>What a run gives is well typed, where the container it continues with is.\<close>

definition typed_result :: "gqlValue option \<times> agoo_doc \<times> agoo_err \<Rightarrow> bool" where
  "typed_result = (\<lambda>(r, d, err). \<forall>v. r = Some v \<longrightarrow> well_typed v)"

lemma typed_result_simp [simp]: "typed_result (r, d, err) \<longleftrightarrow> (\<forall>v. r = Some v \<longrightarrow> well_typed v)"
  by (simp add: typed_result_def)

definition typed_job :: "json_job \<Rightarrow> bool" where
  "typed_job job \<longleftrightarrow> (case job of JValue \<Rightarrow> True | JArrayRest v \<Rightarrow> well_typed v \<and> vtype v = list_type
     | JObjectRest v \<Rightarrow> well_typed v \<and> vtype v = object_type)"

definition typed_reader :: "json_reader \<Rightarrow> bool" where
  "typed_reader rd \<longleftrightarrow> (\<forall>job err d. typed_job job \<longrightarrow> run_post typed_result (rd job err d))"

lemma typed_readerD: "typed_reader rd \<Longrightarrow> typed_job job \<Longrightarrow> run_post typed_result (rd job err d)"
  by (simp add: typed_reader_def)

lemma typed_reader_value: "typed_reader rd \<Longrightarrow> rd JValue err d = Some (Val (Some v, d', err')) \<Longrightarrow> well_typed v"
  using typed_readerD [of rd JValue err d] by (auto simp: typed_job_def dest!: run_postD)

lemma typed_none: "run_post typed_result (Some (Val (None, d, err)))"
  "run_post typed_result (Some (return_parse_err err d msg v))"
  "run_post typed_result (Some (doc_fail d err msg))"
  by (auto intro!: post_Some dest!: return_parse_err_Val doc_fail_Val)

lemma typed_some: "well_typed v \<Longrightarrow> run_post typed_result (Some (Val (Some v, d, err)))"
  by (auto intro!: post_Some)

lemma array_rest_typed:
  assumes "typed_reader rd" "well_typed v" "vtype v = list_type"
  shows "run_post typed_result (array_rest mal rd v err d)"
  unfolding array_rest_def
  by (intro post_rules typed_none typed_some typed_readerD [OF assms(1)])
     (use assms in \<open>auto simp: typed_job_def dest!: append_typed(1) typed_reader_value [OF assms(1)]\<close>)

lemma object_rest_typed:
  assumes "typed_reader rd" "well_typed v" "vtype v = object_type"
  shows "run_post typed_result (object_rest mal rd v err d)"
  unfolding object_rest_def
  by (intro post_rules typed_none typed_some typed_readerD [OF assms(1)])
     (use assms in \<open>auto simp: typed_job_def dest!: append_typed(2) typed_reader_value [OF assms(1)]\<close>)

lemma num_value_typed: "num_value fl mal err st len neg s = Val (Some v, err') \<Longrightarrow> well_typed v"
  unfolding num_value_def Let_def
  by (auto simp: mem_bind_eq_Val split: if_splits dest: create_typed string_typed)

lemma parse_num_typed: "parse_num fl mal err d = Val (Some v, d', err') \<Longrightarrow> well_typed v"
  unfolding parse_num_def
  by (clarsimp simp only: mem_bind_eq_Val prod.case split_paired_Ex mem.inject prod.inject) (erule num_value_typed)

lemma parse_string_typed: "run_post typed_result (parse_string mal err d)"
proof -
  have e: "run_post typed_result (parse_escaped mal err d)" for d
    unfolding parse_escaped_def by (intro post_rules post_Some) (auto dest: string_typed)
  show ?thesis unfolding parse_string_def Let_def
    by (intro post_rules e typed_none post_Some) (auto dest: string_typed)
qed

lemma container_typed:
  assumes "typed_reader rd"
  shows "run_post typed_result (parse_array mal rd err d)" "run_post typed_result (parse_object mal rd err d)"
proof -
  have c: "run_post typed_result (parse_close c msg v err d)" if "well_typed v" for c msg v err d
    unfolding parse_close_def by (intro post_rules typed_none typed_some that)
  have rd: "well_typed w" if "rd job err1 d1 = Some (Val (Some w, d2, err2))" "typed_job job" for job err1 d1 w d2 err2
    using run_postD [OF typed_readerD [OF assms that(2)] that(1)] by simp
  show "run_post typed_result (parse_array mal rd err d)"
    unfolding parse_array_def
    by (intro post_rules typed_none c)
       (auto simp: typed_job_def created(1) split: if_splits intro!: rd [of "JArrayRest _"])
  show "run_post typed_result (parse_object mal rd err d)"
    unfolding parse_object_def
    by (intro post_rules typed_none c)
       (auto simp: typed_job_def created(2) split: if_splits intro!: rd [of "JObjectRest _"])
qed

lemma value_typed:
  assumes "typed_reader rd"
  shows "run_post typed_result (parse_value fl mal rd err d)"
proof -
  have n: "run_post typed_result (Some (parse_num fl mal err d))" for d
    by (rule post_Some) (auto dest: parse_num_typed)
  have w: "run_post typed_result (Some (parse_word w m err d))" if "\<And>v. m = Val (Some v) \<Longrightarrow> well_typed v" for w m d
    by (rule post_Some) (use that in \<open>auto simp: parse_word_def mem_bind_eq_Val split: if_splits dest: doc_fail_Val\<close>)
  show ?thesis unfolding parse_value_def
    by (intro post_rules container_typed [OF assms] parse_string_typed n w typed_none) (auto dest: create_typed)
qed

lemma json_run_typed: "typed_reader (json_run fl mal n)"
proof (induction n)
  case 0
  show ?case by (simp add: typed_reader_def run_post_def)
next
  case (Suc n)
  then have "typed_job job \<Longrightarrow> run_post typed_result (json_run fl mal (Suc n) job err d)" for job err d
    by (cases job) (auto simp: typed_job_def array_rest_typed object_rest_typed value_typed)
  then show ?case unfolding typed_reader_def by blast
qed

text \<open>
  C3. Whatever the text and whatever memory is refused, the value the JSON parser returns is well
  typed: the union of every value in it holds what its type says. Such a value can be destroyed,
  and printed without an indentation, without a wrong access.
\<close>

theorem json_parse_typed:
  assumes "gql_json_parse fl mal fuel err json len = Some (Val (Some v, d, err'))"
    "malloc_ok mal" "fmt_fits fl" "text_ok t" "terminated t" "n \<le> 0"
  shows "well_typed v \<and> gql_value_destroy v = Val () \<and> gql_value_json fl mal n 0 v (Some t) \<noteq> UB"
proof -
  have "typed_job JValue" by (simp add: typed_job_def)
  then have v: "well_typed v"
    using assms(1) run_postD [OF typed_readerD [OF json_run_typed]] by (fastforce simp: gql_json_parse_def run_bind_eq_Val)
  then have "writes_some mal (gql_value_json fl mal n (int 0) v)" by (rule json_typed(1) [OF assms(2,3,6)])
  then have "gql_value_json fl mal n 0 v (Some t) \<noteq> UB" using assms(4,5) by (fastforce simp: writes_some_def writes_def)
  then show ?thesis using v destroy_typed(1) by blast
qed

lemma json_parse_typed_witness:
  "\<exists>v d. gql_json_parse no_doubles mal0 9 no_err (''[7]'' @ [NUL]) 3 = Some (Val (Some v, d, no_err)) \<and>
    well_typed v \<and> gql_value_destroy v = Val () \<and> gql_value_json no_doubles mal0 0 0 v (Some abc_text) \<noteq> UB"
proof -
  let ?v = "GqlValue list_type (Members [(None, GqlValue gql_int_type (Scalar ([CHR 0x07] @ replicate 7 NUL) (Raw zero8)))] None)"
  let ?d = "\<lparr>dblk = ''[7]'' @ [NUL], dcur = 3, dend = 3\<rparr>"
  have "gql_json_parse no_doubles mal0 9 no_err (''[7]'' @ [NUL]) 3 = Some (Val (Some ?v, ?d, no_err))"
    by code_simp
  from json_parse_typed [OF this mal0_ok _ abc_text_ok, of 0] this show ?thesis
    by (auto simp: fmt_fits_def no_doubles_def)
qed

end
