(* ===== verification/Gqltime.thy ===== *)
theory Gqltime
  imports Gqlvalue
begin

text \<open>
  Times and UUIDs as text (\<open>time_to_text\<close>, \<open>time_parse\<close>, \<open>uuid_to_text\<close>, \<open>parse_uuid\<close> of
  \<open>ext/agoo/gqlvalue.c\<close>): what is printed is parsed back.
\<close>

section \<open>Numbers of a fixed width\<close>

lemma mod_power_Suc: "n mod b ^ Suc w = (n div b ^ w mod b) * b ^ w + n mod b ^ w" for n :: nat
  using mod_mult2_eq [of n "b ^ w" b] by (simp add: mult.commute)

text \<open>The digits of \<open>n\<close> in a base, most significant first, given what a digit looks like.\<close>

definition places :: "nat \<Rightarrow> (nat \<Rightarrow> char) \<Rightarrow> nat \<Rightarrow> nat \<Rightarrow> string" where
  "places b f w n = map (\<lambda>i. f (n div b ^ i mod b)) (rev [0..<w])"

lemma length_places [simp]: "length (places b f w n) = w"
  by (simp add: places_def)

lemma places_0: "places b f 0 n = []"
  by (simp add: places_def)

lemma places_first: "places b f (Suc w) n = f (n div b ^ w mod b) # places b f w n"
  by (simp add: places_def)

lemma places_last: "places b f (Suc w) n = places b f w (n div b) @ [f (n mod b)]"
proof (induction w)
  case (Suc w)
  have "places b f (Suc (Suc w)) n = f (n div b ^ Suc w mod b) # places b f (Suc w) n" by (rule places_first)
  then show ?case unfolding Suc.IH by (simp add: places_first [of b f w "n div b"] div_mult2_eq)
qed (simp add: places_0 places_first)

lemma places_zero: "places b f w 0 = replicate w (f 0)"
  by (induction w) (simp_all add: places_0 places_first)

lemma zero_pad_places:
  assumes "1 < b"
    "\<And>n. s n = (if n < b then [f n] else s (n div b) @ [f (n mod b)])" "f 0 = CHR ''0''"
  shows "n < b ^ w \<Longrightarrow> 0 < w \<Longrightarrow> zero_pad w (s n) = places b f w n \<and> length (s n) \<le> w"
proof (induction w arbitrary: n)
  case (Suc w)
  show ?case
  proof (cases "n < b")
    case True
    then have "s n = [f n]" using assms(2) [of n] by simp
    then show ?thesis using True assms(3) by (simp add: zero_pad_def places_last places_zero)
  next
    case False
    then have s: "s n = s (n div b) @ [f (n mod b)]" using assms(2) [of n] by simp
    have "0 < w" using False Suc.prems by (cases w) auto
    moreover have "n div b < b ^ w" using Suc.prems assms(1) by (simp add: div_less_iff_less_mult mult.commute)
    ultimately show ?thesis using Suc.IH [of "n div b"] by (simp add: s zero_pad_def places_last)
  qed
qed simp

definition dec_digit_char :: "nat \<Rightarrow> char" where
  "dec_digit_char d = char_of (48 + d)"

lemma fmt_0d_places: "0 \<le> i \<Longrightarrow> i < 10 ^ w \<Longrightarrow> 0 < w \<Longrightarrow> fmt_0d w i = places 10 dec_digit_char w (nat i)"
proof -
  assume i: "0 \<le> i" "i < 10 ^ w" "0 < w"
  have d: "dec_str n = (if n < 10 then [dec_digit_char n] else dec_str (n div 10) @ [dec_digit_char (n mod 10)])" for n
    by (subst dec_str.simps) (simp add: dec_digit_char_def)
  have "nat i < 10 ^ w" using i by (simp add: nat_less_iff)
  moreover have "dec_digit_char 0 = CHR ''0''" 
    using char_of_char [of "CHR ''0''", where 'a = nat] by (simp add: dec_digit_char_def)
  ultimately show ?thesis using zero_pad_places [of 10 dec_str dec_digit_char "nat i" w, OF _ d] i
    by (simp add: fmt_0d_def)
qed

lemma fmt_0x_places: "n < 16 ^ w \<Longrightarrow> 0 < w \<Longrightarrow> fmt_0x w n = places 16 (\<lambda>d. hex_chars ! d) w n"
proof -
  assume n: "n < 16 ^ w" "0 < w"
  have d: "hex_str n = (if n < 16 then [hex_chars ! n] else hex_str (n div 16) @ [hex_chars ! (n mod 16)])" for n
    by (subst hex_str.simps) simp
  show ?thesis using zero_pad_places [of 16 hex_str "\<lambda>d. hex_chars ! d" n w, OF _ d] n
    by (simp add: fmt_0x_def hex_chars_def)
qed

section \<open>Reading them\<close>

lemma cat_at: "str = pre @ c # rest \<Longrightarrow> s = length pre \<Longrightarrow> cat str s = c"
  by (simp add: cat_def)

lemma read_num_at:
  "str = pre @ places 10 dec_digit_char w n @ rest \<Longrightarrow> s = length pre \<Longrightarrow>
   read_num str s w v = Some (v * 10 ^ w + n mod 10 ^ w, s + w)"
proof (induction w arbitrary: pre s v)
  case (Suc w)
  let ?d = "n div 10 ^ w mod 10"
  have c: "cat str s = dec_digit_char ?d"
    by (rule cat_at) (use Suc.prems in \<open>simp_all add: places_first\<close>)
  have "str = (pre @ [dec_digit_char ?d]) @ places 10 dec_digit_char w n @ rest"
    using Suc.prems(1) by (simp add: places_first)
  from Suc.IH [OF this, of "Suc s"] have "read_num str (Suc s) w x = Some (x * 10 ^ w + n mod 10 ^ w, Suc s + w)" for x
    using Suc.prems(2) by simp
  moreover note mod_power_Suc [of n 10 w]
  ultimately show ?case using dec_digit [of ?d] by (simp add: c dec_digit_char_def algebra_simps)
qed (simp add: places_0)

lemma time_frac_at:
  "str = pre @ places 10 dec_digit_char w n @ rest \<Longrightarrow> s = length pre \<Longrightarrow> s + w \<le> end \<Longrightarrow>
   time_frac str end s w x = Some (0, s + w, x * 10 ^ w + of_nat (n mod 10 ^ w))"
proof (induction w arbitrary: pre s x)
  case (Suc w)
  let ?d = "n div 10 ^ w mod 10"
  have c: "cat str s = dec_digit_char ?d"
    by (rule cat_at) (use Suc.prems in \<open>simp_all add: places_first\<close>)
  have "str = (pre @ [dec_digit_char ?d]) @ places 10 dec_digit_char w n @ rest"
    using Suc.prems(1) by (simp add: places_first)
  from Suc.IH [OF this, of "Suc s"]
  have "time_frac str end (Suc s) w x = Some (0, Suc s + w, x * 10 ^ w + of_nat (n mod 10 ^ w))" for x
    using Suc.prems(2,3) by simp
  moreover note mod_power_Suc [of n 10 w]
  ultimately show ?case using dec_digit [of ?d] Suc.prems(3) by (simp add: c dec_digit_char_def algebra_simps)
qed (simp add: places_0)

lemma uuid_hexVal_char: "k < 16 \<Longrightarrow> uuid_hexVal (hex_chars ! k) = Some k"
proof -
  assume "k < 16"
  then have "k \<in> set [0, 1, 2, 3, 4, 5, 6, 7, 8, 9, 10, 11, 12, 13, 14, 15]" by (simp, presburger)
  then show ?thesis unfolding list.set by (elim insertE emptyE) (simp_all add: hex_chars_def uuid_hexVal_def is_digit_def)
qed

lemma read_hexs_at:
  "str = pre @ places 16 (\<lambda>d. hex_chars ! d) w n @ rest \<Longrightarrow> s = length pre \<Longrightarrow>
   read_hexs str s w x = Some (x * 16 ^ w + of_nat (n mod 16 ^ w))"
proof (induction w arbitrary: pre s x)
  case (Suc w)
  let ?d = "n div 16 ^ w mod 16"
  have c: "cat str s = hex_chars ! ?d"
    by (rule cat_at) (use Suc.prems in \<open>simp_all add: places_first\<close>)
  have "str = (pre @ [hex_chars ! ?d]) @ places 16 (\<lambda>d. hex_chars ! d) w n @ rest"
    using Suc.prems(1) by (simp add: places_first)
  from Suc.IH [OF this, of "Suc s"] have "read_hexs str (Suc s) w x = Some (x * 16 ^ w + of_nat (n mod 16 ^ w))" for x
    using Suc.prems(2) by simp
  moreover note mod_power_Suc [of n 16 w]
  ultimately show ?case using uuid_hexVal_char [of ?d] by (simp add: c push_bit_eq_mult algebra_simps)
qed (simp add: places_0)

lemma places_hex_NUL: "NUL \<notin> set (places 16 (\<lambda>d. hex_chars ! d) w n)"
proof -
  have "hex_chars ! d \<noteq> NUL" if "d < 16" for d
    using uuid_hexVal_char [OF that] by (auto simp: NUL_def uuid_hexVal_def is_digit_def)
  then have "hex_chars ! (n div 16 ^ x mod 16) \<noteq> NUL" for x by simp
  then show ?thesis by (auto simp: places_def) metis
qed

lemma of_nat_unat_self: "of_nat (unat x) = x" for x :: "'a::len word"
  by simp

section \<open>Round trips\<close>

text \<open>
  C34. A UUID that is printed is parsed back to the same 128 bits.
\<close>

theorem uuid_round_trip:
  "parse_uuid err (uuid_str hi lo) 0 = Val (AGOO_ERR_OK, Some (hi, lo), err)"
proof -
  let ?h = "places 16 (\<lambda>d. hex_chars ! d)"
  define a b c d e where parts: "a = unat hi div 2 ^ 32" "b = unat hi div 2 ^ 16 mod 2 ^ 16" "c = unat hi mod 2 ^ 16"
    "d = unat lo div 2 ^ 48" "e = unat lo mod 2 ^ 48"
  have lt: "unat hi < 2 ^ 64" "unat lo < 2 ^ 64" using unsigned_less [of hi] unsigned_less [of lo] by simp_all
  have fits: "a < 16 ^ 8" "b < 16 ^ 4" "c < 16 ^ 4" "d < 16 ^ 4" "e < 16 ^ 12"
    using lt by (simp_all add: parts less_mult_imp_div_less)
  have m: "x AND 0xFFFF = take_bit 16 x" "x AND 0xFFFFFFFFFFFF = take_bit 48 x" for x :: "64 word"
    by (simp_all add: take_bit_eq_mask mask_eq_exp_minus_1)
  have u: "unat (drop_bit 32 hi) = a" "unat (drop_bit 16 hi AND 0xFFFF) = b" "unat (hi AND 0xFFFF) = c"
    "unat (drop_bit 48 lo) = d" "unat (lo AND 0xFFFFFFFFFFFF) = e"
    unfolding m unsigned_take_bit_eq unat_drop_bit_eq parts by (simp_all only: drop_bit_eq_div take_bit_eq_mod)
  define str where "str = uuid_str hi lo"
  have s: "str = ?h 8 a @ ''-'' @ ?h 4 b @ ''-'' @ ?h 4 c @ ''-'' @ ?h 4 d @ ''-'' @ ?h 12 e"
    unfolding str_def uuid_str_def u using fits by (simp add: fmt_0x_places del: power_numeral)
  have "length str = 36" by (simp add: s)
  moreover have "NUL \<notin> set str" by (simp add: s places_hex_NUL) (simp add: NUL_def)
  ultimately have len: "arg_len str 0 = 36" by (simp add: arg_len_def strlen_def)
  have dash: "cat str 8 = CHR ''-''" "cat str 13 = CHR ''-''" "cat str 18 = CHR ''-''" "cat str 23 = CHR ''-''"
    by (simp_all add: s cat_def nth_append nth_Cons')
  note read = read_hexs_at [of str]
  have r: "read_hexs str 0 8 0 = Some (of_nat a)" "read_hexs str 9 4 x = Some (x * 16 ^ 4 + of_nat b)"
    "read_hexs str 14 4 x = Some (x * 16 ^ 4 + of_nat c)" "read_hexs str 19 4 0 = Some (of_nat d)"
    "read_hexs str 24 12 x = Some (x * 16 ^ 12 + of_nat e)" for x
    using read [of "[]" 8 a _ 0 0] read [of "?h 8 a @ ''-''" 4 b _ 9 x]
      read [of "?h 8 a @ ''-'' @ ?h 4 b @ ''-''" 4 c _ 14 x]
      read [of "?h 8 a @ ''-'' @ ?h 4 b @ ''-'' @ ?h 4 c @ ''-''" 4 d _ 19 0]
      read [of "?h 8 a @ ''-'' @ ?h 4 b @ ''-'' @ ?h 4 c @ ''-'' @ ?h 4 d @ ''-''" 12 e "[]" 24 x] fits
    by (simp_all add: s del: power_numeral)
  have "(a * 16 ^ 4 + b) * 16 ^ 4 + c = unat hi" "d * 16 ^ 12 + e = unat lo"
    unfolding parts using div_mult_mod_eq [of "unat hi" "2 ^ 16"] div_mult_mod_eq [of "unat hi div 2 ^ 16" "2 ^ 16"]
      div_mult_mod_eq [of "unat lo" "2 ^ 48"] by (simp_all add: div_mult2_eq [symmetric])
  then have "of_nat ((a * 16 ^ 4 + b) * 16 ^ 4 + c) = hi" "of_nat (d * 16 ^ 12 + e) = lo"
    by (simp_all only: of_nat_unat_self)
  then have w: "(of_nat a * 16 ^ 4 + of_nat b) * 16 ^ 4 + of_nat c = hi" "of_nat d * 16 ^ 12 + of_nat e = lo"
    by (simp_all only: of_nat_add of_nat_mult of_nat_power of_nat_numeral)
  show ?thesis unfolding str_def [symmetric] parse_uuid_def
    using len dash r w by simp
qed

text \<open>The printed years have four digits.\<close>

lemma year_start_mono: "x \<le> y \<Longrightarrow> year_start x \<le> year_start y"
proof (induction y rule: int_ge_induct)
  case (step y)
  then show ?case by (simp add: year_start_Suc split: if_splits)
qed simp

lemma sectime_four_digits:
  assumes "- 10000000000 \<le> secs" "secs \<le> 10000000000"
  shows "0 \<le> at_year (agoo_sectime secs) \<and> at_year (agoo_sectime secs) < 10000"
proof -
  let ?y = "at_year (agoo_sectime secs)"
  note b = sectime_year [of secs]
  have "\<not> 10000 \<le> ?y" using b year_start_mono [of 10000 ?y] assms by (auto simp: year_start_def)
  moreover have "\<not> ?y + 1 \<le> 0" using b year_start_mono [of "?y + 1" 0] assms by (auto simp: year_start_0)
  ultimately show ?thesis by simp
qed

lemma month_days_le: "month_days y m \<le> 31"
  by (simp add: month_days_def)

text \<open>Seconds and nanoseconds, both towards zero.\<close>

lemma split_nsecs:
  fixes x :: int
  defines "q \<equiv> c_div x 1000000000"
  shows "\<bar>x - q * 1000000000\<bar> < 1000000000"
    "0 \<le> x \<Longrightarrow> x = q * 1000000000 + \<bar>x - q * 1000000000\<bar> \<and> 0 \<le> q"
    "x \<le> - 1000000000 \<Longrightarrow> x = q * 1000000000 - \<bar>x - q * 1000000000\<bar> \<and> q < 0"
proof -
  have p: "q = x div 1000000000" "x - q * 1000000000 = x mod 1000000000" "0 \<le> q" if "0 \<le> x"
    using that by (simp_all add: q_def minus_div_mult_eq_mod pos_imp_zdiv_nonneg_iff)
  have n: "q = - ((- x) div 1000000000)" "x - q * 1000000000 = - ((- x) mod 1000000000)" if "x < 0"
    using that minus_div_mult_eq_mod [of "- x" 1000000000] by (simp_all add: q_def c_div_neg)
  have q: "q < 0" if "x \<le> - 1000000000" using that n(1) zdiv_mono1 [of 1000000000 "- x" 1000000000] by simp
  show "\<bar>x - q * 1000000000\<bar> < 1000000000"
    "0 \<le> x \<Longrightarrow> x = q * 1000000000 + \<bar>x - q * 1000000000\<bar> \<and> 0 \<le> q"
    "x \<le> - 1000000000 \<Longrightarrow> x = q * 1000000000 - \<bar>x - q * 1000000000\<bar> \<and> q < 0"
    using p(2,3) n(2) q pos_mod_bound [of 1000000000 x] pos_mod_bound [of 1000000000 "- x"]
      pos_mod_sign [of 1000000000 x] pos_mod_sign [of 1000000000 "- x"] by linarith+
qed

lemma places_dec_NUL: "NUL \<notin> set (places 10 dec_digit_char w n)"
proof -
  have "dec_digit_char (n div 10 ^ x mod 10) \<noteq> NUL" for x
  proof -
    have "is_digit (dec_digit_char (n div 10 ^ x mod 10))" using dec_digit [of "n div 10 ^ x mod 10"] by (simp add: dec_digit_char_def)
    moreover have "\<not> is_digit NUL" by (simp add: is_digit_def NUL_def)
    ultimately show ?thesis by metis
  qed
  then show ?thesis by (auto simp: places_def) metis
qed

text \<open>The parts of a printed time, by their positions.\<close>

lemma time_text_parts:
  defines "p \<equiv> places 10 dec_digit_char"
  assumes s: "str = p 4 y @ ''-'' @ p 2 mo @ ''-'' @ p 2 d @ ''T'' @ p 2 h @ '':'' @ p 2 mi @ '':'' @ p 2 sec @ ''.'' @ p 9 ns @ ''Z''"
  shows "strlen str = 30"
    "cat str 0 \<noteq> CHR ''-''" "cat str 4 = CHR ''-''" "cat str 7 = CHR ''-''" "cat str 10 = CHR ''T''" "cat str 13 = CHR '':''"
    "cat str 16 = CHR '':''" "cat str 19 = CHR ''.''" "cat str 29 = CHR ''Z''"
    "read_num str 0 4 0 = Some (y mod 10 ^ 4, 4)" "read_num str 5 2 0 = Some (mo mod 10 ^ 2, 7)"
    "read_num str 8 2 0 = Some (d mod 10 ^ 2, 10)" "read_num str 11 2 0 = Some (h mod 10 ^ 2, 13)"
    "read_num str 14 2 0 = Some (mi mod 10 ^ 2, 16)" "read_num str 17 2 0 = Some (sec mod 10 ^ 2, 19)"
    "time_frac str 30 20 9 0 = Some (0, 29, of_nat (ns mod 10 ^ 9))"
proof -
  have l: "length (p w n) = w" for w n by (simp add: p_def)
  have "NUL \<notin> set (p w n)" for w n unfolding p_def by (rule places_dec_NUL)
  then have "NUL \<notin> set str" by (simp add: s) (simp add: NUL_def)
  moreover have "length str = 30" by (simp add: s l)
  ultimately show "strlen str = 30" by (simp add: strlen_def)
  have "p 4 y = dec_digit_char (y div 10 ^ 3 mod 10) # p 3 y"
    using places_first [of 10 dec_digit_char 3 y] by (simp add: p_def)
  then have "cat str 0 = dec_digit_char (y div 10 ^ 3 mod 10)" by (intro cat_at [of _ "[]"]) (simp_all add: s)
  then have "is_digit (cat str 0)" using dec_digit [of "y div 10 ^ 3 mod 10"] by (simp add: dec_digit_char_def)
  moreover have "\<not> is_digit CHR ''-''" by (simp add: is_digit_def)
  ultimately show "cat str 0 \<noteq> CHR ''-''" by metis
  show "cat str 4 = CHR ''-''" by (rule cat_at [of _ "p 4 y"]) (simp_all add: s l)
  show "cat str 7 = CHR ''-''" by (rule cat_at [of _ "p 4 y @ ''-'' @ p 2 mo"]) (simp_all add: s l)
  show "cat str 10 = CHR ''T''" by (rule cat_at [of _ "p 4 y @ ''-'' @ p 2 mo @ ''-'' @ p 2 d"]) (simp_all add: s l)
  show "cat str 13 = CHR '':''" by (rule cat_at [of _ "p 4 y @ ''-'' @ p 2 mo @ ''-'' @ p 2 d @ ''T'' @ p 2 h"]) (simp_all add: s l)
  show "cat str 16 = CHR '':''"
    by (rule cat_at [of _ "p 4 y @ ''-'' @ p 2 mo @ ''-'' @ p 2 d @ ''T'' @ p 2 h @ '':'' @ p 2 mi"]) (simp_all add: s l)
  show "cat str 19 = CHR ''.''"
    by (rule cat_at [of _ "p 4 y @ ''-'' @ p 2 mo @ ''-'' @ p 2 d @ ''T'' @ p 2 h @ '':'' @ p 2 mi @ '':'' @ p 2 sec"]) (simp_all add: s l)
  show "cat str 29 = CHR ''Z''"
    by (rule cat_at [of _ "p 4 y @ ''-'' @ p 2 mo @ ''-'' @ p 2 d @ ''T'' @ p 2 h @ '':'' @ p 2 mi @ '':'' @ p 2 sec @ ''.'' @ p 9 ns"])
       (simp_all add: s l)
  have read: "read_num str k w 0 = Some (n mod 10 ^ w, k + w)" if "str = pre @ p w n @ rest" "k = length pre" for pre w n rest k
    using read_num_at [of str pre w n rest k 0] that by (simp add: p_def)
  show "read_num str 0 4 0 = Some (y mod 10 ^ 4, 4)" using read [of "[]" 4 y _ 0] s by simp
  show "read_num str 5 2 0 = Some (mo mod 10 ^ 2, 7)" using read [of "p 4 y @ ''-''" 2 mo _ 5] s l by simp
  show "read_num str 8 2 0 = Some (d mod 10 ^ 2, 10)" using read [of "p 4 y @ ''-'' @ p 2 mo @ ''-''" 2 d _ 8] s l by simp
  show "read_num str 11 2 0 = Some (h mod 10 ^ 2, 13)"
    using read [of "p 4 y @ ''-'' @ p 2 mo @ ''-'' @ p 2 d @ ''T''" 2 h _ 11] s l by simp
  show "read_num str 14 2 0 = Some (mi mod 10 ^ 2, 16)"
    using read [of "p 4 y @ ''-'' @ p 2 mo @ ''-'' @ p 2 d @ ''T'' @ p 2 h @ '':''" 2 mi _ 14] s l by simp
  show "read_num str 17 2 0 = Some (sec mod 10 ^ 2, 19)"
    using read [of "p 4 y @ ''-'' @ p 2 mo @ ''-'' @ p 2 d @ ''T'' @ p 2 h @ '':'' @ p 2 mi @ '':''" 2 sec _ 17] s l by simp
  show "time_frac str 30 20 9 0 = Some (0, 29, of_nat (ns mod 10 ^ 9))"
    using time_frac_at [of str "p 4 y @ ''-'' @ p 2 mo @ ''-'' @ p 2 d @ ''T'' @ p 2 h @ '':'' @ p 2 mi @ '':'' @ p 2 sec @ ''.''" 9 ns
        "''Z''" 20 30 0] s l by (simp add: p_def)
qed

text \<open>Seconds and nanoseconds of a 64 bit time, and the sum that gives it back.\<close>

lemma nsecs_parts:
  fixes t :: "64 word"
  assumes "0 \<le> sint t \<or> sint t \<le> - 1000000000"
  defines "secs \<equiv> c_div (sint t) 1000000000"
  defines "ns \<equiv> nat \<bar>sint t - secs * 1000000000\<bar>"
  shows "ns < 10 ^ 9" "- 10000000000 \<le> secs" "secs \<le> 10000000000"
    "- (2 ^ 63) \<le> secs * 1000000000" "secs * 1000000000 < 2 ^ 63"
    "(let x = word_of_int (secs * 1000000000) in if 0 \<le> sint x then x + of_nat ns else x - of_nat ns) = t"
proof -
  have range: "- (2 ^ 63) \<le> sint t" "sint t < 2 ^ 63" using sint_range_size [of t] by (simp_all add: word_size)
  have "int ns = \<bar>sint t - secs * 1000000000\<bar>" by (simp add: ns_def)
  note e = split_nsecs [of "sint t", folded secs_def, folded this]
  have "ns < 1000000000" using e(1) by linarith
  then show "ns < 10 ^ 9" by simp
  have cases: "0 \<le> sint t \<and> sint t = secs * 1000000000 + int ns \<and> 0 \<le> secs \<or>
      sint t < 0 \<and> sint t = secs * 1000000000 - int ns \<and> secs < 0"
    using assms(1) e(2,3) by linarith
  then show big: "- (2 ^ 63) \<le> secs * 1000000000" "secs * 1000000000 < 2 ^ 63" using range by auto
  show "- 10000000000 \<le> secs" "secs \<le> 10000000000" using big by simp_all
  have w: "sint (word_of_int (secs * 1000000000) :: 64 word) = secs * 1000000000"
    using big by (simp only: sint_sbintrunc') (intro signed_take_bit_int_eq_self, simp_all)
  have "word_of_int (secs * 1000000000) + of_nat ns = t" if "0 \<le> secs"
  proof -
    have "sint t = secs * 1000000000 + int ns" using cases that by linarith
    then have "word_of_int (sint t) = (word_of_int (secs * 1000000000) + of_nat ns :: 64 word)" by simp
    then show ?thesis by simp
  qed
  moreover have "word_of_int (secs * 1000000000) - of_nat ns = t" if "secs < 0"
  proof -
    have "sint t = secs * 1000000000 - int ns" using cases that by linarith
    then have "word_of_int (sint t) = (word_of_int (secs * 1000000000) - of_nat ns :: 64 word)" by simp
    then show ?thesis by simp
  qed
  ultimately show "(let x = word_of_int (secs * 1000000000) in if 0 \<le> sint x then x + of_nat ns else x - of_nat ns) = t"
    using w by (simp add: Let_def)
qed

text \<open>The fields of a printed time, and the time they stand for.\<close>

lemma sectime_fields_small:
  assumes "a = agoo_sectime secs" "at_year a mod 400 \<notin> {1, 2, 3}" "- 10000000000 \<le> secs" "secs \<le> 10000000000"
  shows "0 \<le> at_year a" "at_year a < 10 ^ 4" "1 \<le> at_mon a" "at_mon a < 10 ^ 2" "1 \<le> at_day a" "at_day a < 10 ^ 2"
    "0 \<le> at_hour a" "at_hour a < 10 ^ 2" "0 \<le> at_min a" "at_min a < 10 ^ 2" "0 \<le> at_sec a" "at_sec a < 10 ^ 2"
    "timegm \<lparr>tm_year = at_year a - 1900, tm_mon = at_mon a - 1, tm_mday = at_day a, tm_hour = at_hour a,
      tm_min = at_min a, tm_sec = at_sec a\<rparr> = secs"
proof -
  have civil: "civil_ok a" "civil_secs a = secs" using sectime_is_civil [OF assms(1,2)] by simp_all
  show year: "0 \<le> at_year a" "at_year a < 10 ^ 4" using sectime_four_digits [OF assms(3,4)] by (simp_all add: assms(1))
  show fields: "1 \<le> at_mon a" "at_mon a < 10 ^ 2" "1 \<le> at_day a" "at_day a < 10 ^ 2" "0 \<le> at_hour a" "at_hour a < 10 ^ 2"
    "0 \<le> at_min a" "at_min a < 10 ^ 2" "0 \<le> at_sec a" "at_sec a < 10 ^ 2"
    using civil(1) month_days_le [of "at_year a" "at_mon a"] by (auto simp: civil_ok_def)
  have "at_mon a \<le> 12" using civil(1) by (simp add: civil_ok_def)
  then show "timegm \<lparr>tm_year = at_year a - 1900, tm_mon = at_mon a - 1, tm_mday = at_day a, tm_hour = at_hour a,
      tm_min = at_min a, tm_sec = at_sec a\<rparr> = secs"
    using civil(2) fields by (simp add: timegm_def civil_secs_def)
qed

text \<open>
  C35. A time that is printed is parsed back to the same nanosecond, for the years in which
  \<open>agoo_sectime\<close> is right, and unless it is less than a second before 1970, where the sign is lost.
\<close>

theorem time_round_trip:
  assumes "at_year (agoo_sectime (c_div (sint t) 1000000000)) mod 400 \<notin> {1, 2, 3}"
    "0 \<le> sint t \<or> sint t \<le> - 1000000000"
  shows "time_parse err (time_str t) (- 1) = Val (t, err)"
proof -
  let ?p = "places 10 dec_digit_char"
  define secs where "secs = c_div (sint t) 1000000000"
  define ns where "ns = nat \<bar>sint t - secs * 1000000000\<bar>"
  define a where "a = agoo_sectime secs"
  note n = nsecs_parts [OF assms(2), folded secs_def, folded ns_def]
  note f = sectime_fields_small [OF a_def _ n(2,3), folded a_def]
  have year: "at_year a mod 400 \<notin> {1, 2, 3}" using assms(1) by (simp add: a_def secs_def)
  note f = f [OF this]
  define str where "str = time_str t"
  have "\<bar>sint t - secs * 1000000000\<bar> = int ns" by (simp add: ns_def)
  then have s: "str = ?p 4 (nat (at_year a)) @ ''-'' @ ?p 2 (nat (at_mon a)) @ ''-'' @ ?p 2 (nat (at_day a)) @ ''T'' @
      ?p 2 (nat (at_hour a)) @ '':'' @ ?p 2 (nat (at_min a)) @ '':'' @ ?p 2 (nat (at_sec a)) @ ''.'' @ ?p 9 ns @ ''Z''"
    using f n(1)
    by (simp add: str_def time_str_def Let_def secs_def [symmetric] a_def [symmetric] fmt_0d_places del: abs_minus_commute)
  have d: "nat i < 10 ^ w" if "0 \<le> i" "i < 10 ^ w" for i w using that by (simp add: nat_less_iff)
  note parts = time_text_parts [OF s, simplified mod_less [OF n(1)] mod_less [OF d [OF f(1,2)]]
      mod_less [OF d [OF f(7,8)]] mod_less [OF d [OF f(9,10)]] mod_less [OF d [OF f(11,12)]]]
  have md: "nat (at_mon a) mod 10 ^ 2 = nat (at_mon a)" "nat (at_day a) mod 10 ^ 2 = nat (at_day a)"
    using d [of "at_mon a" 2] d [of "at_day a" 2] f by simp_all
  let ?tm = "\<lparr>tm_year = at_year a - 1900, tm_mon = at_mon a - 1, tm_mday = at_day a, tm_hour = at_hour a,
      tm_min = at_min a, tm_sec = at_sec a\<rparr>"
  have tail: "time_tail err str 30 20 CHR ''.'' ?tm = Val (t, err)"
    unfolding time_tail_def parts(16) option.case f(13) to_nsecs_def
    using n(4-6) parts(9) by (simp add: Let_def split: if_splits)
  show ?thesis unfolding str_def [symmetric]
    using parts(1-8) parts(10-15) [unfolded md] tail f
    by (simp add: time_parse_def time_of_day_def Let_def)
qed

lemma time_round_trip_witness:
  "time_parse \<lparr>ecode = AGOO_ERR_OK, emsg = []\<rparr> (time_str 951782400123456789) (- 1)
     = Val (951782400123456789, \<lparr>ecode = AGOO_ERR_OK, emsg = []\<rparr>)"
proof -
  have s: "sint (951782400123456789 :: 64 word) = 951782400123456789" by simp
  have "agoo_sectime 951782400 = \<lparr>at_sec = 0, at_min = 0, at_hour = 0, at_day = 29, at_mon = 2, at_year = 2000\<rparr>"
    by (simp add: agoo_sectime_def sectime_split_def secs_defs Let_def eom_leap_secs_def sectime_fields_def)
  then show ?thesis by (intro time_round_trip) (simp_all add: s)
qed

end
