(* ===== verification/Gqltype.thy ===== *)
theory Gqltype
  imports HashTable Gqltext
begin

text \<open>
  The GraphQL types and directives of a schema (\<open>ext/agoo/graphql.c\<close>): the table of the types by
  name, their creation and destruction, fields, arguments, unions, enums, inputs and directives.

  The structs of types and directives are at addresses, since they refer to each other; a freed
  address has no struct. Fields, arguments and choices are in the lists of the struct that owns
  them. The members of the union of a type are the constructors of \<open>gql_body\<close>: \<open>NoBody\<close> is a
  union that nothing was stored in. A request of memory is refused where the allocator refuses
  its size.
\<close>

section \<open>Structs\<close>

fun find_index :: "('a \<Rightarrow> bool) \<Rightarrow> 'a list \<Rightarrow> nat option" where
  "find_index P [] = None"
| "find_index P (x # xs) = (if P x then Some 0 else map_option Suc (find_index P xs))"

type_synonym tid = nat
type_synonym did = nat

record gql_use =
  use_dir :: did
  use_args :: "(string option \<times> gqlValue) list"

record gql_arg =
  arg_name :: string
  arg_desc :: "string option"
  arg_type :: "tid option"
  arg_default :: "gqlValue option"
  arg_dir :: "gql_use list"

record gql_field =
  field_name :: string
  field_type :: "tid option"
  field_desc :: "string option"
  field_args :: "gql_arg list"
  field_dir :: "gql_use list"
  field_default :: "gqlValue option"

record gql_enum_val =
  enum_value :: string
  enum_desc :: "string option"
  enum_dir :: "gql_use list"

datatype gql_body = NoBody | Fields "gql_field list" "tid list" | Types "tid list" | Choices "gql_enum_val list"
  | Args "gql_arg list" | Base tid | Printers bool

record gql_type =
  ty_name :: string
  ty_desc :: "string option"
  ty_dir :: "gql_use list"
  ty_kind :: gqlKind
  ty_scalar :: gqlScalarKind
  ty_core :: bool
  ty_body :: gql_body

text \<open>\<open>dir_core\<close> is \<open>None\<close> while nothing was stored in it.\<close>

record gql_dir =
  dir_name :: string
  dir_desc :: "string option"
  dir_args :: "gql_arg list"
  dir_locs :: "string option list"
  dir_defined :: bool
  dir_core :: "bool option"

text \<open>
  The state of the module: the structs, the 64 buckets of slots with the hash and the type, the
  list of the directives, and the next fresh address.
\<close>

record schema =
  s_types :: "tid \<Rightarrow> gql_type option"
  s_buckets :: "(u64 \<times> tid) list list"
  s_dirs :: "did \<Rightarrow> gql_dir option"
  s_dirlist :: "did list"
  s_next :: nat

definition BUCKET_SIZE :: nat where "BUCKET_SIZE = 64"
definition BAD_NAME :: u64 where "BAD_NAME = - 1"

text \<open>The structs of the ten core types are static: they are never freed.\<close>

definition static_type :: "tid \<Rightarrow> bool" where
  "static_type t \<longleftrightarrow> t < 10"

definition the_type :: "schema \<Rightarrow> tid \<Rightarrow> gql_type mem" where
  "the_type sc t = (case s_types sc t of None \<Rightarrow> UB | Some ty \<Rightarrow> Val ty)"

definition put_type :: "tid \<Rightarrow> gql_type \<Rightarrow> schema \<Rightarrow> schema" where
  "put_type t ty sc = sc\<lparr>s_types := (s_types sc)(t \<mapsto> ty)\<rparr>"

definition the_dir :: "schema \<Rightarrow> did \<Rightarrow> gql_dir mem" where
  "the_dir sc d = (case s_dirs sc d of None \<Rightarrow> UB | Some dir \<Rightarrow> Val dir)"

definition put_dir :: "did \<Rightarrow> gql_dir \<Rightarrow> schema \<Rightarrow> schema" where
  "put_dir d dir sc = sc\<lparr>s_dirs := (s_dirs sc)(d \<mapsto> dir)\<rparr>"

section \<open>The table of types\<close>

definition name_chars :: "nat list" where
  "name_chars =
     replicate 48 0 @ [1..<11] @ replicate 7 0 @ [0x0b..<0x25] @ replicate 4 0 @ [0x25] @ [0] @
     [0x26..<0x40] @ replicate 133 0"

fun hash_name :: "string \<Rightarrow> u64 \<Rightarrow> u64" where
  "hash_name [] h = h"
| "hash_name (c # k) h =
    (let x = name_chars ! of_char c in if x = 0 then BAD_NAME else hash_name k (37 * h + of_nat x))"

definition type_hash :: "string \<Rightarrow> u64" where
  "type_hash name = hash_name (cstr name) 0"

definition type_bucketp :: "u64 \<Rightarrow> nat" where
  "type_bucketp h = unat (63 AND spread h)"

fun kind_string :: "gqlKind \<Rightarrow> string" where
  "kind_string GQL_UNDEF = ''undefined''"
| "kind_string GQL_SCHEMA = ''schema''"
| "kind_string GQL_OBJECT = ''object''"
| "kind_string GQL_FRAG = ''fragment''"
| "kind_string GQL_INPUT = ''input''"
| "kind_string GQL_UNION = ''union''"
| "kind_string GQL_INTERFACE = ''interface''"
| "kind_string GQL_ENUM = ''enum''"
| "kind_string GQL_SCALAR = ''scalar''"
| "kind_string GQL_LIST = ''list''"
| "kind_string GQL_NON_NULL = ''non-null''"

text \<open>
  A copy of a text of \<open>len\<close> bytes, or of all of it where \<open>len\<close> is 0; there the length of the
  copy is taken also where there is none.
\<close>

definition mem_error :: "agoo_err \<Rightarrow> string \<Rightarrow> int \<Rightarrow> agoo_err mem" where
  "mem_error err what line = mem_bind (agoo_err_memory err what ''graphql.c'' line) (\<lambda>(_, err). Val err)"

definition strdup :: "allocator \<Rightarrow> string \<Rightarrow> string option" where
  "strdup mal s = c_strndup mal s (length s)"

definition alloc_string :: "allocator \<Rightarrow> agoo_err \<Rightarrow> string option \<Rightarrow> nat \<Rightarrow> (string option \<times> agoo_err) mem" where
  "alloc_string mal err s len =
    (case s of
       None \<Rightarrow> Val (None, err)
     | Some s \<Rightarrow>
         if len = 0 then (case strdup mal s of None \<Rightarrow> UB | Some a \<Rightarrow> Val (Some a, err))
         else (case c_strndup mal s len of
                 None \<Rightarrow> mem_bind (mem_error err ''strndup()'' 106) (\<lambda>err. Val (None, err))
               | Some a \<Rightarrow> Val (Some a, err)))"

text \<open>The loop over a bucket compares names only where the hashes are equal.\<close>

fun slot_find :: "schema \<Rightarrow> u64 \<Rightarrow> string \<Rightarrow> (u64 \<times> tid) list \<Rightarrow> tid option mem" where
  "slot_find sc h name [] = Val None"
| "slot_find sc h name ((h', t) # ss) =
    (if h = h' then
       mem_bind (the_type sc t) (\<lambda>ty. if ty_name ty = cstr name then Val (Some t) else slot_find sc h name ss)
     else slot_find sc h name ss)"

definition gql_type_get :: "schema \<Rightarrow> string \<Rightarrow> tid option mem" where
  "gql_type_get sc name =
    (let h = type_hash name in if 0 < h then slot_find sc h name (s_buckets sc ! type_bucketp h) else Val None)"

text \<open>The types in the order of \<open>gql_type_iterate\<close>.\<close>

definition gql_type_iterate :: "schema \<Rightarrow> tid list" where
  "gql_type_iterate sc = map snd (concat (s_buckets sc))"

section \<open>Destruction\<close>

definition opt_destroy :: "gqlValue option \<Rightarrow> unit mem" where
  "opt_destroy v = (case v of None \<Rightarrow> Val () | Some v \<Rightarrow> gql_value_destroy v)"

fun mem_each :: "('a \<Rightarrow> unit mem) \<Rightarrow> 'a list \<Rightarrow> unit mem" where
  "mem_each f [] = Val ()"
| "mem_each f (x # xs) = mem_bind (f x) (\<lambda>_. mem_each f xs)"

definition free_dir_uses :: "gql_use list \<Rightarrow> unit mem" where
  "free_dir_uses = mem_each (\<lambda>u. links_destroy (use_args u))"

definition arg_destroy :: "gql_arg \<Rightarrow> unit mem" where
  "arg_destroy a = mem_bind (opt_destroy (arg_default a)) (\<lambda>_. free_dir_uses (arg_dir a))"

definition field_destroy :: "gql_field \<Rightarrow> unit mem" where
  "field_destroy f =
    mem_bind (mem_each arg_destroy (field_args f)) (\<lambda>_.
    mem_bind (free_dir_uses (field_dir f)) (\<lambda>_. opt_destroy (field_default f)))"

text \<open>What a type owns; the member of the union that its kind names must have been stored.\<close>

definition type_clean :: "gql_type \<Rightarrow> unit mem" where
  "type_clean ty =
    mem_bind (free_dir_uses (ty_dir ty)) (\<lambda>_.
    if ty_kind ty \<in> {GQL_SCHEMA, GQL_OBJECT, GQL_INTERFACE} then
      (case ty_body ty of Fields fs ifs \<Rightarrow> mem_each field_destroy fs | _ \<Rightarrow> UB)
    else if ty_kind ty = GQL_INPUT then (case ty_body ty of Args as \<Rightarrow> mem_each arg_destroy as | _ \<Rightarrow> UB)
    else if ty_kind ty = GQL_UNION then (case ty_body ty of Types ts \<Rightarrow> Val () | _ \<Rightarrow> UB)
    else if ty_kind ty = GQL_ENUM then
      (case ty_body ty of Choices evs \<Rightarrow> mem_each (\<lambda>ev. free_dir_uses (enum_dir ev)) evs | _ \<Rightarrow> UB)
    else Val ())"

definition type_destroy :: "schema \<Rightarrow> tid \<Rightarrow> schema mem" where
  "type_destroy sc t =
    (if static_type t then Val sc
     else mem_bind (the_type sc t) (\<lambda>ty.
          mem_bind (type_clean ty) (\<lambda>_. Val (sc\<lparr>s_types := (s_types sc)(t := None)\<rparr>))))"

definition dir_clean :: "gql_dir \<Rightarrow> unit mem" where
  "dir_clean dir = mem_each arg_destroy (dir_args dir)"

definition dir_destroy :: "schema \<Rightarrow> did \<Rightarrow> schema mem" where
  "dir_destroy sc d =
    mem_bind (the_dir sc d) (\<lambda>dir.
    mem_bind (dir_clean dir) (\<lambda>_. Val (sc\<lparr>s_dirs := (s_dirs sc)(d := None)\<rparr>)))"

fun mem_fold :: "('s \<Rightarrow> 'a \<Rightarrow> 's mem) \<Rightarrow> 's \<Rightarrow> 'a list \<Rightarrow> 's mem" where
  "mem_fold f s [] = Val s"
| "mem_fold f s (x # xs) = mem_bind (f s x) (\<lambda>s. mem_fold f s xs)"

definition gql_destroy :: "schema \<Rightarrow> schema mem" where
  "gql_destroy sc =
    mem_bind (mem_fold type_destroy (sc\<lparr>s_buckets := replicate BUCKET_SIZE []\<rparr>) (gql_type_iterate sc)) (\<lambda>sc.
    mem_bind (mem_fold dir_destroy sc (s_dirlist sc)) (\<lambda>sc. Val (sc\<lparr>s_dirlist := []\<rparr>)))"

section \<open>Registration\<close>

fun slot_update :: "schema \<Rightarrow> u64 \<Rightarrow> string \<Rightarrow> tid \<Rightarrow> (u64 \<times> tid) list \<Rightarrow> (u64 \<times> tid) list mem" where
  "slot_update sc h name t [] = Val []"
| "slot_update sc h name t ((h', t') # ss) =
    (if h = h' then
       mem_bind (the_type sc t') (\<lambda>ty.
       if ty_name ty = name then Val ((h', t) # ss)
       else mem_bind (slot_update sc h name t ss) (\<lambda>ss. Val ((h', t') # ss)))
     else mem_bind (slot_update sc h name t ss) (\<lambda>ss. Val ((h', t') # ss)))"

definition gql_type_set :: "allocator \<Rightarrow> agoo_err \<Rightarrow> schema \<Rightarrow> tid \<Rightarrow> (agoo_err_code \<times> agoo_err \<times> schema) mem" where
  "gql_type_set mal err sc t =
    mem_bind (the_type sc t) (\<lambda>ty.
    let name = ty_name ty; h = type_hash name; i = type_bucketp h; b = s_buckets sc ! i
    in if h \<le> 0 then
         mem_bind (agoo_err_set err AGOO_ERR_ARG (name @ '' is not a valid GraphQL type name.''))
           (\<lambda>(code, err). Val (code, err, sc))
       else
         mem_bind (slot_find sc h name b) (\<lambda>old.
         case old of
           Some old \<Rightarrow>
             mem_bind (slot_update sc h name t b) (\<lambda>b.
             mem_bind (type_destroy sc old) (\<lambda>sc.
               Val (AGOO_ERR_OK, err, sc\<lparr>s_buckets := (s_buckets sc)[i := b]\<rparr>)))
         | None \<Rightarrow>
             if mal 24 = None then
               mem_bind (agoo_err_memory err ''GraphQL Type'' ''graphql.c'' 322) (\<lambda>(code, err). Val (code, err, sc))
             else Val (AGOO_ERR_OK, err, sc\<lparr>s_buckets := (s_buckets sc)[i := (h, t) # b]\<rparr>)))"

fun slot_remove :: "schema \<Rightarrow> u64 \<Rightarrow> string \<Rightarrow> (u64 \<times> tid) list \<Rightarrow> (u64 \<times> tid) list mem" where
  "slot_remove sc h name [] = Val []"
| "slot_remove sc h name ((h', t') # ss) =
    (if h = h' then
       mem_bind (the_type sc t') (\<lambda>ty.
       if ty_name ty = name then Val ss
       else mem_bind (slot_remove sc h name ss) (\<lambda>ss. Val ((h', t') # ss)))
     else mem_bind (slot_remove sc h name ss) (\<lambda>ss. Val ((h', t') # ss)))"

definition type_remove :: "schema \<Rightarrow> tid \<Rightarrow> schema mem" where
  "type_remove sc t =
    mem_bind (the_type sc t) (\<lambda>ty.
    let h = type_hash (ty_name ty); i = type_bucketp h
    in if 0 < h then
         mem_bind (slot_remove sc h (ty_name ty) (s_buckets sc ! i)) (\<lambda>b.
           Val (sc\<lparr>s_buckets := (s_buckets sc)[i := b]\<rparr>))
       else Val sc)"

definition gql_type_destroy :: "schema \<Rightarrow> tid \<Rightarrow> schema mem" where
  "gql_type_destroy sc t = mem_bind (type_remove sc t) (\<lambda>sc. type_destroy sc t)"

section \<open>Creation\<close>

text \<open>
  The text of the last error has the name behind \<open>%d\<close>; the model puts the name there. A type that
  exists but is not defined yet keeps what its union holds.
\<close>

definition new_type :: "allocator \<Rightarrow> agoo_err \<Rightarrow> schema \<Rightarrow> gqlKind \<Rightarrow> string \<Rightarrow> string option \<Rightarrow> nat \<Rightarrow>
    (tid option \<times> agoo_err \<times> schema) mem" where
  "new_type mal err sc kind name desc dlen =
    (if mal 64 = None then mem_bind (mem_error err ''GraphQL Type'' 363) (\<lambda>err. Val (None, err, sc))
     else case strdup mal name of
       None \<Rightarrow> mem_bind (mem_error err ''strndup()'' 367) (\<lambda>err. Val (None, err, sc))
     | Some nm \<Rightarrow>
         mem_bind (alloc_string mal err desc dlen) (\<lambda>(ds, err).
         if ds = None \<and> ecode err \<noteq> AGOO_ERR_OK then Val (None, err, sc)
         else
           let t = s_next sc;
               ty = \<lparr>ty_name = nm, ty_desc = ds, ty_dir = [], ty_kind = kind, ty_scalar = GQL_SCALAR_UNDEF,
                     ty_core = False, ty_body = NoBody\<rparr>
           in mem_bind (gql_type_set mal err (put_type t ty (sc\<lparr>s_next := t + 1\<rparr>)) t) (\<lambda>(code, err, sc).
              if code \<noteq> AGOO_ERR_OK then mem_bind (gql_type_destroy sc t) (\<lambda>sc. Val (None, err, sc))
              else Val (Some t, err, sc))))"

definition type_create :: "allocator \<Rightarrow> agoo_err \<Rightarrow> schema \<Rightarrow> gqlKind \<Rightarrow> string \<Rightarrow> string option \<Rightarrow> nat \<Rightarrow>
    (tid option \<times> agoo_err \<times> schema) mem" where
  "type_create mal err sc kind name desc dlen =
    mem_bind (gql_type_get sc name) (\<lambda>t.
    case t of
      None \<Rightarrow> new_type mal err sc kind name desc dlen
    | Some t \<Rightarrow>
        mem_bind (the_type sc t) (\<lambda>ty.
        if ty_kind ty = GQL_UNDEF then
          mem_bind (alloc_string mal err desc dlen) (\<lambda>(ds, err).
          if ds = None \<and> ecode err \<noteq> AGOO_ERR_OK then Val (None, err, put_type t (ty\<lparr>ty_desc := ds\<rparr>) sc)
          else Val (Some t, err, put_type t (ty\<lparr>ty_desc := ds, ty_kind := kind\<rparr>) sc))
        else
          mem_bind (agoo_err_set err AGOO_ERR_LOCK
            (if ty_core ty then name @ '' can not be modified.''
             else if kind = ty_kind ty then name @ '' already exists.''
             else name @ '' already exists as a '' @ kind_string (ty_kind ty) @ ''.''))
            (\<lambda>(_, err). Val (None, err, sc))))"

text \<open>The body that the functions below store in a type they have created.\<close>

definition create_with :: "gql_body \<Rightarrow> (tid option \<times> agoo_err \<times> schema) mem \<Rightarrow> (tid option \<times> agoo_err \<times> schema) mem" where
  "create_with body r =
    mem_bind r (\<lambda>(t, err, sc).
    case t of
      None \<Rightarrow> Val (None, err, sc)
    | Some t \<Rightarrow> mem_bind (the_type sc t) (\<lambda>ty. Val (Some t, err, put_type t (ty\<lparr>ty_body := body\<rparr>) sc)))"

definition gql_schema_create :: "allocator \<Rightarrow> agoo_err \<Rightarrow> schema \<Rightarrow> string option \<Rightarrow> nat \<Rightarrow> (tid option \<times> agoo_err \<times> schema) mem" where
  "gql_schema_create mal err sc desc dlen = create_with (Fields [] []) (type_create mal err sc GQL_SCHEMA ''schema'' desc dlen)"

definition gql_type_create ::
  "allocator \<Rightarrow> agoo_err \<Rightarrow> schema \<Rightarrow> string \<Rightarrow> string option \<Rightarrow> nat \<Rightarrow> tid list \<Rightarrow> (tid option \<times> agoo_err \<times> schema) mem" where
  "gql_type_create mal err sc name desc dlen interfaces =
    create_with (Fields [] interfaces) (type_create mal err sc GQL_OBJECT name desc dlen)"

definition gql_union_create ::
  "allocator \<Rightarrow> agoo_err \<Rightarrow> schema \<Rightarrow> string \<Rightarrow> string option \<Rightarrow> nat \<Rightarrow> (tid option \<times> agoo_err \<times> schema) mem" where
  "gql_union_create mal err sc name desc dlen = create_with (Types []) (type_create mal err sc GQL_UNION name desc dlen)"

definition gql_enum_create ::
  "allocator \<Rightarrow> agoo_err \<Rightarrow> schema \<Rightarrow> string \<Rightarrow> string option \<Rightarrow> nat \<Rightarrow> (tid option \<times> agoo_err \<times> schema) mem" where
  "gql_enum_create mal err sc name desc dlen = create_with (Choices []) (type_create mal err sc GQL_ENUM name desc dlen)"

definition gql_input_create ::
  "allocator \<Rightarrow> agoo_err \<Rightarrow> schema \<Rightarrow> string \<Rightarrow> string option \<Rightarrow> nat \<Rightarrow> (tid option \<times> agoo_err \<times> schema) mem" where
  "gql_input_create mal err sc name desc dlen = create_with (Args []) (type_create mal err sc GQL_INPUT name desc dlen)"

definition gql_interface_create ::
  "allocator \<Rightarrow> agoo_err \<Rightarrow> schema \<Rightarrow> string \<Rightarrow> string option \<Rightarrow> nat \<Rightarrow> (tid option \<times> agoo_err \<times> schema) mem" where
  "gql_interface_create mal err sc name desc dlen =
    create_with (Fields [] []) (type_create mal err sc GQL_INTERFACE name desc dlen)"

definition gql_scalar_create ::
  "allocator \<Rightarrow> agoo_err \<Rightarrow> schema \<Rightarrow> string \<Rightarrow> string option \<Rightarrow> nat \<Rightarrow> (tid option \<times> agoo_err \<times> schema) mem" where
  "gql_scalar_create mal err sc name desc dlen =
    mem_bind (create_with (Printers False) (type_create mal err sc GQL_SCALAR name desc dlen)) (\<lambda>(t, err, sc).
    case t of
      None \<Rightarrow> Val (None, err, sc)
    | Some t \<Rightarrow> mem_bind (the_type sc t) (\<lambda>ty. Val (Some t, err, put_type t (ty\<lparr>ty_scalar := GQL_SCALAR_STRING\<rparr>) sc)))"

definition gql_assure_type :: "allocator \<Rightarrow> agoo_err \<Rightarrow> schema \<Rightarrow> string option \<Rightarrow> (tid option \<times> agoo_err \<times> schema) mem" where
  "gql_assure_type mal err sc name =
    (case name of
       None \<Rightarrow> Val (None, err, sc)
     | Some name \<Rightarrow>
         mem_bind (gql_type_get sc name) (\<lambda>t.
         case t of None \<Rightarrow> type_create mal err sc GQL_UNDEF name None 0 | Some t \<Rightarrow> Val (Some t, err, sc)))"

text \<open>List and non-null types are registered under a name made from that of their base.\<close>

definition assure_derived ::
  "gqlKind \<Rightarrow> (string \<Rightarrow> string) \<Rightarrow> allocator \<Rightarrow> agoo_err \<Rightarrow> schema \<Rightarrow> tid \<Rightarrow> (tid option \<times> agoo_err \<times> schema) mem" where
  "assure_derived kind derived mal err sc base =
    mem_bind (the_type sc base) (\<lambda>b.
    let name = derived (ty_name b)
    in if 256 \<le> length name then
         mem_bind (agoo_err_set err AGOO_ERR_ARG ''Name too long'') (\<lambda>(_, err). Val (None, err, sc))
       else
         mem_bind (gql_type_get sc name) (\<lambda>t.
         case t of
           None \<Rightarrow> create_with (Base base) (type_create mal err sc kind name None 0)
         | Some t \<Rightarrow> Val (Some t, err, sc)))"

definition gql_assure_list :: "allocator \<Rightarrow> agoo_err \<Rightarrow> schema \<Rightarrow> tid \<Rightarrow> (tid option \<times> agoo_err \<times> schema) mem" where
  "gql_assure_list = assure_derived GQL_LIST (\<lambda>n. ''['' @ n @ '']'')"

definition gql_assure_nonnull :: "allocator \<Rightarrow> agoo_err \<Rightarrow> schema \<Rightarrow> tid \<Rightarrow> (tid option \<times> agoo_err \<times> schema) mem" where
  "gql_assure_nonnull = assure_derived GQL_NON_NULL (\<lambda>n. n @ ''!'')"

section \<open>Fields, arguments, members\<close>

text \<open>The member of the union of a type that an operation reads.\<close>

definition the_fields :: "gql_type \<Rightarrow> (gql_field list \<times> tid list) mem" where
  "the_fields ty = (case ty_body ty of Fields fs ifs \<Rightarrow> Val (fs, ifs) | _ \<Rightarrow> UB)"

text \<open>An argument, or \<open>None\<close> with the error set; \<open>what\<close> and the lines are those of the caller.\<close>

definition new_arg :: "string \<Rightarrow> int \<Rightarrow> allocator \<Rightarrow> agoo_err \<Rightarrow> string \<Rightarrow> tid option \<Rightarrow> string option \<Rightarrow> nat \<Rightarrow> gqlValue option \<Rightarrow>
    (gql_arg option \<times> agoo_err) mem" where
  "new_arg what line mal err name type desc dlen def_value =
    (if mal 48 = None then mem_bind (mem_error err what line) (\<lambda>err. Val (None, err))
     else case strdup mal name of
       None \<Rightarrow> mem_bind (mem_error err ''strdup()'' (line + 4)) (\<lambda>err. Val (None, err))
     | Some nm \<Rightarrow>
         mem_bind (alloc_string mal err desc dlen) (\<lambda>(ds, err).
         if ds = None \<and> ecode err \<noteq> AGOO_ERR_OK then Val (None, err)
         else Val (Some \<lparr>arg_name = nm, arg_desc = ds, arg_type = type, arg_default = def_value, arg_dir = []\<rparr>, err)))"

text \<open>A field is the position it has in its type.\<close>

definition gql_type_field :: "allocator \<Rightarrow> agoo_err \<Rightarrow> schema \<Rightarrow> tid \<Rightarrow> string \<Rightarrow> tid option \<Rightarrow> gqlValue option \<Rightarrow> string option \<Rightarrow> nat \<Rightarrow>
    ((tid \<times> nat) option \<times> agoo_err \<times> schema) mem" where
  "gql_type_field mal err sc t name return_type default_value desc dlen =
    (if mal 56 = None then mem_bind (mem_error err ''GraphQL Field'' 524) (\<lambda>err. Val (None, err, sc))
     else case strdup mal name of
       None \<Rightarrow> mem_bind (mem_error err ''strdup()'' 528) (\<lambda>err. Val (None, err, sc))
     | Some nm \<Rightarrow>
         mem_bind (alloc_string mal err desc dlen) (\<lambda>(ds, err).
         if ds = None \<and> ecode err \<noteq> AGOO_ERR_OK then Val (None, err, sc)
         else
           mem_bind (the_type sc t) (\<lambda>ty.
           mem_bind (the_fields ty) (\<lambda>(fs, ifs).
           let f = \<lparr>field_name = nm, field_type = return_type, field_desc = ds, field_args = [], field_dir = [],
                    field_default = default_value\<rparr>
           in Val (Some (t, length fs), err, put_type t (ty\<lparr>ty_body := Fields (fs @ [f]) ifs\<rparr>) sc)))))"

definition gql_field_arg :: "allocator \<Rightarrow> agoo_err \<Rightarrow> schema \<Rightarrow> tid \<times> nat \<Rightarrow> string \<Rightarrow> tid option \<Rightarrow> string option \<Rightarrow> nat \<Rightarrow> gqlValue option \<Rightarrow>
    (gql_arg option \<times> agoo_err \<times> schema) mem" where
  "gql_field_arg mal err sc field name type desc dlen def_value =
    mem_bind (new_arg ''GraphQL Field Argument'' 564 mal err name type desc dlen def_value) (\<lambda>(a, err).
    case a of
      None \<Rightarrow> Val (None, err, sc)
    | Some a \<Rightarrow>
        mem_bind (the_type sc (fst field)) (\<lambda>ty.
        mem_bind (the_fields ty) (\<lambda>(fs, ifs).
        if snd field < length fs then
          let f = fs ! snd field; f = f\<lparr>field_args := field_args f @ [a]\<rparr>
          in Val (Some a, err, put_type (fst field) (ty\<lparr>ty_body := Fields (fs[snd field := f]) ifs\<rparr>) sc)
        else UB)))"

definition gql_input_arg :: "allocator \<Rightarrow> agoo_err \<Rightarrow> schema \<Rightarrow> tid \<Rightarrow> string \<Rightarrow> tid option \<Rightarrow> string option \<Rightarrow> nat \<Rightarrow> gqlValue option \<Rightarrow>
    (gql_arg option \<times> agoo_err \<times> schema) mem" where
  "gql_input_arg mal err sc t name type desc dlen def_value =
    mem_bind (new_arg ''GraphQL Input Argument'' 603 mal err name type desc dlen def_value) (\<lambda>(a, err).
    case a of
      None \<Rightarrow> Val (None, err, sc)
    | Some a \<Rightarrow>
        mem_bind (the_type sc t) (\<lambda>ty.
        case ty_body ty of
          Args as \<Rightarrow> Val (Some a, err, put_type t (ty\<lparr>ty_body := Args (as @ [a])\<rparr>) sc)
        | _ \<Rightarrow> UB))"

definition gql_union_add :: "allocator \<Rightarrow> agoo_err \<Rightarrow> schema \<Rightarrow> tid \<Rightarrow> tid \<Rightarrow> (agoo_err_code \<times> agoo_err \<times> schema) mem" where
  "gql_union_add mal err sc t member =
    (if mal 16 = None then
       mem_bind (agoo_err_memory err ''GraphQL Union Value'' ''graphql.c'' 646) (\<lambda>(code, err). Val (code, err, sc))
     else
       mem_bind (the_type sc t) (\<lambda>ty.
       case ty_body ty of
         Types ts \<Rightarrow> Val (AGOO_ERR_OK, err, put_type t (ty\<lparr>ty_body := Types (ts @ [member])\<rparr>) sc)
       | _ \<Rightarrow> UB))"

definition gql_enum_append :: "allocator \<Rightarrow> agoo_err \<Rightarrow> schema \<Rightarrow> tid \<Rightarrow> string \<Rightarrow> nat \<Rightarrow> string option \<Rightarrow> nat \<Rightarrow>
    (gql_enum_val option \<times> agoo_err \<times> schema) mem" where
  "gql_enum_append mal err sc t val len desc dlen =
    mem_bind (the_type sc t) (\<lambda>ty.
    case ty_body ty of
      Choices evs \<Rightarrow>
        if cstr val \<in> enum_value ` set evs then
          mem_bind (agoo_err_set err AGOO_ERR_TOO_MANY
            (''Enum '' @ ty_name ty @ '' already has a choice of '' @ cstr val @ ''.'')) (\<lambda>(_, err). Val (None, err, sc))
        else if mal 32 = None then mem_bind (mem_error err ''GraphQL Enum Value'' 685) (\<lambda>err. Val (None, err, sc))
        else
          (case c_strndup mal val (if len = 0 then strlen val else len) of
             None \<Rightarrow> mem_bind (mem_error err ''strdup()'' 692) (\<lambda>err. Val (None, err, sc))
           | Some w \<Rightarrow>
               mem_bind (alloc_string mal err desc dlen) (\<lambda>(ds, err).
               if ds = None \<and> ecode err \<noteq> AGOO_ERR_OK then Val (None, err, sc)
               else
                 let ev = \<lparr>enum_value = w, enum_desc = ds, enum_dir = []\<rparr>
                 in Val (Some ev, err, put_type t (ty\<lparr>ty_body := Choices (evs @ [ev])\<rparr>) sc)))
    | _ \<Rightarrow> UB)"

section \<open>Directives\<close>

fun dir_find :: "schema \<Rightarrow> string \<Rightarrow> did list \<Rightarrow> did option mem" where
  "dir_find sc name [] = Val None"
| "dir_find sc name (d # ds) =
    mem_bind (the_dir sc d) (\<lambda>dir. if dir_name dir = cstr name then Val (Some d) else dir_find sc name ds)"

definition gql_directive_get :: "schema \<Rightarrow> string \<Rightarrow> did option mem" where
  "gql_directive_get sc name = dir_find sc name (s_dirlist sc)"

text \<open>
  A directive that is used before it is defined. It is linked before its name is copied; \<open>core\<close>
  is not stored.
\<close>

definition assure_directive :: "allocator \<Rightarrow> agoo_err \<Rightarrow> schema \<Rightarrow> string \<Rightarrow> (did option \<times> agoo_err \<times> schema) mem" where
  "assure_directive mal err sc name =
    mem_bind (gql_directive_get sc name) (\<lambda>d.
    case d of
      Some d \<Rightarrow> Val (Some d, err, sc)
    | None \<Rightarrow>
        if mal 48 = None then mem_bind (mem_error err ''GraphQL Directive'' 484) (\<lambda>err. Val (None, err, sc))
        else
          let d = s_next sc; sc = sc\<lparr>s_next := d + 1, s_dirlist := d # s_dirlist sc\<rparr>
          in case strdup mal name of
               None \<Rightarrow> mem_bind (mem_error err ''GraphQL Directive'' 489) (\<lambda>err. Val (None, err, sc))
             | Some nm \<Rightarrow>
                 Val (Some d, err, put_dir d \<lparr>dir_name = nm, dir_desc = None, dir_args = [], dir_locs = [],
                   dir_defined = False, dir_core = None\<rparr> sc))"

definition gql_directive_create :: "allocator \<Rightarrow> agoo_err \<Rightarrow> schema \<Rightarrow> string \<Rightarrow> string option \<Rightarrow> nat \<Rightarrow> (did option \<times> agoo_err \<times> schema) mem" where
  "gql_directive_create mal err sc name desc dlen =
    mem_bind (gql_directive_get sc name) (\<lambda>d.
    case d of
      Some d \<Rightarrow>
        mem_bind (the_dir sc d) (\<lambda>dir.
        mem_bind
          (if \<not> dir_defined dir then Val (dir\<lparr>dir_defined := True\<rparr>)
           else mem_bind (dir_clean dir) (\<lambda>_. Val (dir\<lparr>dir_args := [], dir_locs := [], dir_defined := True\<rparr>))) (\<lambda>dir.
        mem_bind (alloc_string mal err desc dlen) (\<lambda>(ds, err).
        let sc = put_dir d (dir\<lparr>dir_desc := ds\<rparr>) sc
        in if ds = None \<and> ecode err \<noteq> AGOO_ERR_OK then Val (None, err, sc) else Val (Some d, err, sc))))
    | None \<Rightarrow>
        if mal 48 = None then mem_bind (mem_error err ''GraphQL Directive'' 769) (\<lambda>err. Val (None, err, sc))
        else
          (case strdup mal name of
             None \<Rightarrow> mem_bind (mem_error err ''strdup()'' 773) (\<lambda>err. Val (None, err, sc))
           | Some nm \<Rightarrow>
               mem_bind (alloc_string mal err desc dlen) (\<lambda>(ds, err).
               if ds = None \<and> ecode err \<noteq> AGOO_ERR_OK then Val (None, err, sc)
               else
                 let d = s_next sc
                 in Val (Some d, err, put_dir d \<lparr>dir_name = nm, dir_desc = ds, dir_args = [], dir_locs = [],
                      dir_defined = True, dir_core = Some False\<rparr>
                      (sc\<lparr>s_next := d + 1, s_dirlist := d # s_dirlist sc\<rparr>)))))"

definition gql_dir_arg :: "allocator \<Rightarrow> agoo_err \<Rightarrow> schema \<Rightarrow> did \<Rightarrow> string \<Rightarrow> tid option \<Rightarrow> string option \<Rightarrow> nat \<Rightarrow> gqlValue option \<Rightarrow>
    (gql_arg option \<times> agoo_err \<times> schema) mem" where
  "gql_dir_arg mal err sc d name type desc dlen def_value =
    mem_bind (new_arg ''GraphQL Directive Argument'' 803 mal err name type desc dlen def_value) (\<lambda>(a, err).
    case a of
      None \<Rightarrow> Val (None, err, sc)
    | Some a \<Rightarrow>
        mem_bind (the_dir sc d) (\<lambda>dir.
          Val (Some a, err, put_dir d (dir\<lparr>dir_args := dir_args dir @ [a]\<rparr>) sc)))"

text \<open>
  Where no link can be allocated the error is set and NULL is used; where the text cannot be
  copied a link without a text stays in the list.
\<close>

definition gql_directive_on :: "allocator \<Rightarrow> agoo_err \<Rightarrow> schema \<Rightarrow> did \<Rightarrow> string \<Rightarrow> int \<Rightarrow> (agoo_err_code \<times> agoo_err \<times> schema) mem" where
  "gql_directive_on mal err sc d on len =
    (if mal 16 = None then UB
     else
       mem_bind (the_dir sc d) (\<lambda>dir.
       let s = c_strndup mal on (arg_len on len); sc = put_dir d (dir\<lparr>dir_locs := dir_locs dir @ [s]\<rparr>) sc
       in if s = None then mem_bind (agoo_err_memory err ''strdup()'' ''graphql.c'' 852) (\<lambda>(code, err). Val (code, err, sc))
          else Val (AGOO_ERR_OK, err, sc)))"

section \<open>Uses of directives\<close>

definition gql_dir_use_create :: "allocator \<Rightarrow> agoo_err \<Rightarrow> schema \<Rightarrow> string \<Rightarrow> (gql_use option \<times> agoo_err \<times> schema) mem" where
  "gql_dir_use_create mal err sc name =
    (if mal 24 = None then mem_bind (mem_error err ''GraphQL Directive Usage'' 1261) (\<lambda>err. Val (None, err, sc))
     else mem_bind (assure_directive mal err sc name) (\<lambda>(d, err, sc).
       case d of None \<Rightarrow> Val (None, err, sc) | Some d \<Rightarrow> Val (Some \<lparr>use_dir = d, use_args = []\<rparr>, err, sc)))"

text \<open>The newest argument is the first.\<close>

definition gql_dir_use_arg :: "allocator \<Rightarrow> agoo_err \<Rightarrow> gql_use \<Rightarrow> string option \<Rightarrow> gqlValue \<Rightarrow> (agoo_err_code \<times> gql_use \<times> agoo_err) mem" where
  "gql_dir_use_arg mal err u key v =
    mem_bind (gql_link_create mal err key v) (\<lambda>(link, err).
    case link of
      None \<Rightarrow> Val (ecode err, u, err)
    | Some l \<Rightarrow> Val (AGOO_ERR_OK, u\<lparr>use_args := l # use_args u\<rparr>, err))"

text \<open>
  Every use but the last is compared, and the first: the last one of a longer list is not.
\<close>

fun use_of :: "schema \<Rightarrow> string \<Rightarrow> gql_use list \<Rightarrow> bool mem" where
  "use_of sc name [] = Val False"
| "use_of sc name (u # us) =
    mem_bind (the_dir sc (use_dir u)) (\<lambda>dir. if dir_name dir = name then Val True else use_of sc name us)"

definition gql_type_directive_use :: "agoo_err \<Rightarrow> schema \<Rightarrow> tid \<Rightarrow> gql_use \<Rightarrow> (agoo_err_code \<times> agoo_err \<times> schema) mem" where
  "gql_type_directive_use err sc t u =
    mem_bind (the_type sc t) (\<lambda>ty.
    case ty_dir ty of
      [] \<Rightarrow> Val (AGOO_ERR_OK, err, put_type t (ty\<lparr>ty_dir := [u]\<rparr>) sc)
    | u0 # us \<Rightarrow>
        mem_bind (the_dir sc (use_dir u)) (\<lambda>dir.
        mem_bind (use_of sc (dir_name dir) (u0 # butlast us)) (\<lambda>dup.
        if dup then
          mem_bind (agoo_err_set err AGOO_ERR_TOO_MANY
            (''Directive '' @ dir_name dir @ '' on type '' @ ty_name ty @ '' is a duplicate.'')) (\<lambda>(code, err). Val (code, err, sc))
        else Val (AGOO_ERR_OK, err, put_type t (ty\<lparr>ty_dir := ty_dir ty @ [u]\<rparr>) sc))))"

definition gql_type_has_directive_use :: "schema \<Rightarrow> tid \<Rightarrow> string \<Rightarrow> bool mem" where
  "gql_type_has_directive_use sc t dir = mem_bind (the_type sc t) (\<lambda>ty. use_of sc (cstr dir) (ty_dir ty))"

section \<open>Lookup of fields\<close>

text \<open>A list has the fields of its base; the recursion ends where a type is not a list.\<close>

primrec gql_type_get_field :: "nat \<Rightarrow> schema \<Rightarrow> tid option \<Rightarrow> string \<Rightarrow> (tid \<times> nat) option mem option" where
  "gql_type_get_field 0 sc t field = None"
| "gql_type_get_field (Suc n) sc t field =
    (case t of
       None \<Rightarrow> Some (Val None)
     | Some t \<Rightarrow>
         (case s_types sc t of
            None \<Rightarrow> Some UB
          | Some ty \<Rightarrow>
              if ty_kind ty \<in> {GQL_SCHEMA, GQL_OBJECT, GQL_INTERFACE} then
                (case ty_body ty of
                   Fields fs ifs \<Rightarrow>
                     Some (Val (map_option (Pair t) (find_index (\<lambda>f. field_name f = cstr field) fs)))
                 | _ \<Rightarrow> Some UB)
              else if ty_kind ty = GQL_LIST then
                (case ty_body ty of Base b \<Rightarrow> gql_type_get_field n sc (Some b) field | _ \<Rightarrow> Some UB)
              else Some (Val None)))"

end
