(* ===== verification/Gqlreg.thy ===== *)
theory Gqlreg
  imports Gqltype "HOL-Library.Multiset"
begin

text \<open>
  The table of types refines a map from names to types: lookups read it, creations and
  destructions update it at one name. The list and non-null types made from a type are shared.
\<close>

section \<open>The map\<close>

definition tname :: "schema \<Rightarrow> tid \<Rightarrow> string" where
  "tname sc t = ty_name (the (s_types sc t))"

definition named :: "schema \<Rightarrow> string \<Rightarrow> tid option" where
  "named sc name = find (\<lambda>t. tname sc t = name) (gql_type_iterate sc)"

definition slot_ok :: "schema \<Rightarrow> nat \<Rightarrow> u64 \<times> tid \<Rightarrow> bool" where
  "slot_ok sc i = (\<lambda>(h, t). s_types sc t \<noteq> None \<and> NUL \<notin> set (tname sc t) \<and> h = type_hash (tname sc t) \<and> 0 < h \<and> i = type_bucketp h)"

text \<open>
  Every slot is in the bucket of its hash, which is that of the name of its type, and no name is
  there twice; addresses from \<open>s_next\<close> on are fresh.
\<close>

definition registry_ok :: "schema \<Rightarrow> bool" where
  "registry_ok sc \<longleftrightarrow>
    length (s_buckets sc) = BUCKET_SIZE \<and> 10 \<le> s_next sc \<and> (\<forall>t. s_types sc t \<noteq> None \<longrightarrow> t < s_next sc) \<and>
    (\<forall>i < BUCKET_SIZE. \<forall>s \<in> set (s_buckets sc ! i). slot_ok sc i s) \<and> distinct (map (tname sc) (gql_type_iterate sc))"

lemma type_bucketp_bound: "type_bucketp h < BUCKET_SIZE"
  using get_mime_bucketp_bound [of h] by (simp add: type_bucketp_def get_mime_bucketp_def BUCKET_SIZE_def MIME_BUCKET_SIZE_def)

lemma type_hash_cstr [simp]: "type_hash (cstr s) = type_hash s"
  by (simp add: type_hash_def)

lemma iterate_iff: "t \<in> set (gql_type_iterate sc) \<longleftrightarrow> (\<exists>i < length (s_buckets sc). \<exists>h. (h, t) \<in> set (s_buckets sc ! i))"
  by (force simp: gql_type_iterate_def set_conv_nth [of "s_buckets sc"])

lemma iterate_ok:
  assumes "registry_ok sc" "t \<in> set (gql_type_iterate sc)"
  shows "s_types sc t \<noteq> None" "NUL \<notin> set (tname sc t)" "0 < type_hash (tname sc t)" "t < s_next sc"
  using assms unfolding iterate_iff registry_ok_def slot_ok_def by fastforce+

lemma find_distinct:
  assumes "distinct (map f xs)"
  shows "find (\<lambda>x. f x = y) xs = Some x \<longleftrightarrow> x \<in> set xs \<and> f x = y"
  using assms by (induction xs) auto

lemma named_iff: "registry_ok sc \<Longrightarrow> named sc name = Some t \<longleftrightarrow> t \<in> set (gql_type_iterate sc) \<and> tname sc t = name"
  unfolding named_def registry_ok_def by (simp add: find_distinct)

lemma named_None: "named sc name = None \<longleftrightarrow> (\<forall>t \<in> set (gql_type_iterate sc). tname sc t \<noteq> name)"
  by (auto simp: named_def find_None_iff)

lemma named_eqI:
  assumes "registry_ok sc" "\<And>name t. t \<in> set (gql_type_iterate sc) \<and> tname sc t = name \<longleftrightarrow> m name = Some t"
  shows "named sc = m"
proof
  fix name
  have "named sc name = Some t \<longleftrightarrow> m name = Some t" for t
    by (simp add: named_iff [OF assms(1)] assms(2))
  then show "named sc name = m name" by (metis not_Some_eq)
qed

section \<open>Lookup\<close>

lemma the_type_tname: "s_types sc t \<noteq> None \<Longrightarrow> \<exists>ty. the_type sc t = Val ty \<and> ty_name ty = tname sc t"
  by (auto simp: the_type_def tname_def)

lemma slot_find_ok:
  assumes "\<forall>s \<in> set b. slot_ok sc i s"
  shows "slot_find sc (type_hash name) name b = Val (map_option snd (find (\<lambda>(h, t). tname sc t = cstr name) b))"
  using assms
proof (induction b)
  case (Cons s b)
  obtain h t where s: "s = (h, t)" by force
  have h: "h = type_hash (tname sc t)" "s_types sc t \<noteq> None" using Cons.prems by (auto simp: s slot_ok_def)
  have e: "tname sc t = cstr name \<Longrightarrow> type_hash name = h" by (simp add: h(1))
  show ?case using the_type_tname [OF h(2)] Cons e by (auto simp: s)
qed simp

text \<open>Only the bucket of the hash can have the name.\<close>

lemma named_bucket:
  assumes "registry_ok sc"
  shows "named sc name = map_option snd (find (\<lambda>(h, t). tname sc t = name) (s_buckets sc ! type_bucketp (type_hash name)))"
proof -
  let ?b = "s_buckets sc ! type_bucketp (type_hash name)"
  have i: "type_bucketp (type_hash name) < length (s_buckets sc)"
    using assms type_bucketp_bound by (simp add: registry_ok_def)
  have in_b: "\<exists>h. (h, t) \<in> set ?b" if "t \<in> set (gql_type_iterate sc)" "tname sc t = name" for t
    using that assms unfolding iterate_iff registry_ok_def slot_ok_def by fastforce
  show ?thesis
  proof (cases "find (\<lambda>(h, t). tname sc t = name) ?b")
    case None
    then have n: "(h, t) \<in> set ?b \<Longrightarrow> tname sc t \<noteq> name" for h t by (force simp: find_None_iff)
    have "named sc name = None" unfolding named_None using in_b n by blast
    then show ?thesis by (simp add: None)
  next
    case (Some s)
    obtain h t where s: "s = (h, t)" by force
    have "(h, t) \<in> set ?b" "tname sc t = name" using Some by (auto simp: find_Some_iff s) (metis nth_mem)
    then have "named sc name = Some t" using i by (auto simp: named_iff [OF assms] iterate_iff)
    then show ?thesis by (simp add: Some s)
  qed
qed

lemma gql_type_get_named:
  assumes "registry_ok sc"
  shows "gql_type_get sc name = Val (named sc (cstr name))"
proof (cases "0 < type_hash name")
  case True
  have "\<forall>s \<in> set (s_buckets sc ! type_bucketp (type_hash name)). slot_ok sc (type_bucketp (type_hash name)) s"
    using assms type_bucketp_bound by (simp add: registry_ok_def)
  from slot_find_ok [OF this, of name] True show ?thesis
    by (simp add: gql_type_get_def Let_def named_bucket [OF assms])
next
  case False
  have "named sc (cstr name) = None"
    using False iterate_ok(3) [OF assms] by (auto simp: named_None) (metis type_hash_cstr)
  then show ?thesis using False by (simp add: gql_type_get_def Let_def)
qed

section \<open>Updates of a bucket\<close>

text \<open>The types of all slots where one bucket is replaced.\<close>

lemma mset_concat_update:
  "i < length bs \<Longrightarrow> mset (concat (bs[i := b])) + mset (bs ! i) = mset (concat bs) + mset b"
proof (induction bs arbitrary: i)
  case (Cons a bs)
  show ?case
  proof (cases i)
    case 0
    then show ?thesis by (simp add: ac_simps)
  next
    case (Suc j)
    with Cons.prems have "j < length bs" by simp
    from Cons.IH [OF this] show ?thesis by (simp add: Suc ac_simps)
  qed
qed simp

lemma iterate_mset:
  assumes "i < length (s_buckets sc)"
  shows "mset (gql_type_iterate (sc\<lparr>s_buckets := (s_buckets sc)[i := b]\<rparr>)) + mset (map snd (s_buckets sc ! i)) =
    mset (gql_type_iterate sc) + mset (map snd b)"
proof -
  let ?bs = "s_buckets sc"
  have "image_mset snd (mset (concat (?bs[i := b])) + mset (?bs ! i)) = image_mset snd (mset (concat ?bs) + mset b)"
    by (simp only: mset_concat_update [OF assms])
  then show ?thesis by (simp add: gql_type_iterate_def)
qed

text \<open>Changes of the structs that keep the names of the registered types.\<close>

lemma registry_structs:
  assumes "registry_ok sc" "s_buckets sc' = s_buckets sc" "10 \<le> s_next sc'" "\<And>t. s_types sc' t \<noteq> None \<Longrightarrow> t < s_next sc'"
    and keep: "\<And>t. t \<in> set (gql_type_iterate sc) \<Longrightarrow> s_types sc' t \<noteq> None \<and> tname sc' t = tname sc t"
  shows "registry_ok sc' \<and> named sc' = named sc"
proof -
  have it: "gql_type_iterate sc' = gql_type_iterate sc" using assms(2) by (simp add: gql_type_iterate_def)
  have sl: "slot_ok sc' i s" if "i < BUCKET_SIZE" "s \<in> set (s_buckets sc ! i)" for i s
  proof -
    have b: "i < length (s_buckets sc)" using that(1) assms(1) by (simp add: registry_ok_def)
    obtain h t where s: "s = (h, t)" by force
    have "t \<in> set (gql_type_iterate sc)" using that(2) b by (auto simp: iterate_iff s)
    moreover have "slot_ok sc i s" using that assms(1) by (simp add: registry_ok_def)
    ultimately show ?thesis using keep by (auto simp: slot_ok_def s)
  qed
  have eq: "map (tname sc') (gql_type_iterate sc) = map (tname sc) (gql_type_iterate sc)" using keep by simp
  have r: "registry_ok sc'"
    using assms(1,3,4) sl by (simp add: registry_ok_def assms(2) it eq)
  have "named sc' = named sc"
    by (rule named_eqI [OF r]) (use keep in \<open>auto simp: it named_iff [OF assms(1)]\<close>)
  with r show ?thesis by simp
qed

lemma registry_put:
  assumes "registry_ok sc" "s_types sc t = Some ty0" "ty_name ty = ty_name ty0"
  shows "registry_ok (put_type t ty sc)" "named (put_type t ty sc) = named sc"
proof -
  have "registry_ok (put_type t ty sc) \<and> named (put_type t ty sc) = named sc"
  proof (rule registry_structs [OF assms(1)])
    fix x assume "x \<in> set (gql_type_iterate sc)"
    then show "s_types (put_type t ty sc) x \<noteq> None \<and> tname (put_type t ty sc) x = tname sc x"
      using iterate_ok(1) [OF assms(1)] assms(2,3) by (auto simp: put_type_def tname_def)
  qed (use assms in \<open>auto simp: registry_ok_def put_type_def split: if_splits\<close>)
  then show "registry_ok (put_type t ty sc)" "named (put_type t ty sc) = named sc" by simp_all
qed

lemma registry_fresh:
  fixes ty
  assumes "registry_ok sc"
  defines "sc' \<equiv> put_type (s_next sc) ty (sc\<lparr>s_next := s_next sc + 1\<rparr>)"
  shows "registry_ok sc'" "named sc' = named sc"
proof -
  have "registry_ok sc' \<and> named sc' = named sc"
  proof (rule registry_structs [OF assms(1)])
    fix t assume "t \<in> set (gql_type_iterate sc)"
    from iterate_ok(1,4) [OF assms(1) this] show "s_types sc' t \<noteq> None \<and> tname sc' t = tname sc t"
      by (simp add: sc'_def put_type_def tname_def)
  qed (use assms(1) in \<open>auto simp: sc'_def registry_ok_def put_type_def less_Suc_eq split: if_splits\<close>)
  then show "registry_ok sc'" "named sc' = named sc" by simp_all
qed

lemma registry_insert:
  assumes r: "registry_ok sc" and t: "s_types sc t \<noteq> None" "NUL \<notin> set (tname sc t)" "0 < type_hash (tname sc t)"
    and n: "named sc (tname sc t) = None"
  defines "h \<equiv> type_hash (tname sc t)"
  defines "i \<equiv> type_bucketp h"
  defines "sc' \<equiv> sc\<lparr>s_buckets := (s_buckets sc)[i := (h, t) # s_buckets sc ! i]\<rparr>"
  shows "registry_ok sc'" "named sc' = (named sc)(tname sc t \<mapsto> t)"
proof -
  have i: "i < length (s_buckets sc)" using r type_bucketp_bound by (simp add: registry_ok_def i_def)
  have m: "mset (gql_type_iterate sc') = add_mset t (mset (gql_type_iterate sc))"
    using iterate_mset [OF i, of "(h, t) # s_buckets sc ! i"] by (simp add: sc'_def)
  have set': "set (gql_type_iterate sc') = insert t (set (gql_type_iterate sc))"
    using arg_cong [OF m, of set_mset] by simp
  have tn: "tname sc' = tname sc" by (rule ext) (simp add: tname_def sc'_def)
  have "distinct (map (tname sc) (t # gql_type_iterate sc))"
    using r n by (auto simp: registry_ok_def named_None)
  then have d: "distinct (map (tname sc') (gql_type_iterate sc'))"
    unfolding tn by (rule mset_eq_imp_distinct_iff [THEN iffD1, rotated]) (simp add: m)
  have sl: "slot_ok sc' j s" if "j < BUCKET_SIZE" "s \<in> set (s_buckets sc' ! j)" for j s
  proof -
    have "s = (h, t) \<and> j = i \<or> s \<in> set (s_buckets sc ! j)"
      using that i by (auto simp: sc'_def nth_list_update split: if_splits)
    moreover have "slot_ok sc i (h, t)" using t by (simp add: slot_ok_def h_def i_def)
    moreover have "s \<in> set (s_buckets sc ! j) \<Longrightarrow> slot_ok sc j s" using that(1) r by (simp add: registry_ok_def)
    moreover have "slot_ok sc' = slot_ok sc" unfolding slot_ok_def tn by (simp add: sc'_def)
    ultimately show ?thesis by auto
  qed
  show r': "registry_ok sc'" using r d sl by (simp add: registry_ok_def) (simp add: sc'_def)
  have "s_types sc t \<noteq> None \<Longrightarrow> named sc name = Some u \<Longrightarrow> name \<noteq> tname sc t" for name u using n by auto
  with t(1) show "named sc' = (named sc)(tname sc t \<mapsto> t)"
    by (intro named_eqI [OF r']) (auto simp: set' tn named_iff [OF r] named_None)
qed

lemma slot_remove_ok:
  assumes "\<forall>s \<in> set b. slot_ok sc i s" "(h, t) \<in> set b" "distinct (map (\<lambda>(h, t). tname sc t) b)"
  shows "\<exists>b'. slot_remove sc (type_hash (tname sc t)) (tname sc t) b = Val b' \<and> mset b = add_mset (h, t) (mset b')"
  using assms
proof (induction b)
  case (Cons s b)
  obtain h' t' where s: "s = (h', t')" by force
  have h: "h' = type_hash (tname sc t')" "s_types sc t' \<noteq> None" using Cons.prems(1) by (auto simp: s slot_ok_def)
  show ?case
  proof (cases "tname sc t' = tname sc t")
    case True
    then have "(h, t) = s" using Cons.prems(2,3) by (force simp: s)
    then show ?thesis using the_type_tname [OF h(2)] h(1) by (auto simp: s)
  next
    case False
    then have "(h, t) \<in> set b" using Cons.prems(2) by (auto simp: s)
    with Cons obtain b' where
      "slot_remove sc (type_hash (tname sc t)) (tname sc t) b = Val b'" "mset b = add_mset (h, t) (mset b')" by auto
    then show ?thesis using the_type_tname [OF h(2)] False by (auto simp: s)
  qed
qed simp

lemma distinct_bucket:
  assumes "registry_ok sc" "i < BUCKET_SIZE"
  shows "distinct (map (\<lambda>(h, t). tname sc t) (s_buckets sc ! i))"
proof -
  have b: "s_buckets sc ! i \<in> set (s_buckets sc)" using assms by (simp add: registry_ok_def)
  then obtain xs ys where bs: "s_buckets sc = xs @ s_buckets sc ! i # ys" by (meson split_list)
  have "distinct (map (\<lambda>(h, t). tname sc t) (concat (s_buckets sc)))"
    using assms(1) by (simp add: registry_ok_def gql_type_iterate_def comp_def split_beta')
  then show ?thesis by (subst (asm) bs) simp
qed

lemma registry_remove:
  assumes r: "registry_ok sc" and n: "named sc name = Some t"
  shows "\<exists>sc'. type_remove sc t = Val sc' \<and> registry_ok sc' \<and> named sc' = (named sc)(name := None) \<and>
    sc' = sc\<lparr>s_buckets := s_buckets sc'\<rparr>"
proof -
  have t: "t \<in> set (gql_type_iterate sc)" "tname sc t = name" using n by (simp_all add: named_iff [OF r])
  note ok = iterate_ok [OF r t(1)]
  define h i where "h = type_hash name" and "i = type_bucketp h"
  have i: "i < length (s_buckets sc)" "i < BUCKET_SIZE" using r type_bucketp_bound by (simp_all add: registry_ok_def i_def)
  have sl: "\<forall>s \<in> set (s_buckets sc ! i). slot_ok sc i s" using r i(2) by (simp add: registry_ok_def)
  have "(h, t) \<in> set (s_buckets sc ! i)"
    using t r unfolding iterate_iff registry_ok_def slot_ok_def h_def i_def by fastforce
  from slot_remove_ok [OF sl this distinct_bucket [OF r i(2)]] obtain b' where
    b': "slot_remove sc h name (s_buckets sc ! i) = Val b'" "mset (s_buckets sc ! i) = add_mset (h, t) (mset b')"
    by (auto simp: h_def t(2))
  let ?sc = "sc\<lparr>s_buckets := (s_buckets sc)[i := b']\<rparr>"
  have m: "mset (gql_type_iterate sc) = add_mset t (mset (gql_type_iterate ?sc))"
    using iterate_mset [OF i(1), of b'] arg_cong [OF b'(2), of "image_mset snd"] by simp
  have tn: "tname ?sc = tname sc" by (rule ext) (simp add: tname_def)
  have "distinct (map (tname sc) (t # gql_type_iterate ?sc))"
    by (rule mset_eq_imp_distinct_iff [THEN iffD1, of "map (tname sc) (gql_type_iterate sc)"])
      (use r m in \<open>simp_all add: registry_ok_def\<close>)
  then have d: "distinct (map (tname sc) (gql_type_iterate ?sc))" "t \<notin> set (gql_type_iterate ?sc)"
    "\<forall>u \<in> set (gql_type_iterate ?sc). tname sc u \<noteq> name" using t(2) by (auto simp: image_iff)
  have "slot_ok ?sc = slot_ok sc" unfolding slot_ok_def tn by simp
  moreover have "set b' \<subseteq> set (s_buckets sc ! i)" using arg_cong [OF b'(2), of set_mset] by auto
  ultimately have r': "registry_ok ?sc"
    using r i d(1) unfolding registry_ok_def tn by (auto simp: nth_list_update split: if_splits)
  have "named ?sc = (named sc)(name := None)"
    by (rule named_eqI [OF r']) (use d arg_cong [OF m, of set_mset] t(2) in \<open>auto simp: tn named_iff [OF r]\<close>)
  moreover have "type_remove sc t = Val ?sc"
    using the_type_tname [OF ok(1)] ok(3) b'(1) t(2) by (auto simp: type_remove_def Let_def h_def i_def)
  ultimately show ?thesis using r' by (intro exI [of _ ?sc]) simp
qed

section \<open>Creation\<close>

lemma strdup_all: "malloc_all mal \<Longrightarrow> strdup mal s = Some (cstr s)"
  by (simp add: strdup_def c_strndup_def malloc_allD(2))

lemma alloc_string_all:
  assumes "malloc_all mal"
  shows "alloc_string mal err desc dlen = Val (map_option (\<lambda>d. cstr (if dlen = 0 then d else take dlen d)) desc, err)"
  by (cases desc) (simp_all add: alloc_string_def strdup_all [OF assms] c_strndup_def malloc_allD(2) [OF assms])

text \<open>The struct of a new type.\<close>

definition fresh_type :: "gqlKind \<Rightarrow> string \<Rightarrow> string option \<Rightarrow> gql_type" where
  "fresh_type kind name desc =
    \<lparr>ty_name = name, ty_desc = desc, ty_dir = [], ty_kind = kind, ty_scalar = GQL_SCALAR_UNDEF, ty_core = False, ty_body = NoBody\<rparr>"

definition desc_text :: "string option \<Rightarrow> nat \<Rightarrow> string option" where
  "desc_text desc dlen = map_option (\<lambda>d. cstr (if dlen = 0 then d else take dlen d)) desc"

lemma type_set_fresh:
  assumes r: "registry_ok sc" and mal: "malloc_all mal" and n: "NUL \<notin> set (ty_name ty)" "0 < type_hash (ty_name ty)"
    "named sc (ty_name ty) = None"
  defines "t \<equiv> s_next sc"
  shows "\<exists>sc'. gql_type_set mal err (put_type t ty (sc\<lparr>s_next := t + 1\<rparr>)) t = Val (AGOO_ERR_OK, err, sc') \<and> registry_ok sc' \<and>
    named sc' = (named sc)(ty_name ty \<mapsto> t) \<and> s_types sc' = (s_types sc)(t \<mapsto> ty) \<and> s_next sc' = t + 1"
proof -
  define sc1 where "sc1 = put_type t ty (sc\<lparr>s_next := t + 1\<rparr>)"
  let ?h = "type_hash (ty_name ty)"
  let ?i = "type_bucketp ?h"
  let ?sc' = "sc1\<lparr>s_buckets := (s_buckets sc1)[?i := (?h, t) # s_buckets sc1 ! ?i]\<rparr>"
  have r': "registry_ok sc1" "named sc1 = named sc" using registry_fresh [OF r, of ty] by (simp_all add: t_def sc1_def)
  have ty: "s_types sc1 = (s_types sc)(t \<mapsto> ty)" "tname sc1 t = ty_name ty" "s_next sc1 = t + 1"
    by (simp_all add: sc1_def put_type_def tname_def)
  have sl: "\<forall>s \<in> set (s_buckets sc1 ! ?i). slot_ok sc1 ?i s" using r'(1) type_bucketp_bound by (simp add: registry_ok_def)
  have f: "slot_find sc1 ?h (ty_name ty) (s_buckets sc1 ! ?i) = Val None"
    using slot_find_ok [OF sl, of "ty_name ty"] named_bucket [OF r'(1), of "ty_name ty"] n by (simp add: r'(2))
  have "registry_ok ?sc' \<and> named ?sc' = (named sc)(ty_name ty \<mapsto> t)"
    using registry_insert [OF r'(1), of t] n by (simp add: ty r'(2))
  moreover have "gql_type_set mal err sc1 t = Val (AGOO_ERR_OK, err, ?sc')"
    using n(2) [folded not_le] f by (simp add: gql_type_set_def the_type_def ty(1) Let_def not_le malloc_allD(2) [OF mal])
  ultimately show ?thesis unfolding sc1_def [symmetric] by (intro exI [of _ ?sc']) (simp add: ty)
qed

lemma new_type_ok:
  assumes "registry_ok sc" "malloc_all mal" "ecode err = AGOO_ERR_OK" "0 < type_hash name" "named sc (cstr name) = None"
  shows "\<exists>sc'. new_type mal err sc kind name desc dlen = Val (Some (s_next sc), err, sc') \<and> registry_ok sc' \<and>
    named sc' = (named sc)(cstr name \<mapsto> s_next sc) \<and> s_next sc' = s_next sc + 1 \<and>
    s_types sc' = (s_types sc)(s_next sc \<mapsto> fresh_type kind (cstr name) (desc_text desc dlen))"
proof -
  let ?ty = "fresh_type kind (cstr name) (desc_text desc dlen)"
  have "NUL \<notin> set (ty_name ?ty)" "0 < type_hash (ty_name ?ty)" "named sc (ty_name ?ty) = None"
    using assms(4,5) by (simp_all add: fresh_type_def)
  from type_set_fresh [OF assms(1,2) this] obtain sc' where sc':
    "gql_type_set mal err (put_type (s_next sc) ?ty (sc\<lparr>s_next := s_next sc + 1\<rparr>)) (s_next sc) = Val (AGOO_ERR_OK, err, sc')"
    "registry_ok sc'" "named sc' = (named sc)(cstr name \<mapsto> s_next sc)" "s_types sc' = (s_types sc)(s_next sc \<mapsto> ?ty)" "s_next sc' = s_next sc + 1"
    by (auto simp: fresh_type_def)
  show ?thesis
    using sc' assms(3)
    by (intro exI [of _ sc'])
       (simp add: new_type_def malloc_allD(2) [OF assms(2)] strdup_all [OF assms(2)] alloc_string_all [OF assms(2)] desc_text_def fresh_type_def Let_def)
qed

text \<open>
  C4. Creating a type defines its name where it is not registered, completes the type that was only
  referred to, and changes nothing else; a type that is defined is refused. Nothing is asked of
  the characters of the name: only its hash must not be 0.
\<close>

theorem type_create_names:
  assumes "registry_ok sc" "malloc_all mal" "err_ok err" "ecode err = AGOO_ERR_OK" "0 < type_hash name"
  shows "\<exists>t err' sc'. type_create mal err sc kind name desc dlen = Val (t, err', sc') \<and> registry_ok sc' \<and>
    (case named sc (cstr name) of
       None \<Rightarrow> t = Some (s_next sc) \<and> err' = err \<and> named sc' = (named sc)(cstr name \<mapsto> s_next sc) \<and>
         s_types sc' = (s_types sc)(s_next sc \<mapsto> fresh_type kind (cstr name) (desc_text desc dlen))
     | Some t0 \<Rightarrow>
         let ty = the (s_types sc t0)
         in named sc' = named sc \<and>
            (if ty_kind ty = GQL_UNDEF
             then t = Some t0 \<and> err' = err \<and> s_types sc' = (s_types sc)(t0 \<mapsto> ty\<lparr>ty_desc := desc_text desc dlen, ty_kind := kind\<rparr>)
             else t = None \<and> ecode err' = AGOO_ERR_LOCK \<and> sc' = sc))"
proof (cases "named sc (cstr name)")
  case None
  from new_type_ok [OF assms(1,2,4,5) None, of kind desc dlen] show ?thesis
    by (auto simp: type_create_def gql_type_get_named [OF assms(1)] None)
next
  case (Some t0)
  then have "t0 \<in> set (gql_type_iterate sc)" by (simp add: named_iff [OF assms(1)])
  from iterate_ok(1) [OF assms(1) this] obtain ty where ty: "s_types sc t0 = Some ty" by auto
  note def = type_create_def gql_type_get_named [OF assms(1)] Some the_type_def ty
  show ?thesis
  proof (cases "ty_kind ty = GQL_UNDEF")
    case True
    let ?ty = "ty\<lparr>ty_desc := desc_text desc dlen, ty_kind := kind\<rparr>"
    have "registry_ok (put_type t0 ?ty sc)" "named (put_type t0 ?ty sc) = named sc"
      by (rule registry_put [OF assms(1) ty], simp)+
    then show ?thesis using True assms(4)
      by (simp add: def alloc_string_all [OF assms(2)] desc_text_def put_type_def)
  next
    case False
    have "\<exists>err'. mem_bind (agoo_err_set err AGOO_ERR_LOCK msg) (\<lambda>(_, err). Val (None :: tid option, err, sc)) = Val (None, err', sc) \<and>
        ecode err' = AGOO_ERR_LOCK" for msg
      using err_set_ok [OF assms(3), of AGOO_ERR_LOCK msg] by auto
    with False assms(1) show ?thesis by (simp add: def)
  qed
qed

text \<open>The module before anything is registered, and an error record.\<close>

definition schema0 :: schema where
  "schema0 = \<lparr>s_types = (\<lambda>_. None), s_buckets = replicate 64 [], s_dirs = (\<lambda>_. None), s_dirlist = [], s_next = 10\<rparr>"

definition err0 :: agoo_err where
  "err0 = \<lparr>ecode = AGOO_ERR_OK, emsg = replicate 256 NUL\<rparr>"

lemma schema0_ok: "registry_ok schema0" "named schema0 name = None" "s_next schema0 = 10"
  by (simp_all add: registry_ok_def schema0_def BUCKET_SIZE_def gql_type_iterate_def named_def)

lemma err0_ok: "err_ok err0" "ecode err0 = AGOO_ERR_OK"
  by (simp_all add: err_ok_def err0_def MSG_SIZE_def)

lemma hash_user: "0 < type_hash ''User''"
  by code_simp

lemma type_create_names_witness:
  "\<exists>sc'. type_create mal0 err0 schema0 GQL_OBJECT ''User'' None 0 = Val (Some 10, err0, sc') \<and> named sc' ''User'' = Some 10"
proof -
  have "cstr ''User'' = ''User''" by code_simp
  then show ?thesis
    using type_create_names [OF schema0_ok(1) malloc_all_mal0 err0_ok hash_user, of GQL_OBJECT None 0]
    by (auto simp: schema0_ok)
qed

section \<open>Destruction\<close>

text \<open>C36. A type that is destroyed leaves the map at its name only, and its struct is gone.\<close>

theorem type_destroy_names:
  assumes "registry_ok sc" "named sc name = Some t" "type_clean (the (s_types sc t)) = Val ()"
  shows "\<exists>sc'. gql_type_destroy sc t = Val sc' \<and> registry_ok sc' \<and> named sc' = (named sc)(name := None) \<and>
    s_types sc' = (if static_type t then s_types sc else (s_types sc)(t := None))"
proof -
  from registry_remove [OF assms(1,2)] obtain sc1 where
    sc1: "type_remove sc t = Val sc1" "registry_ok sc1" "named sc1 = (named sc)(name := None)" "sc1 = sc\<lparr>s_buckets := s_buckets sc1\<rparr>"
    by blast
  have tys: "s_types sc1 = s_types sc" "s_next sc1 = s_next sc" by (subst sc1(4), simp)+
  have t: "t \<in> set (gql_type_iterate sc)" "tname sc t = name" using assms(2) by (simp_all add: named_iff [OF assms(1)])
  from iterate_ok(1) [OF assms(1) t(1)] obtain ty where ty: "s_types sc t = Some ty" by auto
  show ?thesis
  proof (cases "static_type t")
    case True
    then show ?thesis using sc1 tys by (simp add: gql_type_destroy_def type_destroy_def)
  next
    case False
    let ?sc = "sc1\<lparr>s_types := (s_types sc1)(t := None)\<rparr>"
    have other: "u \<noteq> t" if "u \<in> set (gql_type_iterate sc1)" for u
      using that sc1(3) named_iff [OF sc1(2), of "tname sc1 u" u] t(2) by (auto simp: tname_def tys split: if_splits)
    have "registry_ok ?sc \<and> named ?sc = named sc1"
    proof (rule registry_structs [OF sc1(2)])
      fix u assume u: "u \<in> set (gql_type_iterate sc1)"
      then show "s_types ?sc u \<noteq> None \<and> tname ?sc u = tname sc1 u"
        using other iterate_ok(1) [OF sc1(2) u] by (simp add: tname_def)
    qed (use sc1(2) in \<open>auto simp: registry_ok_def split: if_splits\<close>)
    then show ?thesis using False assms(3) ty sc1(1,3)
      by (simp add: gql_type_destroy_def type_destroy_def the_type_def tys)
  qed
qed

lemma user_type:
  "\<exists>sc. registry_ok sc \<and> named sc ''User'' = Some 10 \<and>
    s_types sc = (s_types schema0)(10 \<mapsto> fresh_type GQL_SCALAR ''User'' None) \<and> s_next sc = 11"
proof -
  have "cstr ''User'' = ''User''" by code_simp
  then show ?thesis
    using new_type_ok [OF schema0_ok(1) malloc_all_mal0 err0_ok(2) hash_user, of GQL_SCALAR None 0]
    by (auto simp: schema0_ok desc_text_def)
qed

lemma type_destroy_names_witness:
  "\<exists>sc sc'. named sc ''User'' = Some 10 \<and> gql_type_destroy sc 10 = Val sc' \<and> named sc' ''User'' = None \<and> s_types sc' 10 = None"
proof -
  from user_type obtain sc where sc: "registry_ok sc" "named sc ''User'' = Some 10"
    "s_types sc = (s_types schema0)(10 \<mapsto> fresh_type GQL_SCALAR ''User'' None)" by blast
  have "type_clean (the (s_types sc 10)) = Val ()" by (simp add: sc(3) fresh_type_def type_clean_def free_dir_uses_def)
  from type_destroy_names [OF sc(1,2) this] sc(2) show ?thesis by (auto simp: static_type_def)
qed

section \<open>Derived types\<close>

lemma hash_name_bad: "(\<exists>c \<in> set k. name_chars ! of_char c = 0) \<Longrightarrow> hash_name k h = BAD_NAME"
  by (induction k arbitrary: h) (auto simp: Let_def)

lemma type_hash_bad: "NUL \<notin> set name \<Longrightarrow> \<exists>c \<in> set name. name_chars ! of_char c = 0 \<Longrightarrow> type_hash name = BAD_NAME"
  by (simp add: type_hash_def hash_name_bad)

text \<open>
  Names with brackets or an exclamation mark have the hash of invalid names: the list and the
  non-null types are all in bucket 32.
\<close>

lemma bad_bucket: "type_bucketp BAD_NAME = 32"
  by code_simp

lemma bad_name_pos: "0 < BAD_NAME"
  by code_simp

lemma bracket_bad: "name_chars ! 91 = 0"
  by code_simp

lemma create_fresh:
  assumes "registry_ok sc" "malloc_all mal" "ecode err = AGOO_ERR_OK" "0 < type_hash name" "named sc (cstr name) = None"
  shows "\<exists>sc'. create_with body (type_create mal err sc kind name desc dlen) = Val (Some (s_next sc), err, sc') \<and> registry_ok sc' \<and>
    named sc' = (named sc)(cstr name \<mapsto> s_next sc) \<and>
    s_types sc' = (s_types sc)(s_next sc \<mapsto> (fresh_type kind (cstr name) (desc_text desc dlen))\<lparr>ty_body := body\<rparr>)"
proof -
  let ?ty = "fresh_type kind (cstr name) (desc_text desc dlen)"
  from new_type_ok [OF assms, of kind desc dlen] obtain sc1 where
    sc1: "new_type mal err sc kind name desc dlen = Val (Some (s_next sc), err, sc1)" "registry_ok sc1"
      "named sc1 = (named sc)(cstr name \<mapsto> s_next sc)" "s_types sc1 = (s_types sc)(s_next sc \<mapsto> ?ty)" by blast
  let ?sc = "put_type (s_next sc) (?ty\<lparr>ty_body := body\<rparr>) sc1"
  have "registry_ok ?sc" "named ?sc = named sc1"
    by (rule registry_put [OF sc1(2), of _ ?ty], simp_all add: sc1(4))+
  then show ?thesis
    by (intro exI [of _ ?sc])
       (simp add: create_with_def type_create_def gql_type_get_named [OF assms(1)] assms(5) sc1(1,3,4) the_type_def put_type_def)
qed

text \<open>
  C37. The list type of a type is made once: it is registered under the name in brackets, with the type
  as its base, in the bucket that holds all list and non-null types, and the next request for it,
  with any allocator, gives it back.
\<close>

theorem list_type_shared:
  assumes "registry_ok sc" "malloc_all mal" "ecode err = AGOO_ERR_OK" "s_types sc t = Some b"
    "NUL \<notin> set (ty_name b)" "length (ty_name b) < 254" "named sc (''['' @ ty_name b @ '']'') = None"
  shows "\<exists>sc'. gql_assure_list mal err sc t = Val (Some (s_next sc), err, sc') \<and> registry_ok sc' \<and>
    named sc' = (named sc)(''['' @ ty_name b @ '']'' \<mapsto> s_next sc) \<and>
    s_types sc' (s_next sc) = Some ((fresh_type GQL_LIST (''['' @ ty_name b @ '']'') None)\<lparr>ty_body := Base t\<rparr>) \<and>
    s_next sc \<in> snd ` set (s_buckets sc' ! 32) \<and>
    (\<forall>mal' err'. gql_assure_list mal' err' sc' t = Val (Some (s_next sc), err', sc'))"
proof -
  let ?n = "''['' @ ty_name b @ '']''"
  have n: "NUL \<notin> set ?n" "cstr ?n = ?n" using assms(5) by (auto intro!: cstr_no_NUL simp: NUL_def)
  have h: "type_hash ?n = BAD_NAME" by (rule type_hash_bad [OF n(1)]) (simp add: bracket_bad)
  have t: "t \<noteq> s_next sc" using assms(1,4) by (auto simp: registry_ok_def)
  from create_fresh [OF assms(1-3), of ?n "Base t" GQL_LIST None 0] h n(2) assms(7) obtain sc' where
    sc': "create_with (Base t) (type_create mal err sc GQL_LIST ?n None 0) = Val (Some (s_next sc), err, sc')" "registry_ok sc'"
      "named sc' = (named sc)(?n \<mapsto> s_next sc)"
      "s_types sc' = (s_types sc)(s_next sc \<mapsto> (fresh_type GQL_LIST ?n None)\<lparr>ty_body := Base t\<rparr>)"
    by (auto simp: bad_name_pos desc_text_def)
  have m: "named sc' ?n = Some (s_next sc)" by (simp add: sc'(3))
  obtain s where s: "find (\<lambda>(h, t). tname sc' t = ?n) (s_buckets sc' ! 32) = Some s" "snd s = s_next sc"
    using m unfolding named_bucket [OF sc'(2)] h bad_bucket by (auto simp del: append.simps)
  have "s_next sc \<in> snd ` set (s_buckets sc' ! 32)"
    using find_SomeD [OF s(1)] s(2) by (metis image_eqI)
  moreover have "gql_assure_list mal err sc t = Val (Some (s_next sc), err, sc')"
    using assms(4,6,7) n(2) sc'(1)
    by (simp add: gql_assure_list_def assure_derived_def the_type_def Let_def gql_type_get_named [OF assms(1)])
  moreover have "gql_assure_list mal' err' sc' t = Val (Some (s_next sc), err', sc')" for mal' err'
    using assms(4,6) n(2) m t
    by (simp add: gql_assure_list_def assure_derived_def the_type_def Let_def gql_type_get_named [OF sc'(2)] sc'(4))
  ultimately show ?thesis using sc' by (intro exI [of _ sc']) simp
qed

lemma list_type_shared_witness:
  "\<exists>sc sc'. gql_assure_list mal0 err0 sc 10 = Val (Some 11, err0, sc') \<and> named sc' ''[User]'' = Some 11"
proof -
  from user_type obtain sc where sc: "registry_ok sc" "named sc ''User'' = Some 10"
    "s_types sc = (s_types schema0)(10 \<mapsto> fresh_type GQL_SCALAR ''User'' None)" "s_next sc = 11" by blast
  have "named sc ''[User]'' = None"
  proof (rule ccontr)
    assume "named sc ''[User]'' \<noteq> None"
    then obtain t where t: "t \<in> set (gql_type_iterate sc)" "tname sc t = ''[User]''" by (auto simp: named_iff [OF sc(1)])
    from iterate_ok(1) [OF sc(1) t(1)] have "t = 10" by (auto simp: sc(3) schema0_def split: if_splits)
    with t(2) show False by (simp add: tname_def sc(3) fresh_type_def)
  qed
  with list_type_shared [OF sc(1) malloc_all_mal0 err0_ok(2), of 10 "fresh_type GQL_SCALAR ''User'' None"] sc(4)
  show ?thesis by (fastforce simp: sc(3) fresh_type_def NUL_def)
qed

end
