(* ===== verification/Gqlsdl.thy ===== *)
theory Gqlsdl
  imports Gqltype "HOL-Library.List_Lexorder"
begin

text \<open>
  The printers of types, directives and schemas as SDL (\<open>ext/agoo/graphql.c\<close>). A description is a
  block with its NUL: reading behind it is undefined.
\<close>

section \<open>Descriptions\<close>

definition spaces16 :: string where
  "spaces16 = replicate 16 CHR '' '' @ [NUL]"

definition desc_len :: "string \<Rightarrow> int" where
  "desc_len desc =
    (if \<exists>c \<in> set (cstr desc). (127 :: nat) < of_char c \<or> (of_char c :: nat) < 32 \<or> c = CHR 0x22 \<or> c = CHR 0x5C
     then - int (strlen desc) else int (strlen desc))"

definition desc_line :: "allocator \<Rightarrow> string \<Rightarrow> int \<Rightarrow> nat \<Rightarrow> nat \<Rightarrow> text_writer" where
  "desc_line mal blk indent start len t =
    mem_bind (agoo_text_append mal t spaces16 indent) (\<lambda>t.
    mem_bind (agoo_text_append mal t (drop start blk) (int len)) (\<lambda>t.
    agoo_text_append mal t [CHR 0x0A] 1))"

text \<open>
  The loop over the lines: \<open>start\<close> and \<open>d\<close> are positions in the block. Behind a line end the loop
  steps over the next character without looking at it.
\<close>

function desc_lines :: "allocator \<Rightarrow> string \<Rightarrow> int \<Rightarrow> nat \<Rightarrow> nat \<Rightarrow> agoo_text option \<Rightarrow> (nat \<times> nat \<times> agoo_text option) mem" where
  "desc_lines mal blk indent start d t =
    (if length blk \<le> d then UB
     else if blk ! d = NUL then Val (start, d, t)
     else if blk ! d = CHR 0x0D then
       (if length blk \<le> d + 1 then UB
        else
          let d' = (if blk ! (d + 1) = CHR 0x0A then d + 2 else d + 1)
          in mem_bind (desc_line mal blk indent start (d - start) t) (\<lambda>t. desc_lines mal blk indent d' (d' + 1) t))
     else if blk ! d = CHR 0x0A then
       mem_bind (desc_line mal blk indent start (d - start) t) (\<lambda>t. desc_lines mal blk indent (d + 1) (d + 2) t)
     else desc_lines mal blk indent start (d + 1) t)"
  by pat_completeness auto
termination
  by (relation "measure (\<lambda>(mal, blk, indent, start, d, t). length blk - d)") auto

declare desc_lines.simps [simp del]

definition desc_sdl :: "allocator \<Rightarrow> string option \<Rightarrow> int \<Rightarrow> text_writer" where
  "desc_sdl mal desc indent t =
    (case desc of
       None \<Rightarrow> Val t
     | Some desc \<Rightarrow>
         let cnt = desc_len desc; blk = cstr desc @ [NUL]
         in mem_bind (if 0 < indent then agoo_text_append mal t spaces16 indent else Val t) (\<lambda>t.
            if 0 \<le> cnt then
              mem_bind (agoo_text_append mal t [CHR 0x22] 1) (\<lambda>t.
              mem_bind (agoo_text_append mal t blk cnt) (\<lambda>t.
              agoo_text_append mal t [CHR 0x22, CHR 0x0A] 2))
            else
              mem_bind (agoo_text_append mal t [CHR 0x22, CHR 0x22, CHR 0x22, CHR 0x0A] 4) (\<lambda>t.
              mem_bind
                (if 0 < indent then
                   mem_bind (desc_lines mal blk indent 0 0 t) (\<lambda>(start, d, t).
                   mem_bind (agoo_text_append mal t spaces16 indent) (\<lambda>t.
                   agoo_text_append mal t (drop start blk) (int (d - start))))
                 else agoo_text_append mal t blk (-1)) (\<lambda>t.
              if 0 < indent then
                mem_bind (agoo_text_append mal t [CHR 0x0A] 1) (\<lambda>t.
                mem_bind (agoo_text_append mal t spaces16 indent) (\<lambda>t.
                agoo_text_append mal t [CHR 0x22, CHR 0x22, CHR 0x22, CHR 0x0A] 4))
              else agoo_text_append mal t [CHR 0x0A, CHR 0x22, CHR 0x22, CHR 0x22, CHR 0x0A] 5))))"

section \<open>Types\<close>

text \<open>Writers one behind the other, for a list, and for a list with a separator.\<close>

fun write_each :: "('a \<Rightarrow> text_writer) \<Rightarrow> 'a list \<Rightarrow> text_writer" where
  "write_each w [] t = Val t"
| "write_each w (x # xs) t = mem_bind (w x t) (write_each w xs)"

fun write_sep :: "text_writer \<Rightarrow> ('a \<Rightarrow> text_writer) \<Rightarrow> 'a list \<Rightarrow> text_writer" where
  "write_sep sep w [] t = Val t"
| "write_sep sep w (x # xs) t = mem_bind (w x t) (\<lambda>t. if xs = [] then Val t else mem_bind (sep t) (write_sep sep w xs))"

definition write_opt :: "allocator \<Rightarrow> string option \<Rightarrow> text_writer" where
  "write_opt mal s t = (case s of None \<Rightarrow> UB | Some s \<Rightarrow> agoo_text_append mal t s (-1))"

definition then_write :: "text_writer \<Rightarrow> text_writer \<Rightarrow> text_writer" where
  "then_write w w' t = mem_bind (w t) w'"

definition type_name :: "allocator \<Rightarrow> schema \<Rightarrow> tid \<Rightarrow> text_writer" where
  "type_name mal sc ty t = mem_bind (the_type sc ty) (\<lambda>ty. agoo_text_append mal t (ty_name ty) (-1))"

text \<open>The arguments of a use are not separated.\<close>

definition use_arg_sdl :: "double_ops \<Rightarrow> allocator \<Rightarrow> string option \<times> gqlValue \<Rightarrow> text_writer" where
  "use_arg_sdl fl mal = (\<lambda>(k, v). then_write (write_opt mal k) (then_write (append_str mal '': '') (gql_value_sdl fl mal 0 0 v)))"

definition append_dir_use :: "double_ops \<Rightarrow> allocator \<Rightarrow> schema \<Rightarrow> gql_use list \<Rightarrow> text_writer" where
  "append_dir_use fl mal sc =
    write_each (\<lambda>u t.
      mem_bind (append_str mal '' @'' t) (\<lambda>t.
      mem_bind (the_dir sc (use_dir u)) (\<lambda>dir.
      mem_bind (agoo_text_append mal t (dir_name dir) (-1)) (\<lambda>t.
      if use_args u \<noteq> [] then
        mem_bind (append_str mal ''('' t) (\<lambda>t.
        mem_bind (write_each (use_arg_sdl fl mal) (use_args u) t) (\<lambda>t.
        agoo_text_append_char mal t CHR '')''))
      else Val t))))"

definition default_sdl :: "double_ops \<Rightarrow> allocator \<Rightarrow> gqlValue option \<Rightarrow> text_writer" where
  "default_sdl fl mal v t =
    (case v of None \<Rightarrow> Val t | Some v \<Rightarrow> mem_bind (append_str mal '' = '' t) (gql_value_sdl fl mal 0 0 v))"

definition arg_sdl :: "double_ops \<Rightarrow> allocator \<Rightarrow> schema \<Rightarrow> bool \<Rightarrow> bool \<Rightarrow> bool \<Rightarrow> gql_arg \<Rightarrow> text_writer" where
  "arg_sdl fl mal sc with_desc same_line final a t =
    mem_bind (if with_desc then desc_sdl mal (arg_desc a) 4 t else Val t) (\<lambda>t.
    mem_bind (if \<not> same_line then append_str mal ''  '' t else Val t) (\<lambda>t.
    mem_bind (agoo_text_append mal t (arg_name a) (-1)) (\<lambda>t.
    mem_bind (append_str mal '': '' t) (\<lambda>t.
    mem_bind (case arg_type a of None \<Rightarrow> Val t | Some ty \<Rightarrow> type_name mal sc ty t) (\<lambda>t.
    mem_bind (default_sdl fl mal (arg_default a) t) (\<lambda>t.
    if same_line then (if \<not> final then append_str mal '', '' t else Val t)
    else mem_bind (append_dir_use fl mal sc (arg_dir a) t) (\<lambda>t. agoo_text_append_char mal t CHR 0x0A)))))))"

text \<open>The loops that tell the last argument.\<close>

fun args_sdl :: "double_ops \<Rightarrow> allocator \<Rightarrow> schema \<Rightarrow> bool \<Rightarrow> bool \<Rightarrow> gql_arg list \<Rightarrow> text_writer" where
  "args_sdl fl mal sc with_desc same_line [] t = Val t"
| "args_sdl fl mal sc with_desc same_line (a # as) t =
    mem_bind (arg_sdl fl mal sc with_desc same_line (as = []) a t) (args_sdl fl mal sc with_desc same_line as)"

definition paren_args :: "double_ops \<Rightarrow> allocator \<Rightarrow> schema \<Rightarrow> bool \<Rightarrow> gql_arg list \<Rightarrow> text_writer" where
  "paren_args fl mal sc with_desc as t =
    (if as = [] then Val t
     else mem_bind (append_str mal ''('' t) (\<lambda>t.
          mem_bind (args_sdl fl mal sc with_desc True as t) (append_str mal '')'')))"

definition field_sdl :: "double_ops \<Rightarrow> allocator \<Rightarrow> schema \<Rightarrow> bool \<Rightarrow> gql_field \<Rightarrow> text_writer" where
  "field_sdl fl mal sc with_desc f t =
    mem_bind (if with_desc then desc_sdl mal (field_desc f) 2 t else Val t) (\<lambda>t.
    mem_bind (append_str mal ''  '' t) (\<lambda>t.
    mem_bind (agoo_text_append mal t (field_name f) (-1)) (\<lambda>t.
    mem_bind (paren_args fl mal sc with_desc (field_args f) t) (\<lambda>t.
    mem_bind (append_str mal '': '' t) (\<lambda>t.
    mem_bind (case field_type f of None \<Rightarrow> UB | Some ty \<Rightarrow> type_name mal sc ty t) (\<lambda>t.
    mem_bind (default_sdl fl mal (field_default f) t) (\<lambda>t.
    mem_bind (append_dir_use fl mal sc (field_dir f) t) (\<lambda>t.
    agoo_text_append_char mal t CHR 0x0A))))))))"

text \<open>
  A writer whose result is thrown away: the old address is used further, which is right only
  while the text was not reallocated. (Where memory was refused in between the old text has
  part of the output; the model does not follow that.)
\<close>

definition thrown_away :: "text_writer \<Rightarrow> text_writer" where
  "thrown_away w t =
    (case t of
       None \<Rightarrow> mem_bind (w None) (\<lambda>_. Val None)
     | Some t \<Rightarrow>
         mem_bind (w (Some t)) (\<lambda>t'.
         case t' of None \<Rightarrow> UB | Some t' \<Rightarrow> if talen t' = talen t then Val (Some t') else UB))"

text \<open>The head of a definition, and the block of fields or arguments behind it.\<close>

definition head_sdl :: "double_ops \<Rightarrow> allocator \<Rightarrow> schema \<Rightarrow> string \<Rightarrow> string \<Rightarrow> text_writer \<Rightarrow> gql_use list \<Rightarrow> text_writer" where
  "head_sdl fl mal sc word name mid uses =
    then_write (append_str mal word)
      (then_write (\<lambda>t. agoo_text_append mal t name (-1)) (then_write mid (append_dir_use fl mal sc uses)))"

definition fields_sdl :: "double_ops \<Rightarrow> allocator \<Rightarrow> schema \<Rightarrow> bool \<Rightarrow> gql_body \<Rightarrow> text_writer" where
  "fields_sdl fl mal sc with_desc body t =
    mem_bind (append_str mal ('' {'' @ [CHR 0x0A]) t) (\<lambda>t.
    mem_bind (case body of Fields fs ifs \<Rightarrow> write_each (field_sdl fl mal sc with_desc) fs t | _ \<Rightarrow> UB)
      (append_str mal (''}'' @ [CHR 0x0A])))"

definition implements_sdl :: "allocator \<Rightarrow> schema \<Rightarrow> gql_body \<Rightarrow> text_writer" where
  "implements_sdl mal sc body t =
    (case body of
       Fields fs ifs \<Rightarrow>
         if ifs = [] then Val t
         else mem_bind (append_str mal '' implements '' t) (write_sep (append_str mal '' & '') (type_name mal sc) ifs)
     | _ \<Rightarrow> UB)"

definition choice_sdl :: "double_ops \<Rightarrow> allocator \<Rightarrow> schema \<Rightarrow> bool \<Rightarrow> gql_enum_val \<Rightarrow> text_writer" where
  "choice_sdl fl mal sc with_desc ev t =
    mem_bind (append_str mal ''  '' t) (\<lambda>t.
    mem_bind (if with_desc then desc_sdl mal (enum_desc ev) 2 t else Val t) (\<lambda>t.
    mem_bind (agoo_text_append mal t (enum_value ev) (-1)) (\<lambda>t.
    mem_bind (append_dir_use fl mal sc (enum_dir ev) t) (append_str mal [CHR 0x0A]))))"

definition gql_type_sdl :: "double_ops \<Rightarrow> allocator \<Rightarrow> schema \<Rightarrow> bool \<Rightarrow> gql_type \<Rightarrow> text_writer" where
  "gql_type_sdl fl mal sc with_desc ty t =
    (let head = (\<lambda>word mid. head_sdl fl mal sc word (ty_name ty) mid (ty_dir ty));
         fields = fields_sdl fl mal sc with_desc (ty_body ty)
     in mem_bind (if with_desc then thrown_away (desc_sdl mal (ty_desc ty) 0) t else Val t) (\<lambda>t.
        case ty_kind ty of
          GQL_SCHEMA \<Rightarrow> mem_bind (append_str mal ''schema'' t) (then_write (append_dir_use fl mal sc (ty_dir ty)) fields)
        | GQL_OBJECT \<Rightarrow> mem_bind (head ''type '' (implements_sdl mal sc (ty_body ty)) t) fields
        | GQL_FRAG \<Rightarrow> mem_bind (head ''type '' (implements_sdl mal sc (ty_body ty)) t) fields
        | GQL_UNION \<Rightarrow>
            mem_bind (head ''union '' Val t) (\<lambda>t.
            mem_bind (append_str mal '' = '' t) (\<lambda>t.
            case ty_body ty of
              Types ts \<Rightarrow> write_sep (append_str mal '' | '') (type_name mal sc) ts t
            | _ \<Rightarrow> UB))
        | GQL_ENUM \<Rightarrow>
            mem_bind (head ''enum '' Val t) (\<lambda>t.
            mem_bind (append_str mal ('' {'' @ [CHR 0x0A]) t) (\<lambda>t.
            mem_bind (case ty_body ty of Choices evs \<Rightarrow> write_each (choice_sdl fl mal sc with_desc) evs t | _ \<Rightarrow> UB)
              (append_str mal (''}'' @ [CHR 0x0A]))))
        | GQL_SCALAR \<Rightarrow> mem_bind (head ''scalar '' Val t) (append_str mal [CHR 0x0A])
        | GQL_INTERFACE \<Rightarrow> mem_bind (head ''interface '' Val t) fields
        | GQL_INPUT \<Rightarrow>
            mem_bind (head ''input '' Val t) (\<lambda>t.
            mem_bind (append_str mal ('' {'' @ [CHR 0x0A]) t) (\<lambda>t.
            mem_bind (case ty_body ty of Args as \<Rightarrow> args_sdl fl mal sc with_desc False as t | _ \<Rightarrow> UB)
              (append_str mal (''}'' @ [CHR 0x0A]))))
        | _ \<Rightarrow> Val t))"

definition gql_directive_sdl :: "double_ops \<Rightarrow> allocator \<Rightarrow> schema \<Rightarrow> bool \<Rightarrow> gql_dir \<Rightarrow> text_writer" where
  "gql_directive_sdl fl mal sc with_desc d t =
    mem_bind (if with_desc then desc_sdl mal (dir_desc d) 0 t else Val t) (\<lambda>t.
    mem_bind (append_str mal ''directive @'' t) (\<lambda>t.
    mem_bind (agoo_text_append mal t (dir_name d) (-1)) (\<lambda>t.
    mem_bind (paren_args fl mal sc with_desc (dir_args d) t) (\<lambda>t.
    mem_bind (append_str mal '' on '' t) (write_sep (append_str mal '' | '') (write_opt mal) (dir_locs d))))))"

section \<open>Schemas\<close>

text \<open>The numbers of the kinds are those of the enum; the order of the kinds is theirs.\<close>

definition kind_no :: "gqlKind \<Rightarrow> int" where
  "kind_no k =
    (case k of GQL_UNDEF \<Rightarrow> 0 | GQL_SCHEMA \<Rightarrow> 1 | GQL_OBJECT \<Rightarrow> 2 | GQL_FRAG \<Rightarrow> 3 | GQL_INPUT \<Rightarrow> 4 | GQL_UNION \<Rightarrow> 5
     | GQL_INTERFACE \<Rightarrow> 6 | GQL_ENUM \<Rightarrow> 7 | GQL_SCALAR \<Rightarrow> 8 | GQL_LIST \<Rightarrow> 9 | GQL_NON_NULL \<Rightarrow> 10)"

lemma kind_no_inject: "kind_no k = kind_no k' \<longleftrightarrow> k = k'"
  by (cases k; cases k'; simp add: kind_no_def)

instantiation gqlKind :: linorder
begin

definition less_eq_gqlKind :: "gqlKind \<Rightarrow> gqlKind \<Rightarrow> bool" where
  "less_eq_gqlKind k k' \<longleftrightarrow> kind_no k \<le> kind_no k'"

definition less_gqlKind :: "gqlKind \<Rightarrow> gqlKind \<Rightarrow> bool" where
  "less_gqlKind k k' \<longleftrightarrow> kind_no k < kind_no k'"

instance
  by standard (auto simp: less_eq_gqlKind_def less_gqlKind_def kind_no_inject [symmetric])

end

text \<open>
  \<open>qsort\<close> by kind and name: the names of registered types are different, so the order of equal
  ones does not matter. \<open>strcmp\<close> compares unsigned bytes.
\<close>

definition type_key :: "gql_type \<Rightarrow> gqlKind \<times> nat list" where
  "type_key ty = (ty_kind ty, map of_char (ty_name ty))"

definition type_cmp :: "gql_type \<Rightarrow> gql_type \<Rightarrow> int" where
  "type_cmp ty ty' =
    (if ty_kind ty = ty_kind ty'
     then (if ty_name ty = ty_name ty' then 0 else if map of_char (ty_name ty) < (map of_char (ty_name ty') :: nat list) then -1 else 1)
     else kind_no (ty_kind ty) - kind_no (ty_kind ty'))"

fun cmp_insert :: "('a \<Rightarrow> 'a \<Rightarrow> int) \<Rightarrow> 'a \<Rightarrow> 'a list \<Rightarrow> 'a list" where
  "cmp_insert cmp x [] = [x]"
| "cmp_insert cmp x (y # ys) = (if cmp x y \<le> 0 then x # y # ys else y # cmp_insert cmp x ys)"

definition cmp_sort :: "('a \<Rightarrow> 'a \<Rightarrow> int) \<Rightarrow> 'a list \<Rightarrow> 'a list" where
  "cmp_sort cmp xs = foldr (cmp_insert cmp) xs []"

definition schema_types :: "bool \<Rightarrow> gql_type list \<Rightarrow> gql_type list" where
  "schema_types all tys =
    cmp_sort type_cmp [ty \<leftarrow> tys. ty_kind ty \<noteq> GQL_LIST \<and> ty_kind ty \<noteq> GQL_NON_NULL \<and> (all \<or> \<not> ty_core ty)]"

fun the_types :: "schema \<Rightarrow> tid list \<Rightarrow> gql_type list mem" where
  "the_types sc [] = Val []"
| "the_types sc (t # ts) = mem_bind (the_type sc t) (\<lambda>ty. mem_bind (the_types sc ts) (\<lambda>tys. Val (ty # tys)))"

text \<open>A newline behind every type that printed something, but the last.\<close>

fun types_sdl :: "double_ops \<Rightarrow> allocator \<Rightarrow> schema \<Rightarrow> bool \<Rightarrow> gql_type list \<Rightarrow> text_writer" where
  "types_sdl fl mal sc with_desc [] t = Val t"
| "types_sdl fl mal sc with_desc (ty # tys) t =
    (case t of
       None \<Rightarrow> UB
     | Some t0 \<Rightarrow>
         mem_bind (gql_type_sdl fl mal sc with_desc ty t) (\<lambda>t.
         mem_bind
           (if tys = [] then Val t
            else case t of
                None \<Rightarrow> UB
              | Some t1 \<Rightarrow> if tlen t0 < tlen t1 then append_str mal [CHR 0x0A] t else Val t)
           (types_sdl fl mal sc with_desc tys)))"

definition schema_dir_sdl :: "double_ops \<Rightarrow> allocator \<Rightarrow> schema \<Rightarrow> bool \<Rightarrow> bool \<Rightarrow> did \<Rightarrow> text_writer" where
  "schema_dir_sdl fl mal sc with_desc all d t =
    mem_bind (the_dir sc d) (\<lambda>dir.
    mem_bind (if all then Val False else case dir_core dir of None \<Rightarrow> UB | Some c \<Rightarrow> Val c) (\<lambda>skip.
    if skip then Val t
    else
      mem_bind (append_str mal [CHR 0x0A] t) (\<lambda>t.
      mem_bind (gql_directive_sdl fl mal sc with_desc dir t) (append_str mal [CHR 0x0A]))))"

definition gql_schema_sdl :: "double_ops \<Rightarrow> allocator \<Rightarrow> schema \<Rightarrow> bool \<Rightarrow> bool \<Rightarrow> text_writer" where
  "gql_schema_sdl fl mal sc with_desc all t =
    mem_bind (the_types sc (gql_type_iterate sc)) (\<lambda>tys.
    mem_bind (types_sdl fl mal sc with_desc (schema_types all tys) t)
      (write_each (schema_dir_sdl fl mal sc with_desc all) (s_dirlist sc)))"

end
