(* ===== verification/Gqldoc.thy ===== *)
theory Gqldoc
  imports Gqlsdl
begin

text \<open>
  Executable documents (\<open>ext/agoo/graphql.c\<close>): operations, variables, fragments and selections,
  their creation, destruction and printing. A selection owns what it holds, so the structs are
  values; only types and directives are addresses.
\<close>

section \<open>Structs\<close>

datatype gql_op_kind = GQL_QUERY | GQL_MUTATION | GQL_SUBSCRIPTION

record gql_var =
  var_name :: string
  var_type :: "tid option"
  var_value :: "gqlValue option"

record gql_sel_arg =
  sarg_name :: string
  sarg_var :: "gql_var option"
  sarg_value :: "gqlValue option"

text \<open>
  A selection: alias, name, type, arguments, uses of directives, selections, the name of a
  fragment, an inline fragment. A fragment: name, uses of directives, the type it is on, selections.
\<close>

datatype gql_sel = Sel (sel_alias: "string option") (sel_name: "string option") (sel_type: "tid option") (sel_args: "gql_sel_arg list")
    (sel_dir: "gql_use list") (sel_sels: "gql_sel list") (sel_frag: "string option") (sel_inline: "gql_frag option")
  and gql_frag = Frag (frag_name: "string option") (frag_dir: "gql_use list") (frag_on: "tid option") (frag_sels: "gql_sel list")

record gql_op =
  op_name :: "string option"
  op_vars :: "gql_var list"
  op_dir :: "gql_use list"
  op_sels :: "gql_sel list"
  op_kind :: gql_op_kind

record gql_doc =
  doc_ops :: "gql_op list"
  doc_vars :: "gql_var list"
  doc_frags :: "gql_frag list"

definition gql_fragment_create ::
  "allocator \<Rightarrow> agoo_err \<Rightarrow> string option \<Rightarrow> tid option \<Rightarrow> (gql_frag option \<times> agoo_err) mem" where
  "gql_fragment_create mal err name on =
    (if mal 40 = None then mem_bind (mem_error err ''GraphQL Fragment'' 1322) (\<lambda>err. Val (None, err))
     else case name of
       None \<Rightarrow> Val (Some (Frag None [] on []), err)
     | Some name \<Rightarrow>
         (case strdup mal name of
            None \<Rightarrow> mem_bind (mem_error err ''strdup()'' 1327) (\<lambda>err. Val (None, err))
          | Some nm \<Rightarrow> Val (Some (Frag (Some nm) [] on []), err)))"

definition gql_validate :: "agoo_err \<Rightarrow> agoo_err_code" where
  "gql_validate err = AGOO_ERR_OK"

definition gql_doc_create :: "allocator \<Rightarrow> agoo_err \<Rightarrow> (gql_doc option \<times> agoo_err) mem" where
  "gql_doc_create mal err =
    (if mal 72 = None then mem_bind (mem_error err ''GraphQL Document'' 1358) (\<lambda>err. Val (None, err))
     else Val (Some \<lparr>doc_ops = [], doc_vars = [], doc_frags = []\<rparr>, err))"

definition gql_op_create :: "allocator \<Rightarrow> agoo_err \<Rightarrow> string option \<Rightarrow> gql_op_kind \<Rightarrow> (gql_op option \<times> agoo_err) mem" where
  "gql_op_create mal err name kind =
    (let op = \<lparr>op_name = None, op_vars = [], op_dir = [], op_sels = [], op_kind = kind\<rparr>
     in if mal 48 = None then mem_bind (mem_error err ''GraphQL Operation'' 1375) (\<lambda>err. Val (None, err))
        else case name of
          None \<Rightarrow> Val (Some op, err)
        | Some name \<Rightarrow>
            if cstr name = [] then Val (Some op, err)
            else
              (case strdup mal name of
                 None \<Rightarrow> mem_bind (mem_error err ''strdup()'' 1380) (\<lambda>err. Val (None, err))
               | Some nm \<Rightarrow> Val (Some (op\<lparr>op_name := Some nm\<rparr>), err)))"

section \<open>Destruction\<close>

lemma mem_each_cong [fundef_cong]:
  "\<lbrakk>xs = ys; \<And>x. x \<in> set ys \<Longrightarrow> f x = g x\<rbrakk> \<Longrightarrow> mem_each f xs = mem_each g ys"
  by (induction xs arbitrary: ys) auto

definition var_destroy :: "gql_var \<Rightarrow> unit mem" where
  "var_destroy v = opt_destroy (var_value v)"

definition sel_arg_destroy :: "gql_sel_arg \<Rightarrow> unit mem" where
  "sel_arg_destroy a = opt_destroy (sarg_value a)"

fun sel_destroy :: "gql_sel \<Rightarrow> unit mem" and gql_frag_destroy :: "gql_frag \<Rightarrow> unit mem" where
  "sel_destroy (Sel alias name type args dir sels frag inline) =
    mem_bind (mem_each sel_arg_destroy args) (\<lambda>_.
    mem_bind (free_dir_uses dir) (\<lambda>_.
    mem_bind (mem_each sel_destroy sels) (\<lambda>_.
    case inline of None \<Rightarrow> Val () | Some f \<Rightarrow> gql_frag_destroy f)))"
| "gql_frag_destroy (Frag name dir on sels) = mem_bind (free_dir_uses dir) (\<lambda>_. mem_each sel_destroy sels)"

definition gql_op_destroy :: "gql_op \<Rightarrow> unit mem" where
  "gql_op_destroy op =
    mem_bind (mem_each var_destroy (op_vars op)) (\<lambda>_.
    mem_bind (free_dir_uses (op_dir op)) (\<lambda>_. mem_each sel_destroy (op_sels op)))"

text \<open>The hook that frees the context of a document belongs to its caller.\<close>

definition gql_doc_destroy :: "(unit mem) option \<Rightarrow> gql_doc \<Rightarrow> unit mem" where
  "gql_doc_destroy ctx_free doc =
    mem_bind (mem_each gql_op_destroy (doc_ops doc)) (\<lambda>_.
    mem_bind (mem_each var_destroy (doc_vars doc)) (\<lambda>_.
    mem_bind (mem_each gql_frag_destroy (doc_frags doc)) (\<lambda>_.
    case ctx_free of None \<Rightarrow> Val () | Some f \<Rightarrow> f)))"

section \<open>Printing\<close>

lemma write_each_cong [fundef_cong]:
  "\<lbrakk>xs = ys; t = t'; \<And>x t. x \<in> set ys \<Longrightarrow> w x t = w' x t\<rbrakk> \<Longrightarrow> write_each w xs t = write_each w' ys t'"
  by (induction xs arbitrary: ys t t') (auto intro!: mem_bind_cong)

definition sel_arg_sdl :: "double_ops \<Rightarrow> allocator \<Rightarrow> gql_sel_arg \<Rightarrow> text_writer" where
  "sel_arg_sdl fl mal a t =
    mem_bind (agoo_text_append mal t (sarg_name a) (-1)) (\<lambda>t.
    mem_bind (append_str mal '': '' t) (\<lambda>t.
    case sarg_var a of
      Some v \<Rightarrow> mem_bind (append_str mal ''$'' t) (\<lambda>t. agoo_text_append mal t (var_name v) (-1))
    | None \<Rightarrow> (case sarg_value a of Some v \<Rightarrow> gql_value_sdl fl mal 0 0 v t | None \<Rightarrow> append_str mal ''null'' t)))"

definition sel_args_sdl :: "double_ops \<Rightarrow> allocator \<Rightarrow> gql_sel_arg list \<Rightarrow> text_writer" where
  "sel_args_sdl fl mal as t =
    (if as = [] then Val t
     else mem_bind (append_str mal ''('' t) (\<lambda>t.
          mem_bind (write_sep (append_str mal '', '') (sel_arg_sdl fl mal) as t) (append_str mal '')'')))"

definition sel_indent :: "nat \<Rightarrow> int" where
  "sel_indent depth = (if 17 \<le> depth * 2 then 16 else int (depth * 2))"

definition sels_open :: "allocator \<Rightarrow> text_writer" where
  "sels_open mal = append_str mal ('' {'' @ [CHR 0x0A])"

definition sels_close :: "allocator \<Rightarrow> nat \<Rightarrow> text_writer" where
  "sels_close mal depth t =
    mem_bind (agoo_text_append mal t spaces16 (sel_indent depth)) (append_str mal ''}'')"

fun sel_sdl :: "double_ops \<Rightarrow> allocator \<Rightarrow> schema \<Rightarrow> nat \<Rightarrow> gql_sel \<Rightarrow> text_writer" where
  "sel_sdl fl mal sc depth (Sel alias name type args dir sels frag inline) t =
    mem_bind (agoo_text_append mal t spaces16 (sel_indent depth)) (\<lambda>t.
    mem_bind
      (case frag of
         Some f \<Rightarrow>
           mem_bind (append_str mal ''...'' t) (\<lambda>t.
           mem_bind (agoo_text_append mal t f (-1)) (append_dir_use fl mal sc dir))
       | None \<Rightarrow>
           (case inline of
              Some (Frag fname fdir on fsels) \<Rightarrow>
                mem_bind
                  (case on of
                     None \<Rightarrow> append_str mal ''...'' t
                   | Some ty \<Rightarrow> mem_bind (append_str mal ''... on '' t) (type_name mal sc ty)) (\<lambda>t.
                mem_bind (append_dir_use fl mal sc fdir t) (\<lambda>t.
                if fsels = [] then Val t
                else
                  mem_bind (sels_open mal t) (\<lambda>t.
                  mem_bind (write_each (sel_sdl fl mal sc (depth + 1)) fsels t) (sels_close mal depth))))
            | None \<Rightarrow>
                mem_bind
                  (case alias of
                     None \<Rightarrow> Val t
                   | Some a \<Rightarrow> mem_bind (agoo_text_append mal t a (-1)) (append_str mal '': '')) (\<lambda>t.
                mem_bind (write_opt mal name t) (\<lambda>t.
                mem_bind (sel_args_sdl fl mal args t) (\<lambda>t.
                mem_bind (append_dir_use fl mal sc dir t) (\<lambda>t.
                if sels = [] then Val t
                else
                  mem_bind (sels_open mal t) (\<lambda>t.
                  mem_bind (write_each (sel_sdl fl mal sc (depth + 1)) sels t) (sels_close mal depth)))))))) (\<lambda>t.
    append_str mal [CHR 0x0A] t))"

definition op_var_sdl :: "double_ops \<Rightarrow> allocator \<Rightarrow> schema \<Rightarrow> gql_var \<Rightarrow> text_writer" where
  "op_var_sdl fl mal sc v t =
    mem_bind (append_str mal ''$'' t) (\<lambda>t.
    mem_bind (agoo_text_append mal t (var_name v) (-1)) (\<lambda>t.
    mem_bind (append_str mal '': '' t) (\<lambda>t.
    mem_bind (case var_type v of None \<Rightarrow> UB | Some ty \<Rightarrow> type_name mal sc ty t) (default_sdl fl mal (var_value v)))))"

definition op_sdl :: "double_ops \<Rightarrow> allocator \<Rightarrow> schema \<Rightarrow> gql_op \<Rightarrow> text_writer" where
  "op_sdl fl mal sc op t =
    mem_bind
      (append_str mal
        (case op_kind op of GQL_MUTATION \<Rightarrow> ''mutation'' | GQL_SUBSCRIPTION \<Rightarrow> ''subscription'' | GQL_QUERY \<Rightarrow> ''query'') t) (\<lambda>t.
    mem_bind
      (case op_name op of
         None \<Rightarrow> Val t
       | Some nm \<Rightarrow> mem_bind (append_str mal '' '' t) (\<lambda>t. agoo_text_append mal t nm (-1))) (\<lambda>t.
    mem_bind
      (if op_vars op = [] then Val t
       else mem_bind (append_str mal ''('' t) (\<lambda>t.
            mem_bind (write_sep (append_str mal '', '') (op_var_sdl fl mal sc) (op_vars op) t) (append_str mal '')''))) (\<lambda>t.
    mem_bind (append_dir_use fl mal sc (op_dir op) t) (\<lambda>t.
    mem_bind (sels_open mal t) (\<lambda>t.
    mem_bind (write_each (sel_sdl fl mal sc 1) (op_sels op) t) (append_str mal (''}'' @ [CHR 0x0A])))))))"

definition frag_sdl :: "double_ops \<Rightarrow> allocator \<Rightarrow> schema \<Rightarrow> gql_frag \<Rightarrow> text_writer" where
  "frag_sdl fl mal sc f t =
    mem_bind (append_str mal ''fragment '' t) (\<lambda>t.
    mem_bind (write_opt mal (frag_name f) t) (\<lambda>t.
    mem_bind (append_str mal '' on '' t) (\<lambda>t.
    mem_bind (case frag_on f of None \<Rightarrow> UB | Some ty \<Rightarrow> type_name mal sc ty t) (\<lambda>t.
    mem_bind (append_dir_use fl mal sc (frag_dir f) t) (\<lambda>t.
    mem_bind (sels_open mal t) (\<lambda>t.
    mem_bind (write_each (sel_sdl fl mal sc 1) (frag_sels f) t) (append_str mal (''}'' @ [CHR 0x0A]))))))))"

text \<open>The texts of the operations are thrown away, those of the fragments are not.\<close>

definition gql_doc_sdl :: "double_ops \<Rightarrow> allocator \<Rightarrow> schema \<Rightarrow> gql_doc \<Rightarrow> text_writer" where
  "gql_doc_sdl fl mal sc doc t =
    mem_bind (write_each (\<lambda>op. thrown_away (op_sdl fl mal sc op)) (doc_ops doc) t)
      (write_each (frag_sdl fl mal sc) (doc_frags doc))"

end
