(* ===== verification/SdlBugs.thy ===== *)
theory SdlBugs
  imports Gqldoc Gqlreg
begin

text \<open>
  What the SDL printers do with descriptions: the text of a description outside a block of
  members, the reallocation that is lost, and the line end that is stepped over.
\<close>

section \<open>Descriptions without an indentation\<close>

definition desc_block :: "string \<Rightarrow> string" where
  "desc_block d =
    (if 0 \<le> desc_len d then [CHR 0x22] @ cstr d @ [CHR 0x22, CHR 0x0A]
     else [CHR 0x22, CHR 0x22, CHR 0x22, CHR 0x0A] @ cstr d @ [CHR 0x0A, CHR 0x22, CHR 0x22, CHR 0x22, CHR 0x0A])"

lemma cstr_block [simp]: "cstr (cstr d @ [NUL]) = cstr d"
  by (induction d) (auto simp: cstr_def)

lemma desc_len_plain: "0 \<le> desc_len d \<Longrightarrow> desc_len d = int (strlen d)"
  by (auto simp: desc_len_def strlen_def cstr_def split: if_splits)

lemma writes_desc:
  assumes "malloc_ok mal"
  shows "writes mal (desc_sdl mal (Some d) 0) (desc_block d)"
proof (cases "0 \<le> desc_len d")
  case True
  note L = writes_lit [OF assms]
  have "writes mal (\<lambda>t. agoo_text_append mal t (cstr d @ [NUL]) (desc_len d)) (cstr d)"
    by (rule writes_append) (use assms in \<open>simp_all add: desc_len_plain [OF True] arg_len_def strlen_def cstr_def\<close>)
  from writes_bind [OF L [of "[CHR 0x22]" 1] writes_bind [OF this L [of "[CHR 0x22, CHR 0x0A]" 2]]] True
  show ?thesis by (simp add: desc_sdl_def [abs_def] desc_block_def Let_def)
next
  case False
  note L = writes_lit [OF assms]
  have "writes mal (\<lambda>t. agoo_text_append mal t (cstr d @ [NUL]) (-1)) (cstr d)"
    using writes_cstr [OF assms, of "cstr d @ [NUL]"] by simp
  from writes_bind [OF L [of "[CHR 0x22, CHR 0x22, CHR 0x22, CHR 0x0A]" 4]
      writes_bind [OF this L [of "[CHR 0x0A, CHR 0x22, CHR 0x22, CHR 0x22, CHR 0x0A]" 5]]] False
  show ?thesis by (simp add: desc_sdl_def [abs_def] desc_block_def Let_def)
qed

text \<open>
  C38. The text with the description of a type is thrown away: where it does not fit, the block that
  was freed by the reallocation is used further, whatever the type is.
\<close>

theorem type_desc_stale:
  assumes "malloc_all mal" "text_ok t" "terminated t" "ty_desc ty = Some d" "talen t < tlen t + length (desc_block d)"
  shows "gql_type_sdl fl mal sc True ty (Some t) = UB"
proof -
  have w: "writes mal (desc_sdl mal (Some d) 0) (desc_block d)" using writes_desc malloc_allD(1) [OF assms(1)] by blast
  have "thrown_away (desc_sdl mal (Some d) 0) (Some t) = UB"
  proof (cases "desc_sdl mal (Some d) 0 (Some t)")
    case (Val r)
    show ?thesis
    proof (cases r)
      case None
      then show ?thesis by (simp add: thrown_away_def Val)
    next
      case (Some t')
      then have "text_ok t'" "content t' = content t @ desc_block d"
        using w assms(2,3) Val unfolding writes_def by fastforce+
      then have "tlen t + length (desc_block d) \<le> talen t'"
        using assms(2) length_content [of t'] length_content [of t] by (simp add: text_ok_def)
      then show ?thesis using assms(5) by (simp add: thrown_away_def Val Some)
    qed
  qed (simp add: thrown_away_def)
  then show ?thesis by (simp add: gql_type_sdl_def Let_def assms(4))
qed

section \<open>Descriptions of members\<close>

lemma mem_bind_UB: "mem_bind x (\<lambda>_. UB) = UB"
  by (cases x) auto

lemma desc_lines_plain:
  assumes "\<forall>c \<in> set s. c \<noteq> NUL \<and> c \<noteq> CHR 0x0D \<and> c \<noteq> CHR 0x0A" "start \<le> length pre"
  shows "desc_lines mal (pre @ s @ post) indent start (length pre) t = desc_lines mal (pre @ s @ post) indent start (length pre + length s) t"
  using assms
proof (induction s arbitrary: pre)
  case (Cons c s)
  have "desc_lines mal (pre @ (c # s) @ post) indent start (length pre) t =
      desc_lines mal (pre @ (c # s) @ post) indent start (length pre + 1) t"
    using Cons.prems by (subst desc_lines.simps) simp
  also have "\<dots> = desc_lines mal ((pre @ [c]) @ s @ post) indent start (length (pre @ [c])) t" by simp
  also have "\<dots> = desc_lines mal ((pre @ [c]) @ s @ post) indent start (length (pre @ [c]) + length s) t"
    by (rule Cons.IH) (use Cons.prems in auto)
  finally show ?case by simp
qed simp

lemma desc_sdl_line_end:
  assumes "\<forall>c \<in> set s. c \<noteq> NUL \<and> c \<noteq> CHR 0x0D \<and> c \<noteq> CHR 0x0A" "0 < indent"
  shows "desc_sdl mal (Some (s @ [CHR 0x0A])) indent t = UB"
proof -
  let ?d = "s @ [CHR 0x0A]"
  have n: "NUL \<notin> set ?d" using assms(1) by (auto simp: NUL_def)
  have behind: "desc_lines mal (?d @ [NUL]) indent (length s + 1) (length s + 2) = (\<lambda>t. UB)"
    by (rule ext, subst desc_lines.simps) simp
  have "desc_lines mal (?d @ [NUL]) indent 0 (length s) t = UB" for t
    by (subst desc_lines.simps) (use behind in \<open>simp add: NUL_def mem_bind_UB\<close>)
  then have "desc_lines mal (?d @ [NUL]) indent 0 0 t = UB" for t
    using desc_lines_plain [of s 0 "[]" mal "CHR 0x0A # [NUL]" indent t] assms(1) by simp
  moreover have "desc_len ?d < 0" using n by (auto simp: desc_len_def strlen_def)
  ultimately show ?thesis using assms(2) n by (simp add: desc_sdl_def Let_def mem_bind_UB)
qed



lemma type_desc_stale_witness:
  "gql_type_sdl no_doubles mal0 schema0 True ((fresh_type GQL_SCALAR ''User'' None)\<lparr>ty_desc := Some (replicate 100 CHR ''x'')\<rparr>) (Some abc_text) = UB"
proof -
  have "talen abc_text < tlen abc_text + length (desc_block (replicate 100 CHR ''x''))" by code_simp
  from type_desc_stale [OF malloc_all_mal0 abc_text_ok _ this] show ?thesis by simp
qed

end
