(* ===== verification/Sdl.thy ===== *)
theory Sdl
  imports Doc Gqldoc
begin

text \<open>
  The parser of schemas (\<open>ext/agoo/sdl.c\<close>): type definitions in SDL are read from a document and
  registered with the operations of \<open>Gqltype\<close>.

  A function of the code is a parser over a state of the error record, the document and the
  schema. A parser that returns an error code gives \<open>None\<close> for a code that is not
  \<open>AGOO_ERR_OK\<close>; the loops run on fuel, and the outer \<open>None\<close> is fuel that ran out.
\<close>

section \<open>Parsers\<close>

record sdl_state =
  ss_err :: agoo_err
  ss_doc :: agoo_doc
  ss_schema :: schema

record sdl_env =
  sdl_doubles :: double_ops
  sdl_mal :: allocator
  sdl_fuel :: nat

type_synonym 'a sdl = "sdl_state \<Rightarrow> ('a option \<times> sdl_state) run"

definition sdl_ret :: "'a \<Rightarrow> 'a sdl" where
  "sdl_ret x st = Some (Val (Some x, st))"

definition sdl_stop :: "'a sdl" where
  "sdl_stop st = Some (Val (None, st))"

definition sdl_bind :: "'a sdl \<Rightarrow> ('a \<Rightarrow> 'b sdl) \<Rightarrow> 'b sdl" where
  "sdl_bind p f st = run_bind (p st) (\<lambda>(r, st). case r of None \<Rightarrow> Some (Val (None, st)) | Some x \<Rightarrow> f x st)"

definition sdl_then :: "'a sdl \<Rightarrow> 'b sdl \<Rightarrow> 'b sdl" where
  "sdl_then p q = sdl_bind p (\<lambda>_. q)"

text \<open>\<open>return err->code\<close>, and \<open>goto ERROR\<close> to the code that is given.\<close>

definition sdl_code :: "unit sdl" where
  "sdl_code st = Some (Val (if ecode (ss_err st) = AGOO_ERR_OK then Some () else None, st))"

definition sdl_catch :: "unit sdl \<Rightarrow> unit sdl \<Rightarrow> unit sdl" where
  "sdl_catch p h st = run_bind (p st) (\<lambda>(r, st). case r of None \<Rightarrow> h st | Some x \<Rightarrow> Some (Val (Some x, st)))"

text \<open>A pointer that is NULL makes the function return the code of the error record.\<close>

definition sdl_ptr :: "'a option sdl \<Rightarrow> ('a \<Rightarrow> unit sdl) \<Rightarrow> unit sdl" where
  "sdl_ptr p f = sdl_bind p (\<lambda>x. case x of None \<Rightarrow> sdl_code | Some y \<Rightarrow> f y)"

definition sdl_some :: "'a option sdl \<Rightarrow> 'a sdl" where
  "sdl_some p = sdl_bind p (\<lambda>x. case x of None \<Rightarrow> sdl_stop | Some y \<Rightarrow> sdl_ret y)"

definition sdl_mem :: "(sdl_state \<Rightarrow> 'a mem) \<Rightarrow> 'a sdl" where
  "sdl_mem f st = run_bind (Some (f st)) (\<lambda>x. Some (Val (Some x, st)))"

definition sdl_move :: "(agoo_doc \<Rightarrow> agoo_doc mem) \<Rightarrow> unit sdl" where
  "sdl_move f st = run_bind (Some (f (ss_doc st))) (\<lambda>d. Some (Val (Some (), st\<lparr>ss_doc := d\<rparr>)))"

definition sdl_fail :: "string \<Rightarrow> 'a sdl" where
  "sdl_fail msg st =
    run_bind (Some (agoo_doc_err (ss_doc st) (ss_err st) msg)) (\<lambda>(code, err). Some (Val (None, st\<lparr>ss_err := err\<rparr>)))"

text \<open>The operations on the types; those that return a code stop where it is an error.\<close>

definition sdl_reg :: "(agoo_err \<Rightarrow> schema \<Rightarrow> ('a \<times> agoo_err \<times> schema) mem) \<Rightarrow> 'a sdl" where
  "sdl_reg f st =
    run_bind (Some (f (ss_err st) (ss_schema st))) (\<lambda>(x, err, sc). Some (Val (Some x, st\<lparr>ss_err := err, ss_schema := sc\<rparr>)))"

definition sdl_check :: "agoo_err_code sdl \<Rightarrow> unit sdl" where
  "sdl_check p = sdl_bind p (\<lambda>code. if code = AGOO_ERR_OK then sdl_ret () else sdl_stop)"

definition sdl_type :: "tid \<Rightarrow> gql_type sdl" where
  "sdl_type t = sdl_mem (\<lambda>st. the_type (ss_schema st) t)"

definition sdl_put :: "tid \<Rightarrow> (gql_type \<Rightarrow> gql_type mem) \<Rightarrow> unit sdl" where
  "sdl_put t f st =
    run_bind (Some (mem_bind (the_type (ss_schema st) t) f)) (\<lambda>ty. Some (Val (Some (), st\<lparr>ss_schema := put_type t ty (ss_schema st)\<rparr>)))"

section \<open>Moving in the document\<close>

definition sdl_cur :: "nat sdl" where
  "sdl_cur st = Some (Val (Some (dcur (ss_doc st)), st))"

definition sdl_peek :: "nat \<Rightarrow> char sdl" where
  "sdl_peek k = sdl_mem (\<lambda>st. peek (ss_doc st) k)"

definition sdl_adv :: "nat \<Rightarrow> unit sdl" where
  "sdl_adv k = sdl_move (\<lambda>d. Val (adv k d))"

definition sdl_seek :: "nat \<Rightarrow> unit sdl" where
  "sdl_seek i = sdl_move (\<lambda>d. Val (d\<lparr>dcur := i\<rparr>))"

definition sdl_white :: "nat sdl" where
  "sdl_white = sdl_bind sdl_cur (\<lambda>i. sdl_then (sdl_move agoo_doc_skip_white) (sdl_bind sdl_cur (\<lambda>j. sdl_ret (j - i))))"

definition sdl_more :: "bool sdl" where
  "sdl_more st = Some (Val (Some (dcur (ss_doc st) < dend (ss_doc st)), st))"

text \<open>A token: the bytes from its start on, and its length.\<close>

definition sdl_token :: "(string \<times> nat) sdl" where
  "sdl_token =
    sdl_bind sdl_cur (\<lambda>i.
    sdl_then (sdl_move agoo_doc_read_token)
      (sdl_mem (\<lambda>st. Val (str_at i (ss_doc st), dcur (ss_doc st) - i))))"

definition quoted :: "char \<Rightarrow> string" where
  "quoted c = [CHR 0x27, c, CHR 0x27]"

definition sdl_char :: "char \<Rightarrow> string \<Rightarrow> unit sdl" where
  "sdl_char c msg = sdl_bind (sdl_peek 0) (\<lambda>x. if x = c then sdl_adv 1 else sdl_fail msg)"

text \<open>\<open>strncmp\<close> with a key word.\<close>

fun word_at :: "string \<Rightarrow> string \<Rightarrow> bool mem" where
  "word_at [] s = Val True"
| "word_at (k # ks) [] = UB"
| "word_at (k # ks) (c # s) = (if k = c then word_at ks s else Val False)"

definition sdl_word :: "string \<Rightarrow> bool sdl" where
  "sdl_word key = sdl_mem (\<lambda>st. word_at key (str_at (dcur (ss_doc st)) (ss_doc st)))"

text \<open>Loops: \<open>while (true)\<close> and \<open>while (doc->cur < doc->end)\<close>; the body tells whether to go on.\<close>

primrec sdl_repeat :: "nat \<Rightarrow> ('s \<Rightarrow> ('s \<times> bool) sdl) \<Rightarrow> 's \<Rightarrow> 's sdl" where
  "sdl_repeat 0 b s = (\<lambda>st. None)"
| "sdl_repeat (Suc n) b s = sdl_bind (b s) (\<lambda>(s, go). if go then sdl_repeat n b s else sdl_ret s)"

definition sdl_while :: "nat \<Rightarrow> ('s \<Rightarrow> ('s \<times> bool) sdl) \<Rightarrow> 's \<Rightarrow> 's sdl" where
  "sdl_while n b = sdl_repeat n (\<lambda>s. sdl_bind sdl_more (\<lambda>m. if m then b s else sdl_ret (s, False)))"

text \<open>
  What the reader of values is told of a type: the chain of bases is at most as long as there
  are types.
\<close>

primrec type_view :: "nat \<Rightarrow> schema \<Rightarrow> tid \<Rightarrow> gqlType mem" where
  "type_view 0 sc t = UB"
| "type_view (Suc n) sc t =
    mem_bind (the_type sc t) (\<lambda>ty.
    mem_bind (case ty_body ty of Base b \<Rightarrow> mem_bind (type_view n sc b) (\<lambda>v. Val (Some v)) | _ \<Rightarrow> Val None) (\<lambda>base.
    Val (GqlType (ty_name ty) (ty_kind ty) (ty_scalar ty) (ty_body ty = Printers True) base)))"

definition sdl_value :: "sdl_env \<Rightarrow> tid option \<Rightarrow> gqlValue option sdl" where
  "sdl_value e t st =
    run_bind
      (Some (case t of
               None \<Rightarrow> Val None
             | Some t \<Rightarrow> mem_bind (type_view (Suc (s_next (ss_schema st))) (ss_schema st) t) (\<lambda>v. Val (Some v)))) (\<lambda>ty.
    run_bind (agoo_doc_read_value (sdl_doubles e) (sdl_mal e) (sdl_fuel e) ty (ss_err st) (ss_doc st)) (\<lambda>(v, d, err).
    Some (Val (Some v, st\<lparr>ss_doc := d, ss_err := err\<rparr>))))"

section \<open>Names, descriptions, uses of directives\<close>

text \<open>
  A description is the bytes behind its opening quotes and its length; where the length is 0 the
  functions that copy it take all the bytes.
\<close>

definition extract_desc :: "(string option \<times> nat) sdl" where
  "extract_desc =
    sdl_then sdl_white (sdl_bind (sdl_peek 0) (\<lambda>c.
    if c \<noteq> CHR 0x22 then sdl_ret (None, 0)
    else
      sdl_bind sdl_cur (\<lambda>cur.
      sdl_then
        (\<lambda>st. run_bind (Some (agoo_doc_read_string (ss_err st) (ss_doc st))) (\<lambda>(code, d, err).
           Some (Val (if code = AGOO_ERR_OK then Some () else None, st\<lparr>ss_doc := d, ss_err := err\<rparr>))))
        (sdl_mem (\<lambda>st.
           let d = ss_doc st; start = cur + 1
           in mem_bind (peek (d\<lparr>dcur := start\<rparr>) 0) (\<lambda>q.
              mem_bind (if q = CHR 0x22 then peek (d\<lparr>dcur := start\<rparr>) 1 else Val NUL) (\<lambda>q'.
              if q' = CHR 0x22 then Val (Some (str_at (start + 2) d), dcur d - 3 - (start + 2))
              else Val (Some (str_at start d), dcur d - 1 - start))))))))"

definition read_name :: "string sdl" where
  "read_name =
    sdl_bind sdl_token (\<lambda>(s, n).
    if n = 0 then sdl_fail ''Name not provided''
    else if 256 \<le> n then sdl_fail ''Name too long''
    else sdl_ret (take n s))"

definition key_word :: "string \<Rightarrow> unit sdl" where
  "key_word key =
    (let bad = sdl_fail (''Expected '' @ key @ '' key word'')
     in sdl_bind (sdl_word key) (\<lambda>found.
        if \<not> found then bad
        else sdl_then (sdl_adv (length key)) (sdl_bind sdl_white (\<lambda>n. if n = 0 then bad else sdl_ret ()))))"

definition extract_name :: "string \<Rightarrow> string sdl" where
  "extract_name key = sdl_then (key_word key) read_name"

text \<open>The test of the code of \<open>gql_dir_use_arg\<close> is turned round: its error is not returned.\<close>

definition make_use_arg :: "sdl_env \<Rightarrow> gql_use \<Rightarrow> gql_use sdl" where
  "make_use_arg e u =
    sdl_bind read_name (\<lambda>name.
    sdl_then sdl_white (
    sdl_then (sdl_char CHR '':'' (''Expected '' @ quoted CHR '':'')) (
    sdl_bind (sdl_value e None) (\<lambda>v.
    case v of
      None \<Rightarrow> sdl_then sdl_code (sdl_ret u)
    | Some v \<Rightarrow>
        sdl_bind
          (\<lambda>st. run_bind (Some (gql_dir_use_arg (sdl_mal e) (ss_err st) u (Some name) v)) (\<lambda>(code, u, err).
             Some (Val (Some (code, u), st\<lparr>ss_err := err\<rparr>)))) (\<lambda>(code, u).
        if code = AGOO_ERR_OK then sdl_then sdl_code (sdl_ret u) else sdl_ret u)))))"

definition close_paren :: "'s \<Rightarrow> ('s \<times> bool) sdl" where
  "close_paren s =
    sdl_then sdl_white (sdl_bind (sdl_peek 0) (\<lambda>c. if c = CHR '')'' then sdl_then (sdl_adv 1) (sdl_ret (s, False)) else sdl_ret (s, True)))"

definition extract_dir_use :: "sdl_env \<Rightarrow> gql_use list \<Rightarrow> gql_use list sdl" where
  "extract_dir_use e uses =
    sdl_then sdl_white (sdl_bind (sdl_peek 0) (\<lambda>c.
    if c \<noteq> CHR ''@'' then sdl_ret uses
    else
      sdl_then (sdl_adv 1) (
      sdl_bind read_name (\<lambda>name.
      sdl_bind (sdl_reg (\<lambda>err sc. gql_dir_use_create (sdl_mal e) err sc name)) (\<lambda>u.
      case u of
        None \<Rightarrow> sdl_then sdl_code (sdl_ret uses)
      | Some u \<Rightarrow>
          sdl_then sdl_white (
          sdl_bind (sdl_peek 0) (\<lambda>c.
          sdl_bind
            (if c = CHR ''('' then
               sdl_then (sdl_adv 1) (sdl_while (sdl_fuel e) (\<lambda>u. sdl_bind (make_use_arg e u) close_paren) u)
             else sdl_ret u) (\<lambda>u. sdl_ret (uses @ [u])))))))))"

text \<open>The uses are added to those the type has.\<close>

definition type_uses :: "sdl_env \<Rightarrow> tid \<Rightarrow> unit sdl" where
  "type_uses e t =
    sdl_bind (sdl_type t) (\<lambda>ty. sdl_bind (extract_dir_use e (ty_dir ty)) (\<lambda>us. sdl_put t (\<lambda>ty. Val (ty\<lparr>ty_dir := us\<rparr>))))"

text \<open>The type a definition is for: one that exists, or a new one.\<close>

definition extended :: "bool \<Rightarrow> string \<Rightarrow> tid option sdl \<Rightarrow> (tid \<Rightarrow> unit sdl) \<Rightarrow> unit sdl" where
  "extended x name create f =
    (if x then
       sdl_bind (sdl_mem (\<lambda>st. gql_type_get (ss_schema st) name)) (\<lambda>t.
       case t of None \<Rightarrow> sdl_fail (name @ '' not defined. Can not be extended.'') | Some t \<Rightarrow> f t)
     else sdl_ptr create f)"

text \<open>The label \<open>ERROR\<close>.\<close>

definition sdl_abort :: "bool \<Rightarrow> tid \<Rightarrow> unit sdl" where
  "sdl_abort x t =
    sdl_then (if x then sdl_ret () else sdl_reg (\<lambda>err sc. mem_bind (gql_type_destroy sc t) (\<lambda>sc. Val ((), err, sc)))) sdl_code"

definition make_scalar :: "sdl_env \<Rightarrow> string option \<Rightarrow> nat \<Rightarrow> bool \<Rightarrow> unit sdl" where
  "make_scalar e desc len x =
    sdl_bind (extract_name ''scalar'') (\<lambda>name.
    extended x name (sdl_reg (\<lambda>err sc. gql_scalar_create (sdl_mal e) err sc name desc len)) (type_uses e))"

section \<open>Types, enums, unions\<close>

text \<open>
  A type with its brackets and exclamation marks. A NULL the type functions give without an
  error would be taken for a type.
\<close>

definition sdl_tid :: "tid option sdl \<Rightarrow> tid sdl" where
  "sdl_tid p = sdl_bind p (\<lambda>t. case t of Some t \<Rightarrow> sdl_ret t | None \<Rightarrow> sdl_then sdl_code (sdl_mem (\<lambda>st. UB)))"

primrec read_type :: "sdl_env \<Rightarrow> nat \<Rightarrow> tid sdl" where
  "read_type e 0 = (\<lambda>st. None)"
| "read_type e (Suc n) =
    sdl_then sdl_white (
    sdl_bind (sdl_peek 0) (\<lambda>c.
    sdl_bind
      (if c = CHR ''['' then
         sdl_then (sdl_adv 1) (
         sdl_bind (read_type e n) (\<lambda>base.
         sdl_then sdl_white (
         sdl_then (sdl_char CHR '']'' ''List type not terminated with a ]'') (
         sdl_tid (sdl_reg (\<lambda>err sc. gql_assure_list (sdl_mal e) err sc base))))))
       else
         sdl_bind read_name (\<lambda>name. sdl_tid (sdl_reg (\<lambda>err sc. gql_assure_type (sdl_mal e) err sc (Some name))))) (\<lambda>t.
    sdl_then sdl_white (
    sdl_bind (sdl_peek 0) (\<lambda>c.
    if c = CHR ''!'' then
      sdl_bind (sdl_tid (sdl_reg (\<lambda>err sc. gql_assure_nonnull (sdl_mal e) err sc t))) (\<lambda>t. sdl_then (sdl_adv 1) (sdl_ret t))
    else sdl_ret t)))))"

text \<open>The uses of the choice that was appended.\<close>

definition choice_uses :: "gql_use list \<Rightarrow> gql_type \<Rightarrow> gql_type mem" where
  "choice_uses us ty =
    (case ty_body ty of
       Choices evs \<Rightarrow> if evs = [] then UB else Val (ty\<lparr>ty_body := Choices (butlast evs @ [(last evs)\<lparr>enum_dir := us\<rparr>])\<rparr>)
     | _ \<Rightarrow> UB)"

definition enum_choice :: "sdl_env \<Rightarrow> tid \<Rightarrow> unit \<Rightarrow> (unit \<times> bool) sdl" where
  "enum_choice e t = (\<lambda>_.
    sdl_bind extract_desc (\<lambda>(desc, dlen).
    sdl_bind sdl_cur (\<lambda>start.
    sdl_bind sdl_token (\<lambda>(s, n).
    sdl_bind (extract_dir_use e []) (\<lambda>us.
    sdl_bind sdl_cur (\<lambda>cur.
    if cur = start then
      sdl_then (sdl_char CHR ''}'' ''Invalid Enum value'') (sdl_ret ((), False))
    else
      sdl_then (sdl_some (sdl_reg (\<lambda>err sc. gql_enum_append (sdl_mal e) err sc t s n desc dlen)))
        (sdl_then (sdl_put t (choice_uses us)) (sdl_ret ((), True)))))))))"

definition make_enum :: "sdl_env \<Rightarrow> string option \<Rightarrow> nat \<Rightarrow> bool \<Rightarrow> unit sdl" where
  "make_enum e desc dlen x =
    sdl_bind (extract_name ''enum'') (\<lambda>name.
    sdl_bind (extract_dir_use e []) (\<lambda>us.
    sdl_then sdl_white (
    sdl_then (sdl_char CHR ''{'' (''Expected '' @ quoted CHR ''{'')) (
    extended x name (sdl_reg (\<lambda>err sc. gql_enum_create (sdl_mal e) err sc name desc dlen)) (\<lambda>t.
    sdl_then (sdl_put t (\<lambda>ty. Val (ty\<lparr>ty_dir := us\<rparr>)))
      (sdl_catch (sdl_while (sdl_fuel e) (enum_choice e t) ()) (sdl_abort x t)))))))"

text \<open>Behind a member another one follows where there is a bar.\<close>

definition next_bar :: "(unit \<times> bool) sdl" where
  "next_bar =
    sdl_then sdl_white (sdl_bind (sdl_peek 0) (\<lambda>c. if c = CHR ''|'' then sdl_then (sdl_adv 1) (sdl_ret ((), True)) else sdl_ret ((), False)))"

definition union_member :: "sdl_env \<Rightarrow> tid \<Rightarrow> unit \<Rightarrow> (unit \<times> bool) sdl" where
  "union_member e t = (\<lambda>_.
    sdl_bind (read_type e (sdl_fuel e)) (\<lambda>m.
    sdl_then (sdl_check (sdl_reg (\<lambda>err sc. gql_union_add (sdl_mal e) err sc t m))) next_bar))"

definition make_union :: "sdl_env \<Rightarrow> string option \<Rightarrow> nat \<Rightarrow> bool \<Rightarrow> unit sdl" where
  "make_union e desc len x =
    sdl_bind (extract_name ''union'') (\<lambda>name.
    extended x name (sdl_reg (\<lambda>err sc. gql_union_create (sdl_mal e) err sc name desc len)) (\<lambda>t.
    sdl_catch
      (sdl_then (type_uses e t) (
       sdl_then sdl_white (
       sdl_then (sdl_char CHR ''='' (''Expected '' @ quoted CHR ''='')) (
       sdl_then sdl_white (
       sdl_while (sdl_fuel e) (union_member e t) ())))))
      (sdl_abort x t)))"

section \<open>Directives\<close>

text \<open>
  The name of an argument or of its type, with the messages of \<open>make_dir_arg\<close>. Behind \<open>=\<close> the
  position is not moved: the value is read from the \<open>=\<close> on.
\<close>

definition make_dir_arg :: "sdl_env \<Rightarrow> did \<Rightarrow> unit sdl" where
  "make_dir_arg e dir =
    sdl_bind extract_desc (\<lambda>(desc, dlen).
    sdl_then sdl_white (
    sdl_bind sdl_token (\<lambda>(s, n).
    if n = 0 then sdl_fail ''Argument name not provided''
    else
      sdl_bind (sdl_peek 0) (\<lambda>c.
      if c \<noteq> CHR '':'' then sdl_fail (''Expected '' @ quoted CHR '':'')
      else if 256 \<le> n then sdl_fail ''Name too long''
      else
        sdl_then (sdl_adv 1) (
        sdl_then sdl_white (
        sdl_bind sdl_token (\<lambda>(s', n').
        if n' = 0 then sdl_fail ''Argument type not provided''
        else if 256 \<le> n' then sdl_fail ''Type name too long''
        else
          sdl_ptr (sdl_reg (\<lambda>err sc. gql_assure_type (sdl_mal e) err sc (Some (take n' s')))) (\<lambda>t.
          sdl_then sdl_white (
          sdl_bind (sdl_peek 0) (\<lambda>c.
          let finish = (\<lambda>t dv.
                sdl_then sdl_white
                  (sdl_ptr (sdl_reg (\<lambda>err sc. gql_dir_arg (sdl_mal e) err sc dir (take n s) (Some t) desc dlen dv)) (\<lambda>_. sdl_ret ())))
          in if c = CHR ''!'' then
               sdl_ptr (sdl_reg (\<lambda>err sc. gql_assure_nonnull (sdl_mal e) err sc t)) (\<lambda>t. sdl_then (sdl_adv 1) (finish t None))
             else if c = CHR ''='' then sdl_ptr (sdl_value e (Some t)) (\<lambda>dv. finish t (Some dv))
             else finish t None))))))))))"

definition make_directive :: "sdl_env \<Rightarrow> string option \<Rightarrow> nat \<Rightarrow> unit sdl" where
  "make_directive e desc len =
    sdl_then (key_word ''directive'') (
    sdl_then (sdl_char CHR ''@'' (''Expected '' @ quoted CHR ''@'')) (
    sdl_bind read_name (\<lambda>name.
    sdl_ptr (sdl_reg (\<lambda>err sc. gql_directive_create (sdl_mal e) err sc name desc len)) (\<lambda>dir.
    sdl_bind (sdl_peek 0) (\<lambda>c.
    sdl_then
      (if c = CHR ''('' then
         sdl_then (sdl_adv 1) (sdl_while (sdl_fuel e) (\<lambda>_. sdl_then (make_dir_arg e dir) (close_paren ())) ())
       else sdl_ret ()) (
    sdl_then sdl_white (
    sdl_bind sdl_token (\<lambda>(s, n).
    if take n s \<noteq> ''on'' then sdl_fail (''Expected '' @ [CHR 0x27] @ ''on'' @ [CHR 0x27])
    else
      sdl_while (sdl_fuel e) (\<lambda>_.
        sdl_then sdl_white (
        sdl_bind sdl_token (\<lambda>(s, n).
        sdl_then (sdl_check (sdl_reg (\<lambda>err sc. gql_directive_on (sdl_mal e) err sc dir s (int n))))
          next_bar))) ()))))))))"

section \<open>Fields and arguments\<close>

text \<open>The name of a field or an argument, with its description.\<close>

definition described_name :: "(string option \<times> nat \<times> string) sdl" where
  "described_name =
    sdl_bind extract_desc (\<lambda>(desc, dlen). sdl_then sdl_white (sdl_bind read_name (\<lambda>name. sdl_ret (desc, dlen, name))))"

definition sdl_colon :: "unit sdl" where
  "sdl_colon = sdl_then sdl_white (sdl_char CHR '':'' ''Expected :'')"

text \<open>As in \<open>make_dir_arg\<close> the value is read from the \<open>=\<close> on.\<close>

definition make_field_arg :: "sdl_env \<Rightarrow> tid \<times> nat \<Rightarrow> unit sdl" where
  "make_field_arg e field =
    sdl_bind described_name (\<lambda>(desc, dlen, name).
    sdl_then sdl_colon (
    sdl_bind (read_type e (sdl_fuel e)) (\<lambda>t.
    sdl_then sdl_white (
    sdl_bind (sdl_peek 0) (\<lambda>c.
    let finish = (\<lambda>dv. sdl_ptr (sdl_reg (\<lambda>err sc. gql_field_arg (sdl_mal e) err sc field name (Some t) desc dlen dv)) (\<lambda>_. sdl_ret ()))
    in if c = CHR ''='' then sdl_ptr (sdl_value e (Some t)) (\<lambda>dv. finish (Some dv)) else finish None)))))"

text \<open>A default value behind \<open>=\<close>; \<open>f\<close> is what follows.\<close>

definition default_value :: "sdl_env \<Rightarrow> tid \<Rightarrow> (gqlValue option \<Rightarrow> unit sdl) \<Rightarrow> unit sdl" where
  "default_value e t f =
    sdl_bind (sdl_peek 0) (\<lambda>c.
    if c = CHR ''='' then sdl_then (sdl_adv 1) (sdl_ptr (sdl_value e (Some t)) (\<lambda>dv. f (Some dv))) else f None)"

definition field_uses :: "nat \<Rightarrow> gql_use list \<Rightarrow> gql_type \<Rightarrow> gql_type mem" where
  "field_uses i us ty =
    mem_bind (the_fields ty) (\<lambda>(fs, ifs).
    if i < length fs then Val (ty\<lparr>ty_body := Fields (fs[i := (fs ! i)\<lparr>field_dir := us\<rparr>]) ifs\<rparr>) else UB)"

text \<open>The start of the argument list, which is read behind the rest of the field.\<close>

definition args_start :: "nat option sdl" where
  "args_start =
    sdl_bind (sdl_peek 0) (\<lambda>c.
    if c = CHR ''('' then
      sdl_then (sdl_adv 1) (
      sdl_bind sdl_cur (\<lambda>start.
      sdl_bind
        (\<lambda>st. run_bind (Some (agoo_doc_skip_to (ss_doc st) CHR '')'')) (\<lambda>(found, d). Some (Val (Some found, st\<lparr>ss_doc := d\<rparr>)))) (\<lambda>found.
      if \<not> found then sdl_fail ''Argument list not terminated with a )''
      else sdl_then (sdl_adv 1) (sdl_then sdl_colon (sdl_ret (Some start))))))
    else if c = CHR '':'' then sdl_then (sdl_adv 1) (sdl_ret None)
    else sdl_fail ''Expected : or ('')"

definition make_field :: "sdl_env \<Rightarrow> tid \<Rightarrow> unit sdl" where
  "make_field e t =
    sdl_bind described_name (\<lambda>(desc, dlen, name).
    sdl_then sdl_white (
    sdl_bind args_start (\<lambda>start.
    sdl_bind (read_type e (sdl_fuel e)) (\<lambda>rt.
    default_value e rt (\<lambda>dv.
    sdl_bind (extract_dir_use e []) (\<lambda>us.
    sdl_ptr (sdl_reg (\<lambda>err sc. gql_type_field (sdl_mal e) err sc t name (Some rt) dv desc dlen)) (\<lambda>field.
    sdl_then (sdl_put (fst field) (field_uses (snd field) us))
      (case start of
         None \<Rightarrow> sdl_ret ()
       | Some start \<Rightarrow>
           sdl_bind sdl_cur (\<lambda>cur.
           sdl_then (sdl_seek start) (
           sdl_then
             (sdl_repeat (sdl_fuel e) (\<lambda>_.
                sdl_then (make_field_arg e field) (
                sdl_then sdl_white (
                sdl_bind (sdl_peek 0) (\<lambda>c. sdl_ret ((), c \<noteq> CHR '')''))))) ())
             (sdl_seek cur)))))))))))"

definition arg_uses :: "gql_use list \<Rightarrow> gql_type \<Rightarrow> gql_type mem" where
  "arg_uses us ty =
    (case ty_body ty of
       Args as \<Rightarrow> if as = [] then UB else Val (ty\<lparr>ty_body := Args (butlast as @ [(last as)\<lparr>arg_dir := us\<rparr>])\<rparr>)
     | _ \<Rightarrow> UB)"

definition make_input_arg :: "sdl_env \<Rightarrow> tid \<Rightarrow> unit sdl" where
  "make_input_arg e t =
    sdl_bind described_name (\<lambda>(desc, dlen, name).
    sdl_then sdl_colon (
    sdl_bind (read_type e (sdl_fuel e)) (\<lambda>rt.
    default_value e rt (\<lambda>dv.
    sdl_bind (extract_dir_use e []) (\<lambda>us.
    sdl_ptr (sdl_reg (\<lambda>err sc. gql_input_arg (sdl_mal e) err sc t name (Some rt) desc dlen dv)) (\<lambda>_. sdl_put t (arg_uses us)))))))"

text \<open>The members between braces.\<close>

definition sdl_members :: "sdl_env \<Rightarrow> unit sdl \<Rightarrow> unit sdl" where
  "sdl_members e p =
    sdl_then (sdl_adv 1) (
    sdl_then sdl_white (
    sdl_while (sdl_fuel e) (\<lambda>_.
      sdl_bind (sdl_peek 0) (\<lambda>c.
      if c = CHR ''}'' then sdl_then (sdl_adv 1) (sdl_ret ((), False))
      else sdl_then p (sdl_then sdl_white (sdl_ret ((), True))))) ()))"

definition sdl_braces :: "sdl_env \<Rightarrow> unit sdl \<Rightarrow> unit sdl" where
  "sdl_braces e p =
    sdl_then sdl_white (
    sdl_bind (sdl_peek 0) (\<lambda>c. if c \<noteq> CHR ''{'' then sdl_fail (''Expected '' @ quoted CHR ''{'') else sdl_members e p))"

text \<open>An interface without a brace goes to the error label without an error.\<close>

definition make_interface :: "sdl_env \<Rightarrow> string option \<Rightarrow> nat \<Rightarrow> bool \<Rightarrow> unit sdl" where
  "make_interface e desc len x =
    sdl_bind (extract_name ''interface'') (\<lambda>name.
    extended x name (sdl_reg (\<lambda>err sc. gql_interface_create (sdl_mal e) err sc name desc len)) (\<lambda>t.
    sdl_catch
      (sdl_then (type_uses e t) (
       sdl_then sdl_white (
       sdl_bind (sdl_peek 0) (\<lambda>c. if c \<noteq> CHR ''{'' then sdl_stop else sdl_members e (make_field e t)))))
      (sdl_abort x t)))"

definition make_input :: "sdl_env \<Rightarrow> string option \<Rightarrow> nat \<Rightarrow> bool \<Rightarrow> unit sdl" where
  "make_input e desc len x =
    sdl_bind (extract_name ''input'') (\<lambda>name.
    extended x name (sdl_reg (\<lambda>err sc. gql_input_create (sdl_mal e) err sc name desc len)) (\<lambda>t.
    sdl_catch (sdl_then (type_uses e t) (sdl_braces e (make_input_arg e t))) (sdl_abort x t)))"

definition add_interface :: "tid \<Rightarrow> gql_type \<Rightarrow> gql_type mem" where
  "add_interface i ty = mem_bind (the_fields ty) (\<lambda>(fs, ifs). Val (ty\<lparr>ty_body := Fields fs (ifs @ [i])\<rparr>))"

definition extract_interfaces :: "sdl_env \<Rightarrow> tid \<Rightarrow> unit sdl" where
  "extract_interfaces e t =
    sdl_then sdl_white (
    sdl_bind (sdl_word ''implements'') (\<lambda>found.
    if \<not> found then sdl_ret ()
    else
      sdl_then (sdl_adv 10) (
      sdl_bind sdl_white (\<lambda>n.
      if n = 0 then sdl_fail (''Expected white after '' @ [CHR 0x27] @ ''implements'' @ [CHR 0x27])
      else
        sdl_then
          (sdl_while (sdl_fuel e) (\<lambda>first.
             sdl_then sdl_white (
             sdl_bind (sdl_peek 0) (\<lambda>c.
             if c = CHR ''{'' \<or> c = CHR ''@'' then sdl_ret (first, False)
             else
               sdl_then
                 (if c = CHR ''&'' then sdl_then (sdl_adv 1) (sdl_then sdl_white (sdl_ret ()))
                  else if \<not> first then sdl_fail ''Expected &''
                  else sdl_ret ()) (
               sdl_bind (read_type e (sdl_fuel e)) (\<lambda>i.
               if sdl_mal e 16 = None then
                 sdl_then (sdl_check (sdl_reg (\<lambda>err sc. mem_bind (agoo_err_memory err ''GraphQL Interface'' ''sdl.c'' 760)
                   (\<lambda>(code, err). Val (code, err, sc))))) sdl_stop
               else sdl_then (sdl_put t (add_interface i)) (sdl_ret (False, True))))))) True)
          (sdl_ret ())))))"

definition make_type :: "sdl_env \<Rightarrow> string option \<Rightarrow> nat \<Rightarrow> bool \<Rightarrow> unit sdl" where
  "make_type e desc len x =
    sdl_bind (extract_name ''type'') (\<lambda>name.
    extended x name (sdl_reg (\<lambda>err sc. gql_type_create (sdl_mal e) err sc name desc len [])) (\<lambda>t.
    sdl_catch
      (sdl_then (extract_interfaces e t) (sdl_then (type_uses e t) (sdl_braces e (make_field e t))))
      (sdl_abort x t)))"

definition make_schema :: "sdl_env \<Rightarrow> string option \<Rightarrow> nat \<Rightarrow> bool \<Rightarrow> unit sdl" where
  "make_schema e desc len x =
    sdl_then (key_word ''schema'') (
    extended x ''schema'' (sdl_reg (\<lambda>err sc. gql_schema_create (sdl_mal e) err sc desc len)) (\<lambda>t.
    sdl_then (type_uses e t) (
    sdl_then sdl_white (
    sdl_bind (sdl_peek 0) (\<lambda>c.
    if c \<noteq> CHR ''{'' then
      sdl_then (if x then sdl_ret () else sdl_reg (\<lambda>err sc. mem_bind (gql_type_destroy sc t) (\<lambda>sc. Val ((), err, sc))))
        (sdl_fail (''Expected '' @ quoted CHR ''{''))
    else sdl_members e (make_field e t))))))"

section \<open>Documents\<close>

text \<open>
  The loop keeps a description for the next definition, and whether the next one is an
  extension: nothing takes that back.
\<close>

type_synonym sdl_loop_state = "(string option \<times> nat) \<times> bool"

definition sdl_definition :: "bool \<Rightarrow> unit sdl \<Rightarrow> (sdl_loop_state \<times> bool) sdl" where
  "sdl_definition x p = sdl_then p (sdl_ret (((None, 0), x), True))"

text \<open>The characters left, \<open>doc.end - doc.cur\<close>.\<close>

definition sdl_left :: "int sdl" where
  "sdl_left st = Some (Val (Some (int (dend (ss_doc st)) - int (dcur (ss_doc st))), st))"

definition sdl_step :: "sdl_env \<Rightarrow> sdl_loop_state \<Rightarrow> (sdl_loop_state \<times> bool) sdl" where
  "sdl_step e = (\<lambda>((desc, dlen), x).
    sdl_then (sdl_move agoo_doc_next_token) (
    sdl_bind (sdl_peek 0) (\<lambda>c.
    sdl_bind sdl_left (\<lambda>n.
    let unknown = sdl_fail ''Unknown directive''
    in if c = CHR 0x22 then sdl_bind extract_desc (\<lambda>d. sdl_ret ((d, x), True))
       else if c = CHR ''s'' then
         (if 6 < n then
            sdl_bind (sdl_peek 1) (\<lambda>c1.
            if c1 = CHR ''c'' then
              sdl_bind (sdl_peek 2) (\<lambda>c2.
              sdl_definition x ((if c2 = CHR ''a'' then make_scalar else make_schema) e desc dlen x))
            else unknown)
          else unknown)
       else if c = CHR ''e'' then
         (if 4 < n then
            sdl_bind (sdl_peek 1) (\<lambda>c1.
            if c1 = CHR ''n'' then sdl_definition x (make_enum e desc dlen x)
            else sdl_definition True (key_word ''extend''))
          else unknown)
       else if c = CHR ''u'' then sdl_definition x (make_union e desc dlen x)
       else if c = CHR ''d'' then sdl_definition x (make_directive e desc dlen)
       else if c = CHR ''t'' then sdl_definition x (make_type e desc dlen x)
       else if c = CHR ''i'' then
         (if 5 < n then
            sdl_bind (sdl_peek 1) (\<lambda>c1.
            if c1 = CHR ''n'' then
              sdl_bind (sdl_peek 2) (\<lambda>c2.
              sdl_definition x ((if c2 = CHR ''p'' then make_input else make_interface) e desc dlen x))
            else unknown)
          else unknown)
       else if c = NUL then sdl_ret (((desc, dlen), x), False)
       else unknown))))"

definition sdl_parse :: "sdl_env \<Rightarrow> agoo_err \<Rightarrow> schema \<Rightarrow> string \<Rightarrow> int \<Rightarrow> (unit option \<times> sdl_state) run" where
  "sdl_parse e err sc str len =
    run_bind (Some (agoo_doc_init str len)) (\<lambda>d.
    sdl_then (sdl_while (sdl_fuel e) (sdl_step e) ((None, 0), False)) (sdl_ret ())
      \<lparr>ss_err = err, ss_doc = d, ss_schema = sc\<rparr>)"

end
