(* ===== verification/Sdlexec.thy ===== *)
theory Sdlexec
  imports Sdl
begin

text \<open>
  The parser of executable documents (\<open>ext/agoo/sdl.c\<close>): operations with their variables,
  fragments, selections with their arguments, and the validation that sets the types of the
  selections. The root type of \<open>gqleval.c\<close> is an argument: \<open>None\<close> while no schema is set.

  A selection is linked into its list before its parts are read; it is built here and appended
  behind them, as a document with an error is destroyed.
\<close>

section \<open>Selections\<close>

definition sdl_err_mem :: "string \<Rightarrow> int \<Rightarrow> 'a option sdl" where
  "sdl_err_mem what line =
    sdl_reg (\<lambda>err sc. mem_bind (agoo_err_memory err what ''sdl.c'' line) (\<lambda>(code, err). Val (None, err, sc)))"

definition sdl_strdup :: "sdl_env \<Rightarrow> string option \<Rightarrow> int \<Rightarrow> string option option sdl" where
  "sdl_strdup e s line =
    (case s of
       None \<Rightarrow> sdl_ret (Some None)
     | Some s \<Rightarrow>
         (case strdup (sdl_mal e) s of
            None \<Rightarrow> sdl_err_mem ''strdup()'' line
          | Some a \<Rightarrow> sdl_ret (Some (Some a))))"

text \<open>A NULL makes the function return NULL.\<close>

definition sdl_opt :: "'a option sdl \<Rightarrow> ('a \<Rightarrow> 'b option sdl) \<Rightarrow> 'b option sdl" where
  "sdl_opt p f = sdl_bind p (\<lambda>x. case x of None \<Rightarrow> sdl_ret None | Some y \<Rightarrow> f y)"

definition sel_arg_create :: "sdl_env \<Rightarrow> string \<Rightarrow> gqlValue option \<Rightarrow> gql_var option \<Rightarrow> gql_sel_arg option sdl" where
  "sel_arg_create e name value var =
    (if sdl_mal e 32 = None then sdl_err_mem ''GraphQL Selection Field Argument'' 991
     else sdl_opt (sdl_strdup e (Some name) 995) (\<lambda>nm.
       sdl_ret (Some \<lparr>sarg_name = the nm, sarg_var = var, sarg_value = value\<rparr>)))"

definition find_var :: "string \<Rightarrow> gql_var list \<Rightarrow> gql_var option" where
  "find_var name vars = find (\<lambda>v. var_name v = name) vars"

text \<open>A variable of the operation without a value gives way to one of the document.\<close>

definition make_sel_arg :: "sdl_env \<Rightarrow> gql_var list \<Rightarrow> gql_var list option \<Rightarrow> gql_sel_arg list \<Rightarrow> gql_sel_arg list sdl" where
  "make_sel_arg e gvars ovars as =
    (let append = (\<lambda>name value var.
          sdl_bind (sel_arg_create e name value var) (\<lambda>a.
          case a of None \<Rightarrow> sdl_then sdl_code (sdl_ret as) | Some a \<Rightarrow> sdl_ret (as @ [a])))
     in sdl_then sdl_white (
        sdl_bind read_name (\<lambda>name.
        sdl_then sdl_colon (
        sdl_then sdl_white (
        sdl_bind (sdl_peek 0) (\<lambda>c.
        case (if c = CHR ''$'' then ovars else None) of
          Some vars \<Rightarrow>
            sdl_then (sdl_adv 1) (
            sdl_bind read_name (\<lambda>vname.
            let var = find_var vname vars;
                var = (case var of Some v \<Rightarrow> if var_value v = None then find_var vname gvars else Some v | None \<Rightarrow> find_var vname gvars)
            in case var of
                 None \<Rightarrow> sdl_fail (''variable $'' @ vname @ '' not defined for operation or document'')
               | Some v \<Rightarrow> append name None (Some v)))
        | None \<Rightarrow>
            sdl_bind (sdl_value e None) (\<lambda>v.
            case v of None \<Rightarrow> sdl_then sdl_code (sdl_ret as) | Some v \<Rightarrow> append name (Some v) None)))))))"

definition gql_op_var_create :: "sdl_env \<Rightarrow> string \<Rightarrow> tid \<Rightarrow> gqlValue option \<Rightarrow> gql_var option sdl" where
  "gql_op_var_create e name type value =
    (if sdl_mal e 32 = None then sdl_err_mem ''GraphQL Operations Variable'' 1066
     else sdl_opt (sdl_strdup e (Some name) 1070) (\<lambda>nm.
       sdl_ret (Some \<lparr>var_name = the nm, var_type = Some type, var_value = value\<rparr>)))"

definition make_op_var :: "sdl_env \<Rightarrow> gql_var list \<Rightarrow> gql_var list sdl" where
  "make_op_var e vars =
    (let append = (\<lambda>name t value.
          sdl_bind (gql_op_var_create e name t value) (\<lambda>v.
          case v of None \<Rightarrow> sdl_then sdl_code (sdl_ret vars) | Some v \<Rightarrow> sdl_ret (vars @ [v])))
     in sdl_then sdl_white (
        sdl_then (sdl_char CHR ''$'' ''Expected $'') (
        sdl_bind read_name (\<lambda>name.
        sdl_then sdl_colon (
        sdl_bind (read_type e (sdl_fuel e)) (\<lambda>t.
        sdl_then sdl_white (
        sdl_bind (sdl_peek 0) (\<lambda>c.
        if c = CHR ''='' then
          sdl_then (sdl_adv 1) (
          sdl_bind (sdl_value e (Some t)) (\<lambda>v.
          case v of None \<Rightarrow> sdl_then sdl_code (sdl_ret vars) | Some v \<Rightarrow> append name t (Some v)))
        else append name t None))))))))"

definition sel_create :: "sdl_env \<Rightarrow> string option \<Rightarrow> string option \<Rightarrow> string option \<Rightarrow> gql_sel option sdl" where
  "sel_create e alias name frag =
    (if sdl_mal e 72 = None then sdl_err_mem ''GraphQL Selection Set'' 1132
     else
       sdl_opt (sdl_strdup e name 1139) (\<lambda>nm.
       sdl_opt (sdl_strdup e alias 1148) (\<lambda>al.
       sdl_opt (sdl_strdup e frag 1157) (\<lambda>fr.
       sdl_ret (Some (Sel al nm None [] [] [] fr None))))))"

text \<open>
  A document that ends in a block must end in its brace. The selections up to the closing brace, by the reader \<open>p\<close> of one of them, which gives none
  where it was not linked.
\<close>

definition end_brace :: "unit sdl" where
  "end_brace =
    sdl_bind sdl_more (\<lambda>more.
    if more then sdl_ret ()
    else
      sdl_bind (sdl_mem (\<lambda>st. let d = ss_doc st in peek (d\<lparr>dcur := dcur d - 1\<rparr>) 0)) (\<lambda>c.
      if c \<noteq> CHR ''}'' then sdl_fail ''Expected a }'' else sdl_ret ()))"

definition sel_block :: "sdl_env \<Rightarrow> gql_sel option sdl \<Rightarrow> gql_sel list sdl" where
  "sel_block e p =
    sdl_then (sdl_adv 1) (
    sdl_bind
      (sdl_while (sdl_fuel e) (\<lambda>ss.
         sdl_then sdl_white (
         sdl_bind (sdl_peek 0) (\<lambda>c.
         if c = CHR ''}'' then sdl_then (sdl_adv 1) (sdl_ret (ss, False))
         else sdl_bind p (\<lambda>s. sdl_ret (case s of None \<Rightarrow> ss | Some s \<Rightarrow> ss @ [s], True))))) []) (\<lambda>ss.
    sdl_then end_brace (sdl_ret ss)))"

definition sel_block_opt :: "sdl_env \<Rightarrow> gql_sel option sdl \<Rightarrow> gql_sel list sdl" where
  "sel_block_opt e p = sdl_bind (sdl_peek 0) (\<lambda>c. if c = CHR ''{'' then sel_block e p else sdl_ret [])"

definition new_fragment :: "sdl_env \<Rightarrow> string option \<Rightarrow> tid option \<Rightarrow> gql_frag option sdl" where
  "new_fragment e name on =
    sdl_reg (\<lambda>err sc. mem_bind (gql_fragment_create (sdl_mal e) err name on) (\<lambda>(f, err). Val (f, err, sc)))"

definition assured_type :: "sdl_env \<Rightarrow> string \<Rightarrow> tid option sdl" where
  "assured_type e name = sdl_reg (\<lambda>err sc. gql_assure_type (sdl_mal e) err sc (Some name))"

text \<open>
  The three forms behind the dots: an inline fragment on a type, one with directives only, and the
  name of a fragment. \<open>p\<close> reads a selection.
\<close>

definition make_sel_inline :: "sdl_env \<Rightarrow> gql_sel option sdl \<Rightarrow> gql_sel option sdl" where
  "make_sel_inline e p =
    sdl_then (sdl_adv 3) (
    sdl_then sdl_white (
    sdl_bind (sdl_peek 0) (\<lambda>c.
    sdl_bind (if c = CHR ''o'' then sdl_peek 1 else sdl_ret NUL) (\<lambda>c1.
    if c = CHR ''o'' \<and> c1 = CHR ''n'' then
      sdl_then (sdl_adv 2) (
      sdl_then sdl_white (
      sdl_bind read_name (\<lambda>tname.
      sdl_opt (sel_create e None None None) (\<lambda>sel.
      sdl_bind (assured_type e tname) (\<lambda>on.
      sdl_opt (new_fragment e None on) (\<lambda>f.
      sdl_bind (extract_dir_use e []) (\<lambda>us.
      sdl_then sdl_white (
      sdl_bind (sel_block_opt e p) (\<lambda>ss.
      sdl_ret (Some (Sel None None None [] us [] None (Some (Frag None [] on ss)))))))))))))
    else if c = CHR ''@'' then
      sdl_opt (sel_create e None None None) (\<lambda>sel.
      sdl_opt (new_fragment e None None) (\<lambda>f.
      sdl_bind (extract_dir_use e []) (\<lambda>us.
      sdl_then sdl_white (
      sdl_bind (sel_block_opt e p) (\<lambda>ss.
      sdl_ret (Some (Sel None None None [] [] [] None (Some (Frag None us None ss)))))))))
    else sdl_bind read_name (\<lambda>fname. sel_create e None None (Some fname))))))"

text \<open>A field with its alias.\<close>

definition sel_field :: "sdl_env \<Rightarrow> gql_sel option sdl" where
  "sel_field e =
    sdl_bind read_name (\<lambda>alias.
    sdl_then sdl_white (
    sdl_bind (sdl_peek 0) (\<lambda>c.
    if c = CHR '':'' then
      sdl_then (sdl_adv 1) (
      sdl_then sdl_white (
      sdl_bind read_name (\<lambda>name.
      sdl_then sdl_white (sel_create e (Some alias) (Some name) None))))
    else sel_create e None (Some alias) None)))"

definition sdl_dots :: "bool sdl" where
  "sdl_dots =
    sdl_bind (sdl_peek 0) (\<lambda>c. if c \<noteq> CHR ''.'' then sdl_ret False else
    sdl_bind (sdl_peek 1) (\<lambda>c. if c \<noteq> CHR ''.'' then sdl_ret False else
    sdl_bind (sdl_peek 2) (\<lambda>c. sdl_ret (c = CHR ''.''))))"

text \<open>
  What follows the head of a selection: arguments, uses of directives, selections. \<open>bare\<close>: there is
  neither an operation nor a list the selection can go to.
\<close>

definition sel_rest :: "sdl_env \<Rightarrow> gql_var list \<Rightarrow> gql_var list option \<Rightarrow> gql_sel option sdl \<Rightarrow> gql_sel \<Rightarrow> gql_sel sdl" where
  "sel_rest e gvars ovars p sel =
    (case sel of Sel alias name type args dir sels frag inline \<Rightarrow>
       sdl_bind (sdl_peek 0) (\<lambda>c.
       sdl_bind
         (if frag = None \<and> c = CHR ''('' then
            sdl_then (sdl_adv 1) (
            sdl_bind
              (sdl_while (sdl_fuel e) (\<lambda>as.
                 sdl_then sdl_white (
                 sdl_bind (sdl_peek 0) (\<lambda>c.
                 if c = CHR '')'' then sdl_then (sdl_adv 1) (sdl_ret (as, False))
                 else sdl_bind (make_sel_arg e gvars ovars as) (\<lambda>as. sdl_ret (as, True))))) args) (\<lambda>as.
            sdl_then sdl_white (sdl_ret as)))
          else sdl_ret args) (\<lambda>as.
       sdl_bind (extract_dir_use e dir) (\<lambda>us.
       sdl_bind (sdl_peek 0) (\<lambda>c.
       sdl_bind (if frag = None \<and> c = CHR ''{'' then sel_block e p else sdl_ret sels) (\<lambda>ss.
       sdl_ret (Sel alias name type as us ss frag inline)))))))"

primrec make_sel :: "sdl_env \<Rightarrow> gql_var list \<Rightarrow> gql_var list option \<Rightarrow> nat \<Rightarrow> bool \<Rightarrow> gql_sel option sdl" where
  "make_sel e gvars ovars 0 bare = (\<lambda>st. None)"
| "make_sel e gvars ovars (Suc n) bare =
    (if bare then sdl_fail ''Fields can only be in a fragment, operation, or another field.''
     else
       sdl_then sdl_white (
       sdl_bind sdl_dots (\<lambda>dots.
       sdl_bind (if dots then make_sel_inline e (make_sel e gvars ovars n False) else sel_field e) (\<lambda>sel.
       case sel of
         None \<Rightarrow> sdl_then sdl_code (sdl_ret None)
       | Some sel \<Rightarrow>
           sdl_bind (sel_rest e gvars ovars (make_sel e gvars ovars n False) sel) (\<lambda>sel. sdl_ret (Some sel))))))"

section \<open>Types of fields\<close>

text \<open>The address of \<open>gql_string_type\<close>, the last of the ten static types that \<open>type_destroy\<close> compares.\<close>

definition string_tid :: tid where "string_tid = 9"

text \<open>
  The fields as this function takes them from the union: the arguments of an input are in the place
  of the fields, which is right only where there are none.
\<close>

definition union_fields :: "gql_type \<Rightarrow> gql_field list mem" where
  "union_fields ty =
    (case ty_body ty of
       Fields fs ifs \<Rightarrow> Val fs
     | Args as \<Rightarrow> if as = [] then Val [] else UB
     | _ \<Rightarrow> UB)"

text \<open>Without a name \<open>strcmp\<close> gets NULL.\<close>

primrec lookup_field_type :: "nat \<Rightarrow> schema \<Rightarrow> tid option \<Rightarrow> string option \<Rightarrow> bool \<Rightarrow> tid option mem" where
  "lookup_field_type 0 sc t field qroot = UB"
| "lookup_field_type (Suc n) sc t field qroot =
    (case t of
       None \<Rightarrow> UB
     | Some t \<Rightarrow>
         mem_bind (the_type sc t) (\<lambda>ty.
         if ty_kind ty \<in> {GQL_SCHEMA, GQL_OBJECT, GQL_INPUT, GQL_INTERFACE} then
           (case field of
              None \<Rightarrow> UB
            | Some field \<Rightarrow>
                mem_bind (union_fields ty) (\<lambda>fs.
                case Option.bind (find (\<lambda>f. field_name f = field) fs) field_type of
                  Some ft \<Rightarrow> Val (Some ft)
                | None \<Rightarrow>
                    if field = ''__typename'' then Val (Some string_tid)
                    else if qroot \<and> field = ''__type'' then gql_type_get sc ''__Type''
                    else if qroot \<and> field = ''__schema'' then gql_type_get sc ''__Schema''
                    else Val None))
         else if ty_kind ty \<in> {GQL_LIST, GQL_NON_NULL} then
           (case ty_body ty of Base b \<Rightarrow> lookup_field_type n sc (Some b) field False | _ \<Rightarrow> UB)
         else Val None))"

definition field_type_of :: "schema \<Rightarrow> tid option \<Rightarrow> string option \<Rightarrow> bool \<Rightarrow> tid option mem" where
  "field_type_of sc = lookup_field_type (Suc (s_next sc)) sc"

fun has_all_fields :: "schema \<Rightarrow> tid option \<Rightarrow> gql_sel list \<Rightarrow> bool mem" where
  "has_all_fields sc t [] = Val True"
| "has_all_fields sc t (s # ss) =
    mem_bind (field_type_of sc t (sel_name s) False) (\<lambda>ft. if ft = None then Val False else has_all_fields sc t ss)"

section \<open>Operations and fragments\<close>

fun op_word :: "gql_op_kind \<Rightarrow> string" where
  "op_word GQL_QUERY = ''query''"
| "op_word GQL_MUTATION = ''mutation''"
| "op_word GQL_SUBSCRIPTION = ''subscription''"

text \<open>
  The kind of an operation, with the word that \<open>kind_str\<close> points to: it stays \<open>query\<close> where the kind
  is the default one.
\<close>

definition op_head :: "gql_op_kind \<Rightarrow> (gql_op_kind \<times> string) sdl" where
  "op_head kind =
    sdl_then sdl_white (
    sdl_bind sdl_token (\<lambda>(s, n).
    let w = take n s
    in if n = 0 then sdl_ret (kind, ''query'')
       else if w = ''query'' then sdl_ret (GQL_QUERY, ''query'')
       else if w = ''mutation'' then sdl_ret (GQL_MUTATION, ''mutation'')
       else if w = ''subscription'' then sdl_ret (GQL_SUBSCRIPTION, ''subscription'')
       else sdl_fail ''Invalid operation type''))"

definition op_name_of :: "string sdl" where
  "op_name_of =
    sdl_then sdl_white (sdl_bind sdl_token (\<lambda>(s, n). if 256 \<le> n then sdl_fail ''Name too long'' else sdl_ret (take n s)))"

definition op_variables :: "sdl_env \<Rightarrow> gql_var list sdl" where
  "op_variables e =
    sdl_then sdl_white (
    sdl_bind (sdl_peek 0) (\<lambda>c.
    if c = CHR ''('' then
      sdl_then (sdl_adv 1) (
      sdl_bind
        (sdl_while (sdl_fuel e) (\<lambda>vs.
           sdl_then sdl_white (
           sdl_bind (sdl_peek 0) (\<lambda>c.
           if c = CHR '')'' then sdl_then (sdl_adv 1) (sdl_ret (vs, False))
           else sdl_bind (make_op_var e vs) (\<lambda>vs. sdl_ret (vs, True))))) []) (\<lambda>vs.
      sdl_then sdl_white (sdl_ret vs)))
    else sdl_ret []))"

text \<open>
  The selections of a named operation whose name is a field of its root type are wrapped in that
  field, unless all of them are fields of the root type themselves.
\<close>

definition wrap_sels :: "sdl_env \<Rightarrow> tid option \<Rightarrow> string \<Rightarrow> string \<Rightarrow> gql_sel list \<Rightarrow> gql_sel list option sdl" where
  "wrap_sels e root kind_str name ss =
    (if name = [] then sdl_ret (Some ss)
     else
       sdl_bind
         (sdl_mem (\<lambda>st.
            let sc = ss_schema st
            in mem_bind (field_type_of sc root (Some kind_str) False) (\<lambda>t.
               mem_bind (field_type_of sc t (Some name) False) (\<lambda>ft.
               if ft = None then Val False
               else mem_bind (has_all_fields sc t ss) (\<lambda>all. Val (\<not> all)))))) (\<lambda>wrap.
       if wrap then
         sdl_opt (sel_create e None (Some name) None) (\<lambda>s.
         case s of Sel alias nm type args dir sels frag inline \<Rightarrow> sdl_ret (Some [Sel alias nm type args dir ss frag inline]))
       else sdl_ret (Some ss)))"

text \<open>The operation, or none where the function returns without an error and without linking it.\<close>

definition make_op :: "sdl_env \<Rightarrow> tid option \<Rightarrow> gql_var list \<Rightarrow> gql_op_kind \<Rightarrow> gql_op option sdl" where
  "make_op e root gvars default_kind =
    sdl_bind (op_head default_kind) (\<lambda>(kind, kind_str).
    sdl_bind op_name_of (\<lambda>name.
    sdl_bind (sdl_reg (\<lambda>err sc. mem_bind (gql_op_create (sdl_mal e) err (Some name) kind) (\<lambda>(op, err). Val (op, err, sc)))) (\<lambda>op.
    case op of
      None \<Rightarrow> sdl_then sdl_code (sdl_ret None)
    | Some op \<Rightarrow>
        sdl_bind (op_variables e) (\<lambda>vs.
        sdl_bind (extract_dir_use e []) (\<lambda>us.
        sdl_bind (sdl_peek 0) (\<lambda>c.
        if c \<noteq> CHR ''{'' then sdl_fail ''Expected a {''
        else
          sdl_bind (sel_block e (make_sel e gvars (Some vs) (sdl_fuel e) False)) (\<lambda>ss.
          sdl_bind (wrap_sels e root kind_str name ss) (\<lambda>ss.
          case ss of
            None \<Rightarrow> sdl_then sdl_code (sdl_ret None)
          | Some ss \<Rightarrow> sdl_ret (Some (op\<lparr>op_vars := vs, op_dir := us, op_sels := ss\<rparr>))))))))))"

text \<open>An error that is set, but not returned.\<close>

definition sdl_note :: "string \<Rightarrow> unit sdl" where
  "sdl_note msg st =
    run_bind (Some (agoo_doc_err (ss_doc st) (ss_err st) msg)) (\<lambda>(code, err). Some (Val (Some (), st\<lparr>ss_err := err\<rparr>)))"

definition note_word :: "string \<Rightarrow> unit sdl" where
  "note_word w =
    sdl_then sdl_white (
    sdl_bind sdl_token (\<lambda>(s, n).
    sdl_then (if take n s = w then sdl_ret () else sdl_note (''Expected the key word '' @ [CHR 0x27] @ w @ [CHR 0x27, CHR ''.'']))
      (sdl_then sdl_white (sdl_ret ()))))"

definition make_fragment :: "sdl_env \<Rightarrow> gql_var list \<Rightarrow> gql_frag option sdl" where
  "make_fragment e gvars =
    sdl_then (note_word ''fragment'') (
    sdl_bind read_name (\<lambda>name.
    sdl_then (note_word ''on'') (
    sdl_bind read_name (\<lambda>tname.
    sdl_then sdl_white (
    sdl_bind (assured_type e tname) (\<lambda>on.
    sdl_bind (new_fragment e (Some name) on) (\<lambda>f.
    case f of
      None \<Rightarrow> sdl_then sdl_code (sdl_ret None)
    | Some f \<Rightarrow>
        sdl_bind (extract_dir_use e []) (\<lambda>us.
        sdl_bind (sdl_peek 0) (\<lambda>c.
        if c \<noteq> CHR ''{'' then sdl_fail ''Expected a {''
        else
          sdl_bind (sel_block e (make_sel e gvars None (sdl_fuel e) False)) (\<lambda>ss.
          sdl_ret (Some (Frag (Some name) us on ss))))))))))))"

section \<open>Validation\<close>

text \<open>
  The types of selections: the result is the selections with their types, or none and an error.
\<close>

type_synonym 'a checked = "agoo_err \<Rightarrow> ('a option \<times> agoo_err) mem"

definition chk_ret :: "'a \<Rightarrow> 'a checked" where
  "chk_ret x err = Val (Some x, err)"

definition chk_bind :: "'a checked \<Rightarrow> ('a \<Rightarrow> 'b checked) \<Rightarrow> 'b checked" where
  "chk_bind p f err = mem_bind (p err) (\<lambda>(r, err). case r of None \<Rightarrow> Val (None, err) | Some x \<Rightarrow> f x err)"

definition chk_fail :: "string \<Rightarrow> 'a checked" where
  "chk_fail msg err = mem_bind (agoo_err_set err AGOO_ERR_EVAL msg) (\<lambda>(code, err). Val (None, err))"

definition chk_mem :: "'a mem \<Rightarrow> 'a checked" where
  "chk_mem m err = mem_bind m (\<lambda>x. Val (Some x, err))"

definition name_type :: "schema \<Rightarrow> tid option \<Rightarrow> bool \<Rightarrow> string \<Rightarrow> tid checked" where
  "name_type sc t qroot name =
    chk_bind (chk_mem (field_type_of sc t (Some name) qroot)) (\<lambda>ft.
    case ft of
      Some ft \<Rightarrow> chk_ret ft
    | None \<Rightarrow>
        chk_bind (chk_mem (case t of None \<Rightarrow> UB | Some t \<Rightarrow> the_type sc t)) (\<lambda>ty.
        chk_fail (''Failed to determine the type for '' @ name @ '' in '' @ ty_name ty @ ''.'')))"

fun sel_set_type :: "schema \<Rightarrow> tid option \<Rightarrow> bool \<Rightarrow> gql_sel \<Rightarrow> gql_sel checked"
  and sels_set_type :: "schema \<Rightarrow> tid option \<Rightarrow> bool \<Rightarrow> gql_sel list \<Rightarrow> gql_sel list checked"
  and inline_set_type :: "schema \<Rightarrow> tid option \<Rightarrow> gql_frag option \<Rightarrow> gql_frag option checked" where
  "sel_set_type sc t qroot (Sel alias name type args dir sels frag inline) =
    (case name of
       None \<Rightarrow>
         chk_bind (inline_set_type sc t inline) (\<lambda>inline.
         chk_bind (sels_set_type sc t False sels) (\<lambda>sels.
         chk_ret (Sel alias name t args dir sels frag inline)))
     | Some nm \<Rightarrow>
         chk_bind (name_type sc t qroot nm) (\<lambda>ft.
         chk_bind (sels_set_type sc (Some ft) False sels) (\<lambda>sels.
         chk_ret (Sel alias name (Some ft) args dir sels frag inline))))"
| "sels_set_type sc t qroot [] = chk_ret []"
| "sels_set_type sc t qroot (s # ss) =
    chk_bind (sel_set_type sc t qroot s) (\<lambda>s. chk_bind (sels_set_type sc t qroot ss) (\<lambda>ss. chk_ret (s # ss)))"
| "inline_set_type sc t None = chk_ret None"
| "inline_set_type sc t (Some (Frag name dir on sels)) =
    chk_bind (sels_set_type sc (if on \<noteq> None then on else t) False sels) (\<lambda>sels. chk_ret (Some (Frag name dir on sels)))"

definition frag_set_type :: "schema \<Rightarrow> gql_frag \<Rightarrow> gql_frag checked" where
  "frag_set_type sc f =
    (case f of Frag name dir on sels \<Rightarrow> chk_bind (sels_set_type sc on False sels) (\<lambda>sels. chk_ret (Frag name dir on sels)))"

definition op_set_type :: "schema \<Rightarrow> tid \<Rightarrow> gql_op \<Rightarrow> gql_op checked" where
  "op_set_type sc root op =
    chk_bind (chk_mem (field_type_of sc (Some root) (Some (op_word (op_kind op))) False)) (\<lambda>t.
    if t = None then chk_fail ''Not a supported operation type.''
    else chk_bind (sels_set_type sc t (op_kind op = GQL_QUERY) (op_sels op)) (\<lambda>ss. chk_ret (op\<lparr>op_sels := ss\<rparr>)))"

fun chk_all :: "('a \<Rightarrow> 'a checked) \<Rightarrow> 'a list \<Rightarrow> 'a list checked" where
  "chk_all f [] = chk_ret []"
| "chk_all f (x # xs) = chk_bind (f x) (\<lambda>x. chk_bind (chk_all f xs) (\<lambda>xs. chk_ret (x # xs)))"

text \<open>The names of the operations: at most one has none, and no two have the same.\<close>

fun check_names :: "bool \<Rightarrow> gql_op list \<Rightarrow> unit checked" where
  "check_names unnamed [] = chk_ret ()"
| "check_names unnamed (op # ops) =
    (case op_name op of
       None \<Rightarrow> if unnamed then chk_fail ''Multiple un-named operation.'' else check_names True ops
     | Some name \<Rightarrow>
         if Some name \<in> op_name ` set ops then chk_fail (''Multiple operation named '' @ [CHR 0x27] @ name @ [CHR 0x27, CHR ''.''])
         else check_names unnamed ops)"

definition validate_doc :: "schema \<Rightarrow> tid option \<Rightarrow> gql_doc \<Rightarrow> gql_doc checked" where
  "validate_doc sc root doc =
    (case root of
       None \<Rightarrow> chk_fail ''No root (schema) type defined.''
     | Some root \<Rightarrow>
         chk_bind (chk_all (frag_set_type sc) (doc_frags doc)) (\<lambda>fs.
         chk_bind (check_names False (doc_ops doc)) (\<lambda>_.
         chk_bind (chk_all (op_set_type sc root) (doc_ops doc)) (\<lambda>ops.
         chk_ret (doc\<lparr>doc_frags := fs, doc_ops := ops\<rparr>)))))"

section \<open>Documents\<close>

definition doc_step :: "sdl_env \<Rightarrow> tid option \<Rightarrow> gql_op_kind \<Rightarrow> gql_doc \<Rightarrow> (gql_doc \<times> bool) sdl" where
  "doc_step e root kind doc =
    sdl_then (sdl_move agoo_doc_next_token) (
    sdl_bind sdl_more (\<lambda>more.
    if \<not> more then sdl_ret (doc, False)
    else
      sdl_bind (sdl_peek 0) (\<lambda>c.
      if c = CHR ''{'' \<or> c = CHR ''q'' \<or> c = CHR ''m'' \<or> c = CHR ''s'' then
        sdl_bind (make_op e root (doc_vars doc) kind) (\<lambda>op.
        sdl_ret (case op of None \<Rightarrow> doc | Some op \<Rightarrow> doc\<lparr>doc_ops := doc_ops doc @ [op]\<rparr>, True))
      else if c = CHR ''f'' then
        sdl_bind (make_fragment e (doc_vars doc)) (\<lambda>f.
        sdl_ret (case f of None \<Rightarrow> doc | Some f \<Rightarrow> doc\<lparr>doc_frags := doc_frags doc @ [f]\<rparr>, True))
      else if c = NUL then sdl_ret (doc, False)
      else sdl_fail ''unexpected character'')))"

text \<open>
  The document, or none with an error. (The destruction of a document that failed cannot be
  observed in the result.)
\<close>

definition sdl_parse_doc ::
  "sdl_env \<Rightarrow> tid option \<Rightarrow> agoo_err \<Rightarrow> schema \<Rightarrow> string \<Rightarrow> int \<Rightarrow> gql_var list \<Rightarrow> gql_op_kind \<Rightarrow> (gql_doc option \<times> sdl_state) run" where
  "sdl_parse_doc e root err sc str len vars kind =
    run_bind (Some (agoo_doc_init str len)) (\<lambda>d.
    sdl_bind (sdl_some (sdl_reg (\<lambda>err sc. mem_bind (gql_doc_create (sdl_mal e) err) (\<lambda>(doc, err). Val (doc, err, sc))))) (\<lambda>doc.
    sdl_bind (sdl_while (sdl_fuel e) (doc_step e root kind) (doc\<lparr>doc_vars := vars\<rparr>)) (\<lambda>doc.
    sdl_some (sdl_reg (\<lambda>err sc. mem_bind (validate_doc sc root doc err) (\<lambda>(doc, err). Val (doc, err, sc))))))
      \<lparr>ss_err = err, ss_doc = d, ss_schema = sc\<rparr>)"

end
