(* ===== verification/Sdlvalid.thy ===== *)
theory Sdlvalid
  imports Sdlexec
begin

text \<open>
  The validation of a document is a type checker: it accepts the documents whose selections have a
  type, and puts these types into the selections. The typing is stated as an inductive judgement.
\<close>

section \<open>The judgement\<close>

text \<open>
  \<open>sel_typed sc t q s\<close>: inside the type \<open>t\<close> the selection \<open>s\<close> carries its types. A name must be a field; the
  parts of an inline fragment are inside the type the fragment is on, if it names one.
\<close>

inductive sel_typed :: "schema \<Rightarrow> tid option \<Rightarrow> bool \<Rightarrow> gql_sel \<Rightarrow> bool"
  and sels_typed :: "schema \<Rightarrow> tid option \<Rightarrow> bool \<Rightarrow> gql_sel list \<Rightarrow> bool"
  and inline_typed :: "schema \<Rightarrow> tid option \<Rightarrow> gql_frag option \<Rightarrow> bool"
  for sc :: schema where
  named: "\<lbrakk>field_type_of sc t (Some nm) q = Val (Some ft); sels_typed sc (Some ft) False ss\<rbrakk> \<Longrightarrow>
    sel_typed sc t q (Sel al (Some nm) (Some ft) as us ss fr inl)"
| bare: "\<lbrakk>inline_typed sc t inl; sels_typed sc t False ss\<rbrakk> \<Longrightarrow> sel_typed sc t q (Sel al None t as us ss fr inl)"
| nil: "sels_typed sc t q []"
| cons: "\<lbrakk>sel_typed sc t q s; sels_typed sc t q ss\<rbrakk> \<Longrightarrow> sels_typed sc t q (s # ss)"
| no_frag: "inline_typed sc t None"
| frag: "sels_typed sc (if on \<noteq> None then on else t) False ss \<Longrightarrow> inline_typed sc t (Some (Frag nm us on ss))"

inductive_simps typed_named [simp]: "sel_typed sc t q (Sel al (Some nm) ty as us ss fr inl)"
inductive_simps typed_bare [simp]: "sel_typed sc t q (Sel al None ty as us ss fr inl)"
inductive_simps typed_nil [simp]: "sels_typed sc t q []"
inductive_simps typed_cons [simp]: "sels_typed sc t q (s # ss)"
inductive_simps typed_no_frag [simp]: "inline_typed sc t None"
inductive_simps typed_frag [simp]: "inline_typed sc t (Some (Frag nm us on ss))"

text \<open>What validation does not look at: selections without the types it sets.\<close>

fun erase_sel :: "gql_sel \<Rightarrow> gql_sel" and erase_sels :: "gql_sel list \<Rightarrow> gql_sel list"
  and erase_inline :: "gql_frag option \<Rightarrow> gql_frag option" where
  "erase_sel (Sel al nm ty as us ss fr inl) =
    Sel al nm None as us (erase_sels ss) fr (if nm = None then erase_inline inl else inl)"
| "erase_sels [] = []"
| "erase_sels (s # ss) = erase_sel s # erase_sels ss"
| "erase_inline None = None"
| "erase_inline (Some (Frag nm us on ss)) = Some (Frag nm us on (erase_sels ss))"

section \<open>The checker decides it\<close>

lemma chk_bind_Some:
  "chk_bind p f err = Val (Some y, err') \<longleftrightarrow> (\<exists>x e. p err = Val (Some x, e) \<and> f x e = Val (Some y, err'))"
  by (auto simp: chk_bind_def mem_bind_eq_Val split: option.splits)

lemma chk_ret_Some [simp]: "chk_ret x err = Val (Some y, err') \<longleftrightarrow> y = x \<and> err' = err"
  by (auto simp: chk_ret_def)

lemma chk_fail_Some [simp]: "chk_fail msg err \<noteq> Val (Some y, err')"
  by (auto simp: chk_fail_def mem_bind_eq_Val)

lemma chk_mem_Some [simp]: "chk_mem m err = Val (Some y, err') \<longleftrightarrow> m = Val y \<and> err' = err"
  by (auto simp: chk_mem_def mem_bind_eq_Val)

lemma name_type_Some:
  "name_type sc t q nm err = Val (Some ft, err') \<longleftrightarrow> field_type_of sc t (Some nm) q = Val (Some ft) \<and> err' = err"
  by (auto simp: name_type_def chk_bind_Some split: option.splits)

lemma set_type_iff:
  "sel_set_type sc t q s err = Val (Some s', err') \<longleftrightarrow> err' = err \<and> sel_typed sc t q s' \<and> erase_sel s' = erase_sel s"
  "sels_set_type sc t q ss err = Val (Some ss', err') \<longleftrightarrow> err' = err \<and> sels_typed sc t q ss' \<and> erase_sels ss' = erase_sels ss"
  "inline_set_type sc t inl err = Val (Some inl', err') \<longleftrightarrow> err' = err \<and> inline_typed sc t inl' \<and> erase_inline inl' = erase_inline inl"
proof (induction sc t q s and sc t q ss and sc t inl arbitrary: s' err err' and ss' err err' and inl' err err'
    rule: sel_set_type_sels_set_type_inline_set_type.induct)
  case (1 sc t q al nm ty as us ss fr inl)
  then show ?case by (cases s'; cases nm) (auto simp: chk_bind_Some name_type_Some)
next
  case (2 sc t q)
  then show ?case by (cases ss') auto
next
  case (3 sc t q s ss)
  then show ?case by (cases ss') (auto simp: chk_bind_Some)
next
  case (4 sc t)
  then show ?case by (cases inl'; cases "the inl'") auto
next
  case (5 sc t nm us on ss)
  then show ?case by (cases inl'; cases "the inl'") (auto simp: chk_bind_Some)
qed

section \<open>Documents\<close>

definition op_typed :: "schema \<Rightarrow> tid \<Rightarrow> gql_op \<Rightarrow> bool" where
  "op_typed sc root op \<longleftrightarrow>
    (\<exists>t. field_type_of sc (Some root) (Some (op_word (op_kind op))) False = Val (Some t) \<and>
       sels_typed sc (Some t) (op_kind op = GQL_QUERY) (op_sels op))"

definition erase_op :: "gql_op \<Rightarrow> gql_op" where
  "erase_op op = op\<lparr>op_sels := erase_sels (op_sels op)\<rparr>"

fun erase_frag :: "gql_frag \<Rightarrow> gql_frag" where
  "erase_frag (Frag nm us on ss) = Frag nm us on (erase_sels ss)"

definition erase_doc :: "gql_doc \<Rightarrow> gql_doc" where
  "erase_doc doc = doc\<lparr>doc_ops := map erase_op (doc_ops doc), doc_frags := map erase_frag (doc_frags doc)\<rparr>"

lemma chk_all_Some:
  "chk_all f xs err = Val (Some ys, err') \<longleftrightarrow> err' = err \<and> list_all2 P xs ys"
  if "\<And>x y err err'. f x err = Val (Some y, err') \<longleftrightarrow> err' = err \<and> P x y"
  by (induction xs arbitrary: ys err err') (auto simp: chk_bind_Some that list_all2_Cons1)

lemma frag_set_type_Some:
  "frag_set_type sc f err = Val (Some f', err') \<longleftrightarrow>
   err' = err \<and> sels_typed sc (frag_on f') False (frag_sels f') \<and> erase_frag f' = erase_frag f"
  by (cases f; cases f') (auto simp: frag_set_type_def chk_bind_Some set_type_iff)

lemma op_set_type_Some:
  "op_set_type sc root op err = Val (Some op', err') \<longleftrightarrow> err' = err \<and> op_typed sc root op' \<and> erase_op op' = erase_op op"
  by (cases op; cases op')
     (auto simp: op_set_type_def chk_bind_Some set_type_iff op_typed_def erase_op_def split: if_splits)

lemma check_names_Some:
  "check_names b ops err = Val (Some (), err') \<longleftrightarrow>
   err' = err \<and> distinct (map op_name ops) \<and> (b \<longrightarrow> None \<notin> op_name ` set ops)"
  by (induction b ops arbitrary: err err' rule: check_names.induct) (auto split: option.splits)

lemma erase_op_name: "erase_op op' = erase_op op \<Longrightarrow> op_name op' = op_name op"
  by (cases op; cases op') (simp add: erase_op_def)

lemma erase_doc_eq:
  "erase_doc doc' = erase_doc doc \<longleftrightarrow> doc_vars doc' = doc_vars doc \<and>
   list_all2 (\<lambda>f f'. erase_frag f' = erase_frag f) (doc_frags doc) (doc_frags doc') \<and>
   list_all2 (\<lambda>op op'. erase_op op' = erase_op op) (doc_ops doc) (doc_ops doc')"
proof -
  have "map g ys = map g xs \<longleftrightarrow> list_all2 (\<lambda>x y. g y = g x) xs ys" for g :: "'x \<Rightarrow> 'y" and xs ys
    by (induction xs arbitrary: ys) (auto simp: list_all2_Cons1 map_eq_Cons_conv)
  note eq = this
  show ?thesis by (cases doc; cases doc') (auto simp: erase_doc_def eq)
qed

text \<open>
  C6. Where there is a root type, validation succeeds on a document with exactly the results that are
  the document with types in which every fragment and operation is typed, and only if no two
  operations have the same name and at most one has none; the error record is left alone.
\<close>

theorem validate_doc_typed:
  "validate_doc sc (Some root) doc err = Val (Some doc', err') \<longleftrightarrow>
   err' = err \<and> erase_doc doc' = erase_doc doc \<and> distinct (map op_name (doc_ops doc)) \<and>
   (\<forall>f \<in> set (doc_frags doc'). sels_typed sc (frag_on f) False (frag_sels f)) \<and>
   (\<forall>op \<in> set (doc_ops doc'). op_typed sc root op)"
proof -
  have f: "chk_all (frag_set_type sc) fs e = Val (Some fs', e') \<longleftrightarrow>
      e' = e \<and> list_all2 (\<lambda>f f'. sels_typed sc (frag_on f') False (frag_sels f') \<and> erase_frag f' = erase_frag f) fs fs'" for fs fs' e e'
    by (rule chk_all_Some) (auto simp: frag_set_type_Some)
  have o: "chk_all (op_set_type sc root) ops e = Val (Some ops', e') \<longleftrightarrow>
      e' = e \<and> list_all2 (\<lambda>op op'. op_typed sc root op' \<and> erase_op op' = erase_op op) ops ops'" for ops ops' e e'
    by (rule chk_all_Some) (auto simp: op_set_type_Some)
  have conj: "list_all2 (\<lambda>x y. P y \<and> Q x y) xs ys \<longleftrightarrow> (\<forall>y \<in> set ys. P y) \<and> list_all2 Q xs ys" for P Q and xs ys
    by (induction xs arbitrary: ys) (auto simp: list_all2_Cons1)
  show ?thesis
    by (cases doc; cases doc') (auto simp: validate_doc_def chk_bind_Some f o conj check_names_Some erase_doc_eq)
qed

text \<open>A schema with one query, and the document \<open>{ a }\<close> before and behind its validation.\<close>

definition demo_type :: "gqlKind \<Rightarrow> string \<Rightarrow> (string \<times> tid) list \<Rightarrow> gql_type" where
  "demo_type kind name fs =
    \<lparr>ty_name = name, ty_desc = None, ty_dir = [], ty_kind = kind, ty_scalar = GQL_SCALAR_UNDEF, ty_core = False,
     ty_body = Fields (map (\<lambda>(n, t). \<lparr>field_name = n, field_type = Some t, field_desc = None, field_args = [], field_dir = [],
       field_default = None\<rparr>) fs) []\<rparr>"

definition demo_schema :: schema where
  "demo_schema =
    \<lparr>s_types = [10 \<mapsto> demo_type GQL_SCHEMA ''schema'' [(''query'', 11)], 11 \<mapsto> demo_type GQL_OBJECT ''Query'' [(''a'', 11)]],
     s_buckets = replicate 64 [], s_dirs = Map.empty, s_dirlist = [], s_next = 12\<rparr>"

definition demo_doc :: "tid option \<Rightarrow> gql_doc" where
  "demo_doc t =
    \<lparr>doc_ops = [\<lparr>op_name = None, op_vars = [], op_dir = [], op_sels = [Sel None (Some ''a'') t [] [] [] None None], op_kind = GQL_QUERY\<rparr>],
     doc_vars = [], doc_frags = []\<rparr>"

lemma validate_doc_typed_witness:
  "validate_doc demo_schema (Some 10) (demo_doc None) \<lparr>ecode = AGOO_ERR_OK, emsg = []\<rparr> =
    Val (Some (demo_doc (Some 11)), \<lparr>ecode = AGOO_ERR_OK, emsg = []\<rparr>)"
proof -
  have "field_type_of demo_schema (Some 10) (Some ''query'') False = Val (Some 11)"
    "field_type_of demo_schema (Some 11) (Some ''a'') True = Val (Some 11)"
    unfolding field_type_of_def lookup_field_type.simps
    by (simp_all add: demo_schema_def the_type_def demo_type_def union_fields_def)
  then show ?thesis
    by (simp add: validate_doc_typed erase_doc_def erase_op_def op_typed_def) (simp_all add: demo_doc_def erase_op_def)
qed

end
