(* ===== verification/SdlParse.thy ===== *)
theory SdlParse
  imports Sdlexec Gqlreg
begin

text \<open>
  What the SDL parsers make of a text: symbolic steps over a document, the round trip of unions
  through the printer and the parser, and a document that makes the parser follow NULL.
\<close>

section \<open>Steps over a text\<close>

text \<open>The state with the text \<open>pre\<close> behind the position and \<open>r\<close>, which ends in a NUL, in front of it.\<close>

definition at :: "agoo_err \<Rightarrow> schema \<Rightarrow> string \<Rightarrow> string \<Rightarrow> sdl_state" where
  "at err sc pre r = \<lparr>ss_err = err, ss_doc = \<lparr>dblk = pre @ r, dcur = length pre, dend = length pre + length r - 1\<rparr>, ss_schema = sc\<rparr>"

text \<open>\<open>p\<close> gives \<open>x\<close> and moves to the state \<open>st'\<close>.\<close>

definition does :: "'a sdl \<Rightarrow> sdl_state \<Rightarrow> 'a \<Rightarrow> sdl_state \<Rightarrow> bool" where
  "does p st x st' \<longleftrightarrow> p st = Some (Val (Some x, st'))"

named_theorems sdl_steps

lemma does_ret [sdl_steps]: "does (sdl_ret x) st x st"
  by (simp add: does_def sdl_ret_def)

lemma does_bind: "does p st x st1 \<Longrightarrow> does (f x) st1 y st2 \<Longrightarrow> does (sdl_bind p f) st y st2"
  by (simp add: does_def sdl_bind_def)

lemma does_then: "does p st x st1 \<Longrightarrow> does q st1 y st2 \<Longrightarrow> does (sdl_then p q) st y st2"
  by (simp add: sdl_then_def does_bind)

lemma does_ptr: "does p st (Some x) st1 \<Longrightarrow> does (f x) st1 () st2 \<Longrightarrow> does (sdl_ptr p f) st () st2"
  unfolding sdl_ptr_def by (rule does_bind, assumption) simp

lemma does_some: "does p st (Some x) st1 \<Longrightarrow> does (sdl_some p) st x st1"
  unfolding sdl_some_def by (rule does_bind, assumption) (simp add: does_ret)

lemma does_opt: "does p st (Some x) st1 \<Longrightarrow> does (f x) st1 y st2 \<Longrightarrow> does (sdl_opt p f) st y st2"
  unfolding sdl_opt_def by (rule does_bind, assumption) simp

lemma does_tid: "does p st (Some x) st1 \<Longrightarrow> does (sdl_tid p) st x st1"
  unfolding sdl_tid_def by (rule does_bind, assumption) (simp add: does_ret)

lemma does_catch: "does p st () st1 \<Longrightarrow> does (sdl_catch p h) st () st1"
  by (simp add: does_def sdl_catch_def)

lemma does_check: "does p st AGOO_ERR_OK st1 \<Longrightarrow> does (sdl_check p) st () st1"
  unfolding sdl_check_def by (rule does_bind, assumption) (simp add: does_ret)

lemma does_repeat_end: "0 < n \<Longrightarrow> does (b s) st (s', False) st1 \<Longrightarrow> does (sdl_repeat n b s) st s' st1"
  by (cases n) (auto intro!: does_bind does_ret)

lemma does_repeat_go: "does (b s) st (s', True) st1 \<Longrightarrow> does (sdl_repeat n b s') st1 s'' st2 \<Longrightarrow> does (sdl_repeat (Suc n) b s) st s'' st2"
  by (auto intro!: does_bind)

lemma does_peek: "does (sdl_peek 0) (at err sc pre (c # r)) c (at err sc pre (c # r))"
  by (simp add: does_def sdl_peek_def sdl_mem_def at_def peek_def)

lemma does_adv: "does (sdl_adv 1) (at err sc pre (c # r)) () (at err sc (pre @ [c]) r)"
  by (simp add: does_def sdl_adv_def sdl_move_def at_def adv_def)

lemma does_char: "does (sdl_char c msg) (at err sc pre (c # r)) () (at err sc (pre @ [c]) r)"
  unfolding sdl_char_def by (rule does_bind [OF does_peek]) (simp add: does_adv del: One_nat_def)

lemma does_more: "does sdl_more (at err sc pre (c # r)) (r \<noteq> []) (at err sc pre (c # r))"
  by (simp add: does_def sdl_more_def at_def)

lemma does_left: "does sdl_left (at err sc pre r) (int (length pre + length r - 1) - int (length pre)) (at err sc pre r)"
  by (simp add: does_def sdl_left_def at_def)

lemma does_cur: "does sdl_cur (at err sc pre r) (length pre) (at err sc pre r)"
  by (simp add: does_def sdl_cur_def at_def)

definition white_char :: "char \<Rightarrow> bool" where
  "white_char c \<longleftrightarrow> char_map ! of_char c = CHR ''w''"

lemma skip_while_span:
  assumes "\<forall>c \<in> set w. P c" "\<not> P c"
  shows "skip_while P \<lparr>dblk = pre @ w @ c # r, dcur = length pre, dend = n\<rparr> =
    Val \<lparr>dblk = pre @ w @ c # r, dcur = length (pre @ w), dend = n\<rparr>"
proof -
  have "takeWhile P (w @ c # r) = w" using assms by (simp add: takeWhile_append2)
  then show ?thesis by (simp add: skip_while_def adv_def)
qed

lemma skip_white_span:
  assumes "\<forall>c \<in> set w. white_char c" "\<not> white_char c" "c \<noteq> CHR ''#''"
  shows "agoo_doc_skip_white \<lparr>dblk = pre @ w @ c # r, dcur = length pre, dend = n\<rparr> =
    Val \<lparr>dblk = pre @ w @ c # r, dcur = length (pre @ w), dend = n\<rparr>"
  using skip_while_span [of w "\<lambda>c. char_map ! of_char c = CHR ''w''" c pre r n] assms
  by (subst agoo_doc_skip_white.simps) (simp add: white_char_def peek_def)

lemma does_white:
  assumes "\<forall>c \<in> set w. white_char c" "\<not> white_char c" "c \<noteq> CHR ''#''"
  shows "does sdl_white (at err sc pre (w @ c # r)) (length w) (at err sc (pre @ w) (c # r))"
  using skip_white_span [OF assms, of pre r]
  by (simp add: does_def sdl_white_def sdl_bind_def sdl_then_def sdl_cur_def sdl_move_def sdl_ret_def at_def add.assoc)

lemmas does_no_white = does_white [of "[]", simplified]

lemma does_next:
  assumes "\<forall>c \<in> set w. white_char c" "\<not> white_char c" "c \<noteq> CHR ''#''"
  shows "does (sdl_move agoo_doc_next_token) (at err sc pre (w @ c # r)) () (at err sc (pre @ w) (c # r))"
  using skip_white_span [OF assms, of pre r]
  by (simp add: does_def sdl_move_def agoo_doc_next_token_def at_def add.assoc)

section \<open>Names\<close>

definition is_name :: "string \<Rightarrow> bool" where
  "is_name w \<longleftrightarrow> w \<noteq> [] \<and> (57 :: nat) < of_char (hd w) \<and> (\<forall>c \<in> set w. token_char c) \<and> length w < 256"

lemma does_token:
  assumes "is_name w" "\<not> token_char c"
  shows "does sdl_token (at err sc pre (w @ c # r)) (w @ c # r, length w) (at err sc (pre @ w) (c # r))"
proof -
  obtain x xs where w: "w = x # xs" "token_char x" "(57 :: nat) < of_char x" "\<forall>c \<in> set xs. token_char c"
    using assms(1) by (cases w) (auto simp: is_name_def)
  have "agoo_doc_read_token \<lparr>dblk = pre @ w @ c # r, dcur = length pre, dend = n\<rparr> =
      Val \<lparr>dblk = pre @ w @ c # r, dcur = length (pre @ w), dend = n\<rparr>" for n
    using skip_while_span [of xs token_char c "pre @ [x]" r n] w assms(2)
    by (simp add: agoo_doc_read_token_def peek_def adv_def)
  then show ?thesis
    by (simp add: does_def sdl_token_def sdl_bind_def sdl_then_def sdl_cur_def sdl_move_def sdl_mem_def at_def str_at_def add.assoc)
qed

lemma does_name:
  assumes "is_name w" "\<not> token_char c"
  shows "does read_name (at err sc pre (w @ c # r)) w (at err sc (pre @ w) (c # r))"
  unfolding read_name_def
  by (rule does_bind [OF does_token [OF assms]]) (use assms(1) in \<open>simp add: is_name_def does_ret\<close>)

definition punctuation :: string where
  "punctuation = ''#@[]{}()!=:|&.$ '' @ [CHR 0x22, CHR 0x0A, NUL]"

lemma punctuation_tokens: "\<forall>c \<in> set punctuation. \<not> token_char c"
  by code_simp

lemma white_space: "white_char CHR '' ''" "white_char CHR 0x0A"
  by code_simp+

lemma token_not_white: "token_char c \<Longrightarrow> \<not> white_char c"
  by (simp add: token_char_def white_char_def)

lemma not_token: "c \<in> set punctuation \<Longrightarrow> \<not> token_char c"
  using punctuation_tokens by blast

lemma token_not_punct: "token_char c \<Longrightarrow> c \<notin> set punctuation"
  using punctuation_tokens by blast

lemma name_start:
  assumes "is_name w"
  shows "\<exists>x xs. w = x # xs \<and> token_char x"
  using assms by (cases w) (auto simp: is_name_def)

lemma name_no_NUL: "is_name w \<Longrightarrow> NUL \<notin> set w"
  using token_not_punct [of NUL] by (auto simp: is_name_def punctuation_def)

lemma name_cons: "is_name w \<Longrightarrow> \<exists>xs. w = hd w # xs \<and> \<not> white_char (hd w) \<and> hd w \<noteq> CHR ''#''"
  using name_start [of w] token_not_white token_not_punct [of "CHR ''#''"] by (fastforce simp: punctuation_def)

text \<open>The same steps as equations, for evaluation by the simplifier.\<close>

lemma run_ret: "sdl_ret x st = Some (Val (Some x, st))"
  by (simp add: sdl_ret_def)

lemma run_then: "sdl_then p q st = sdl_bind p (\<lambda>_. q) st"
  by (simp add: sdl_then_def)

lemma run_bind_does: "does p st x st1 \<Longrightarrow> sdl_bind p f st = f x st1"
  by (simp add: does_def sdl_bind_def)

lemma run_peek: "does (sdl_peek 0) (at err sc pre (w @ r)) (hd w) (at err sc pre (w @ r))" if "is_name w"
  using does_peek [of err sc pre "hd w" "tl w @ r"] that by (cases w) (auto simp: is_name_def)

lemma does_advs: "k \<le> length r \<Longrightarrow> does (sdl_adv k) (at err sc pre r) () (at err sc (pre @ take k r) (drop k r))"
  by (simp add: does_def sdl_adv_def sdl_move_def at_def adv_def)

lemma does_word: "word_at key r = Val b \<Longrightarrow> does (sdl_word key) (at err sc pre r) b (at err sc pre r)"
  by (simp add: does_def sdl_word_def sdl_mem_def at_def str_at_def)

lemma does_no_white_name: "is_name w \<Longrightarrow> does sdl_white (at err sc pre (w @ r)) 0 (at err sc pre (w @ r))"
  using name_cons [of w] does_no_white [of "hd w" err sc pre "tl w @ r"] by (cases w) auto

lemma does_white1: "\<lbrakk>white_char a; \<not> white_char c; c \<noteq> CHR ''#''\<rbrakk> \<Longrightarrow> does sdl_white (at err sc pre (a # c # r)) 1 (at err sc (pre @ [a]) (c # r))"
  using does_white [of "[a]" c err sc pre r] by simp

lemma does_white1_name: "\<lbrakk>white_char a; is_name w\<rbrakk> \<Longrightarrow> does sdl_white (at err sc pre (a # w @ r)) 1 (at err sc (pre @ [a]) (w @ r))"
  using name_cons [of w] does_white1 [of a "hd w" err sc pre "tl w @ r"] by (cases w) auto

lemma hd_name: "is_name w \<Longrightarrow> c \<in> set punctuation \<Longrightarrow> hd w \<noteq> c"
  using name_start [of w] token_not_punct by fastforce

section \<open>Types\<close>

text \<open>A change of the schema that keeps the error record.\<close>

lemma does_reg: "f err sc = Val (x, err', sc') \<Longrightarrow> does (sdl_reg f) (at err sc pre r) x (at err' sc' pre r)"
  by (simp add: does_def sdl_reg_def at_def)

lemma does_type: "s_types sc t = Some ty \<Longrightarrow> does (sdl_type t) (at err sc pre r) ty (at err sc pre r)"
  by (simp add: does_def sdl_type_def sdl_mem_def at_def the_type_def)

lemma does_put: "s_types sc t = Some ty \<Longrightarrow> f ty = Val ty' \<Longrightarrow> does (sdl_put t f) (at err sc pre r) () (at err (put_type t ty' sc) pre r)"
  by (simp add: does_def sdl_put_def at_def the_type_def)

text \<open>What a later schema keeps of an earlier one: the registered names and the structs.\<close>

definition extends :: "schema \<Rightarrow> schema \<Rightarrow> bool" where
  "extends sc' sc \<longleftrightarrow> registry_ok sc' \<and> (\<forall>k v. named sc k = Some v \<longrightarrow> named sc' k = Some v) \<and>
     (\<forall>t ty. s_types sc t = Some ty \<longrightarrow> s_types sc' t = Some ty)"

lemma assure_name:
  assumes "registry_ok sc" "malloc_all mal" "ecode err = AGOO_ERR_OK" "is_name nm" "0 < type_hash nm"
  shows "\<exists>t sc'. gql_assure_type mal err sc (Some nm) = Val (Some t, err, sc') \<and> extends sc' sc \<and> named sc' nm = Some t \<and> tname sc' t = nm"
proof -
  have c: "cstr nm = nm" using name_no_NUL [OF assms(4)] by simp
  show ?thesis
  proof (cases "named sc nm")
    case None
    then have n: "named sc (cstr nm) = None" by (simp add: c)
    from new_type_ok [OF assms(1-3,5) n, of GQL_UNDEF None 0] obtain sc' where
      sc': "new_type mal err sc GQL_UNDEF nm None 0 = Val (Some (s_next sc), err, sc')" "registry_ok sc'"
        "named sc' = (named sc)(nm \<mapsto> s_next sc)" "s_types sc' = (s_types sc)(s_next sc \<mapsto> fresh_type GQL_UNDEF nm (desc_text None 0))"
      by (auto simp: c)
    have "s_types sc (s_next sc) = None" using assms(1) by (force simp: registry_ok_def)
    then show ?thesis using sc' None
      by (auto simp: gql_assure_type_def type_create_def gql_type_get_named [OF assms(1)] c extends_def tname_def fresh_type_def)
  next
    case (Some t)
    have "gql_assure_type mal err sc (Some nm) = Val (Some t, err, sc)"
      by (simp add: gql_assure_type_def gql_type_get_named [OF assms(1)] c Some)
    moreover have "tname sc t = nm" using Some by (simp add: named_iff [OF assms(1)])
    ultimately show ?thesis using assms(1) Some by (intro exI [of _ t] exI [of _ sc]) (simp add: extends_def)
  qed
qed

text \<open>A type that is a name, up to the bar or the end behind it.\<close>

definition stops_name :: "string \<Rightarrow> char \<Rightarrow> bool" where
  "stops_name w c \<longleftrightarrow> w = [] \<and> c = NUL \<or> w = '' '' \<and> c = CHR ''|''"

lemma stops_name_char:
  assumes "stops_name w c"
  shows "\<exists>x xs. w @ c # r = x # xs \<and> \<not> token_char x" "\<forall>c \<in> set w. white_char c" "\<not> white_char c" "c \<noteq> CHR ''#''" "c \<noteq> CHR ''!''"
proof -
  have nt: "\<not> token_char NUL" "\<not> token_char CHR '' ''" "\<not> white_char NUL" "\<not> white_char CHR ''|''" by code_simp+
  show "\<exists>x xs. w @ c # r = x # xs \<and> \<not> token_char x" "\<forall>c \<in> set w. white_char c" "\<not> white_char c" "c \<noteq> CHR ''#''" "c \<noteq> CHR ''!''"
    using assms nt white_space by (auto simp: stops_name_def NUL_def)
qed

lemma read_type_name:
  assumes "registry_ok sc" "malloc_all (sdl_mal e)" "ecode err = AGOO_ERR_OK" "is_name nm" "0 < type_hash nm"
    and w: "w = [] \<or> w = '' ''" and st: "stops_name v c" and n: "0 < n"
  shows "\<exists>t sc'. does (read_type e n) (at err sc pre (w @ nm @ v @ c # r)) t (at err sc' (pre @ w @ nm @ v) (c # r)) \<and>
    extends sc' sc \<and> tname sc' t = nm \<and> s_types sc' t \<noteq> None"
proof -
  from assure_name [OF assms(1-5)] obtain t sc' where
    t: "gql_assure_type (sdl_mal e) err sc (Some nm) = Val (Some t, err, sc')" "extends sc' sc" "named sc' nm = Some t" "tname sc' t = nm" by blast
  obtain m where m: "n = Suc m" using n by (cases n) auto
  obtain x xs where x: "v @ c # r = x # xs" "\<not> token_char x" using stops_name_char(1) [OF st] by blast
  have w0: "does sdl_white (at err sc pre (w @ nm @ x # xs)) (length w) (at err sc (pre @ w) (nm @ x # xs))"
    using w does_no_white_name [OF assms(4)] does_white1_name [OF white_space(1) assms(4)] by auto
  have "nm \<noteq> []" "hd nm \<noteq> CHR ''[''" using assms(4) hd_name [of nm "CHR ''[''"] by (auto simp: is_name_def punctuation_def)
  then have p: "does (sdl_peek 0) (at err sc (pre @ w) (nm @ x # xs)) (hd nm) (at err sc (pre @ w) (nm @ x # xs))"
    using run_peek [OF assms(4)] by blast
  have a: "does (sdl_bind read_name (\<lambda>name. sdl_tid (sdl_reg (\<lambda>err sc. gql_assure_type (sdl_mal e) err sc (Some name)))))
      (at err sc (pre @ w) (nm @ x # xs)) t (at err sc' (pre @ w @ nm) (v @ c # r))"
    using does_reg [where f = "\<lambda>err sc. gql_assure_type (sdl_mal e) err sc (Some nm)", OF t(1), of "pre @ w @ nm" "x # xs"] x(1)
      does_name [OF assms(4) x(2), of err sc "pre @ w" xs]
    by (intro does_bind [OF does_name [OF assms(4) x(2)] does_tid]) simp
  have "does (read_type e n) (at err sc pre (w @ nm @ v @ c # r)) t (at err sc' (pre @ w @ nm @ v) (c # r))"
    unfolding m read_type.simps x(1)
    apply (rule does_then [OF w0])
    apply (rule does_bind [OF p])
    apply (rule does_bind)
     apply (subst if_not_P [OF \<open>hd nm \<noteq> CHR ''[''\<close>])
     apply (rule a)
    apply (rule does_then [OF does_white [OF stops_name_char(2-4) [OF st]]])
    apply (rule does_bind [OF does_peek])
    apply (simp add: stops_name_char(5) [OF st] does_ret)
    done
  then show ?thesis using t(2-4) iterate_ok(1) [of sc' t] named_iff [of sc' nm t] by (auto simp: extends_def)
qed

section \<open>Unions\<close>

text \<open>The schema grows: registered names and the names of types stay.\<close>

definition grows :: "schema \<Rightarrow> schema \<Rightarrow> bool" where
  "grows sc' sc \<longleftrightarrow> registry_ok sc' \<and> (\<forall>k v. named sc k = Some v \<longrightarrow> named sc' k = Some v) \<and>
     (\<forall>t. s_types sc t \<noteq> None \<longrightarrow> s_types sc' t \<noteq> None \<and> tname sc' t = tname sc t)"

lemma grows_trans: "grows sc2 sc1 \<Longrightarrow> grows sc1 sc \<Longrightarrow> grows sc2 sc"
  by (simp add: grows_def)

lemma extends_grows: "extends sc' sc \<Longrightarrow> grows sc' sc"
  by (auto simp: extends_def grows_def tname_def)

lemma put_grows:
  assumes "registry_ok sc" "s_types sc t = Some ty0" "ty_name ty = ty_name ty0"
  shows "grows (put_type t ty sc) sc"
  using registry_put [OF assms] assms(2,3) by (auto simp: grows_def put_type_def tname_def)

fun members_text :: "string list \<Rightarrow> string" where
  "members_text [] = [NUL]"
| "members_text [m] = m @ [NUL]"
| "members_text (m # ms) = m @ '' | '' @ members_text ms"

lemma members_text_split:
  assumes "ms \<noteq> []"
  shows "\<exists>v c r. members_text (m # ms) = m @ v @ c # r \<and> stops_name v c \<and> c = CHR ''|'' \<and> r = '' '' @ members_text ms"
  using assms by (cases ms) (auto simp: stops_name_def)

definition good_name :: "string \<Rightarrow> bool" where
  "good_name m \<longleftrightarrow> is_name m \<and> 0 < type_hash m"

lemma does_next_bar:
  "does next_bar (at err sc pre [NUL]) ((), False) (at err sc pre [NUL])"
  "does next_bar (at err sc pre (CHR ''|'' # r)) ((), True) (at err sc (pre @ ''|'') r)"
proof -
  have w: "\<not> white_char NUL" "\<not> white_char CHR ''|''" by code_simp+
  show "does next_bar (at err sc pre [NUL]) ((), False) (at err sc pre [NUL])"
    unfolding next_bar_def
    by (rule does_then [OF does_no_white [OF w(1)] does_bind [OF does_peek]]) (simp_all add: NUL_def does_ret)
  show "does next_bar (at err sc pre (CHR ''|'' # r)) ((), True) (at err sc (pre @ ''|'') r)"
    unfolding next_bar_def
    by (rule does_then [OF does_no_white [OF w(2)] does_bind [OF does_peek]]) (simp_all add: does_then [OF does_adv does_ret] del: One_nat_def)
qed

lemma union_member_step:
  assumes "registry_ok sc" "malloc_all (sdl_mal e)" "ecode err = AGOO_ERR_OK" "good_name m" "0 < sdl_fuel e"
    and w: "w = [] \<or> w = '' ''" and st: "stops_name v c" and ty: "s_types sc t = Some ty" "ty_body ty = Types ts"
    and bar: "\<And>sc' pre'. does next_bar (at err sc' pre' (c # r)) ((), go) (at err sc' (pre' @ d) r')"
  shows "\<exists>u sc'. does (union_member e t ()) (at err sc pre (w @ m @ v @ c # r)) ((), go) (at err sc' (pre @ w @ m @ v @ d) r') \<and>
    grows sc' sc \<and> s_types sc' t = Some (ty\<lparr>ty_body := Types (ts @ [u])\<rparr>) \<and> tname sc' u = m \<and> s_types sc' u \<noteq> None"
proof -
  have nm: "is_name m" "0 < type_hash m" using assms(4) by (simp_all add: good_name_def)
  from read_type_name [OF assms(1-3) nm w st assms(5), of pre r] obtain u sc1 where
    u: "does (read_type e (sdl_fuel e)) (at err sc pre (w @ m @ v @ c # r)) u (at err sc1 (pre @ w @ m @ v) (c # r))"
      "extends sc1 sc" "tname sc1 u = m" "s_types sc1 u \<noteq> None" by blast
  have t: "s_types sc1 t = Some ty" using u(2) ty(1) by (simp add: extends_def)
  let ?ty = "ty\<lparr>ty_body := Types (ts @ [u])\<rparr>"
  let ?sc = "put_type t ?ty sc1"
  have add: "gql_union_add (sdl_mal e) err sc1 t u = Val (AGOO_ERR_OK, err, ?sc)"
    by (simp add: gql_union_add_def malloc_allD(2) [OF assms(2)] the_type_def t ty(2))
  have g: "grows ?sc sc1" by (rule put_grows [OF _ t]) (use u(2) in \<open>simp_all add: extends_def\<close>)
  have "does (union_member e t ()) (at err sc pre (w @ m @ v @ c # r)) ((), go) (at err ?sc ((pre @ w @ m @ v) @ d) r')"
    unfolding union_member_def
    by (rule does_bind [OF u(1)])
       (rule does_then [OF does_check [OF does_reg [where f = "\<lambda>err sc. gql_union_add (sdl_mal e) err sc t u", OF add]] bar])
  moreover have "grows ?sc sc" using g grows_trans extends_grows [OF u(2)] by blast
  moreover have "tname ?sc u = m" "s_types ?sc u \<noteq> None" using g u(3,4) by (simp_all add: grows_def)
  moreover have "s_types ?sc t = Some ?ty" by (simp add: put_type_def)
  ultimately show ?thesis by (intro exI [of _ u] exI [of _ ?sc]) simp
qed

lemma union_members:
  assumes "registry_ok sc" "malloc_all (sdl_mal e)" "ecode err = AGOO_ERR_OK" "ms \<noteq> []" "\<forall>m \<in> set ms. good_name m"
    and "length ms \<le> n" "0 < sdl_fuel e" "w = [] \<or> w = '' ''" "s_types sc t = Some ty" "ty_body ty = Types ts"
  shows "\<exists>pre' us sc'. does (sdl_while n (union_member e t) ()) (at err sc pre (w @ members_text ms)) () (at err sc' pre' [NUL]) \<and>
    grows sc' sc \<and> s_types sc' t = Some (ty\<lparr>ty_body := Types (ts @ us)\<rparr>) \<and> map (tname sc') us = ms \<and> (\<forall>u \<in> set us. s_types sc' u \<noteq> None)"
  using assms
proof (induction ms arbitrary: sc pre w ty ts n)
  case (Cons m ms)
  obtain k where k: "n = Suc k" using Cons.prems(6) by (cases n) auto
  have good: "good_name m" "m \<noteq> []" using Cons.prems(5) by (auto simp: good_name_def is_name_def)
  let ?body = "\<lambda>s. sdl_bind sdl_more (\<lambda>more. if more then union_member e t s else sdl_ret (s, False))"
  have more: "does (?body ()) (at err sc0 pre0 r0) x st" if d: "does (union_member e t ()) (at err sc0 pre0 r0) x st" and l: "1 < length r0"
    for sc0 pre0 r0 x st
  proof -
    obtain a b rr where "r0 = a # b # rr" using l by (cases r0; cases "tl r0") auto
    then show ?thesis using d by (auto intro!: does_bind [OF does_more])
  qed
  show ?case
  proof (cases "ms = []")
    case True
    have "stops_name [] NUL" by (simp add: stops_name_def)
    from union_member_step [OF Cons.prems(1-3) good(1) Cons.prems(7,8) this Cons.prems(9,10), of "[]" False "[]" "[NUL]" pre]
      does_next_bar(1) obtain u sc' where
      u: "does (union_member e t ()) (at err sc pre (w @ m @ [NUL])) ((), False) (at err sc' (pre @ w @ m) [NUL])"
        "grows sc' sc" "s_types sc' t = Some (ty\<lparr>ty_body := Types (ts @ [u])\<rparr>)" "tname sc' u = m" "s_types sc' u \<noteq> None"
      by auto
    have "does (sdl_while n (union_member e t) ()) (at err sc pre (w @ m @ [NUL])) () (at err sc' (pre @ w @ m) [NUL])"
      unfolding sdl_while_def by (rule does_repeat_end, simp add: k, rule more [OF u(1)]) (use good(2) in \<open>simp add: Suc_le_eq\<close>)
    then show ?thesis using u(2-5) True by (intro exI [of _ "pre @ w @ m"] exI [of _ "[u]"] exI [of _ sc']) simp
  next
    case False
    from members_text_split [OF False, of m] obtain v where
      v: "members_text (m # ms) = m @ v @ CHR ''|'' # '' '' @ members_text ms" "stops_name v CHR ''|''" by blast
    from union_member_step [OF Cons.prems(1-3) good(1) Cons.prems(7,8) v(2) Cons.prems(9,10) does_next_bar(2), of pre "'' '' @ members_text ms"]
    obtain u sc1 where
      u: "does (union_member e t ()) (at err sc pre (w @ members_text (m # ms))) ((), True) (at err sc1 (pre @ w @ m @ v @ ''|'') ('' '' @ members_text ms))"
        "grows sc1 sc" "s_types sc1 t = Some (ty\<lparr>ty_body := Types (ts @ [u])\<rparr>)" "tname sc1 u = m" "s_types sc1 u \<noteq> None"
      by (auto simp: v(1))
    have "registry_ok sc1" using u(2) by (simp add: grows_def)
    from Cons.IH [OF this Cons.prems(2,3) False _ _ Cons.prems(7) _ u(3), of k "'' ''" "ts @ [u]" "pre @ w @ m @ v @ ''|''"]
    obtain pre' us sc' where
      us: "does (sdl_while k (union_member e t) ()) (at err sc1 (pre @ w @ m @ v @ ''|'') ('' '' @ members_text ms)) () (at err sc' pre' [NUL])"
        "grows sc' sc1" "s_types sc' t = Some (ty\<lparr>ty_body := Types (ts @ u # us)\<rparr>)" "map (tname sc') us = ms" "\<forall>u \<in> set us. s_types sc' u \<noteq> None"
      using Cons.prems(5,6) by (auto simp: k)
    have "does (sdl_while n (union_member e t) ()) (at err sc pre (w @ members_text (m # ms))) () (at err sc' pre' [NUL])"
      unfolding sdl_while_def k
      by (rule does_repeat_go, rule more [OF u(1)]) (use us(1) good(2) v(1) in \<open>auto simp: sdl_while_def Suc_le_eq\<close>)
    moreover have "tname sc' u = m" "s_types sc' u \<noteq> None" using us(2) u(4,5) by (auto simp: grows_def)
    ultimately show ?thesis using us(2-5) u(2) grows_trans by (intro exI [of _ pre'] exI [of _ "u # us"] exI [of _ sc']) auto
  qed
qed simp

text \<open>The definition of a union as the printer writes it, and what the parser makes of it.\<close>

fun bars :: "string list \<Rightarrow> string" where
  "bars [] = []"
| "bars [m] = m"
| "bars (m # ms) = m @ '' | '' @ bars ms"

lemma members_bars: "members_text ms = bars ms @ [NUL]"
  by (induction ms rule: members_text.induct) auto

definition union_text :: "string \<Rightarrow> string list \<Rightarrow> string" where
  "union_text u ms = ''union '' @ u @ '' = '' @ bars ms"

lemma key_word_union:
  assumes "is_name u"
  shows "does (extract_name ''union'') (at err sc [] (''union '' @ u @ '' '' @ r)) u (at err sc (''union '' @ u) ('' '' @ r))"
proof -
  have a: "does (sdl_adv (length ''union'')) (at err sc [] (''union '' @ u @ '' '' @ r)) () (at err sc ''union'' ('' '' @ u @ '' '' @ r))"
    using does_advs [of "length ''union''" "''union '' @ u @ '' '' @ r" err sc "[]"] by simp
  have w: "does sdl_white (at err sc ''union'' ('' '' @ u @ '' '' @ r)) 1 (at err sc ''union '' (u @ '' '' @ r))"
    using does_white1_name [OF white_space(1) assms, of err sc "''union''" "'' '' @ r"] by simp
  have k: "does (key_word ''union'') (at err sc [] (''union '' @ u @ '' '' @ r)) () (at err sc ''union '' (u @ '' '' @ r))"
    unfolding key_word_def Let_def
    by (rule does_bind, rule does_word [where b = True], simp, subst if_not_P, simp, rule does_then [OF a], rule does_bind [OF w])
       (simp add: does_ret)
  have "\<not> token_char CHR '' ''" by code_simp
  from does_name [OF assms this, of err sc "''union ''" r] show ?thesis
    unfolding extract_name_def by (intro does_then [OF k]) simp
qed

lemma no_uses:
  assumes "s_types sc t = Some ty" "c \<in> set ''={''"
  shows "does (type_uses e t) (at err sc pre ('' '' @ c # r)) () (at err (put_type t ty sc) (pre @ '' '') (c # r))"
proof -
  have c: "\<not> white_char CHR ''=''" "\<not> white_char CHR ''{''" by code_simp+
  have w: "does sdl_white (at err sc pre ('' '' @ c # r)) 1 (at err sc (pre @ '' '') (c # r))"
    using does_white1 [OF white_space(1), of c err sc pre r] assms(2) c by auto
  have "does (extract_dir_use e (ty_dir ty)) (at err sc pre ('' '' @ c # r)) (ty_dir ty) (at err sc (pre @ '' '') (c # r))"
    unfolding extract_dir_use_def
    by (rule does_then [OF w], rule does_bind [OF does_peek]) (use assms(2) in \<open>auto simp: does_ret\<close>)
  then show ?thesis
    unfolding type_uses_def
    by (intro does_bind [OF does_type [OF assms(1)]] does_bind) (auto intro!: does_put assms(1))
qed

lemma new_union:
  assumes "registry_ok sc" "malloc_all mal" "ecode err = AGOO_ERR_OK" "good_name u" "named sc u = None"
  shows "\<exists>sc'. gql_union_create mal err sc u None 0 = Val (Some (s_next sc), err, sc') \<and> grows sc' sc \<and>
    named sc' u = Some (s_next sc) \<and> s_types sc' (s_next sc) = Some ((fresh_type GQL_UNION u None)\<lparr>ty_body := Types []\<rparr>)"
proof -
  have c: "cstr u = u" using name_no_NUL assms(4) by (simp add: good_name_def)
  have "0 < type_hash u" "named sc (cstr u) = None" using assms(4,5) by (simp_all add: good_name_def c)
  from create_fresh [OF assms(1-3) this, of "Types []" GQL_UNION None 0] obtain sc' where
    sc': "create_with (Types []) (type_create mal err sc GQL_UNION u None 0) = Val (Some (s_next sc), err, sc')" "registry_ok sc'"
      "named sc' = (named sc)(u \<mapsto> s_next sc)" "s_types sc' = (s_types sc)(s_next sc \<mapsto> (fresh_type GQL_UNION u None)\<lparr>ty_body := Types []\<rparr>)"
    by (auto simp: c desc_text_def)
  have "s_types sc (s_next sc) = None" using assms(1) by (force simp: registry_ok_def)
  then have "grows sc' sc" using sc'(2-4) assms(5) by (auto simp: grows_def tname_def)
  then show ?thesis using sc' by (auto simp: gql_union_create_def)
qed

lemma make_union_ok:
  assumes "registry_ok sc" "malloc_all (sdl_mal e)" "ecode err = AGOO_ERR_OK" "good_name u" "named sc u = None"
    and ms: "ms \<noteq> []" "\<forall>m \<in> set ms. good_name m" "length ms \<le> sdl_fuel e"
  shows "\<exists>pre' us sc'. does (make_union e None 0 False) (at err sc [] (union_text u ms @ [NUL])) () (at err sc' pre' [NUL]) \<and>
    grows sc' sc \<and> named sc' u = Some (s_next sc) \<and>
    s_types sc' (s_next sc) = Some ((fresh_type GQL_UNION u None)\<lparr>ty_body := Types us\<rparr>) \<and> map (tname sc') us = ms"
proof -
  let ?t = "s_next sc"
  let ?ty = "(fresh_type GQL_UNION u None)\<lparr>ty_body := Types []\<rparr>"
  let ?p = "''union '' @ u"
  obtain m ms' where m: "ms = m # ms'" using ms(1) by (cases ms) auto
  have nms: "is_name u" "is_name m" using assms(4) ms(2) by (auto simp: good_name_def m)
  obtain mr where mr: "members_text ms = m @ mr" by (cases ms') (auto simp: m)
  from new_union [OF assms(1-5)] obtain sc1 where
    sc1: "gql_union_create (sdl_mal e) err sc u None 0 = Val (Some ?t, err, sc1)" "grows sc1 sc" "named sc1 u = Some ?t" "s_types sc1 ?t = Some ?ty" by blast
  let ?sc2 = "put_type ?t ?ty sc1"
  have g2: "grows ?sc2 sc1" by (rule put_grows [OF _ sc1(4)]) (use sc1(2) in \<open>simp_all add: grows_def\<close>)
  have ok: "registry_ok ?sc2" "s_types ?sc2 ?t = Some ?ty" "ty_body ?ty = Types []" using g2 by (simp_all add: grows_def put_type_def)
  have fuel: "0 < sdl_fuel e" using ms(3) m by auto
  from union_members [OF ok(1) assms(2,3) ms fuel disjI1 [OF refl] ok(2,3), of "((?p @ '' '') @ ''='') @ '' ''"] obtain pre' us sc' where
    us: "does (sdl_while (sdl_fuel e) (union_member e ?t) ()) (at err ?sc2 (((?p @ '' '') @ ''='') @ '' '') (members_text ms)) () (at err sc' pre' [NUL])"
      "grows sc' ?sc2" "s_types sc' ?t = Some (?ty\<lparr>ty_body := Types us\<rparr>)" "map (tname sc') us = ms"
    by auto
  have nw: "\<not> white_char CHR ''=''" by code_simp
  have body: "does (sdl_then (type_uses e ?t) (sdl_then sdl_white (sdl_then (sdl_char CHR ''='' (''Expected '' @ quoted CHR ''=''))
      (sdl_then sdl_white (sdl_while (sdl_fuel e) (union_member e ?t) ())))))
      (at err sc1 ?p ('' '' @ CHR ''='' # '' '' @ members_text ms)) () (at err sc' pre' [NUL])"
  proof (rule does_then, rule no_uses [OF sc1(4)])
    have "does sdl_white (at err ?sc2 ((?p @ '' '') @ ''='') ('' '' @ members_text ms)) 1 (at err ?sc2 (((?p @ '' '') @ ''='') @ '' '') (members_text ms))"
      using does_white1_name [OF white_space(1) nms(2), of err ?sc2 "(?p @ '' '') @ ''=''" mr] by (simp add: mr)
    from does_then [OF this us(1)]
    show "does (sdl_then sdl_white (sdl_then (sdl_char CHR ''='' (''Expected '' @ quoted CHR ''='')) (sdl_then sdl_white
        (sdl_while (sdl_fuel e) (union_member e ?t) ())))) (at err ?sc2 (?p @ '' '') (CHR ''='' # '' '' @ members_text ms)) () (at err sc' pre' [NUL])"
      by (intro does_then [OF does_no_white [OF nw]] does_then [OF does_char]) simp_all
  qed simp
  have "does (make_union e None 0 False) (at err sc [] (''union '' @ u @ '' '' @ ''= '' @ members_text ms)) () (at err sc' pre' [NUL])"
    unfolding make_union_def extended_def
  proof (rule does_bind [OF key_word_union [OF nms(1)]], subst if_not_P, simp, rule does_ptr)
    show "does (sdl_reg (\<lambda>err sc. gql_union_create (sdl_mal e) err sc u None 0)) (at err sc ?p ('' '' @ ''= '' @ members_text ms))
        (Some ?t) (at err sc1 ?p ('' '' @ ''= '' @ members_text ms))"
      by (rule does_reg) (rule sc1(1))
  qed (use does_catch [OF body] in simp)
  moreover have "grows sc' sc" using us(2) g2 sc1(2) grows_trans by blast
  moreover have "named sc' u = Some ?t" using us(2) g2 sc1(3) by (simp add: grows_def)
  ultimately show ?thesis using us(3,4)
    by (intro exI [of _ pre'] exI [of _ us] exI [of _ sc']) (simp add: union_text_def members_bars)
qed

text \<open>The printer.\<close>

lemma writes_type_name:
  assumes "malloc_ok mal" "s_types sc t \<noteq> None" "NUL \<notin> set (tname sc t)"
  shows "writes mal (type_name mal sc t) (tname sc t)"
proof -
  obtain ty where ty: "s_types sc t = Some ty" using assms(2) by auto
  then have "ty_name ty = tname sc t" by (simp add: tname_def)
  then show ?thesis using writes_cstr [OF assms(1), of "ty_name ty"] assms(3) ty
    by (simp add: type_name_def [abs_def] the_type_def)
qed

lemma writes_bars:
  assumes "malloc_ok mal" "\<forall>t \<in> set ts. s_types sc t \<noteq> None \<and> NUL \<notin> set (tname sc t)"
  shows "writes mal (write_sep (append_str mal '' | '') (type_name mal sc) ts) (bars (map (tname sc) ts))"
  using assms(2)
proof (induction ts)
  case Nil
  have "write_sep (append_str mal '' | '') (type_name mal sc) [] = Val" by (rule ext) simp
  then show ?case using writes_nop by simp
next
  case (Cons t ts)
  have t: "writes mal (type_name mal sc t) (tname sc t)" using writes_type_name [OF assms(1)] Cons.prems by simp
  show ?case
  proof (cases ts)
    case Nil
    have "write_sep (append_str mal '' | '') (type_name mal sc) [t] = type_name mal sc t" by (rule ext) simp
    then show ?thesis using t by (simp add: Nil)
  next
    case (Cons u us)
    have b: "writes mal (append_str mal '' | '') '' | ''" by (rule writes_all [OF assms(1)]) simp
    have IH: "writes mal (write_sep (append_str mal '' | '') (type_name mal sc) ts) (bars (map (tname sc) ts))"
      using Cons.IH Cons.prems by simp
    have "write_sep (append_str mal '' | '') (type_name mal sc) (t # ts) =
        (\<lambda>x. mem_bind (type_name mal sc t x) (\<lambda>x. mem_bind (append_str mal '' | '' x) (write_sep (append_str mal '' | '') (type_name mal sc) ts)))"
      by (rule ext) (simp add: Cons)
    then show ?thesis using writes_bind [OF t writes_bind [OF b IH]] by (simp add: Cons)
  qed
qed

lemma mem_bind_assoc: "mem_bind (mem_bind m f) g = mem_bind m (\<lambda>x. mem_bind (f x) g)"
  by (cases m) simp_all

lemma writes_union:
  assumes "malloc_ok mal" "ty_kind ty = GQL_UNION" "ty_dir ty = []" "ty_body ty = Types ts" "NUL \<notin> set (ty_name ty)"
    "\<forall>t \<in> set ts. s_types sc t \<noteq> None \<and> NUL \<notin> set (tname sc t)"
  shows "writes mal (gql_type_sdl fl mal sc False ty) (union_text (ty_name ty) (map (tname sc) ts))"
proof -
  have w: "writes mal (append_str mal ''union '') ''union ''" "writes mal (append_str mal '' = '') '' = ''"
    by (rule writes_all [OF assms(1)], simp)+
  have n: "writes mal (\<lambda>t. agoo_text_append mal t (ty_name ty) (-1)) (ty_name ty)"
    using writes_cstr [OF assms(1), of "ty_name ty"] assms(5) by simp
  have u: "append_dir_use fl mal sc [] = Val" by (rule ext) (simp add: append_dir_use_def)
  have "gql_type_sdl fl mal sc False ty =
      (\<lambda>t. mem_bind (append_str mal ''union '' t) (\<lambda>t. mem_bind (agoo_text_append mal t (ty_name ty) (-1)) (\<lambda>t.
        mem_bind (append_str mal '' = '' t) (write_sep (append_str mal '' | '') (type_name mal sc) ts))))"
    by (rule ext) (simp add: gql_type_sdl_def Let_def assms(2-4) head_sdl_def then_write_def [abs_def] u mem_bind_assoc)
  then show ?thesis
    using writes_bind [OF w(1) writes_bind [OF n writes_bind [OF w(2) writes_bars [OF assms(1,6)]]]] by (simp add: union_text_def)
qed

section \<open>Documents\<close>

text \<open>A document of one definition.\<close>

lemma parse_start:
  assumes "r \<noteq> []" "\<not> white_char (hd r)" "hd r \<noteq> CHR ''#''" "hd r \<noteq> CHR 0xEF" "NUL \<notin> set r"
  shows "agoo_doc_init (r @ [NUL]) 0 = Val \<lparr>dblk = r @ [NUL], dcur = 0, dend = length r\<rparr>"
proof -
  obtain c cs where "r = c # cs" using assms(1) by (cases r) auto
  moreover have "cstr (r @ [NUL]) = r"
    using assms(5) by (induction r) (auto simp: cstr_def)
  ultimately show ?thesis using assms(4) by (auto simp: agoo_doc_init_def peek_def arg_len_def strlen_def)
qed

lemma parse_union:
  assumes "does (make_union e None 0 False) (at err sc [] (union_text u ms @ [NUL])) () (at err sc' pre' [NUL])"
    and "2 \<le> sdl_fuel e" "NUL \<notin> set (union_text u ms)"
  shows "sdl_parse e err sc (union_text u ms @ [NUL]) 0 = Some (Val (Some (), at err sc' pre' [NUL]))"
proof -
  let ?r = "union_text u ms @ [NUL]"
  obtain cs where r: "?r = CHR ''u'' # cs" "cs \<noteq> []" by (simp add: union_text_def)
  have w: "\<not> white_char CHR ''u''" by code_simp
  obtain n where n: "sdl_fuel e = Suc (Suc n)" using assms(2) by (metis Suc_le_D Suc_le_mono numeral_2_eq_2)
  have step: "does (sdl_step e ((None, 0), False)) (at err sc [] ?r) (((None, 0), False), True) (at err sc' pre' [NUL])"
    unfolding sdl_step_def r(1) prod.case
    by (rule does_then [OF does_next [of "[]", simplified, OF w]], simp, rule does_bind [OF does_peek], rule does_bind [OF does_left])
       (use assms(1) r(1) in \<open>auto simp: NUL_def sdl_definition_def intro!: does_then does_ret\<close>)
  have "does (sdl_while (sdl_fuel e) (sdl_step e) ((None, 0), False)) (at err sc [] ?r) ((None, 0), False) (at err sc' pre' [NUL])"
    unfolding sdl_while_def n
  proof (rule does_repeat_go)
    show "does (sdl_bind sdl_more (\<lambda>m. if m then sdl_step e ((None, 0), False) else sdl_ret (((None, 0), False), False))) (at err sc [] ?r)
        (((None, 0), False), True) (at err sc' pre' [NUL])"
      unfolding r(1) by (rule does_bind, rule does_more) (use step r in simp)
    show "does (sdl_repeat (Suc n) (\<lambda>s. sdl_bind sdl_more (\<lambda>m. if m then sdl_step e s else sdl_ret (s, False))) ((None, 0), False))
        (at err sc' pre' [NUL]) ((None, 0), False) (at err sc' pre' [NUL])"
      by (rule does_repeat_end) (auto intro!: does_bind [OF does_more] does_ret)
  qed
  from does_then [OF this does_ret]
  have "sdl_then (sdl_while (sdl_fuel e) (sdl_step e) ((None, 0), False)) (sdl_ret ()) (at err sc [] ?r) = Some (Val (Some (), at err sc' pre' [NUL]))"
    by (simp add: does_def)
  moreover have "agoo_doc_init ?r 0 = Val \<lparr>dblk = ?r, dcur = 0, dend = length (union_text u ms)\<rparr>"
    by (rule parse_start) (use assms(3) w in \<open>simp_all add: union_text_def\<close>)
  ultimately show ?thesis by (simp add: sdl_parse_def at_def)
qed


definition sdl_env0 :: sdl_env where
  "sdl_env0 = \<lparr>sdl_doubles = no_doubles, sdl_mal = mal0, sdl_fuel = 10\<rparr>"

lemma demo_names: "good_name ''User''" "good_name ''Any''"
  by code_simp+


section \<open>A root type without the operation\<close>

definition crashes :: "'a sdl \<Rightarrow> sdl_state \<Rightarrow> bool" where
  "crashes p st \<longleftrightarrow> p st = Some UB"

lemma crash_first: "crashes p st \<Longrightarrow> crashes (sdl_bind p f) st" "crashes p st \<Longrightarrow> crashes (sdl_then p q) st"
  by (simp_all add: crashes_def sdl_bind_def sdl_then_def)

lemma crash_bind: "does p st x st1 \<Longrightarrow> crashes (f x) st1 \<Longrightarrow> crashes (sdl_bind p f) st"
  by (simp add: crashes_def does_def sdl_bind_def)

lemma crash_then: "does p st x st1 \<Longrightarrow> crashes q st1 \<Longrightarrow> crashes (sdl_then p q) st"
  by (simp add: crash_bind sdl_then_def)

lemma does_while_go:
  "\<lbrakk>does (b s) (at err sc pre (c # r)) (s', True) st1; r \<noteq> []; does (sdl_while n b s') st1 s'' st2\<rbrakk> \<Longrightarrow>
   does (sdl_while (Suc n) b s) (at err sc pre (c # r)) s'' st2"
  unfolding sdl_while_def by (rule does_repeat_go, rule does_bind, rule does_more) simp_all

lemma does_while_end:
  "\<lbrakk>does (b s) (at err sc pre (c # r)) (s', False) st1; r \<noteq> []\<rbrakk> \<Longrightarrow> does (sdl_while (Suc n) b s) (at err sc pre (c # r)) s' st1"
  unfolding sdl_while_def by (rule does_repeat_end, simp, rule does_bind, rule does_more) simp_all

lemma does_no_uses:
  assumes "c \<in> set ''{}''"
  shows "does (extract_dir_use e us) (at err sc pre (c # r)) us (at err sc pre (c # r))"
proof -
  have c: "\<not> white_char CHR ''{''" "\<not> white_char CHR ''}''" by code_simp+
  have w: "does sdl_white (at err sc pre (c # r)) 0 (at err sc pre (c # r))"
    by (rule does_no_white) (use assms c in auto)
  show ?thesis
    unfolding extract_dir_use_def
    by (rule does_then [OF w], rule does_bind [OF does_peek]) (use assms in \<open>auto simp: does_ret\<close>)
qed

definition plain_sel :: "string \<Rightarrow> gql_sel" where
  "plain_sel f = Sel None (Some f) None [] [] [] None None"

lemma does_sel_create:
  assumes "malloc_all (sdl_mal e)" "is_name f"
  shows "does (sel_create e None (Some f) None) st (Some (plain_sel f)) st"
proof -
  have "cstr f = f" using name_no_NUL [OF assms(2)] by simp
  then show ?thesis
    by (simp add: sel_create_def sdl_opt_def sdl_strdup_def strdup_all [OF assms(1)] malloc_allD(2) [OF assms(1)] does_def sdl_bind_def
        sdl_ret_def plain_sel_def)
qed

lemma brace: "\<not> white_char CHR ''}''" "\<not> token_char CHR ''}''" "\<not> white_char CHR ''{''" "\<not> token_char CHR '' ''"
  by code_simp+

lemma make_sel_plain:
  assumes "malloc_all (sdl_mal e)" "is_name f"
  shows "does (make_sel e gv ov (Suc n) False) (at err sc pre (f @ CHR ''}'' # r)) (Some (plain_sel f)) (at err sc (pre @ f) (CHR ''}'' # r))"
proof -
  have hd: "hd f \<noteq> CHR ''.''" using hd_name [OF assms(2)] by (simp add: punctuation_def)
  have dots: "does sdl_dots (at err sc pre (f @ CHR ''}'' # r)) False (at err sc pre (f @ CHR ''}'' # r))"
    unfolding sdl_dots_def by (rule does_bind [OF run_peek [OF assms(2)]]) (use hd in \<open>simp add: does_ret\<close>)
  have head: "does (sel_field e) (at err sc pre (f @ CHR ''}'' # r)) (Some (plain_sel f)) (at err sc (pre @ f) (CHR ''}'' # r))"
    unfolding sel_field_def
    by (rule does_bind [OF does_name [OF assms(2) brace(2)]], rule does_then [OF does_no_white [OF brace(1)]], simp, rule does_bind [OF does_peek])
       (use does_sel_create [OF assms] in simp)
  have rest: "does (sel_rest e gv ov p (plain_sel f)) (at err sc (pre @ f) (CHR ''}'' # r)) (plain_sel f) (at err sc (pre @ f) (CHR ''}'' # r))" for p
    unfolding sel_rest_def plain_sel_def gql_sel.case
    by (rule does_bind [OF does_peek], rule does_bind, simp, rule does_ret, rule does_bind [OF does_no_uses], simp,
        rule does_bind [OF does_peek], rule does_bind, simp, rule does_ret, rule does_ret)
  show ?thesis
    unfolding make_sel.simps
    by (subst if_not_P, simp, rule does_then [OF does_no_white_name [OF assms(2)]], rule does_bind [OF dots], rule does_bind, simp, rule head,
        simp, rule does_bind [OF rest does_ret])
qed

lemma plain_block:
  assumes "malloc_all (sdl_mal e)" "is_name f" "2 \<le> sdl_fuel e"
  shows "does (sel_block e (make_sel e gv ov (sdl_fuel e) False)) (at err sc pre (CHR ''{'' # f @ ''}'' @ [NUL])) [plain_sel f]
    (at err sc (pre @ ''{'' @ f @ ''}'') [NUL])"
proof -
  obtain n where n: "sdl_fuel e = Suc (Suc n)" using assms(3) by (metis Suc_le_D Suc_le_mono numeral_2_eq_2)
  let ?p = "make_sel e gv ov (sdl_fuel e) False"
  let ?body = "\<lambda>ss. sdl_then sdl_white (sdl_bind (sdl_peek 0) (\<lambda>c.
      if c = CHR ''}'' then sdl_then (sdl_adv 1) (sdl_ret (ss, False))
      else sdl_bind ?p (\<lambda>s. sdl_ret (case s of None \<Rightarrow> ss | Some s \<Rightarrow> ss @ [s], True))))"
  let ?pre = "pre @ ''{''"
  have f: "f \<noteq> []" "hd f \<noteq> CHR ''}''" using assms(2) hd_name [OF assms(2), of "CHR ''}''"] by (simp_all add: is_name_def punctuation_def)
  then obtain a as where a: "f @ ''}'' @ [NUL] = a # as" "as \<noteq> []" by (cases f) auto
  have one: "does (?body []) (at err sc ?pre (f @ ''}'' @ [NUL])) ([plain_sel f], True) (at err sc (?pre @ f) (''}'' @ [NUL]))"
    using make_sel_plain [OF assms(1,2), of gv ov "Suc n" err sc ?pre "[NUL]"]
    by (intro does_then [OF does_no_white_name [OF assms(2)]] does_bind [OF run_peek [OF assms(2)]])
       (use f(2) in \<open>auto simp: n intro!: does_bind does_ret\<close>)
  have two: "does (?body ss) (at err sc (?pre @ f) (''}'' @ [NUL])) (ss, False) (at err sc (?pre @ f @ ''}'') [NUL])" for ss
  proof -
    have "does (sdl_then (sdl_adv 1) (sdl_ret (ss, False))) (at err sc (?pre @ f) (CHR ''}'' # [NUL])) (ss, False) (at err sc ((?pre @ f) @ ''}'') [NUL])"
      by (rule does_then [OF does_adv does_ret])
    then have a: "does (sdl_then (sdl_adv 1) (sdl_ret (ss, False))) (at err sc (?pre @ f) (CHR ''}'' # [NUL])) (ss, False) (at err sc (?pre @ f @ ''}'') [NUL])"
      by simp
    have "does (?body ss) (at err sc (?pre @ f) (CHR ''}'' # [NUL])) (ss, False) (at err sc (?pre @ f @ ''}'') [NUL])"
      by (rule does_then [OF does_no_white [OF brace(1)]], simp, rule does_bind [OF does_peek], subst if_P, simp, rule a)
    then show ?thesis by simp
  qed
  have loop: "does (sdl_while (sdl_fuel e) ?body []) (at err sc ?pre (f @ ''}'' @ [NUL])) [plain_sel f] (at err sc (?pre @ f @ ''}'') [NUL])"
  proof -
    have e1: "does (sdl_while (Suc n) ?body [plain_sel f]) (at err sc (?pre @ f) (CHR ''}'' # [NUL])) [plain_sel f] (at err sc (?pre @ f @ ''}'') [NUL])"
      by (rule does_while_end) (use two in simp_all)
    have o1: "does (?body []) (at err sc ?pre (a # as)) ([plain_sel f], True) (at err sc (?pre @ f) (CHR ''}'' # [NUL]))"
      using one unfolding a(1) by simp
    have "does (sdl_while (Suc (Suc n)) ?body []) (at err sc ?pre (a # as)) [plain_sel f] (at err sc (?pre @ f @ ''}'') [NUL])"
      by (rule does_while_go, rule o1, rule a(2), rule e1)
    then show ?thesis unfolding a(1) by (simp only: n)
  qed
  have fin: "does end_brace (at err sc (?pre @ f @ ''}'') [NUL]) () (at err sc (?pre @ f @ ''}'') [NUL])"
    unfolding end_brace_def
    by (rule does_bind [OF does_more])
       (simp add: does_def sdl_bind_def sdl_mem_def at_def peek_def nth_append sdl_ret_def)
  have "does (sel_block e ?p) (at err sc pre (CHR ''{'' # f @ ''}'' @ [NUL])) [plain_sel f] (at err sc (?pre @ f @ ''}'') [NUL])"
    unfolding sel_block_def
    by (rule does_then [OF does_adv], rule does_bind [OF loop], rule does_then [OF fin does_ret])
  then show ?thesis by simp
qed

text \<open>The steps of an operation up to the look at its root type.\<close>

lemma op_head_mutation:
  "does (op_head kind) (at err sc [] (''mutation'' @ CHR '' '' # r)) (GQL_MUTATION, ''mutation'') (at err sc ''mutation'' (CHR '' '' # r))"
proof -
  have m: "is_name ''mutation''" by code_simp
  show ?thesis
    unfolding op_head_def
    using does_token [OF m brace(4), of err sc "[]" r]
    by (intro does_then [OF does_no_white_name [OF m]] does_bind) (auto simp: Let_def does_ret)
qed

lemma op_name_plain:
  assumes "is_name nm"
  shows "does op_name_of (at err sc pre (CHR '' '' # nm @ CHR '' '' # r)) nm (at err sc (pre @ '' '' @ nm) (CHR '' '' # r))"
proof -
  have "does op_name_of (at err sc pre (CHR '' '' # nm @ CHR '' '' # r)) nm (at err sc ((pre @ '' '') @ nm) (CHR '' '' # r))"
    unfolding op_name_of_def
    by (rule does_then [OF does_white1_name [OF white_space(1) assms]], rule does_bind [OF does_token [OF assms brace(4)]])
       (use assms in \<open>simp add: is_name_def does_ret\<close>)
  then show ?thesis by simp
qed

lemma no_variables: "does (op_variables e) (at err sc pre (CHR '' '' # CHR ''{'' # r)) [] (at err sc (pre @ '' '') (CHR ''{'' # r))"
  unfolding op_variables_def
  by (rule does_then [OF does_white1 [OF white_space(1) brace(3)]], simp, rule does_bind [OF does_peek]) (simp add: does_ret)

lemma does_new_op:
  assumes "malloc_all (sdl_mal e)" "is_name nm"
  shows "does (sdl_reg (\<lambda>err sc. mem_bind (gql_op_create (sdl_mal e) err (Some nm) kind) (\<lambda>(op, err). Val (op, err, sc)))) (at err sc pre r)
    (Some \<lparr>op_name = Some nm, op_vars = [], op_dir = [], op_sels = [], op_kind = kind\<rparr>) (at err sc pre r)"
proof -
  have "cstr nm = nm" "nm \<noteq> []" using name_no_NUL [OF assms(2)] assms(2) by (simp_all add: is_name_def)
  then have "gql_op_create (sdl_mal e) err (Some nm) kind =
      Val (Some \<lparr>op_name = Some nm, op_vars = [], op_dir = [], op_sels = [], op_kind = kind\<rparr>, err)"
    by (simp add: gql_op_create_def Let_def strdup_all [OF assms(1)] malloc_allD(2) [OF assms(1)])
  then show ?thesis by (intro does_reg) simp
qed

lemma wrap_crash:
  assumes "nm \<noteq> []" "root = None \<or> field_type_of sc root (Some k) False = Val None"
  shows "crashes (wrap_sels e root k nm ss) (at err sc pre r)"
proof -
  have n: "field_type_of sc None f q = UB" for f q by (simp add: field_type_of_def)
  have "mem_bind (field_type_of sc root (Some k) False) (\<lambda>t. mem_bind (field_type_of sc t (Some nm) False) (g t)) = UB" for g :: "tid option \<Rightarrow> tid option \<Rightarrow> bool mem"
    using assms(2) by (auto simp: n)
  then show ?thesis
    unfolding wrap_sels_def by (subst if_not_P [OF assms(1)]) (auto simp: crashes_def sdl_bind_def sdl_mem_def at_def)
qed

lemma make_op_crash:
  assumes "is_name nm" "is_name f" "malloc_all (sdl_mal e)" "2 \<le> sdl_fuel e"
    "root = None \<or> field_type_of sc root (Some ''mutation'') False = Val None"
  shows "crashes (make_op e root gv kind) (at err sc [] (''mutation'' @ CHR '' '' # nm @ CHR '' '' # CHR ''{'' # f @ ''}'' @ [NUL]))"
proof -
  have nm: "nm \<noteq> []" using assms(1) by (simp add: is_name_def)
  show ?thesis
    unfolding make_op_def
    by (rule crash_bind [OF op_head_mutation], simp, rule crash_bind [OF op_name_plain [OF assms(1)]], rule crash_bind [OF does_new_op [OF assms(3,1)]], simp,
        rule crash_bind [OF no_variables], rule crash_bind [OF does_no_uses], simp, rule crash_bind [OF does_peek], simp,
        rule crash_bind [OF plain_block [OF assms(3,2,4), simplified]], rule crash_first(1) [OF wrap_crash [OF nm assms(5)]])
qed

text \<open>
  C40. A named operation is fatal where no schema is set, or its root type is not a field of the schema:
  the type that is not there is asked for the field with the name of the operation. (Shown for
  mutations with one field.)
\<close>

theorem named_op_null:
  assumes "is_name nm" "is_name f" "malloc_all (sdl_mal e)" "2 \<le> sdl_fuel e"
    "root = None \<or> field_type_of sc root (Some ''mutation'') False = Val None"
  shows "sdl_parse_doc e root err sc (''mutation '' @ nm @ '' {'' @ f @ ''}'' @ [NUL]) 0 vars kind = Some UB"
proof -
  let ?r = "''mutation'' @ CHR '' '' # nm @ CHR '' '' # CHR ''{'' # f @ ''}''"
  have w: "\<not> white_char CHR ''m''" by code_simp
  have "NUL \<notin> set ?r" using name_no_NUL assms(1,2) by (auto simp: NUL_def)
  then have init: "agoo_doc_init (?r @ [NUL]) 0 = Val \<lparr>dblk = ?r @ [NUL], dcur = 0, dend = length ?r\<rparr>"
    by (intro parse_start) (use w in simp_all)
  obtain n where n: "sdl_fuel e = Suc n" using assms(4) by (cases "sdl_fuel e") auto
  obtain c cs where c: "?r @ [NUL] = CHR ''m'' # c # cs" by simp
  have "crashes (doc_step e root kind doc) (at err sc [] (?r @ [NUL]))" for doc
    unfolding doc_step_def c
    by (rule crash_then [OF does_next [of "[]", simplified, OF w]], simp, rule crash_bind [OF does_more], simp, rule crash_bind [OF does_peek], simp,
        rule crash_first(1)) (use make_op_crash [OF assms] c in simp)
  then have "crashes (sdl_while (sdl_fuel e) (doc_step e root kind) doc) (at err sc [] (?r @ [NUL]))" for doc
    unfolding sdl_while_def n sdl_repeat.simps c
    by (intro crash_first(1) crash_bind [OF does_more]) simp
  then have "crashes (sdl_bind (sdl_some (sdl_reg (\<lambda>err sc. mem_bind (gql_doc_create (sdl_mal e) err) (\<lambda>(doc, err). Val (doc, err, sc))))) (\<lambda>doc.
      sdl_bind (sdl_while (sdl_fuel e) (doc_step e root kind) (doc\<lparr>doc_vars := vars\<rparr>)) g)) (at err sc [] (?r @ [NUL]))" for g
    by (intro crash_bind [OF does_some [OF does_reg]] crash_first(1)) (auto simp: gql_doc_create_def malloc_allD(2) [OF assms(3)])
  then show ?thesis using init by (simp add: sdl_parse_doc_def crashes_def at_def)
qed

lemma named_op_null_witness:
  "sdl_parse_doc sdl_env0 None err0 schema0 (''mutation '' @ ''m'' @ '' {'' @ ''f'' @ ''}'' @ [NUL]) 0 [] GQL_QUERY = Some UB"
proof -
  have n: "is_name ''m''" "is_name ''f''" by code_simp+
  show ?thesis by (rule named_op_null [OF n]) (simp_all add: sdl_env0_def malloc_all_mal0)
qed

end
